(* ===== verification/Prelude.thy ===== *)
theory Prelude
  imports Main "HOL-Library.Finite_Map" "HOL-Library.Sublist"
begin

text \<open>
  Shared vocabulary of the development: the Go values every component uses (errors and
  formatted text, 64-bit integers, byte strings), the parts of the Go packages
  \<^verbatim>\<open>strings\<close> and \<^verbatim>\<open>strconv\<close> that the sources call, and the
  generic lemmas about lists, maps and finite maps that the component theories share.

  A Go string and a Go byte slice are both a list of bytes here, and a byte is a \<open>char\<close>;
  so \<open>string\<close> is the type of both and \<open>length\<close> is Go's \<open>len\<close>.
\<close>

section \<open>Collections of rewrite rules\<close>

named_theorems go_simps \<open>characteristic equations of the Go library functions\<close>
named_theorems os_simps \<open>lookup and frame equations of the operating-system model\<close>
named_theorems guard_simps \<open>lookup equations of the connection guard\<close>

section \<open>Go error values and formatted text\<close>

text \<open>
  The sources build every error and every log line with a format string and its arguments.
  \<open>Sprintf f args\<close> is that text, kept as the literal format and the argument values, so two
  texts are equal when the code formats the same values with the same format.
\<close>

datatype oserr = ENOENT | ENOTDIR | EISDIR | EEXIST | ENOTEMPTY | EACCES | ENOSPC | EIO | EOF

datatype gotext = Sprintf string "goarg list"
  and goarg = GStr string | GInt int | GBool bool | GErr gotext | GOs oserr

abbreviation lit :: "string \<Rightarrow> gotext" where
  "lit s \<equiv> Sprintf s []"

abbreviation no_text :: gotext where
  "no_text \<equiv> Sprintf '''' []"

type_synonym goerr = gotext
type_synonym 'a result = "goerr + 'a"

section \<open>Machine integers\<close>

text \<open>
  Go's \<^verbatim>\<open>int64\<close> (and \<^verbatim>\<open>int\<close> on the 64-bit targets) as an
  \<open>int\<close> in range, with the wrap-around of addition written out.
\<close>

definition int64_ok :: "int \<Rightarrow> bool" where
  "int64_ok x \<longleftrightarrow> - (2 ^ 63) \<le> x \<and> x < 2 ^ 63"

definition wrap64 :: "int \<Rightarrow> int" where
  "wrap64 x = (x + 2 ^ 63) mod 2 ^ 64 - 2 ^ 63"

definition add64 :: "int \<Rightarrow> int \<Rightarrow> int" where
  "add64 a b = wrap64 (a + b)"

lemma wrap64_id [simp]: "int64_ok x \<Longrightarrow> wrap64 x = x"
  by (simp add: wrap64_def int64_ok_def)

lemma int64_ok_wrap64 [simp]: "int64_ok (wrap64 x)"
proof -
  have "0 \<le> (x + 2 ^ 63) mod 2 ^ 64" "(x + 2 ^ 63) mod 2 ^ 64 < (2 ^ 64 :: int)"
    by simp_all
  then show ?thesis by (simp add: wrap64_def int64_ok_def)
qed

lemma add64_id: "int64_ok (a + b) \<Longrightarrow> add64 a b = a + b"
  by (simp add: add64_def)

lemma add64_nonneg_id: "0 \<le> a \<Longrightarrow> 0 \<le> b \<Longrightarrow> a + b < 2 ^ 63 \<Longrightarrow> add64 a b = a + b"
  by (rule add64_id) (simp add: int64_ok_def)

text \<open>
  The overflow of two non-negative operands shows as a negative sum: the fact the guards of
  the sources rely on when they compare \<open>offset + len\<close> with a non-negative total.
\<close>

lemma add64_overflow:
  assumes "0 \<le> a" "a < 2 ^ 63" "0 \<le> b" "b < 2 ^ 63" "2 ^ 63 \<le> a + b"
  shows "add64 a b = a + b - 2 ^ 64" "add64 a b < 0"
proof -
  have "add64 a b = (a + b - 2 ^ 63) mod 2 ^ 64 - 2 ^ 63"
  proof -
    have "(a + b + 2 ^ 63) mod 2 ^ 64 = (a + b - 2 ^ 63 + 2 ^ 64) mod (2 ^ 64 :: int)"
      by (rule arg_cong [where f = "\<lambda>z. z mod 2 ^ 64"]) simp
    also have "\<dots> = (a + b - 2 ^ 63) mod 2 ^ 64" by (simp only: mod_add_self2)
    finally show ?thesis by (simp add: add64_def wrap64_def)
  qed
  also have "(a + b - 2 ^ 63) mod 2 ^ 64 = a + b - 2 ^ 63"
    using assms by (intro mod_pos_pos_trivial) simp_all
  finally show *: "add64 a b = a + b - 2 ^ 64" by simp
  show "add64 a b < 0" unfolding * using assms(2,4) by simp
qed

section \<open>Package strings\<close>

definition HasPrefix :: "string \<Rightarrow> string \<Rightarrow> bool" where
  "HasPrefix s p \<longleftrightarrow> take (length p) s = p"

definition HasSuffix :: "string \<Rightarrow> string \<Rightarrow> bool" where
  "HasSuffix s p \<longleftrightarrow> length p \<le> length s \<and> drop (length s - length p) s = p"

definition TrimPrefix :: "string \<Rightarrow> string \<Rightarrow> string" where
  "TrimPrefix s p = (if HasPrefix s p then drop (length p) s else s)"

definition TrimSuffix :: "string \<Rightarrow> string \<Rightarrow> string" where
  "TrimSuffix s p = (if HasSuffix s p then take (length s - length p) s else s)"

fun Contains :: "string \<Rightarrow> string \<Rightarrow> bool" where
  "Contains [] sub = (sub = [])"
| "Contains (c # cs) sub = (HasPrefix (c # cs) sub \<or> Contains cs sub)"

definition ContainsAny :: "string \<Rightarrow> string \<Rightarrow> bool" where
  "ContainsAny s chars \<longleftrightarrow> list_ex (\<lambda>c. c \<in> set chars) s"

text \<open>\<open>FieldsFunc\<close>: maximal runs of characters that are not separators.\<close>

fun fields_acc :: "(char \<Rightarrow> bool) \<Rightarrow> string \<Rightarrow> string \<Rightarrow> string list" where
  "fields_acc sep cur [] = (if cur = [] then [] else [rev cur])"
| "fields_acc sep cur (c # cs) =
     (if sep c then (if cur = [] then [] else [rev cur]) @ fields_acc sep [] cs
      else fields_acc sep (c # cur) cs)"

definition FieldsFunc :: "string \<Rightarrow> (char \<Rightarrow> bool) \<Rightarrow> string list" where
  "FieldsFunc s sep = fields_acc sep [] s"

text \<open>\<open>Split\<close> on a one-character separator, empty fields kept.\<close>

fun split_acc :: "char \<Rightarrow> string \<Rightarrow> string \<Rightarrow> string list" where
  "split_acc sep cur [] = [rev cur]"
| "split_acc sep cur (c # cs) =
     (if c = sep then rev cur # split_acc sep [] cs else split_acc sep (c # cur) cs)"

definition SplitChar :: "string \<Rightarrow> char \<Rightarrow> string list" where
  "SplitChar s sep = split_acc sep [] s"

fun Join :: "string list \<Rightarrow> string \<Rightarrow> string" where
  "Join [] sep = []"
| "Join [x] sep = x"
| "Join (x # xs) sep = x @ sep @ Join xs sep"

text \<open>
  \<open>TrimSpace\<close> removes Unicode white space. Each space character is its UTF-8 bytes; no one of
  these byte sequences is a prefix or a suffix of another, so stripping them one at a time at
  either end is what decoding the first or the last rune does.
\<close>

definition space_bytes :: "string list" where
  "space_bytes =
     [[CHR 0x09], [CHR 0x0A], [CHR 0x0B], [CHR 0x0C], [CHR 0x0D], [CHR 0x20],
      [CHR 0xC2, CHR 0x85], [CHR 0xC2, CHR 0xA0], [CHR 0xE1, CHR 0x9A, CHR 0x80],
      [CHR 0xE2, CHR 0x80, CHR 0x80], [CHR 0xE2, CHR 0x80, CHR 0x81],
      [CHR 0xE2, CHR 0x80, CHR 0x82], [CHR 0xE2, CHR 0x80, CHR 0x83],
      [CHR 0xE2, CHR 0x80, CHR 0x84], [CHR 0xE2, CHR 0x80, CHR 0x85],
      [CHR 0xE2, CHR 0x80, CHR 0x86], [CHR 0xE2, CHR 0x80, CHR 0x87],
      [CHR 0xE2, CHR 0x80, CHR 0x88], [CHR 0xE2, CHR 0x80, CHR 0x89],
      [CHR 0xE2, CHR 0x80, CHR 0x8A], [CHR 0xE2, CHR 0x80, CHR 0xA8],
      [CHR 0xE2, CHR 0x80, CHR 0xA9], [CHR 0xE2, CHR 0x80, CHR 0xAF],
      [CHR 0xE2, CHR 0x81, CHR 0x9F], [CHR 0xE3, CHR 0x80, CHR 0x80]]"

fun strip_left :: "string list \<Rightarrow> nat \<Rightarrow> string \<Rightarrow> string" where
  "strip_left ws 0 s = s"
| "strip_left ws (Suc n) s =
     (case find (\<lambda>w. HasPrefix s w) ws of None \<Rightarrow> s
      | Some w \<Rightarrow> strip_left ws n (drop (length w) s))"

definition TrimSpace :: "string \<Rightarrow> string" where
  "TrimSpace s =
     (let l = strip_left space_bytes (length s) s
      in rev (strip_left (map rev space_bytes) (length l) (rev l)))"

text \<open>
  \<open>EqualFold\<close> compares under case folding. One operand is a lower-case hexadecimal digest at
  every call, and no character outside ASCII folds to a hexadecimal digit, so folding the
  ASCII letters decides the same strings.
\<close>

definition lower_char :: "char \<Rightarrow> char" where
  "lower_char c = (let n = (of_char c :: nat) in if 65 \<le> n \<and> n \<le> 90 then char_of (n + 32) else c)"

definition ToLower :: "string \<Rightarrow> string" where
  "ToLower s = map lower_char s"

definition EqualFold :: "string \<Rightarrow> string \<Rightarrow> bool" where
  "EqualFold a b \<longleftrightarrow> ToLower a = ToLower b"

lemma EqualFold_refl [simp]: "EqualFold a a"
  by (simp add: EqualFold_def)

lemma EqualFold_length: "EqualFold a b \<Longrightarrow> length a = length b"
  unfolding EqualFold_def ToLower_def by (metis length_map)

subsection \<open>Facts about these functions\<close>

lemma ContainsAny_iff [go_simps]: "ContainsAny s chars \<longleftrightarrow> (\<exists>c \<in> set s. c \<in> set chars)"
  by (auto simp: ContainsAny_def list_ex_iff)

lemma HasPrefix_iff [go_simps]: "HasPrefix s p \<longleftrightarrow> prefix p s"
  unfolding HasPrefix_def
  by (metis append_eq_conv_conj prefix_def)

lemma Contains_iff [go_simps]: "Contains s sub \<longleftrightarrow> sublist sub s"
  by (induction s) (auto simp: HasPrefix_iff sublist_Cons_right)

lemma strip_left_id: "(\<And>w. w \<in> set ws \<Longrightarrow> \<not> HasPrefix s w) \<Longrightarrow> strip_left ws n s = s"
  by (cases n) (auto simp: find_Some_iff split: option.splits)

end
