(* ===== verification/GoLib.thy ===== *)
theory GoLib
  imports Prelude
begin

text \<open>
  The parts of \<^verbatim>\<open>strconv\<close> (decimal integers) and \<^verbatim>\<open>path/filepath\<close>
  (lexical path processing, Unix build) that the sources call, with the facts the components
  use: the decimal round trip, and the normal form of the absolute paths that
  \<^verbatim>\<open>filepath.Clean\<close> returns when no element is \<^verbatim>\<open>..\<close>.
\<close>

section \<open>Decimal integers\<close>

fun digits10 :: "nat \<Rightarrow> string" where
  "digits10 n = (if n < 10 then [char_of (48 + n)] else digits10 (n div 10) @ [char_of (48 + n mod 10)])"

declare digits10.simps [simp del]

definition FormatInt :: "int \<Rightarrow> string" where
  "FormatInt i = (if i < 0 then CHR ''-'' # digits10 (nat (- i)) else digits10 (nat i))"

definition is_digit :: "char \<Rightarrow> bool" where
  "is_digit c \<longleftrightarrow> 48 \<le> (of_char c :: nat) \<and> (of_char c :: nat) \<le> 57"

fun parse_digits :: "nat \<Rightarrow> string \<Rightarrow> nat option" where
  "parse_digits acc [] = Some acc"
| "parse_digits acc (c # cs) =
     (if is_digit c then parse_digits (acc * 10 + (of_char c - 48)) cs else None)"

abbreviation err_syntax :: goerr where "err_syntax \<equiv> lit ''invalid syntax''"
abbreviation err_range :: goerr where "err_range \<equiv> lit ''value out of range''"

text \<open>
  \<^verbatim>\<open>strconv.ParseInt(s, 10, 64)\<close>: an optional sign, then decimal digits. Out of
  range, the nearest representable value comes with the error.
\<close>

definition ParseInt :: "string \<Rightarrow> int \<times> goerr option" where
  "ParseInt s =
     (let neg = (case s of [] \<Rightarrow> False | c # _ \<Rightarrow> c = CHR ''-'');
          body = (case s of [] \<Rightarrow> [] | c # cs \<Rightarrow> if c = CHR ''-'' \<or> c = CHR ''+'' then cs else s)
      in if body = [] then (0, Some err_syntax)
         else case parse_digits 0 body of
             None \<Rightarrow> (0, Some err_syntax)
           | Some un \<Rightarrow>
               if \<not> neg \<and> int un \<ge> 2 ^ 63 then (2 ^ 63 - 1, Some err_range)
               else if neg \<and> int un > 2 ^ 63 then (- (2 ^ 63), Some err_range)
               else (if neg then - int un else int un, None))"

lemma of_char_of [simp]: "(of_char (char_of n :: char) :: nat) = n mod 256"
  by simp

lemma is_digit_48 [simp]: "d < 10 \<Longrightarrow> is_digit (char_of (48 + d :: nat))"
  by (simp add: is_digit_def)

lemma digits10_nonempty [simp]: "digits10 n \<noteq> []"
  by (subst digits10.simps) simp

lemma digits10_all_digits: "c \<in> set (digits10 n) \<Longrightarrow> is_digit c"
proof (induction n rule: digits10.induct)
  case (1 n)
  show ?case
  proof (cases "n < 10")
    case True
    with 1 show ?thesis by (simp add: digits10.simps [of n])
  next
    case False
    with 1 show ?thesis by (auto simp: digits10.simps [of n])
  qed
qed

lemma parse_digits_append:
  "parse_digits acc (xs @ ys) = Option.bind (parse_digits acc xs) (\<lambda>a. parse_digits a ys)"
  by (induction xs arbitrary: acc) auto

lemma parse_digits_digits10: "parse_digits 0 (digits10 n) = Some n"
proof (induction n rule: digits10.induct)
  case (1 n)
  show ?case
  proof (cases "n < 10")
    case True
    then show ?thesis by (simp add: digits10.simps [of n])
  next
    case False
    with 1 have "parse_digits 0 (digits10 (n div 10)) = Some (n div 10)" by simp
    moreover have "n div 10 * 10 + n mod 10 = n" by simp
    ultimately show ?thesis using False
      by (simp add: digits10.simps [of n] parse_digits_append)
  qed
qed

lemma not_digit_sign [simp]: "\<not> is_digit (CHR ''-'')" "\<not> is_digit (CHR ''+'')"
  by (simp_all add: is_digit_def)

lemma digits10_hd: "digits10 n = c # cs \<Longrightarrow> is_digit c"
  using digits10_all_digits [of c n] by simp

text \<open>Reading back what \<^verbatim>\<open>FormatInt\<close> wrote gives the number.\<close>

lemma ParseInt_FormatInt: "int64_ok i \<Longrightarrow> ParseInt (FormatInt i) = (i, None)"
proof (cases "i < 0")
  case True
  assume "int64_ok i"
  with True have "- i \<le> 2 ^ 63" by (simp add: int64_ok_def)
  with True show ?thesis
    by (simp add: ParseInt_def FormatInt_def parse_digits_digits10)
next
  case False
  assume ok: "int64_ok i"
  obtain c cs where d: "digits10 (nat i) = c # cs" by (cases "digits10 (nat i)") auto
  have "is_digit c" using d by (rule digits10_hd)
  then have sgn: "c \<noteq> CHR ''-''" "c \<noteq> CHR ''+''" by auto
  have "parse_digits 0 (c # cs) = Some (nat i)"
    using parse_digits_digits10 [of "nat i"] by (simp add: d)
  with False ok sgn show ?thesis
    unfolding ParseInt_def FormatInt_def d int64_ok_def Let_def by (simp del: parse_digits.simps)
qed

section \<open>White space at the ends of a string\<close>

definition non_graphic_start :: "string \<Rightarrow> bool" where
  "non_graphic_start w = (case w of [] \<Rightarrow> False
     | c # _ \<Rightarrow> \<not> (33 \<le> (of_char c :: nat) \<and> (of_char c :: nat) < 127))"

lemma space_bytes_first: "w \<in> set space_bytes \<Longrightarrow> non_graphic_start w"
proof -
  have "list_all non_graphic_start space_bytes" by code_simp
  then show "w \<in> set space_bytes \<Longrightarrow> non_graphic_start w" by (simp add: list_all_iff)
qed

lemma space_bytes_last: "w \<in> set (map rev space_bytes) \<Longrightarrow> non_graphic_start w"
proof -
  have "list_all non_graphic_start (map rev space_bytes)" by code_simp
  then show "w \<in> set (map rev space_bytes) \<Longrightarrow> non_graphic_start w"
    by (simp add: list_all_iff del: set_map)
qed

definition graphic :: "string \<Rightarrow> bool" where
  "graphic s \<longleftrightarrow> (\<forall>c \<in> set s. 33 \<le> (of_char c :: nat) \<and> (of_char c :: nat) < 127)"

lemma graphic_no_prefix:
  assumes "graphic s" "non_graphic_start w"
  shows "\<not> HasPrefix s w"
  using assms by (auto simp: HasPrefix_iff prefix_def graphic_def non_graphic_start_def split: list.splits)

lemma TrimSpace_graphic [simp]: "graphic s \<Longrightarrow> TrimSpace s = s"
proof -
  assume g: "graphic s"
  then have "graphic (rev s)" by (simp add: graphic_def)
  with g have l: "strip_left space_bytes n s = s"
    and r: "strip_left (map rev space_bytes) n (rev s) = rev s" for n
    using graphic_no_prefix space_bytes_first space_bytes_last
    by (intro strip_left_id; blast)+
  show ?thesis by (simp add: TrimSpace_def l r)
qed

lemma graphic_digits10: "graphic (digits10 n)"
  using digits10_all_digits by (fastforce simp: graphic_def is_digit_def)

lemma graphic_FormatInt [simp]: "graphic (FormatInt i)"
  using graphic_digits10 by (auto simp: FormatInt_def graphic_def)

section \<open>Package net\<close>

definition IndexByte :: "string \<Rightarrow> char \<Rightarrow> nat option" where
  "IndexByte s c = (let i = length (takeWhile (\<lambda>d. d \<noteq> c) s) in if i < length s then Some i else None)"

definition LastIndexByte :: "string \<Rightarrow> char \<Rightarrow> nat option" where
  "LastIndexByte s c = map_option (\<lambda>i. length s - 1 - i) (IndexByte (rev s) c)"

text \<open>\<open>SplitHostPort\<close>; the sources only ask whether it fails, so an error is \<open>None\<close>.\<close>

definition SplitHostPort :: "string \<Rightarrow> (string \<times> string) option" where
  "SplitHostPort hostport =
     (case LastIndexByte hostport (CHR '':'') of None \<Rightarrow> None | Some i \<Rightarrow>
        if HasPrefix hostport ''['' then
          (case IndexByte hostport (CHR '']'') of None \<Rightarrow> None | Some e \<Rightarrow>
             if e + 1 \<noteq> i then None
             else if CHR ''['' \<in> set (drop 1 hostport) \<or> CHR '']'' \<in> set (drop (e + 1) hostport) then None
             else Some (take (e - 1) (drop 1 hostport), drop (i + 1) hostport))
        else if CHR '':'' \<in> set (take i hostport) then None
        else if CHR ''['' \<in> set hostport \<or> CHR '']'' \<in> set hostport then None
        else Some (take i hostport, drop (i + 1) hostport))"

definition JoinHostPort :: "string \<Rightarrow> string \<Rightarrow> string" where
  "JoinHostPort host port = (if CHR '':'' \<in> set host then ''['' @ host @ '']:'' @ port else host @ '':'' @ port)"

end
