(* ===== verification/GoPath.thy ===== *)
theory GoPath
  imports GoLib
begin

text \<open>
  \<^verbatim>\<open>path/filepath\<close> on Unix: \<^verbatim>\<open>Clean\<close>, \<^verbatim>\<open>Join\<close>,
  \<^verbatim>\<open>Dir\<close>, \<^verbatim>\<open>Base\<close>, \<^verbatim>\<open>IsAbs\<close> and
  \<^verbatim>\<open>Abs\<close>. The second half gives the normal form the components reason with: an
  absolute clean path is \<open>path_of es\<close> for a list of good elements, its directory drops the last
  element and joining a good name appends it.
\<close>

abbreviation is_slash :: "char \<Rightarrow> bool" where
  "is_slash c \<equiv> c = CHR ''/''"

definition elems :: "string \<Rightarrow> string list" where
  "elems p = FieldsFunc p is_slash"

text \<open>The elements \<^verbatim>\<open>Clean\<close> keeps; the second argument is the output so far, reversed.\<close>

fun clean_elems :: "bool \<Rightarrow> string list \<Rightarrow> string list \<Rightarrow> string list" where
  "clean_elems rooted out [] = rev out"
| "clean_elems rooted out (e # es) =
     (if e = ''.'' then clean_elems rooted out es
      else if e = ''..'' then
        (if out \<noteq> [] \<and> hd out \<noteq> ''..'' then clean_elems rooted (tl out) es
         else if rooted then clean_elems rooted out es
         else clean_elems rooted (''..'' # out) es)
      else clean_elems rooted (e # out) es)"

definition IsAbs :: "string \<Rightarrow> bool" where
  "IsAbs p \<longleftrightarrow> HasPrefix p ''/''"

definition Clean :: "string \<Rightarrow> string" where
  "Clean p =
     (if p = [] then ''.''
      else let body = Join (clean_elems (IsAbs p) [] (elems p)) ''/''
           in if IsAbs p then CHR ''/'' # body else if body = [] then ''.'' else body)"

definition JoinPath :: "string list \<Rightarrow> string" where
  "JoinPath es = (case dropWhile (\<lambda>e. e = []) es of [] \<Rightarrow> [] | es' \<Rightarrow> Clean (Join es' ''/''))"

definition DirOf :: "string \<Rightarrow> string" where
  "DirOf p = Clean (rev (dropWhile (\<lambda>c. \<not> is_slash c) (rev p)))"

definition Base :: "string \<Rightarrow> string" where
  "Base p =
     (if p = [] then ''.''
      else let q = rev (dropWhile is_slash (rev p))
           in if q = [] then ''/'' else rev (takeWhile (\<lambda>c. \<not> is_slash c) (rev q)))"

text \<open>\<^verbatim>\<open>Abs\<close> with the result of \<^verbatim>\<open>os.Getwd\<close> as its first argument.\<close>

definition AbsPath :: "string result \<Rightarrow> string \<Rightarrow> string result" where
  "AbsPath cwd p =
     (if IsAbs p then Inr (Clean p)
      else case cwd of Inl e \<Rightarrow> Inl e | Inr d \<Rightarrow> Inr (JoinPath [d, p]))"

section \<open>Fields of a string\<close>

lemma fields_acc_append_sep:
  "sep c \<Longrightarrow> fields_acc sep cur (a @ c # b) = fields_acc sep cur a @ fields_acc sep [] b"
  by (induction a arbitrary: cur) auto

lemma FieldsFunc_append_sep:
  "sep c \<Longrightarrow> FieldsFunc (a @ c # b) sep = FieldsFunc a sep @ FieldsFunc b sep"
  by (simp add: FieldsFunc_def fields_acc_append_sep)

lemma FieldsFunc_Cons_sep [simp]: "sep c \<Longrightarrow> FieldsFunc (c # b) sep = FieldsFunc b sep"
  using FieldsFunc_append_sep [of sep c "[]" b] by (simp add: FieldsFunc_def)

lemma FieldsFunc_Nil [simp]: "FieldsFunc [] sep = []"
  by (simp add: FieldsFunc_def)

lemma fields_acc_no_sep:
  "\<forall>c \<in> set s. \<not> sep c \<Longrightarrow> fields_acc sep cur s = (if cur = [] \<and> s = [] then [] else [rev cur @ s])"
  by (induction s arbitrary: cur) auto

lemma FieldsFunc_no_sep: "\<forall>c \<in> set s. \<not> sep c \<Longrightarrow> s \<noteq> [] \<Longrightarrow> FieldsFunc s sep = [s]"
  by (simp add: FieldsFunc_def fields_acc_no_sep)

lemma fields_acc_fields:
  "e \<in> set (fields_acc sep cur s) \<Longrightarrow> \<forall>c \<in> set cur. \<not> sep c \<Longrightarrow>
     e \<noteq> [] \<and> (\<forall>c \<in> set e. \<not> sep c) \<and> set e \<subseteq> set cur \<union> set s"
proof (induction s arbitrary: cur)
  case Nil
  then show ?case by (auto split: if_splits)
next
  case (Cons c s)
  show ?case
  proof (cases "sep c")
    case True
    with Cons.prems(1) consider "e = rev cur" "cur \<noteq> []" | "e \<in> set (fields_acc sep [] s)"
      by (auto split: if_splits)
    then show ?thesis
    proof cases
      case 1
      with Cons.prems(2) show ?thesis by auto
    next
      case 2
      with Cons.IH [of "[]"] have "e \<noteq> [] \<and> (\<forall>c \<in> set e. \<not> sep c) \<and> set e \<subseteq> set s" by simp
      then show ?thesis by auto
    qed
  next
    case False
    with Cons.prems(1) have "e \<in> set (fields_acc sep (c # cur) s)" by simp
    moreover have "\<forall>d \<in> set (c # cur). \<not> sep d" using False Cons.prems(2) by simp
    ultimately have "e \<noteq> [] \<and> (\<forall>c \<in> set e. \<not> sep c) \<and> set e \<subseteq> set (c # cur) \<union> set s"
      by (rule Cons.IH)
    then show ?thesis by auto
  qed
qed

lemma FieldsFunc_fields:
  "e \<in> set (FieldsFunc s sep) \<Longrightarrow> e \<noteq> [] \<and> (\<forall>c \<in> set e. \<not> sep c)"
  using fields_acc_fields [of e sep "[]" s] by (auto simp: FieldsFunc_def)

text \<open>Splitting at a coarser set of separators first and refining each field afterwards.\<close>

lemma fields_acc_refine:
  assumes "\<And>c. sep c \<Longrightarrow> sep2 c"
  shows "fields_acc sep2 [] (rev cur @ s) = concat (map (fields_acc sep2 []) (fields_acc sep cur s))"
proof (induction s arbitrary: cur)
  case Nil
  show ?case by simp
next
  case (Cons c s)
  show ?case
  proof (cases "sep c")
    case True
    with Cons.IH [of "[]"] assms show ?thesis
      by (simp add: fields_acc_append_sep)
  next
    case False
    with Cons.IH [of "c # cur"] show ?thesis by simp
  qed
qed

lemma FieldsFunc_refine:
  "(\<And>c. sep c \<Longrightarrow> sep2 c) \<Longrightarrow>
     FieldsFunc s sep2 = concat (map (\<lambda>e. FieldsFunc e sep2) (FieldsFunc s sep))"
  using fields_acc_refine [of sep sep2 "[]" s] by (simp add: FieldsFunc_def)

lemma Join_append_one: "es \<noteq> [] \<Longrightarrow> Join (es @ [e]) sep = Join es sep @ sep @ e"
  by (induction es sep rule: Join.induct) auto

lemma FieldsFunc_Join:
  "sep c \<Longrightarrow> FieldsFunc (Join es [c]) sep = concat (map (\<lambda>e. FieldsFunc e sep) es)"
  by (induction es "[c]" rule: Join.induct) (auto simp: FieldsFunc_append_sep)

section \<open>Absolute clean paths\<close>

definition good_elem :: "string \<Rightarrow> bool" where
  "good_elem e \<longleftrightarrow> e \<noteq> [] \<and> CHR ''/'' \<notin> set e \<and> e \<noteq> ''.'' \<and> e \<noteq> ''..''"

definition path_of :: "string list \<Rightarrow> string" where
  "path_of es = CHR ''/'' # Join es ''/''"

lemma elems_good [simp]: "good_elem e \<Longrightarrow> elems e = [e]"
  unfolding elems_def by (rule FieldsFunc_no_sep) (auto simp: good_elem_def)

lemma elems_Nil [simp]: "elems [] = []"
  by (simp add: elems_def)

lemma elems_path_of: "list_all good_elem es \<Longrightarrow> elems (path_of es) = es"
proof -
  assume g: "list_all good_elem es"
  have "elems (path_of es) = concat (map elems es)"
    unfolding path_of_def elems_def [abs_def] by (simp add: FieldsFunc_Join)
  also have "\<dots> = es" using g by (induction es) auto
  finally show ?thesis .
qed

lemma clean_elems_no_dotdot:
  "''..'' \<notin> set es \<Longrightarrow> clean_elems r out es = rev out @ filter (\<lambda>e. e \<noteq> ''.'') es"
  by (induction es arbitrary: out) auto

lemma IsAbs_path_of [simp]: "IsAbs (path_of es)"
  by (simp add: IsAbs_def HasPrefix_def path_of_def)

lemma Clean_abs:
  assumes "IsAbs p" "''..'' \<notin> set (elems p)"
  shows "Clean p = path_of (filter (\<lambda>e. e \<noteq> ''.'') (elems p))"
proof -
  from assms(1) have "p \<noteq> []" by (auto simp: IsAbs_def HasPrefix_def)
  with assms show ?thesis
    by (simp add: Clean_def path_of_def clean_elems_no_dotdot Let_def)
qed

lemma good_elems_of_abs:
  assumes "''..'' \<notin> set (elems p)"
  shows "list_all good_elem (filter (\<lambda>e. e \<noteq> ''.'') (elems p))"
  using assms FieldsFunc_fields [of _ p is_slash]
  unfolding list_all_iff by (auto simp: good_elem_def elems_def)

lemma good_not_dotdot: "list_all good_elem es \<Longrightarrow> ''..'' \<notin> set es \<and> ''.'' \<notin> set es"
  by (induction es) (auto simp: good_elem_def)

lemma Clean_path_of [simp]:
  assumes "list_all good_elem es"
  shows "Clean (path_of es) = path_of es"
proof -
  have "filter (\<lambda>e. e \<noteq> ''.'') es = es"
    using good_not_dotdot [OF assms] by (auto intro: filter_True)
  with assms good_not_dotdot [OF assms] show ?thesis
    by (simp add: Clean_abs elems_path_of)
qed

lemma path_of_inject:
  "list_all good_elem es \<Longrightarrow> list_all good_elem fs \<Longrightarrow> path_of es = path_of fs \<longleftrightarrow> es = fs"
  by (metis elems_path_of)

lemma path_of_snoc: "path_of (es @ [e]) = (if es = [] then CHR ''/'' # e else path_of es @ ''/'' @ e)"
  by (simp add: path_of_def Join_append_one)

lemma DirOf_path_of [simp]:
  assumes "list_all good_elem es" "good_elem e"
  shows "DirOf (path_of (es @ [e])) = path_of es"
proof -
  have ns: "\<forall>c \<in> set (rev e). \<not> is_slash c" using assms(2) by (auto simp: good_elem_def)
  have dw: "dropWhile (\<lambda>c. \<not> is_slash c) (rev e @ CHR ''/'' # xs) = CHR ''/'' # xs" for xs
    using ns by (simp add: dropWhile_append)
  show ?thesis
  proof (cases "es = []")
    case True
    then have "DirOf (path_of (es @ [e])) = Clean ''/''"
      using dw [of "[]"] by (simp add: DirOf_def path_of_def)
    also have "\<dots> = path_of []" by (simp add: Clean_def IsAbs_def HasPrefix_def path_of_def elems_def)
    finally show ?thesis using True by simp
  next
    case False
    then have "DirOf (path_of (es @ [e])) = Clean (path_of es @ ''/'')"
      using dw [of "rev (path_of es)"] by (simp add: DirOf_def path_of_snoc)
    also have "\<dots> = path_of es"
    proof -
      have el: "elems (path_of es @ ''/'') = es"
        using FieldsFunc_append_sep [of is_slash "CHR ''/''" "path_of es" "[]"]
        by (simp add: elems_def [symmetric] elems_path_of assms(1))
      have ab: "IsAbs (path_of es @ ''/'')" by (simp add: IsAbs_def HasPrefix_def path_of_def)
      have "filter (\<lambda>e. e \<noteq> ''.'') es = es"
        using good_not_dotdot [OF assms(1)] by (auto intro: filter_True)
      then show ?thesis
        using good_not_dotdot [OF assms(1)] by (simp add: Clean_abs ab el)
    qed
    finally show ?thesis .
  qed
qed

lemma JoinPath_path_of [simp]:
  assumes "list_all good_elem es" "good_elem e"
  shows "JoinPath [path_of es, e] = path_of (es @ [e])"
proof -
  have j: "Join [path_of es, e] ''/'' = path_of es @ CHR ''/'' # e" by simp
  have el: "elems (path_of es @ CHR ''/'' # e) = es @ [e]"
    using FieldsFunc_append_sep [of is_slash "CHR ''/''" "path_of es" e] assms
    by (simp add: elems_def [symmetric] elems_path_of)
  have ab: "IsAbs (path_of es @ CHR ''/'' # e)" by (simp add: IsAbs_def HasPrefix_def path_of_def)
  have g: "list_all good_elem (es @ [e])" using assms by simp
  have "filter (\<lambda>x. x \<noteq> ''.'') (es @ [e]) = es @ [e]"
    using good_not_dotdot [OF g] by (auto intro: filter_True)
  then have "Clean (path_of es @ CHR ''/'' # e) = path_of (es @ [e])"
    using good_not_dotdot [OF g] by (simp add: Clean_abs ab el)
  moreover have "path_of es \<noteq> []" "e \<noteq> []" using assms(2) by (simp_all add: path_of_def good_elem_def)
  ultimately show ?thesis using j by (simp add: JoinPath_def)
qed

section \<open>Clean absolute paths are exactly the normal forms\<close>

definition clean_abs :: "string \<Rightarrow> bool" where
  "clean_abs p \<longleftrightarrow> IsAbs p \<and> Clean p = p"

lemma elems_fields: "e \<in> set (elems p) \<Longrightarrow> e \<noteq> [] \<and> CHR ''/'' \<notin> set e"
  unfolding elems_def by (auto dest: FieldsFunc_fields)

lemma clean_elems_rooted:
  "\<forall>e \<in> set es. e \<noteq> [] \<and> CHR ''/'' \<notin> set e \<Longrightarrow> list_all good_elem out \<Longrightarrow>
     list_all good_elem (clean_elems True out es)"
proof (induction es arbitrary: out)
  case Nil
  then show ?case by simp
next
  case (Cons e es)
  have es: "\<forall>e \<in> set es. e \<noteq> [] \<and> CHR ''/'' \<notin> set e" using Cons.prems(1) by simp
  have tl: "list_all good_elem (tl out)" using Cons.prems(2) by (cases out) simp_all
  have "e \<noteq> ''.'' \<Longrightarrow> e \<noteq> ''..'' \<Longrightarrow> good_elem e"
    using Cons.prems(1) by (simp add: good_elem_def)
  with Cons.prems(2) have e: "e \<noteq> ''.'' \<Longrightarrow> e \<noteq> ''..'' \<Longrightarrow> list_all good_elem (e # out)"
    by simp
  show ?case
    using Cons.IH [OF es Cons.prems(2)] Cons.IH [OF es tl] Cons.IH [OF es e] by simp
qed

lemma Clean_rooted: "IsAbs p \<Longrightarrow> \<exists>es. list_all good_elem es \<and> Clean p = path_of es"
proof -
  assume a: "IsAbs p"
  then have "p \<noteq> []" by (auto simp: IsAbs_def HasPrefix_def)
  with a have "Clean p = path_of (clean_elems True [] (elems p))"
    by (simp add: Clean_def path_of_def Let_def)
  moreover have "list_all good_elem (clean_elems True [] (elems p))"
    by (rule clean_elems_rooted) (auto dest: elems_fields)
  ultimately show ?thesis by blast
qed

lemma clean_abs_iff: "clean_abs p \<longleftrightarrow> (\<exists>es. list_all good_elem es \<and> p = path_of es)"
  unfolding clean_abs_def by (metis Clean_rooted Clean_path_of IsAbs_path_of)

lemma clean_abs_path_of [simp]: "list_all good_elem es \<Longrightarrow> clean_abs (path_of es)"
  by (auto simp: clean_abs_iff)

lemma clean_abs_Clean: "IsAbs p \<Longrightarrow> clean_abs (Clean p)"
  by (metis Clean_rooted clean_abs_iff)

lemma DirOf_root: "DirOf (path_of []) = path_of []"
  by (simp add: DirOf_def Clean_def IsAbs_def HasPrefix_def path_of_def elems_def)

lemma DirOf_clean_abs:
  assumes "list_all good_elem es"
  shows "DirOf (path_of es) = path_of (butlast es)"
proof (cases es rule: rev_cases)
  case Nil
  then show ?thesis by (simp add: DirOf_root)
next
  case (snoc ys y)
  with assms show ?thesis by simp
qed

section \<open>Paths without a parent element under either separator\<close>

definition is_sep :: "char \<Rightarrow> bool" where
  "is_sep r \<longleftrightarrow> r = CHR ''/'' \<or> r = CHR 0x5C"

definition dotdot_free :: "string \<Rightarrow> bool" where
  "dotdot_free p \<longleftrightarrow> ''..'' \<notin> set (FieldsFunc p is_sep)"

lemma dotdot_free_elems: "dotdot_free p \<longleftrightarrow> (\<forall>e \<in> set (elems p). dotdot_free e)"
proof -
  have "FieldsFunc p is_sep = concat (map (\<lambda>e. FieldsFunc e is_sep) (elems p))"
    unfolding elems_def by (rule FieldsFunc_refine) (simp add: is_sep_def)
  then show ?thesis by (simp add: dotdot_free_def)
qed

lemma dotdot_free_path_of:
  "list_all good_elem es \<Longrightarrow> dotdot_free (path_of es) \<longleftrightarrow> (\<forall>e \<in> set es. dotdot_free e)"
  by (subst dotdot_free_elems) (simp add: elems_path_of)

lemma dotdot_free_no_dotdot: "dotdot_free p \<Longrightarrow> ''..'' \<notin> set (elems p)"
proof
  assume p: "dotdot_free p" and m: "''..'' \<in> set (elems p)"
  then have "dotdot_free ''..''" using dotdot_free_elems [of p] by blast
  moreover have "FieldsFunc ''..'' is_sep = [''..'']"
    by (rule FieldsFunc_no_sep) (simp_all add: is_sep_def)
  ultimately show False by (simp add: dotdot_free_def)
qed

lemma dotdot_free_filter_elems:
  "dotdot_free p \<Longrightarrow> e \<in> set (filter P (elems p)) \<Longrightarrow> dotdot_free e"
  using dotdot_free_elems [of p] by auto

lemma dotdot_free_plain:
  "s \<noteq> ''..'' \<Longrightarrow> \<forall>c \<in> set s. \<not> is_sep c \<Longrightarrow> dotdot_free s"
  by (cases "s = []") (auto simp: dotdot_free_def FieldsFunc_no_sep)

text \<open>Cleaning a relative path keeps its elements other than the current directory.\<close>

lemma elems_Clean_rel:
  assumes "\<not> IsAbs p" "''..'' \<notin> set (elems p)"
  shows "elems (Clean p) = (if filter (\<lambda>e. e \<noteq> ''.'') (elems p) = [] then [''.''] else filter (\<lambda>e. e \<noteq> ''.'') (elems p))"
proof -
  let ?es = "filter (\<lambda>e. e \<noteq> ''.'') (elems p)"
  have g: "list_all good_elem ?es" using assms(2) by (rule good_elems_of_abs)
  have dot: "elems ''.'' = [''.'']" unfolding elems_def by (rule FieldsFunc_no_sep) simp_all
  have j: "elems (Join ?es ''/'') = ?es"
    using elems_path_of [OF g] by (simp add: path_of_def elems_def)
  have "Clean p = (if ?es = [] then ''.'' else Join ?es ''/'')"
  proof (cases "p = []")
    case True
    then show ?thesis by (simp add: Clean_def)
  next
    case False
    have "Join ?es ''/'' = [] \<longleftrightarrow> ?es = []"
    proof
      assume "Join ?es ''/'' = []"
      with j show "?es = []" by (metis elems_Nil)
    qed simp
    with False assms show ?thesis
      by (simp add: Clean_def Let_def clean_elems_no_dotdot)
  qed
  with j dot show ?thesis by (cases "?es = []") simp_all
qed

end
