(* ===== verification/OsModel.thy ===== *)
theory OsModel
  imports GoPath "HOL-Library.List_Lexorder" "HOL-Library.Char_ord"
begin

text \<open>
  The operating system as the sources use it through package \<^verbatim>\<open>os\<close>: a finite
  tree of files and directories, keyed by absolute clean path, and one function per call.

  What the machine decides (which calls fail and how far a failing transfer got, the working
  directory, modes and times, random name suffixes) is an argument \<open>osenv\<close> of every call. So
  every error branch of the sources is a branch of the model, and a theorem without a
  hypothesis about the environment holds for all of its failures.
  Symbolic links, permissions and the second name of a file are not represented.
\<close>

type_synonym bytes = string
type_synonym path = string

datatype node = File bytes | Dir

type_synonym fsys = "(path, node) fmap"

datatype sysop = SStat | SFstat | SOpen | SRead | SWrite | STruncate | SSync | SClose
  | SRemove | SRename | SReadDir | SMkdir | SCreateTemp | SChmod | SSeek | SInfo

record osenv =
  fault :: "sysop \<Rightarrow> path \<Rightarrow> oserr option"
  progress :: "path \<Rightarrow> nat"
  cwd :: "string result"
  mode_str :: "path \<Rightarrow> string"
  mod_time :: "path \<Rightarrow> int"
  time_str :: "int \<Rightarrow> string"
  rand_suffix :: string
  dir_size :: "path \<Rightarrow> int"

definition fault_free :: "osenv \<Rightarrow> bool" where
  "fault_free E \<longleftrightarrow> fault E = (\<lambda>_ _. None)"

lemma fault_free_fault [simp]: "fault_free E \<Longrightarrow> fault E s p = None"
  by (simp add: fault_free_def)

text \<open>An environment in which nothing fails.\<close>

definition quiet :: osenv where
  "quiet = \<lparr>fault = (\<lambda>_ _. None), progress = (\<lambda>_. 0), cwd = Inr ''/'', mode_str = (\<lambda>_. ''-rw-r--r--''),
     mod_time = (\<lambda>_. 0), time_str = (\<lambda>_. ''2026-01-01T00:00:00Z''), rand_suffix = ''1'',
     dir_size = (\<lambda>_. 4096)\<rparr>"

lemma fault_free_quiet [simp]: "fault_free quiet"
  by (simp add: fault_free_def quiet_def)

section \<open>Calls that only read\<close>

text \<open>A path handed to \<^verbatim>\<open>os.Open\<close> is resolved against the working directory.\<close>

definition os_path :: "osenv \<Rightarrow> string \<Rightarrow> path" where
  "os_path E p = (case AbsPath (cwd E) p of Inr q \<Rightarrow> q | Inl _ \<Rightarrow> p)"

definition stat :: "osenv \<Rightarrow> fsys \<Rightarrow> path \<Rightarrow> oserr + node" where
  "stat E fs p = (case fault E SStat p of Some e \<Rightarrow> Inl e
     | None \<Rightarrow> (case fmlookup fs p of None \<Rightarrow> Inl ENOENT | Some n \<Rightarrow> Inr n))"

text \<open>The size of a directory is whatever the file system reports.\<close>

fun node_size :: "osenv \<Rightarrow> path \<Rightarrow> node \<Rightarrow> int" where
  "node_size E p (File c) = int (length c)"
| "node_size E p Dir = dir_size E p"

fun is_dir :: "node \<Rightarrow> bool" where
  "is_dir Dir = True"
| "is_dir (File _) = False"

definition open_read :: "osenv \<Rightarrow> fsys \<Rightarrow> path \<Rightarrow> oserr + node" where
  "open_read E fs p = (case fault E SOpen p of Some e \<Rightarrow> Inl e
     | None \<Rightarrow> (case fmlookup fs p of None \<Rightarrow> Inl ENOENT | Some n \<Rightarrow> Inr n))"

text \<open>
  \<open>read_at\<close> returns the bytes read and the error: at most \<open>n\<close> bytes from \<open>off\<close>, \<open>EOF\<close> when the
  file ends before. A failing read may return the first bytes.
\<close>

definition read_at :: "osenv \<Rightarrow> node \<Rightarrow> path \<Rightarrow> nat \<Rightarrow> nat \<Rightarrow> bytes \<times> oserr option" where
  "read_at E nd p off n = (case nd of Dir \<Rightarrow> ([], Some EISDIR)
     | File c \<Rightarrow> (let got = take n (drop off c)
         in case fault E SRead p of Some e \<Rightarrow> (take (progress E p) got, Some e)
            | None \<Rightarrow> (got, if length got < n then Some EOF else None)))"

text \<open>The whole content, as \<^verbatim>\<open>os.ReadFile\<close> and \<^verbatim>\<open>io.Copy\<close> read it.\<close>

definition read_all :: "osenv \<Rightarrow> node \<Rightarrow> path \<Rightarrow> oserr + bytes" where
  "read_all E nd p = (case nd of Dir \<Rightarrow> Inl EISDIR
     | File c \<Rightarrow> (case fault E SRead p of Some e \<Rightarrow> Inl e | None \<Rightarrow> Inr c))"

definition ReadFile :: "osenv \<Rightarrow> fsys \<Rightarrow> path \<Rightarrow> oserr + bytes" where
  "ReadFile E fs p = (case open_read E fs p of Inl e \<Rightarrow> Inl e | Inr nd \<Rightarrow> read_all E nd p)"

definition children :: "fsys \<Rightarrow> path \<Rightarrow> path fset" where
  "children fs p = ffilter (\<lambda>q. DirOf q = p \<and> q \<noteq> p) (fmdom fs)"

text \<open>\<^verbatim>\<open>os.ReadDir\<close>: the paths of the entries, ordered by name.\<close>

definition read_dir :: "osenv \<Rightarrow> fsys \<Rightarrow> path \<Rightarrow> oserr + path list" where
  "read_dir E fs p = (case fault E SReadDir p of Some e \<Rightarrow> Inl e
     | None \<Rightarrow> (case fmlookup fs p of None \<Rightarrow> Inl ENOENT | Some (File _) \<Rightarrow> Inl ENOTDIR
         | Some Dir \<Rightarrow> Inr (sort_key Base (sorted_list_of_fset (children fs p)))))"

section \<open>Calls that change the tree\<close>

definition parent_err :: "fsys \<Rightarrow> path \<Rightarrow> oserr option" where
  "parent_err fs p = (case fmlookup fs (DirOf p) of None \<Rightarrow> Some ENOENT
     | Some (File _) \<Rightarrow> Some ENOTDIR | Some Dir \<Rightarrow> None)"

text \<open>\<^verbatim>\<open>os.OpenFile\<close> for writing, with the flags \<open>O_CREATE\<close> and \<open>O_TRUNC\<close>.\<close>

definition open_write :: "osenv \<Rightarrow> fsys \<Rightarrow> path \<Rightarrow> bool \<Rightarrow> bool \<Rightarrow> fsys \<times> oserr option" where
  "open_write E fs p create trunc = (case fault E SOpen p of Some e \<Rightarrow> (fs, Some e)
     | None \<Rightarrow> (case fmlookup fs p of
           Some Dir \<Rightarrow> (fs, Some EISDIR)
         | Some (File c) \<Rightarrow> (if trunc then fmupd p (File []) fs else fs, None)
         | None \<Rightarrow> if create then (case parent_err fs p of Some e \<Rightarrow> (fs, Some e)
                     | None \<Rightarrow> (fmupd p (File []) fs, None))
                   else (fs, Some ENOENT)))"

definition zeros :: "nat \<Rightarrow> bytes" where
  "zeros n = replicate n (CHR 0x00)"

definition resize :: "bytes \<Rightarrow> nat \<Rightarrow> bytes" where
  "resize c n = take n c @ zeros (n - length c)"

definition truncate_file :: "osenv \<Rightarrow> fsys \<Rightarrow> path \<Rightarrow> nat \<Rightarrow> fsys \<times> oserr option" where
  "truncate_file E fs p n = (case fault E STruncate p of Some e \<Rightarrow> (fs, Some e)
     | None \<Rightarrow> (case fmlookup fs p of Some (File c) \<Rightarrow> (fmupd p (File (resize c n)) fs, None)
         | _ \<Rightarrow> (fs, Some EIO)))"

text \<open>Bytes \<open>d\<close> written into \<open>c\<close> at \<open>off\<close>; a gap before them is filled with zeros.\<close>

definition splice :: "bytes \<Rightarrow> nat \<Rightarrow> bytes \<Rightarrow> bytes" where
  "splice c off d = (if d = [] then c else resize c off @ d @ drop (off + length d) c)"

definition write_at :: "osenv \<Rightarrow> fsys \<Rightarrow> path \<Rightarrow> bytes \<Rightarrow> nat \<Rightarrow> fsys \<times> nat \<times> oserr option" where
  "write_at E fs p d off = (case fmlookup fs p of
       Some (File c) \<Rightarrow> (case fault E SWrite p of
           Some e \<Rightarrow> (let k = min (progress E p) (length d)
              in (fmupd p (File (splice c off (take k d))) fs, k, Some e))
         | None \<Rightarrow> (fmupd p (File (splice c off d)) fs, length d, None))
     | _ \<Rightarrow> (fs, 0, Some EIO))"

text \<open>\<^verbatim>\<open>os.WriteFile\<close>: create or truncate, write, close.\<close>

definition WriteFile :: "osenv \<Rightarrow> fsys \<Rightarrow> path \<Rightarrow> bytes \<Rightarrow> fsys \<times> oserr option" where
  "WriteFile E fs p d = (case open_write E fs p True True of
       (fs1, Some e) \<Rightarrow> (fs1, Some e)
     | (fs1, None) \<Rightarrow> (case write_at E fs1 p d 0 of
           (fs2, _, Some e) \<Rightarrow> (fs2, Some e)
         | (fs2, _, None) \<Rightarrow> (fs2, fault E SClose p)))"

definition remove :: "osenv \<Rightarrow> fsys \<Rightarrow> path \<Rightarrow> fsys \<times> oserr option" where
  "remove E fs p = (case fault E SRemove p of Some e \<Rightarrow> (fs, Some e)
     | None \<Rightarrow> (case fmlookup fs p of None \<Rightarrow> (fs, Some ENOENT)
         | Some (File _) \<Rightarrow> (fmdrop p fs, None)
         | Some Dir \<Rightarrow> if children fs p = {||} \<and> p \<noteq> ''/'' then (fmdrop p fs, None) else (fs, Some ENOTEMPTY)))"

text \<open>
  \<^verbatim>\<open>os.Rename\<close> of a file, replacing a file at the target. The sources rename only files
  they have just written, so a directory as the source is an error here.
\<close>

definition rename :: "osenv \<Rightarrow> fsys \<Rightarrow> path \<Rightarrow> path \<Rightarrow> fsys \<times> oserr option" where
  "rename E fs p q = (case fault E SRename p of Some e \<Rightarrow> (fs, Some e)
     | None \<Rightarrow> (case fmlookup fs p of None \<Rightarrow> (fs, Some ENOENT) | Some Dir \<Rightarrow> (fs, Some EISDIR)
         | Some (File c) \<Rightarrow> (case fmlookup fs q of Some Dir \<Rightarrow> (fs, Some EISDIR)
             | _ \<Rightarrow> (case parent_err fs q of Some e \<Rightarrow> (fs, Some e)
                 | None \<Rightarrow> (fmupd q (File c) (fmdrop p fs), None)))))"

text \<open>
  \<^verbatim>\<open>os.CreateTemp\<close> in directory \<open>d\<close>: the random part replaces the star of the pattern
  \<open>pre*post\<close>. The call retries while the name is taken and gives up with \<open>EEXIST\<close>.
\<close>

definition create_temp :: "osenv \<Rightarrow> fsys \<Rightarrow> path \<Rightarrow> string \<Rightarrow> string \<Rightarrow> fsys \<times> (oserr + path)" where
  "create_temp E fs d pre post =
     (let p = JoinPath [d, pre @ rand_suffix E @ post]
      in case fault E SCreateTemp d of Some e \<Rightarrow> (fs, Inl e)
         | None \<Rightarrow> if fmlookup fs p \<noteq> None then (fs, Inl EEXIST)
                   else (case parent_err fs p of Some e \<Rightarrow> (fs, Inl e)
                     | None \<Rightarrow> (fmupd p (File []) fs, Inr p)))"

text \<open>
  \<^verbatim>\<open>os.MkdirAll\<close>: the missing directories on the way to \<open>p\<close>, from the top; a file in the
  way stops it.
\<close>

fun mkdirs :: "osenv \<Rightarrow> fsys \<Rightarrow> string list \<Rightarrow> string list \<Rightarrow> fsys \<times> oserr option" where
  "mkdirs E fs done [] = (fs, None)"
| "mkdirs E fs done (e # es) =
     (let p = path_of (done @ [e]) in case fmlookup fs p of
        Some Dir \<Rightarrow> mkdirs E fs (done @ [e]) es
      | Some (File _) \<Rightarrow> (fs, Some ENOTDIR)
      | None \<Rightarrow> (case fault E SMkdir p of Some err \<Rightarrow> (fs, Some err)
          | None \<Rightarrow> mkdirs E (fmupd p Dir fs) (done @ [e]) es))"

definition MkdirAll :: "osenv \<Rightarrow> fsys \<Rightarrow> path \<Rightarrow> fsys \<times> oserr option" where
  "MkdirAll E fs p = mkdirs E fs [] (elems p)"

section \<open>What each call leaves alone\<close>

text \<open>The nodes at \<open>A\<close> are the only ones that may differ.\<close>

definition same_except :: "path set \<Rightarrow> fsys \<Rightarrow> fsys \<Rightarrow> bool" where
  "same_except A fs fs' \<longleftrightarrow> (\<forall>q. q \<notin> A \<longrightarrow> fmlookup fs' q = fmlookup fs q)"

lemma same_except_refl [intro, simp]: "same_except A fs fs"
  by (simp add: same_except_def)

lemma same_except_trans [trans]: "same_except A fs fs1 \<Longrightarrow> same_except A fs1 fs2 \<Longrightarrow> same_except A fs fs2"
  by (simp add: same_except_def)

lemma same_except_mono: "same_except A fs fs' \<Longrightarrow> A \<subseteq> B \<Longrightarrow> same_except B fs fs'"
  by (auto simp: same_except_def)

lemma same_exceptD: "same_except A fs fs' \<Longrightarrow> q \<notin> A \<Longrightarrow> fmlookup fs' q = fmlookup fs q"
  by (simp add: same_except_def)

lemma same_except_upd [intro]: "p \<in> A \<Longrightarrow> same_except A fs (fmupd p n fs)"
  by (auto simp: same_except_def)

lemma open_write_frame [os_simps]: "p \<in> A \<Longrightarrow> same_except A fs (fst (open_write E fs p c t))"
  by (auto simp: open_write_def same_except_def split: option.splits node.splits)

lemma truncate_frame [os_simps]: "p \<in> A \<Longrightarrow> same_except A fs (fst (truncate_file E fs p n))"
  by (auto simp: truncate_file_def same_except_def split: option.splits node.splits)

lemma write_at_frame [os_simps]: "p \<in> A \<Longrightarrow> same_except A fs (fst (write_at E fs p d off))"
  by (auto simp: write_at_def same_except_def Let_def split: option.splits node.splits)

lemma WriteFile_frame [os_simps]:
  assumes "p \<in> A"
  shows "same_except A fs (fst (WriteFile E fs p d))"
proof -
  obtain fs1 r1 where o: "open_write E fs p True True = (fs1, r1)" by force
  then have 1: "same_except A fs fs1" using open_write_frame [OF assms, of fs E True True] by simp
  obtain fs2 n r2 where w: "write_at E fs1 p d 0 = (fs2, n, r2)" by (metis prod.collapse)
  then have "same_except A fs1 fs2" using write_at_frame [OF assms, of fs1 E d 0] by simp
  with 1 have "same_except A fs fs2" by (rule same_except_trans)
  with 1 o w show ?thesis by (simp add: WriteFile_def split: option.splits)
qed

lemma remove_frame [os_simps]: "p \<in> A \<Longrightarrow> same_except A fs (fst (remove E fs p))"
  by (auto simp: remove_def same_except_def split: option.splits node.splits)

lemma rename_frame [os_simps]: "p \<in> A \<Longrightarrow> q \<in> A \<Longrightarrow> same_except A fs (fst (rename E fs p q))"
  by (auto simp: rename_def same_except_def split: option.splits node.splits)

section \<open>What a successful call did\<close>

lemma fmupd_twice [simp]: "fmupd k v (fmupd k w m) = fmupd k v m"
  by (rule fmap_ext) simp

lemma splice_Nil [simp]: "splice c n [] = c"
  by (simp add: splice_def)

lemma splice_append [simp]: "splice c (length c) d = c @ d"
  by (simp add: splice_def resize_def zeros_def)

lemma splice_zero [simp]: "splice [] 0 d = d"
  using splice_append [of "[]" d] by simp

lemma open_write_ok:
  assumes "open_write E fs p c t = (fs', None)"
  shows "\<exists>d. fs' = fmupd p (File d) fs \<and> (t \<longrightarrow> d = []) \<and> (fmlookup fs p = Some (File d) \<or> t \<or> fmlookup fs p = None \<and> d = [])"
proof -
  have same: "fmlookup fs p = Some n \<Longrightarrow> fmupd p n fs = fs" for n
    by (rule fmap_ext) auto
  show ?thesis using assms same
    by (auto simp: open_write_def split: option.splits node.splits if_splits)
qed

lemma open_write_existing:
  assumes "open_write E fs p False False = (fs', None)"
  shows "fs' = fs \<and> (\<exists>c. fmlookup fs p = Some (File c))"
  using assms by (auto simp: open_write_def split: option.splits node.splits)

lemma write_at_ok:
  assumes "write_at E fs p d off = (fs', n, None)"
  shows "\<exists>c. fmlookup fs p = Some (File c) \<and> fs' = fmupd p (File (splice c off d)) fs \<and> n = length d"
  using assms by (auto simp: write_at_def Let_def split: option.splits node.splits)

lemma WriteFile_ok:
  assumes "WriteFile E fs p d = (fs', None)"
  shows "fs' = fmupd p (File d) fs"
proof -
  from assms obtain fs1 where o: "open_write E fs p True True = (fs1, None)"
    by (auto simp: WriteFile_def split: prod.splits option.splits)
  then have fs1: "fs1 = fmupd p (File []) fs" by (auto dest: open_write_ok)
  from assms o obtain n where "write_at E fs1 p d 0 = (fs', n, None)"
    by (auto simp: WriteFile_def split: prod.splits option.splits)
  from write_at_ok [OF this] show ?thesis by (auto simp: fs1)
qed

lemma ReadFile_ok:
  "ReadFile E fs p = Inr c \<Longrightarrow> fmlookup fs p = Some (File c)"
  by (auto simp: ReadFile_def open_read_def read_all_def split: option.splits node.splits)

lemma stat_ok: "stat E fs p = Inr n \<Longrightarrow> fmlookup fs p = Some n"
  by (auto simp: stat_def split: option.splits)

lemma rename_ok:
  assumes "rename E fs p q = (fs', None)"
  shows "\<exists>c. fmlookup fs p = Some (File c) \<and> fs' = fmupd q (File c) (fmdrop p fs) \<and> fmlookup fs q \<noteq> Some Dir"
  using assms by (auto simp: rename_def split: option.splits node.splits)

lemma rename_err: "rename E fs p q = (fs', Some e) \<Longrightarrow> fs' = fs"
  by (auto simp: rename_def split: option.splits node.splits)

lemma remove_lookup:
  "fmlookup (fst (remove E fs p)) q = (if q = p \<and> snd (remove E fs p) = None then None else fmlookup fs q)"
  by (auto simp: remove_def split: option.splits node.splits)

text \<open>In an environment without failures.\<close>

lemma WriteFile_quiet:
  assumes "fault_free E" "fmlookup fs (DirOf p) = Some Dir" "fmlookup fs p \<noteq> Some Dir"
  shows "WriteFile E fs p d = (fmupd p (File d) fs, None)"
  using assms
  by (auto simp: WriteFile_def open_write_def write_at_def parent_err_def split: option.splits node.splits)

lemma ReadFile_quiet:
  "fault_free E \<Longrightarrow> ReadFile E fs p = (case fmlookup fs p of None \<Rightarrow> Inl ENOENT
     | Some Dir \<Rightarrow> Inl EISDIR | Some (File c) \<Rightarrow> Inr c)"
  by (auto simp: ReadFile_def open_read_def read_all_def split: option.splits node.splits)

lemma remove_file_quiet:
  "fault_free E \<Longrightarrow> fmlookup fs p = Some (File c) \<Longrightarrow> remove E fs p = (fmdrop p fs, None)"
  by (simp add: remove_def)

lemma remove_not_file:
  "fault_free E \<Longrightarrow> fmlookup (fst (remove E fs p)) p \<noteq> Some (File c)"
  by (auto simp: remove_def split: option.splits node.splits)

section \<open>Well-formed trees\<close>

text \<open>
  Every name in the tree is an absolute clean path whose directory is in the tree. Each call
  keeps this, given a clean path where it may add a name.
\<close>

definition fs_wf :: "fsys \<Rightarrow> bool" where
  "fs_wf fs \<longleftrightarrow> fmlookup fs ''/'' = Some Dir \<and>
     fBall (fmdom fs) (\<lambda>p. clean_abs p \<and> fmlookup fs (DirOf p) = Some Dir)"

lemma fs_wf_iff:
  "fs_wf fs \<longleftrightarrow> fmlookup fs ''/'' = Some Dir \<and>
     (\<forall>p n. fmlookup fs p = Some n \<longrightarrow> clean_abs p \<and> fmlookup fs (DirOf p) = Some Dir)"
  unfolding fs_wf_def fBall_alt_def by (auto simp: fmlookup_dom_iff)

lemma fs_wf_upd_file:
  assumes "fs_wf fs" "fmlookup fs p \<noteq> Some Dir" "clean_abs p" "fmlookup fs (DirOf p) = Some Dir"
  shows "fs_wf (fmupd p (File c) fs)"
  using assms unfolding fs_wf_iff by (auto split: if_splits)

lemma fs_wf_set_file:
  assumes "fs_wf fs" "fmlookup fs p = Some (File c0)"
  shows "fs_wf (fmupd p (File c) fs)"
  using assms by (intro fs_wf_upd_file) (auto simp: fs_wf_iff)

lemma fs_wf_drop_file:
  assumes "fs_wf fs" "fmlookup fs p = Some (File c)"
  shows "fs_wf (fmdrop p fs)"
  using assms unfolding fs_wf_iff by (auto split: if_splits)

lemma fs_wf_drop_dir:
  assumes "fs_wf fs" "children fs p = {||}" "p \<noteq> ''/''"
  shows "fs_wf (fmdrop p fs)"
proof -
  have "DirOf q \<noteq> p" if "fmlookup fs q = Some n" "q \<noteq> p" for q n
    using assms(2) that unfolding children_def
    by (metis (mono_tags, lifting) ffmember_filter fempty_iff fmdomI)
  then have nochild: "fmlookup fs q = Some n \<Longrightarrow> q = p \<or> DirOf q \<noteq> p" for q n by blast
  show ?thesis unfolding fs_wf_iff
  proof (intro conjI allI impI)
    show "fmlookup (fmdrop p fs) ''/'' = Some Dir" using assms(1,3) by (simp add: fs_wf_iff)
  next
    fix q n
    assume "fmlookup (fmdrop p fs) q = Some n"
    then have q: "fmlookup fs q = Some n" "q \<noteq> p" by (auto split: if_splits)
    from assms(1) q(1) show "clean_abs q" unfolding fs_wf_iff by blast
    have "fmlookup fs (DirOf q) = Some Dir" using assms(1) q(1) unfolding fs_wf_iff by blast
    with nochild [OF q(1)] q(2) show "fmlookup (fmdrop p fs) (DirOf q) = Some Dir" by simp
  qed
qed

lemma open_write_wf [intro]:
  "fs_wf fs \<Longrightarrow> clean_abs p \<Longrightarrow> fs_wf (fst (open_write E fs p c t))"
  by (auto simp: open_write_def parent_err_def intro: fs_wf_set_file fs_wf_upd_file
      split: option.splits node.splits)

lemma truncate_wf [intro]: "fs_wf fs \<Longrightarrow> fs_wf (fst (truncate_file E fs p n))"
  by (auto simp: truncate_file_def intro: fs_wf_set_file split: option.splits node.splits)

lemma write_at_wf [intro]: "fs_wf fs \<Longrightarrow> fs_wf (fst (write_at E fs p d off))"
  by (auto simp: write_at_def Let_def intro: fs_wf_set_file split: option.splits node.splits)

lemma WriteFile_wf [intro]:
  assumes "fs_wf fs" "clean_abs p"
  shows "fs_wf (fst (WriteFile E fs p d))"
proof -
  obtain fs1 r1 where o: "open_write E fs p True True = (fs1, r1)" by force
  then have 1: "fs_wf fs1" using open_write_wf [OF assms, of E True True] by simp
  obtain fs2 n r2 where w: "write_at E fs1 p d 0 = (fs2, n, r2)" by (metis prod.collapse)
  then have "fs_wf fs2" using write_at_wf [OF 1, of E p d 0] by simp
  with 1 o w show ?thesis by (simp add: WriteFile_def split: option.splits)
qed

lemma remove_wf [intro]: "fs_wf fs \<Longrightarrow> fs_wf (fst (remove E fs p))"
  by (auto simp: remove_def intro: fs_wf_drop_file fs_wf_drop_dir split: option.splits node.splits)

lemma rename_wf [intro]:
  assumes "fs_wf fs" "clean_abs q"
  shows "fs_wf (fst (rename E fs p q))"
proof -
  have "fs_wf (fmupd q (File c) (fmdrop p fs))"
    if "fmlookup fs p = Some (File c)" "fmlookup fs q \<noteq> Some Dir" "fmlookup fs (DirOf q) = Some Dir" for c
  proof (rule fs_wf_upd_file)
    show "fs_wf (fmdrop p fs)" using assms(1) that(1) by (rule fs_wf_drop_file)
  qed (use that assms(2) in auto)
  then show ?thesis using assms(1)
    by (auto simp: rename_def parent_err_def split: option.splits node.splits)
qed

section \<open>The working directory\<close>

text \<open>What the sources rely on of \<^verbatim>\<open>os.Getwd\<close>: an absolute clean path without parent elements.\<close>

definition env_ok :: "osenv \<Rightarrow> bool" where
  "env_ok E \<longleftrightarrow> (case cwd E of Inl _ \<Rightarrow> True | Inr d \<Rightarrow> clean_abs d \<and> dotdot_free d)"

end
