(* ===== verification/Json.thy ===== *)
theory Json
  imports GoLib "HOL-Library.Log_Nat"
begin

text \<open>
  \<^verbatim>\<open>encoding/json\<close> and \<^verbatim>\<open>encoding/base64\<close> as the two programs use
  them: a payload travels as a JSON value, the receiver decodes it into a struct. A field of
  the wrong kind makes the decoder fail, an unknown field is skipped, a missing or null field
  keeps its zero value. Field names are compared with ASCII case folding, as the package does
  after no exact match. Text is taken to be valid UTF-8 and a number to be an integer token.
\<close>

datatype json = JNull | JBool bool | JNum int | JFrac string | JStr string
  | JArr "json list" | JObj "(string \<times> json) list"

section \<open>Base64, standard alphabet with padding\<close>

definition b64_char :: "nat \<Rightarrow> char" where
  "b64_char n = (if n < 26 then char_of (65 + n) else if n < 52 then char_of (71 + n)
     else if n < 62 then char_of (n - 4) else if n = 62 then CHR ''+'' else CHR ''/'')"

definition b64_val :: "char \<Rightarrow> nat option" where
  "b64_val c = (let n = (of_char c :: nat) in
     if 65 \<le> n \<and> n \<le> 90 then Some (n - 65) else if 97 \<le> n \<and> n \<le> 122 then Some (n - 71)
     else if 48 \<le> n \<and> n \<le> 57 then Some (n + 4) else if n = 43 then Some 62
     else if n = 47 then Some 63 else None)"

abbreviation pad_char :: char where "pad_char \<equiv> CHR ''=''"

fun b64_encode :: "string \<Rightarrow> string" where
  "b64_encode [] = []"
| "b64_encode [a] = (let x = of_char a in
     [b64_char (x div 4), b64_char (x mod 4 * 16), pad_char, pad_char])"
| "b64_encode [a, b] = (let x = of_char a; y = of_char b in
     [b64_char (x div 4), b64_char (x mod 4 * 16 + y div 16), b64_char (y mod 16 * 4), pad_char])"
| "b64_encode (a # b # c # r) = (let x = of_char a; y = of_char b; z = of_char c in
     [b64_char (x div 4), b64_char (x mod 4 * 16 + y div 16),
      b64_char (y mod 16 * 4 + z div 64), b64_char (z mod 64)] @ b64_encode r)"

text \<open>Quanta of four characters; padding only in the last one, its spare bits are not checked.\<close>

fun b64_quanta :: "string \<Rightarrow> string option" where
  "b64_quanta [] = Some []"
| "b64_quanta (a # b # c # d # r) =
     (case (b64_val a, b64_val b) of
        (Some p, Some q) \<Rightarrow>
          if d = pad_char then
            (if r \<noteq> [] then None
             else if c = pad_char then Some [char_of (p * 4 + q div 16)]
             else (case b64_val c of None \<Rightarrow> None
               | Some s \<Rightarrow> Some [char_of (p * 4 + q div 16), char_of (q mod 16 * 16 + s div 4)]))
          else (case (b64_val c, b64_val d) of
              (Some s, Some t) \<Rightarrow>
                map_option (\<lambda>rest. char_of (p * 4 + q div 16) # char_of (q mod 16 * 16 + s div 4)
                    # char_of (s mod 4 * 64 + t) # rest) (b64_quanta r)
            | _ \<Rightarrow> None)
      | _ \<Rightarrow> None)"
| "b64_quanta _ = None"

definition b64_decode :: "string \<Rightarrow> string option" where
  "b64_decode s = b64_quanta (filter (\<lambda>c. c \<noteq> CHR 0x0A \<and> c \<noteq> CHR 0x0D) s)"

lemma b64_val_char [simp]: "n < 64 \<Longrightarrow> b64_val (b64_char n) = Some n"
  by (auto simp: b64_val_def b64_char_def Let_def)

lemma b64_val_special [simp]: "b64_val pad_char = None" "b64_val (CHR 0x0A) = None" "b64_val (CHR 0x0D) = None"
  by (simp_all add: b64_val_def)

lemma b64_char_neq [simp]:
  "n < 64 \<Longrightarrow> b64_char n \<noteq> pad_char" "n < 64 \<Longrightarrow> b64_char n \<noteq> CHR 0x0A" "n < 64 \<Longrightarrow> b64_char n \<noteq> CHR 0x0D"
  by (metis b64_val_char b64_val_special option.distinct(1))+

lemma byte_split [simp]:
  "(of_char c :: nat) div 4 < 64" "(of_char c :: nat) mod 4 * 16 < 64" "(of_char c :: nat) mod 16 * 4 < 64"
  "(of_char c :: nat) mod 4 * 16 + (of_char d :: nat) div 16 < 64"
  "(of_char c :: nat) mod 16 * 4 + (of_char d :: nat) div 64 < 64"
proof -
  have c: "(of_char c :: nat) < 256" and d: "(of_char d :: nat) < 256" by simp_all
  then have q: "(of_char c :: nat) div 4 < 64" "(of_char d :: nat) div 16 < 16" "(of_char d :: nat) div 64 < 4"
    by (simp_all only: less_mult_imp_div_less)
  have r: "(of_char c :: nat) mod 4 < 4" "(of_char c :: nat) mod 16 < 16" by simp_all
  show "(of_char c :: nat) div 4 < 64" by (rule q)
  show "(of_char c :: nat) mod 4 * 16 < 64" "(of_char c :: nat) mod 16 * 4 < 64"
    "(of_char c :: nat) mod 4 * 16 + (of_char d :: nat) div 16 < 64"
    "(of_char c :: nat) mod 16 * 4 + (of_char d :: nat) div 64 < 64"
    using q r by linarith+
qed

lemma byte_join:
  fixes q u v w :: nat
  shows "u < 16 \<Longrightarrow> (q * 16 + u) div 16 = q" "u < 16 \<Longrightarrow> (q * 16 + u) mod 16 = u"
    "w < 4 \<Longrightarrow> (v * 4 + w) div 4 = v" "w < 4 \<Longrightarrow> (v * 4 + w) mod 4 = w"
  by simp_all

lemma char_div_less [simp]:
  "(of_char c :: nat) div 16 < 16" "(of_char c :: nat) div 64 < 4"
proof -
  have "(of_char c :: nat) < 256" by simp
  then show "(of_char c :: nat) div 16 < 16" "(of_char c :: nat) div 64 < 4"
    by (simp_all only: less_mult_imp_div_less)
qed

lemmas b64_arith = byte_join div_mult_mod_eq char_of_char

lemma b64_quanta_encode: "b64_quanta (b64_encode s) = Some s"
  by (induction s rule: b64_encode.induct) (simp_all add: Let_def b64_arith)

lemma b64_encode_no_newline: "filter (\<lambda>c. c \<noteq> CHR 0x0A \<and> c \<noteq> CHR 0x0D) (b64_encode s) = b64_encode s"
  by (induction s rule: b64_encode.induct) (simp_all add: Let_def)

lemma b64_roundtrip [simp]: "b64_decode (b64_encode s) = Some s"
  by (simp add: b64_decode_def b64_encode_no_newline b64_quanta_encode)

section \<open>Numbers that pass through an interface value\<close>

text \<open>
  A payload is first decoded into an interface value, where every number is a 64-bit float,
  and encoded again for the typed decoding: integers beyond \<open>2 ^ 53\<close> are rounded to 53
  significant bits, half to even. (An object loses nothing here: a repeated key keeps its last
  value in both readings; keys that differ only in case are taken not to repeat.)
\<close>

definition f64_round :: "int \<Rightarrow> int" where
  "f64_round i =
     (let a = nat \<bar>i\<bar>; e = floorlog 2 a - 53; q = a div 2 ^ e; r = a mod 2 ^ e;
          up = (e > 0 \<and> (2 * r > 2 ^ e \<or> (2 * r = 2 ^ e \<and> odd q)))
      in sgn i * int ((if up then q + 1 else q) * 2 ^ e))"

fun via_interface :: "json \<Rightarrow> json" where
  "via_interface (JNum i) = JNum (f64_round i)"
| "via_interface (JArr vs) = JArr (map via_interface vs)"
| "via_interface (JObj kvs) = JObj (map (\<lambda>(k, v). (k, via_interface v)) kvs)"
| "via_interface v = v"

lemma f64_round_small:
  assumes "\<bar>i\<bar> < 2 ^ 53"
  shows "f64_round i = i"
proof -
  have "nat \<bar>i\<bar> < 2 ^ 53" using assms by (simp add: nat_less_iff)
  then have "floorlog 2 (nat \<bar>i\<bar>) \<le> 53" by (simp add: floorlog_leI)
  then show ?thesis by (simp add: f64_round_def sgn_if)
qed

end
