(* ===== verification/Protocol.thy ===== *)
theory Protocol
  imports Json
begin

text \<open>
  The wire protocol (\<^verbatim>\<open>agent/internal/protocol/types.go\<close>): message types, the
  message envelope and the payload structs, with the JSON encoding of the structs the
  controller sends and the decoding the receiver performs. The two programs declare the same
  structs; the controller's copies are these records too.
\<close>

section \<open>Message types\<close>

definition MsgExecCommand :: string where "MsgExecCommand = ''exec_command''"
definition MsgListDir :: string where "MsgListDir = ''list_dir''"
definition MsgGetFile :: string where "MsgGetFile = ''get_file''"
definition MsgSendFile :: string where "MsgSendFile = ''send_file''"
definition MsgCancelFile :: string where "MsgCancelFile = ''cancel_file''"
definition MsgScreenshot :: string where "MsgScreenshot = ''screenshot''"
definition MsgSystemInfo :: string where "MsgSystemInfo = ''system_info''"
definition MsgAuth :: string where "MsgAuth = ''auth''"
definition MsgKeepAlive :: string where "MsgKeepAlive = ''keep_alive''"
definition MsgScriptRun :: string where "MsgScriptRun = ''script_run''"
definition MsgCommandResult :: string where "MsgCommandResult = ''command_result''"
definition MsgDirContents :: string where "MsgDirContents = ''dir_contents''"
definition MsgFileChunk :: string where "MsgFileChunk = ''file_chunk''"
definition MsgFileAck :: string where "MsgFileAck = ''file_ack''"
definition MsgScreenshotData :: string where "MsgScreenshotData = ''screenshot_data''"
definition MsgSystemUpdate :: string where "MsgSystemUpdate = ''system_update''"
definition MsgError :: string where "MsgError = ''error''"
definition MsgAuthRequired :: string where "MsgAuthRequired = ''auth_required''"
definition MsgAuthOk :: string where "MsgAuthOk = ''auth_ok''"
definition MsgAgentInfo :: string where "MsgAgentInfo = ''agent_info''"

lemmas msg_types = MsgExecCommand_def MsgListDir_def MsgGetFile_def MsgSendFile_def
  MsgCancelFile_def MsgScreenshot_def MsgSystemInfo_def MsgAuth_def MsgKeepAlive_def
  MsgScriptRun_def MsgCommandResult_def MsgDirContents_def MsgFileChunk_def MsgFileAck_def
  MsgScreenshotData_def MsgSystemUpdate_def MsgError_def MsgAuthRequired_def MsgAuthOk_def
  MsgAgentInfo_def

section \<open>Envelope and payloads\<close>

record Message =
  msg_id :: string
  msg_type :: string
  msg_payload :: json
  msg_time :: int
  msg_error :: gotext

record ExecCommandPayload =
  ex_command :: string
  ex_args :: "string list"
  ex_timeout :: int
  ex_shell :: string

record ListDirPayload =
  ld_path :: string
  ld_offset :: int
  ld_limit :: int

record GetFilePayload =
  gf_path :: string
  gf_offset :: int
  gf_chunk_size :: int

record SendFilePayload =
  sf_path :: string
  sf_data :: string
  sf_offset :: int
  sf_total_size :: int
  sf_final :: bool
  sf_checksum :: string
  sf_transfer_id :: string

record CancelFilePayload =
  cf_path :: string
  cf_transfer_id :: string

record AuthPayload =
  au_token :: string
  au_username :: string

record CommandResultPayload =
  cr_stdout :: string
  cr_stderr :: string
  cr_exit_code :: int
  cr_duration :: int

record DirEntry =
  de_name :: string
  de_path :: string
  de_is_dir :: bool
  de_size :: int
  de_mode :: string
  de_mod_time :: string

record DirContentsPayload =
  dc_path :: string
  dc_entries :: "DirEntry list"
  dc_total :: int
  dc_next_offset :: int
  dc_has_more :: bool

record FileChunkPayload =
  fc_path :: string
  fc_data :: string
  fc_offset :: int
  fc_total_size :: int
  fc_final :: bool
  fc_checksum :: string

text \<open>The acknowledgement as the controller reads it; \<open>committed\<close> is a pointer there.\<close>

record fileAckPayload =
  fa_path :: string
  fa_offset :: int
  fa_final :: bool
  fa_committed :: "bool option"

record ScreenshotDataPayload =
  sd_format :: string
  sd_data :: string
  sd_width :: int
  sd_height :: int

section \<open>Decoding a struct\<close>

definition key_is :: "string \<Rightarrow> string \<Rightarrow> bool" where
  "key_is k name \<longleftrightarrow> ToLower k = ToLower name"

text \<open>Field decoders: the old value (kept on null), the JSON value, and the new value.\<close>

fun dec_string :: "string \<Rightarrow> json \<Rightarrow> string option" where
  "dec_string old (JStr s) = Some s"
| "dec_string old JNull = Some old"
| "dec_string old _ = None"

fun dec_int :: "int \<Rightarrow> json \<Rightarrow> int option" where
  "dec_int old (JNum i) = (if int64_ok i then Some i else None)"
| "dec_int old JNull = Some old"
| "dec_int old _ = None"

fun dec_bool :: "bool \<Rightarrow> json \<Rightarrow> bool option" where
  "dec_bool old (JBool b) = Some b"
| "dec_bool old JNull = Some old"
| "dec_bool old _ = None"

fun dec_list :: "(json \<Rightarrow> 'a option) \<Rightarrow> json list \<Rightarrow> 'a list option" where
  "dec_list f [] = Some []"
| "dec_list f (v # vs) = (case f v of None \<Rightarrow> None | Some x \<Rightarrow> map_option ((#) x) (dec_list f vs))"

fun dec_strings :: "string list \<Rightarrow> json \<Rightarrow> string list option" where
  "dec_strings old (JArr vs) = dec_list (dec_string []) vs"
| "dec_strings old JNull = Some []"
| "dec_strings old _ = None"

fun dec_byte :: "json \<Rightarrow> char option" where
  "dec_byte (JNum i) = (if 0 \<le> i \<and> i < 256 then Some (char_of (nat i)) else None)"
| "dec_byte JNull = Some (CHR 0x00)"
| "dec_byte _ = None"

text \<open>A byte slice is base64 text, or an array of numbers.\<close>

fun dec_bytes :: "string \<Rightarrow> json \<Rightarrow> string option" where
  "dec_bytes old (JStr s) = b64_decode s"
| "dec_bytes old (JArr vs) = dec_list dec_byte vs"
| "dec_bytes old JNull = Some []"
| "dec_bytes old _ = None"

fun dec_bool_ptr :: "bool option \<Rightarrow> json \<Rightarrow> bool option option" where
  "dec_bool_ptr old (JBool b) = Some (Some b)"
| "dec_bool_ptr old JNull = Some None"
| "dec_bool_ptr old _ = None"

text \<open>The fields of an object are decoded in order; any field that fails makes the call fail.\<close>

fun decode_fields :: "(string \<Rightarrow> json \<Rightarrow> 'r \<Rightarrow> 'r option) \<Rightarrow> (string \<times> json) list \<Rightarrow> 'r \<Rightarrow> 'r option" where
  "decode_fields step [] r = Some r"
| "decode_fields step ((k, v) # kvs) r = Option.bind (step k v r) (decode_fields step kvs)"

definition Unmarshal :: "(string \<Rightarrow> json \<Rightarrow> 'r \<Rightarrow> 'r option) \<Rightarrow> 'r \<Rightarrow> json \<Rightarrow> 'r option" where
  "Unmarshal step zero v = (case v of JNull \<Rightarrow> Some zero
     | JObj kvs \<Rightarrow> decode_fields step kvs zero | _ \<Rightarrow> None)"

definition auth_field :: "string \<Rightarrow> json \<Rightarrow> AuthPayload \<Rightarrow> AuthPayload option" where
  "auth_field k v r =
     (if key_is k ''token'' then map_option (\<lambda>x. r\<lparr>au_token := x\<rparr>) (dec_string (au_token r) v)
      else if key_is k ''username'' then map_option (\<lambda>x. r\<lparr>au_username := x\<rparr>) (dec_string (au_username r) v)
      else Some r)"

definition decode_auth :: "json \<Rightarrow> AuthPayload option" where
  "decode_auth = Unmarshal auth_field \<lparr>au_token = [], au_username = []\<rparr>"

definition exec_field :: "string \<Rightarrow> json \<Rightarrow> ExecCommandPayload \<Rightarrow> ExecCommandPayload option" where
  "exec_field k v r =
     (if key_is k ''command'' then map_option (\<lambda>x. r\<lparr>ex_command := x\<rparr>) (dec_string (ex_command r) v)
      else if key_is k ''args'' then map_option (\<lambda>x. r\<lparr>ex_args := x\<rparr>) (dec_strings (ex_args r) v)
      else if key_is k ''timeout'' then map_option (\<lambda>x. r\<lparr>ex_timeout := x\<rparr>) (dec_int (ex_timeout r) v)
      else if key_is k ''shell'' then map_option (\<lambda>x. r\<lparr>ex_shell := x\<rparr>) (dec_string (ex_shell r) v)
      else Some r)"

definition decode_exec :: "json \<Rightarrow> ExecCommandPayload option" where
  "decode_exec = Unmarshal exec_field \<lparr>ex_command = [], ex_args = [], ex_timeout = 0, ex_shell = []\<rparr>"

definition list_dir_field :: "string \<Rightarrow> json \<Rightarrow> ListDirPayload \<Rightarrow> ListDirPayload option" where
  "list_dir_field k v r =
     (if key_is k ''path'' then map_option (\<lambda>x. r\<lparr>ld_path := x\<rparr>) (dec_string (ld_path r) v)
      else if key_is k ''offset'' then map_option (\<lambda>x. r\<lparr>ld_offset := x\<rparr>) (dec_int (ld_offset r) v)
      else if key_is k ''limit'' then map_option (\<lambda>x. r\<lparr>ld_limit := x\<rparr>) (dec_int (ld_limit r) v)
      else Some r)"

definition decode_list_dir :: "json \<Rightarrow> ListDirPayload option" where
  "decode_list_dir = Unmarshal list_dir_field \<lparr>ld_path = [], ld_offset = 0, ld_limit = 0\<rparr>"

definition get_file_field :: "string \<Rightarrow> json \<Rightarrow> GetFilePayload \<Rightarrow> GetFilePayload option" where
  "get_file_field k v r =
     (if key_is k ''path'' then map_option (\<lambda>x. r\<lparr>gf_path := x\<rparr>) (dec_string (gf_path r) v)
      else if key_is k ''offset'' then map_option (\<lambda>x. r\<lparr>gf_offset := x\<rparr>) (dec_int (gf_offset r) v)
      else if key_is k ''chunk_size'' then map_option (\<lambda>x. r\<lparr>gf_chunk_size := x\<rparr>) (dec_int (gf_chunk_size r) v)
      else Some r)"

definition decode_get_file :: "json \<Rightarrow> GetFilePayload option" where
  "decode_get_file = Unmarshal get_file_field \<lparr>gf_path = [], gf_offset = 0, gf_chunk_size = 0\<rparr>"

definition send_file_field :: "string \<Rightarrow> json \<Rightarrow> SendFilePayload \<Rightarrow> SendFilePayload option" where
  "send_file_field k v r =
     (if key_is k ''path'' then map_option (\<lambda>x. r\<lparr>sf_path := x\<rparr>) (dec_string (sf_path r) v)
      else if key_is k ''data'' then map_option (\<lambda>x. r\<lparr>sf_data := x\<rparr>) (dec_bytes (sf_data r) v)
      else if key_is k ''offset'' then map_option (\<lambda>x. r\<lparr>sf_offset := x\<rparr>) (dec_int (sf_offset r) v)
      else if key_is k ''total_size'' then map_option (\<lambda>x. r\<lparr>sf_total_size := x\<rparr>) (dec_int (sf_total_size r) v)
      else if key_is k ''final'' then map_option (\<lambda>x. r\<lparr>sf_final := x\<rparr>) (dec_bool (sf_final r) v)
      else if key_is k ''checksum'' then map_option (\<lambda>x. r\<lparr>sf_checksum := x\<rparr>) (dec_string (sf_checksum r) v)
      else if key_is k ''transfer_id'' then map_option (\<lambda>x. r\<lparr>sf_transfer_id := x\<rparr>) (dec_string (sf_transfer_id r) v)
      else Some r)"

definition decode_send_file :: "json \<Rightarrow> SendFilePayload option" where
  "decode_send_file = Unmarshal send_file_field
     \<lparr>sf_path = [], sf_data = [], sf_offset = 0, sf_total_size = 0, sf_final = False,
      sf_checksum = [], sf_transfer_id = []\<rparr>"

definition cancel_file_field :: "string \<Rightarrow> json \<Rightarrow> CancelFilePayload \<Rightarrow> CancelFilePayload option" where
  "cancel_file_field k v r =
     (if key_is k ''path'' then map_option (\<lambda>x. r\<lparr>cf_path := x\<rparr>) (dec_string (cf_path r) v)
      else if key_is k ''transfer_id'' then map_option (\<lambda>x. r\<lparr>cf_transfer_id := x\<rparr>) (dec_string (cf_transfer_id r) v)
      else Some r)"

definition decode_cancel_file :: "json \<Rightarrow> CancelFilePayload option" where
  "decode_cancel_file = Unmarshal cancel_file_field \<lparr>cf_path = [], cf_transfer_id = []\<rparr>"

definition file_chunk_field :: "string \<Rightarrow> json \<Rightarrow> FileChunkPayload \<Rightarrow> FileChunkPayload option" where
  "file_chunk_field k v r =
     (if key_is k ''path'' then map_option (\<lambda>x. r\<lparr>fc_path := x\<rparr>) (dec_string (fc_path r) v)
      else if key_is k ''data'' then map_option (\<lambda>x. r\<lparr>fc_data := x\<rparr>) (dec_bytes (fc_data r) v)
      else if key_is k ''offset'' then map_option (\<lambda>x. r\<lparr>fc_offset := x\<rparr>) (dec_int (fc_offset r) v)
      else if key_is k ''total_size'' then map_option (\<lambda>x. r\<lparr>fc_total_size := x\<rparr>) (dec_int (fc_total_size r) v)
      else if key_is k ''final'' then map_option (\<lambda>x. r\<lparr>fc_final := x\<rparr>) (dec_bool (fc_final r) v)
      else if key_is k ''checksum'' then map_option (\<lambda>x. r\<lparr>fc_checksum := x\<rparr>) (dec_string (fc_checksum r) v)
      else Some r)"

definition decode_file_chunk :: "json \<Rightarrow> FileChunkPayload option" where
  "decode_file_chunk = Unmarshal file_chunk_field
     \<lparr>fc_path = [], fc_data = [], fc_offset = 0, fc_total_size = 0, fc_final = False, fc_checksum = []\<rparr>"

definition file_ack_field :: "string \<Rightarrow> json \<Rightarrow> fileAckPayload \<Rightarrow> fileAckPayload option" where
  "file_ack_field k v r =
     (if key_is k ''path'' then map_option (\<lambda>x. r\<lparr>fa_path := x\<rparr>) (dec_string (fa_path r) v)
      else if key_is k ''offset'' then map_option (\<lambda>x. r\<lparr>fa_offset := x\<rparr>) (dec_int (fa_offset r) v)
      else if key_is k ''final'' then map_option (\<lambda>x. r\<lparr>fa_final := x\<rparr>) (dec_bool (fa_final r) v)
      else if key_is k ''committed'' then map_option (\<lambda>x. r\<lparr>fa_committed := x\<rparr>) (dec_bool_ptr (fa_committed r) v)
      else Some r)"

definition decode_file_ack :: "json \<Rightarrow> fileAckPayload option" where
  "decode_file_ack = Unmarshal file_ack_field
     \<lparr>fa_path = [], fa_offset = 0, fa_final = False, fa_committed = None\<rparr>"

section \<open>Encoding a struct\<close>

text \<open>A field marked \<^verbatim>\<open>omitempty\<close> is left out when it has its zero value.\<close>

definition omit :: "bool \<Rightarrow> string \<Rightarrow> json \<Rightarrow> (string \<times> json) list" where
  "omit zero k v = (if zero then [] else [(k, v)])"

definition encode_get_file :: "GetFilePayload \<Rightarrow> json" where
  "encode_get_file r = JObj ([(''path'', JStr (gf_path r))]
     @ omit (gf_offset r = 0) ''offset'' (JNum (gf_offset r))
     @ omit (gf_chunk_size r = 0) ''chunk_size'' (JNum (gf_chunk_size r)))"

definition encode_send_file :: "SendFilePayload \<Rightarrow> json" where
  "encode_send_file r = JObj ([(''path'', JStr (sf_path r))]
     @ omit (sf_data r = []) ''data'' (JStr (b64_encode (sf_data r)))
     @ omit (sf_offset r = 0) ''offset'' (JNum (sf_offset r))
     @ omit (sf_total_size r = 0) ''total_size'' (JNum (sf_total_size r))
     @ omit (\<not> sf_final r) ''final'' (JBool (sf_final r))
     @ omit (sf_checksum r = []) ''checksum'' (JStr (sf_checksum r))
     @ omit (sf_transfer_id r = []) ''transfer_id'' (JStr (sf_transfer_id r)))"

definition encode_cancel_file :: "CancelFilePayload \<Rightarrow> json" where
  "encode_cancel_file r = JObj [(''path'', JStr (cf_path r)), (''transfer_id'', JStr (cf_transfer_id r))]"

definition encode_auth :: "AuthPayload \<Rightarrow> json" where
  "encode_auth r = JObj ([(''token'', JStr (au_token r))]
     @ omit (au_username r = []) ''username'' (JStr (au_username r)))"

definition encode_file_chunk :: "FileChunkPayload \<Rightarrow> json" where
  "encode_file_chunk r = JObj ([(''path'', JStr (fc_path r)), (''data'', JStr (b64_encode (fc_data r))),
       (''offset'', JNum (fc_offset r))]
     @ omit (fc_total_size r = 0) ''total_size'' (JNum (fc_total_size r))
     @ [(''final'', JBool (fc_final r))]
     @ omit (fc_checksum r = []) ''checksum'' (JStr (fc_checksum r)))"

definition encode_dir_entry :: "DirEntry \<Rightarrow> json" where
  "encode_dir_entry r = JObj [(''name'', JStr (de_name r)), (''path'', JStr (de_path r)),
     (''is_dir'', JBool (de_is_dir r)), (''size'', JNum (de_size r)), (''mode'', JStr (de_mode r)),
     (''mod_time'', JStr (de_mod_time r))]"

definition encode_dir_contents :: "DirContentsPayload \<Rightarrow> json" where
  "encode_dir_contents r = JObj [(''path'', JStr (dc_path r)),
     (''entries'', JArr (map encode_dir_entry (dc_entries r))), (''total'', JNum (dc_total r)),
     (''next_offset'', JNum (dc_next_offset r)), (''has_more'', JBool (dc_has_more r))]"

definition encode_command_result :: "CommandResultPayload \<Rightarrow> json" where
  "encode_command_result r = JObj [(''stdout'', JStr (cr_stdout r)), (''stderr'', JStr (cr_stderr r)),
     (''exit_code'', JNum (cr_exit_code r)), (''duration_ms'', JNum (cr_duration r))]"

definition encode_screenshot :: "ScreenshotDataPayload \<Rightarrow> json" where
  "encode_screenshot r = JObj [(''format'', JStr (sd_format r)), (''data'', JStr (b64_encode (sd_data r))),
     (''width'', JNum (sd_width r)), (''height'', JNum (sd_height r))]"

section \<open>Round trips\<close>

lemma key_is_simps [simp]:
  "key_is ''path'' ''path''" "key_is ''data'' ''data''" "key_is ''offset'' ''offset''"
  "key_is ''total_size'' ''total_size''" "key_is ''final'' ''final''" "key_is ''checksum'' ''checksum''"
  "key_is ''transfer_id'' ''transfer_id''" "key_is ''chunk_size'' ''chunk_size''"
  "key_is ''token'' ''token''" "key_is ''username'' ''username''" "key_is ''committed'' ''committed''"
  by (simp_all add: key_is_def)

lemma key_is_not [simp]:
  "\<not> key_is ''data'' ''path''" "\<not> key_is ''offset'' ''path''" "\<not> key_is ''offset'' ''data''"
  "\<not> key_is ''total_size'' ''path''" "\<not> key_is ''total_size'' ''data''" "\<not> key_is ''total_size'' ''offset''"
  "\<not> key_is ''final'' ''path''" "\<not> key_is ''final'' ''data''" "\<not> key_is ''final'' ''offset''"
  "\<not> key_is ''final'' ''total_size''"
  "\<not> key_is ''checksum'' ''path''" "\<not> key_is ''checksum'' ''data''" "\<not> key_is ''checksum'' ''offset''"
  "\<not> key_is ''checksum'' ''total_size''" "\<not> key_is ''checksum'' ''final''"
  "\<not> key_is ''transfer_id'' ''path''" "\<not> key_is ''transfer_id'' ''data''" "\<not> key_is ''transfer_id'' ''offset''"
  "\<not> key_is ''transfer_id'' ''total_size''" "\<not> key_is ''transfer_id'' ''final''"
  "\<not> key_is ''transfer_id'' ''checksum''"
  "\<not> key_is ''chunk_size'' ''path''" "\<not> key_is ''chunk_size'' ''offset''"
  "\<not> key_is ''username'' ''token''"
  "\<not> key_is ''committed'' ''path''" "\<not> key_is ''committed'' ''offset''" "\<not> key_is ''committed'' ''final''"
  "\<not> key_is ''canceled'' ''path''" "\<not> key_is ''canceled'' ''offset''" "\<not> key_is ''canceled'' ''final''"
  "\<not> key_is ''canceled'' ''committed''"
  by (simp_all add: key_is_def ToLower_def lower_char_def)

lemma decode_encode_get_file [simp]:
  "int64_ok (gf_offset r) \<Longrightarrow> int64_ok (gf_chunk_size r) \<Longrightarrow> decode_get_file (encode_get_file r) = Some r"
  by (simp add: decode_get_file_def encode_get_file_def Unmarshal_def omit_def get_file_field_def)

lemma decode_encode_send_file [simp]:
  "int64_ok (sf_offset r) \<Longrightarrow> int64_ok (sf_total_size r) \<Longrightarrow> decode_send_file (encode_send_file r) = Some r"
  by (simp add: decode_send_file_def encode_send_file_def Unmarshal_def omit_def send_file_field_def)

lemma decode_encode_cancel_file [simp]: "decode_cancel_file (encode_cancel_file r) = Some r"
  by (simp add: decode_cancel_file_def encode_cancel_file_def Unmarshal_def cancel_file_field_def)

lemma decode_encode_auth [simp]: "decode_auth (encode_auth r) = Some r"
  by (simp add: decode_auth_def encode_auth_def Unmarshal_def omit_def auth_field_def)

lemma decode_encode_file_chunk [simp]:
  "int64_ok (fc_offset r) \<Longrightarrow> int64_ok (fc_total_size r) \<Longrightarrow> decode_file_chunk (encode_file_chunk r) = Some r"
  by (simp add: decode_file_chunk_def encode_file_chunk_def Unmarshal_def omit_def file_chunk_field_def)

end
