(* ===== verification/Sha256.thy ===== *)
theory Sha256
  imports GoLib "HOL-Library.Word"
begin

text \<open>
  \<^verbatim>\<open>crypto/sha256\<close> and \<^verbatim>\<open>encoding/hex\<close>: the digest by which a
  transfer is verified at both ends (FIPS 180-4, on 32-bit words), and its lower-case
  hexadecimal text.
\<close>

unbundle bit_operations_syntax

type_synonym w32 = "32 word"

text \<open>
  The round constants and the initial state are, by their definition, the first 32 bits of the
  fractional parts of the cube roots of the first 64 primes and of the square roots of the
  first 8. They are computed here from that definition: \<open>iroot k b r n\<close> adds bits below
  \<open>2 ^ b\<close> to \<open>r\<close> as long as its \<open>k\<close>-th power stays at most \<open>n\<close>.
\<close>

fun iroot :: "nat \<Rightarrow> nat \<Rightarrow> nat \<Rightarrow> nat \<Rightarrow> nat" where
  "iroot k 0 r n = r"
| "iroot k (Suc b) r n = iroot k b (if (r + 2 ^ b) ^ k \<le> n then r + 2 ^ b else r) n"

definition primes_below :: "nat \<Rightarrow> nat list" where
  "primes_below m = filter (\<lambda>n. list_all (\<lambda>d. n mod d \<noteq> 0) [2..<n]) [2..<m]"

definition K256 :: "w32 list" where
  "K256 = map (\<lambda>p. of_nat (iroot 3 35 0 (p * 2 ^ 96))) (primes_below 312)"

definition H256 :: "w32 list" where
  "H256 = map (\<lambda>p. of_nat (iroot 2 35 0 (p * 2 ^ 64))) (primes_below 20)"

definition be32 :: "w32 list \<Rightarrow> w32" where
  "be32 bs = foldl (\<lambda>a b. push_bit 8 a OR b) 0 bs"

fun words_of :: "w32 list \<Rightarrow> w32 list" where
  "words_of (a # b # c # d # r) = be32 [a, b, c, d] # words_of r"
| "words_of _ = []"

definition word_bytes :: "w32 \<Rightarrow> string" where
  "word_bytes w = map (\<lambda>n. char_of (unat (drop_bit n w AND 255))) [24, 16, 8, 0]"

text \<open>Padding: a one bit, zeros, and the length in bits as 64 bits, to a multiple of 64 bytes.\<close>

definition pad :: "string \<Rightarrow> w32 list" where
  "pad m = (let n = length m; z = (119 - n mod 64) mod 64; bits = 8 * n
     in map of_char m @ [0x80] @ replicate z 0 @
        map (\<lambda>k. of_nat (bits div 2 ^ k mod 256)) [56, 48, 40, 32, 24, 16, 8, 0])"

definition sigma0 :: "w32 \<Rightarrow> w32" where
  "sigma0 x = word_rotr 7 x XOR word_rotr 18 x XOR drop_bit 3 x"

definition sigma1 :: "w32 \<Rightarrow> w32" where
  "sigma1 x = word_rotr 17 x XOR word_rotr 19 x XOR drop_bit 10 x"

text \<open>The message schedule, latest word first.\<close>

fun schedule :: "nat \<Rightarrow> w32 list \<Rightarrow> w32 list" where
  "schedule 0 ws = ws"
| "schedule (Suc n) ws =
     schedule n ((sigma1 (ws ! 1) + ws ! 6 + sigma0 (ws ! 14) + ws ! 15) # ws)"

type_synonym hstate = "w32 \<times> w32 \<times> w32 \<times> w32 \<times> w32 \<times> w32 \<times> w32 \<times> w32"

fun sha_round :: "hstate \<Rightarrow> w32 \<times> w32 \<Rightarrow> hstate" where
  "sha_round (a, b, c, d, e, f, g, h) (k, w) =
     (let s1 = word_rotr 6 e XOR word_rotr 11 e XOR word_rotr 25 e;
          ch = (e AND f) XOR (NOT e AND g);
          t1 = h + s1 + ch + k + w;
          s0 = word_rotr 2 a XOR word_rotr 13 a XOR word_rotr 22 a;
          maj = (a AND b) XOR (a AND c) XOR (b AND c);
          t2 = s0 + maj
      in (t1 + t2, a, b, c, d + t1, e, f, g))"

fun add_state :: "hstate \<Rightarrow> hstate \<Rightarrow> hstate" where
  "add_state (a, b, c, d, e, f, g, h) (a', b', c', d', e', f', g', h') =
     (a + a', b + b', c + c', d + d', e + e', f + f', g + g', h + h')"

definition compress :: "hstate \<Rightarrow> w32 list \<Rightarrow> hstate" where
  "compress st block =
     add_state st (foldl sha_round st (zip K256 (rev (schedule 48 (rev block)))))"

fun run_blocks :: "nat \<Rightarrow> hstate \<Rightarrow> w32 list \<Rightarrow> hstate" where
  "run_blocks 0 st ws = st"
| "run_blocks (Suc n) st ws = run_blocks n (compress st (take 16 ws)) (drop 16 ws)"

definition init_state :: hstate where
  "init_state = (H256 ! 0, H256 ! 1, H256 ! 2, H256 ! 3, H256 ! 4, H256 ! 5, H256 ! 6, H256 ! 7)"

fun state_bytes :: "hstate \<Rightarrow> string" where
  "state_bytes (a, b, c, d, e, f, g, h) = concat (map word_bytes [a, b, c, d, e, f, g, h])"

definition sha256 :: "string \<Rightarrow> string" where
  "sha256 m = (let ws = words_of (pad m) in state_bytes (run_blocks (length ws div 16) init_state ws))"

definition hex_digit :: "nat \<Rightarrow> char" where
  "hex_digit n = (if n < 10 then char_of (48 + n) else char_of (87 + n))"

definition hex_encode :: "string \<Rightarrow> string" where
  "hex_encode s = concat (map (\<lambda>c. let n = of_char c in [hex_digit (n div 16), hex_digit (n mod 16)]) s)"

definition sha256_hex :: "string \<Rightarrow> string" where
  "sha256_hex m = hex_encode (sha256 m)"

lemma length_sha256 [simp]: "length (sha256 m) = 32"
proof -
  have "length (state_bytes st) = 32" for st
    by (cases st rule: state_bytes.cases) (simp add: word_bytes_def)
  then show ?thesis by (simp add: sha256_def Let_def)
qed

lemma length_hex_encode [simp]: "length (hex_encode s) = 2 * length s"
  by (induction s) (simp_all add: hex_encode_def Let_def)

lemma length_sha256_hex [simp]: "length (sha256_hex m) = 64"
  by (simp add: sha256_hex_def)

lemma sha256_hex_nonempty [simp]: "sha256_hex m \<noteq> []"
  using length_sha256_hex [of m] by fastforce

lemma hex_digit_range:
  assumes "n < 16"
  shows "33 \<le> (of_char (hex_digit n) :: nat) \<and> (of_char (hex_digit n) :: nat) < 127"
  using assms by (simp add: hex_digit_def)

lemma graphic_hex_encode [simp]: "graphic (hex_encode s)"
proof (induction s)
  case Nil
  show ?case by (simp add: hex_encode_def graphic_def)
next
  case (Cons c s)
  have "(of_char c :: nat) < 256" by simp
  then have "(of_char c :: nat) div 16 < 16" by (simp only: less_mult_imp_div_less)
  moreover have "(of_char c :: nat) mod 16 < 16" by simp
  ultimately show ?case using Cons hex_digit_range
    by (auto simp: hex_encode_def graphic_def Let_def)
qed

lemma graphic_sha256_hex [simp]: "graphic (sha256_hex m)"
  by (simp add: sha256_hex_def)

end
