(* ===== verification/Filesystem.thy ===== *)
theory Filesystem
  imports OsModel Protocol Sha256
begin

text \<open>
  The agent's file operations (\<^verbatim>\<open>agent/internal/filesystem/fs.go\<close>): path
  validation, paged directory listing, chunked reads and writes, and the atomic upload that
  collects chunks in a temporary file and replaces the target only after the size and the
  SHA-256 digest have been checked. An operation takes the environment and the tree and
  returns the tree and its error.
\<close>

definition DefaultChunkSize :: int where "DefaultChunkSize = 64 * 1024"
definition DefaultDirEntries :: int where "DefaultDirEntries = 50"
definition MaxDirEntries :: int where "MaxDirEntries = 1000"
definition MaxChunkSize :: int where "MaxChunkSize = 4 * 1024 * 1024"

definition ErrPathTraversal :: goerr where
  "ErrPathTraversal = lit ''path traversal detected''"

section \<open>Path validation\<close>

definition safePath :: "osenv \<Rightarrow> string \<Rightarrow> string result" where
  "safePath E path =
     (if list_ex (\<lambda>element. element = ''..'') (FieldsFunc path is_sep)
      then Inl (Sprintf ''%w: %q contains \"..\"'' [GErr ErrPathTraversal, GStr path])
      else let cleaned = Clean path
           in if \<not> IsAbs cleaned
              then (case AbsPath (cwd E) cleaned of
                  Inl err \<Rightarrow> Inl (Sprintf ''cannot resolve path %q: %w'' [GStr path, GErr err])
                | Inr absolute \<Rightarrow> Inr absolute)
              else Inr cleaned)"

section \<open>Directory listing\<close>

text \<open>An entry whose \<^verbatim>\<open>Info\<close> fails is left out of the page.\<close>

definition dir_entry :: "osenv \<Rightarrow> fsys \<Rightarrow> string \<Rightarrow> path \<Rightarrow> DirEntry option" where
  "dir_entry E fs safe q =
     (case (fault E SInfo q, fmlookup fs q) of
        (None, Some nd) \<Rightarrow> Some \<lparr>de_name = Base q, de_path = JoinPath [safe, Base q],
          de_is_dir = is_dir nd, de_size = node_size E q nd, de_mode = mode_str E q,
          de_mod_time = time_str E (mod_time E q)\<rparr>
      | _ \<Rightarrow> None)"

definition ListDir :: "osenv \<Rightarrow> fsys \<Rightarrow> string \<Rightarrow> int \<Rightarrow> int \<Rightarrow> DirContentsPayload result" where
  "ListDir E fs path offset limit =
     (case safePath E path of Inl err \<Rightarrow> Inl err | Inr safe \<Rightarrow>
      if offset < 0 then Inl (Sprintf ''invalid offset %d'' [GInt offset])
      else case stat E fs safe of
        Inl err \<Rightarrow> Inl (Sprintf ''cannot access %q: %w'' [GStr safe, GOs err])
      | Inr info \<Rightarrow>
        if \<not> is_dir info then Inl (Sprintf ''%q is not a directory'' [GStr safe])
        else case read_dir E fs safe of
          Inl err \<Rightarrow> Inl (Sprintf ''cannot read directory %q: %w'' [GStr safe, GOs err])
        | Inr entries \<Rightarrow>
          let limit1 = (if limit \<le> 0 then DefaultDirEntries else limit);
              limit2 = (if limit1 > MaxDirEntries then MaxDirEntries else limit1);
              total = int (length entries);
              start = (if offset > total then total else offset);
              end0 = start + limit2;
              end1 = (if end0 > total then total else end0);
              page = take (nat (end1 - start)) (drop (nat start) entries)
          in Inr \<lparr>dc_path = safe, dc_entries = List.map_filter (dir_entry E fs safe) page,
                  dc_total = total, dc_next_offset = end1, dc_has_more = end1 < total\<rparr>)"

section \<open>Reading a chunk\<close>

text \<open>The result is the data, the file size and the error, as the code returns them.\<close>

definition ReadFileChunk ::
  "osenv \<Rightarrow> fsys \<Rightarrow> string \<Rightarrow> int \<Rightarrow> int \<Rightarrow> bytes \<times> int \<times> goerr option" where
  "ReadFileChunk E fs path offset chunkSize =
     (if offset < 0 then ([], 0, Some (Sprintf ''invalid offset %d'' [GInt offset]))
      else case safePath E path of Inl err \<Rightarrow> ([], 0, Some err) | Inr safe \<Rightarrow>
      let chunk1 = (if chunkSize \<le> 0 then DefaultChunkSize else chunkSize)
      in case open_read E fs safe of
        Inl err \<Rightarrow> ([], 0, Some (Sprintf ''cannot open %q: %w'' [GStr safe, GOs err]))
      | Inr f \<Rightarrow> (case fault E SFstat safe of
          Some err \<Rightarrow> ([], 0, Some (Sprintf ''cannot stat %q: %w'' [GStr safe, GOs err]))
        | None \<Rightarrow>
          let fileSize = node_size E safe f
          in if offset > fileSize
             then ([], fileSize, Some (Sprintf ''offset %d beyond file size %d'' [GInt offset, GInt fileSize]))
             else if offset = fileSize
             then (if fileSize = 0 then ([], fileSize, None)
                   else ([], fileSize, Some (Sprintf ''offset %d beyond file size %d'' [GInt offset, GInt fileSize])))
             else let remaining = fileSize - offset;
                      chunk2 = (if chunk1 > remaining then remaining else chunk1)
                  in case read_at E f safe (nat offset) (nat chunk2) of
                       (buf, Some err) \<Rightarrow>
                         if buf = [] then ([], fileSize, Some (Sprintf ''read error at offset %d: %w'' [GInt offset, GOs err]))
                         else (buf, fileSize, None)
                     | (buf, None) \<Rightarrow> (buf, fileSize, None)))"

section \<open>Writing a chunk in place\<close>

text \<open>Extending a file that is shorter than the offset of the chunk.\<close>

definition pad_to_offset :: "osenv \<Rightarrow> fsys \<Rightarrow> path \<Rightarrow> int \<Rightarrow> fsys \<times> goerr option" where
  "pad_to_offset E fs safe offset =
     (if offset > 0 then
        (case fault E SFstat safe of
           Some err \<Rightarrow> (fs, Some (Sprintf ''cannot stat %q: %w'' [GStr safe, GOs err]))
         | None \<Rightarrow>
           if offset > (case fmlookup fs safe of Some nd \<Rightarrow> node_size E safe nd | None \<Rightarrow> 0)
           then (case truncate_file E fs safe (nat offset) of
               (fs1, Some err) \<Rightarrow> (fs1, Some (Sprintf ''cannot extend file %q: %w'' [GStr safe, GOs err]))
             | (fs1, None) \<Rightarrow> (fs1, None))
           else (fs, None))
      else (fs, None))"

definition WriteFileChunk ::
  "osenv \<Rightarrow> fsys \<Rightarrow> string \<Rightarrow> bytes \<Rightarrow> int \<Rightarrow> fsys \<times> goerr option" where
  "WriteFileChunk E fs path data offset =
     (if offset < 0 then (fs, Some (Sprintf ''invalid offset %d'' [GInt offset]))
      else case safePath E path of Inl err \<Rightarrow> (fs, Some err) | Inr safe \<Rightarrow>
      (case open_write E fs safe True (offset = 0) of
         (fs1, Some err) \<Rightarrow> (fs1, Some (Sprintf ''cannot open %q for writing: %w'' [GStr safe, GOs err]))
       | (fs1, None) \<Rightarrow>
         (case pad_to_offset E fs1 safe offset of
            (fs2, Some err) \<Rightarrow> (fs2, Some err)
          | (fs2, None) \<Rightarrow>
            (case write_at E fs2 safe data (nat offset) of
               (fs3, n, Some err) \<Rightarrow> (fs3, Some (Sprintf ''write error at offset %d: %w'' [GInt offset, GOs err]))
             | (fs3, n, None) \<Rightarrow>
               if n \<noteq> length data
               then (fs3, Some (Sprintf ''short write: wrote %d of %d bytes'' [GInt (int n), GInt (int (length data))]))
               else (fs3, None)))))"

section \<open>Checksums, sizes, existence\<close>

definition FileSHA256 :: "osenv \<Rightarrow> fsys \<Rightarrow> string \<Rightarrow> string result" where
  "FileSHA256 E fs path =
     (case safePath E path of Inl err \<Rightarrow> Inl err | Inr safe \<Rightarrow>
      (case open_read E fs safe of
         Inl err \<Rightarrow> Inl (Sprintf ''cannot open %q for checksum: %w'' [GStr safe, GOs err])
       | Inr f \<Rightarrow> (case read_all E f safe of
           Inl err \<Rightarrow> Inl (Sprintf ''cannot checksum %q: %w'' [GStr safe, GOs err])
         | Inr content \<Rightarrow> Inr (sha256_hex content))))"

definition FileSize :: "osenv \<Rightarrow> fsys \<Rightarrow> string \<Rightarrow> int result" where
  "FileSize E fs path =
     (case safePath E path of Inl err \<Rightarrow> Inl err | Inr safe \<Rightarrow>
      (case stat E fs safe of
         Inl err \<Rightarrow> Inl (Sprintf ''cannot stat %q: %w'' [GStr safe, GOs err])
       | Inr fi \<Rightarrow> Inr (node_size E safe fi)))"

definition PathExists :: "osenv \<Rightarrow> fsys \<Rightarrow> string \<Rightarrow> bool \<Rightarrow> bool result" where
  "PathExists E fs path mustBeDir =
     (case safePath E path of Inl err \<Rightarrow> Inl err | Inr safe \<Rightarrow>
      (case stat E fs safe of
         Inl err \<Rightarrow> if err = ENOENT then Inr False
                    else Inl (Sprintf ''cannot access %q: %w'' [GStr safe, GOs err])
       | Inr fi \<Rightarrow> if mustBeDir \<and> \<not> is_dir fi then Inl (Sprintf ''%q is not a directory'' [GStr safe])
                   else Inr True))"

section \<open>Atomic upload\<close>

definition upload_temp :: "path \<Rightarrow> string \<Rightarrow> path" where
  "upload_temp safe transferID =
     JoinPath [DirOf safe, ''.lan-commander-upload-'' @ transferID @ ''.part'']"

definition upload_meta :: "path \<Rightarrow> path" where
  "upload_meta tempPath = tempPath @ ''.meta''"

definition upload_cleanup :: "osenv \<Rightarrow> fsys \<Rightarrow> path \<Rightarrow> fsys" where
  "upload_cleanup E fs tempPath =
     fst (remove E (fst (remove E fs tempPath)) (upload_meta tempPath))"

text \<open>The checks on the transfer identifier, before any path is computed.\<close>

definition transfer_id_err :: "string \<Rightarrow> goerr option" where
  "transfer_id_err transferID =
     (if TrimSpace transferID = [] then Some (lit ''transfer ID cannot be empty'')
      else if ContainsAny transferID [CHR ''/'', CHR 0x5C] \<or> Contains transferID ''..''
      then Some (lit ''invalid transfer ID'')
      else None)"

text \<open>The checks on offset, length, advertised size and final flag, in the code's order.\<close>

definition upload_check :: "bytes \<Rightarrow> int \<Rightarrow> int \<Rightarrow> bool \<Rightarrow> goerr option" where
  "upload_check data offset totalSize final =
     (if offset < 0 \<or> totalSize < 0 then Some (lit ''invalid upload offset or total size'')
      else if int (length data) > DefaultChunkSize
      then Some (Sprintf ''upload chunk exceeds %d bytes'' [GInt DefaultChunkSize])
      else if add64 offset (int (length data)) > totalSize
      then Some (lit ''upload chunk exceeds advertised total size'')
      else if \<not> final \<and> data = [] then Some (lit ''empty non-final upload chunk'')
      else if final \<and> add64 offset (int (length data)) \<noteq> totalSize
      then Some (lit ''final upload chunk does not reach advertised total size'')
      else if \<not> final \<and> add64 offset (int (length data)) \<ge> totalSize
      then Some (lit ''non-final upload chunk reaches advertised total size'')
      else None)"

text \<open>The first chunk creates the temporary file and its metadata; a later one must match them.\<close>

definition upload_begin :: "osenv \<Rightarrow> fsys \<Rightarrow> path \<Rightarrow> int \<Rightarrow> int \<Rightarrow> fsys \<times> goerr option" where
  "upload_begin E fs tempPath offset totalSize =
     (if offset = 0 then
        (case WriteFile E fs tempPath [] of
           (fs1, Some err) \<Rightarrow> (fs1, Some (Sprintf ''cannot create temporary upload: %w'' [GOs err]))
         | (fs1, None) \<Rightarrow>
           (case WriteFile E fs1 (upload_meta tempPath) (FormatInt totalSize) of
              (fs2, Some err) \<Rightarrow> (fs2, Some (Sprintf ''cannot create upload metadata: %w'' [GOs err]))
            | (fs2, None) \<Rightarrow> (fs2, None)))
      else
        (case ReadFile E fs (upload_meta tempPath) of
           Inl err \<Rightarrow> (fs, Some (Sprintf ''cannot read upload metadata: %w'' [GOs err]))
         | Inr metadata \<Rightarrow>
           (case ParseInt (TrimSpace metadata) of (expectedTotal, err) \<Rightarrow>
              if err \<noteq> None \<or> expectedTotal \<noteq> totalSize
              then (fs, Some (Sprintf ''upload total size changed from %d to %d'' [GInt expectedTotal, GInt totalSize]))
              else (case stat E fs tempPath of
                  Inl err \<Rightarrow> (fs, Some (Sprintf ''cannot resume temporary upload: %w'' [GOs err]))
                | Inr info \<Rightarrow>
                  if node_size E tempPath info \<noteq> offset
                  then (fs, Some (Sprintf ''upload offset %d does not match temporary size %d'' [GInt offset, GInt (node_size E tempPath info)]))
                  else (fs, None)))))"

text \<open>Appending the chunk: open, write, flush, close.\<close>

definition upload_append :: "osenv \<Rightarrow> fsys \<Rightarrow> path \<Rightarrow> bytes \<Rightarrow> int \<Rightarrow> fsys \<times> goerr option" where
  "upload_append E fs tempPath data offset =
     (case open_write E fs tempPath False False of
        (fs1, Some err) \<Rightarrow> (fs1, Some (Sprintf ''cannot open temporary upload: %w'' [GOs err]))
      | (fs1, None) \<Rightarrow>
        (case (if data = [] then (fs1, 0, None) else write_at E fs1 tempPath data (nat offset)) of
           (fs2, n, Some err) \<Rightarrow> (fs2, Some (Sprintf ''cannot write upload chunk: %w'' [GOs err]))
         | (fs2, n, None) \<Rightarrow>
           if n \<noteq> length data
           then (fs2, Some (Sprintf ''short upload write: wrote %d of %d bytes'' [GInt (int n), GInt (int (length data))]))
           else (case fault E SSync tempPath of
               Some err \<Rightarrow> (fs2, Some (Sprintf ''cannot flush upload chunk: %w'' [GOs err]))
             | None \<Rightarrow> (case fault E SClose tempPath of
                 Some err \<Rightarrow> (fs2, Some (Sprintf ''cannot close temporary upload: %w'' [GOs err]))
               | None \<Rightarrow> (fs2, None)))))"

text \<open>The final chunk: verify the digest, then rename over the target and drop the metadata.\<close>

definition upload_finish :: "osenv \<Rightarrow> fsys \<Rightarrow> path \<Rightarrow> path \<Rightarrow> string \<Rightarrow> fsys \<times> goerr option" where
  "upload_finish E fs tempPath safe expectedChecksum =
     (if TrimSpace expectedChecksum = [] then (fs, Some (lit ''final upload chunk is missing its checksum''))
      else case FileSHA256 E fs tempPath of
        Inl err \<Rightarrow> (fs, Some (Sprintf ''cannot checksum temporary upload: %w'' [GErr err]))
      | Inr actualChecksum \<Rightarrow>
        if \<not> EqualFold actualChecksum expectedChecksum then (fs, Some (lit ''upload checksum mismatch''))
        else (case rename E fs tempPath safe of
            (fs1, Some err) \<Rightarrow> (fs1, Some (Sprintf ''cannot atomically finalize upload: %w'' [GOs err]))
          | (fs1, None) \<Rightarrow> (fst (remove E fs1 (upload_meta tempPath)), None)))"

definition WriteAtomicUploadChunk ::
  "osenv \<Rightarrow> fsys \<Rightarrow> string \<Rightarrow> string \<Rightarrow> bytes \<Rightarrow> int \<Rightarrow> int \<Rightarrow> bool \<Rightarrow> string \<Rightarrow> fsys \<times> goerr option" where
  "WriteAtomicUploadChunk E fs path transferID data offset totalSize final expectedChecksum =
     (case transfer_id_err transferID of Some err \<Rightarrow> (fs, Some err) | None \<Rightarrow>
      (case safePath E path of Inl err \<Rightarrow> (fs, Some err) | Inr safe \<Rightarrow>
       let tempPath = upload_temp safe transferID;
           fail = (\<lambda>fs1 err. (upload_cleanup E fs1 tempPath, Some err))
       in case upload_check data offset totalSize final of Some err \<Rightarrow> fail fs err | None \<Rightarrow>
          (case upload_begin E fs tempPath offset totalSize of (fs1, Some err) \<Rightarrow> fail fs1 err | (fs1, None) \<Rightarrow>
          (case upload_append E fs1 tempPath data offset of (fs2, Some err) \<Rightarrow> fail fs2 err | (fs2, None) \<Rightarrow>
           if \<not> final then (fs2, None)
           else (case upload_finish E fs2 tempPath safe expectedChecksum of
               (fs3, Some err) \<Rightarrow> fail fs3 err | (fs3, None) \<Rightarrow> (fs3, None))))))"

text \<open>Removing both files of an upload; the first failure other than absence ends it.\<close>

fun remove_candidates :: "osenv \<Rightarrow> fsys \<Rightarrow> path list \<Rightarrow> fsys \<times> goerr option" where
  "remove_candidates E fs [] = (fs, None)"
| "remove_candidates E fs (candidate # rest) =
     (case remove E fs candidate of
        (fs1, Some err) \<Rightarrow> if err \<noteq> ENOENT
          then (fs1, Some (Sprintf ''cannot remove temporary upload %q: %w'' [GStr candidate, GOs err]))
          else remove_candidates E fs1 rest
      | (fs1, None) \<Rightarrow> remove_candidates E fs1 rest)"

definition CancelAtomicUpload :: "osenv \<Rightarrow> fsys \<Rightarrow> string \<Rightarrow> string \<Rightarrow> fsys \<times> goerr option" where
  "CancelAtomicUpload E fs path transferID =
     (case transfer_id_err transferID of Some err \<Rightarrow> (fs, Some err) | None \<Rightarrow>
      (case safePath E path of Inl err \<Rightarrow> (fs, Some err) | Inr safe \<Rightarrow>
       let tempPath = upload_temp safe transferID
       in remove_candidates E fs [tempPath, upload_meta tempPath]))"

end
