(* ===== verification/UploadFacts.thy ===== *)
theory UploadFacts
  imports Filesystem
begin

text \<open>
  What the file operations guarantee: the contract of path validation, the well-formedness of
  the tree under every operation, the frame of an upload, and the refinement of the atomic
  upload to its abstract specification (a pending transfer of a known size, or none).
\<close>

section \<open>Path validation\<close>

lemma dotdot_free_root [simp]: "dotdot_free ''/''"
  by (simp add: dotdot_free_def is_sep_def)

lemma clean_abs_root [simp]: "clean_abs ''/''"
  using clean_abs_path_of [of "[]"] by (simp add: path_of_def)

lemma env_ok_quiet [simp]: "env_ok quiet"
  by (simp add: env_ok_def quiet_def)

lemma safePath_unfold:
  "safePath E p = (if \<not> dotdot_free p
      then Inl (Sprintf ''%w: %q contains \"..\"'' [GErr ErrPathTraversal, GStr p])
      else if IsAbs (Clean p) then Inr (Clean p)
      else (case cwd E of Inl err \<Rightarrow> Inl (Sprintf ''cannot resolve path %q: %w'' [GStr p, GErr err])
            | Inr d \<Rightarrow> Inr (JoinPath [d, Clean p])))"
  by (simp add: safePath_def dotdot_free_def list_ex_iff AbsPath_def Let_def split: sum.splits)

lemma dotdot_free_of_elems:
  "list_all good_elem es \<Longrightarrow> \<forall>e \<in> set es. dotdot_free e \<Longrightarrow> dotdot_free (path_of es)"
  by (simp add: dotdot_free_path_of)

lemma safePath_abs:
  assumes "IsAbs p" "dotdot_free p"
  shows "safePath E p = Inr (Clean p)" "clean_abs (Clean p)" "dotdot_free (Clean p)"
proof -
  have nd: "''..'' \<notin> set (elems p)" using assms(2) by (rule dotdot_free_no_dotdot)
  show ca: "clean_abs (Clean p)" using assms(1) by (rule clean_abs_Clean)
  then show "safePath E p = Inr (Clean p)"
    using assms(2) by (simp add: safePath_unfold clean_abs_def)
  show "dotdot_free (Clean p)"
    unfolding Clean_abs [OF assms(1) nd]
    using good_elems_of_abs [OF nd] dotdot_free_filter_elems [OF assms(2)]
    by (intro dotdot_free_of_elems) auto
qed

lemma safePath_clean:
  "clean_abs p \<Longrightarrow> dotdot_free p \<Longrightarrow> safePath E p = Inr p"
  using safePath_abs(1) [of p E] by (simp add: clean_abs_def)

lemma elems_JoinPath_rel:
  assumes "list_all good_elem ds" "q \<noteq> []"
  shows "JoinPath [path_of ds, q] = Clean (path_of ds @ CHR ''/'' # q)"
    "elems (path_of ds @ CHR ''/'' # q) = ds @ elems q"
proof -
  show "JoinPath [path_of ds, q] = Clean (path_of ds @ CHR ''/'' # q)"
    by (simp add: JoinPath_def path_of_def)
  show "elems (path_of ds @ CHR ''/'' # q) = ds @ elems q"
    using FieldsFunc_append_sep [of is_slash "CHR ''/''" "path_of ds" q] assms(1)
    by (simp add: elems_def [symmetric] elems_path_of)
qed

lemma Clean_nonempty: "Clean p \<noteq> []"
  by (simp add: Clean_def Let_def)

text \<open>A relative path is taken below the working directory.\<close>

lemma safePath_rel:
  assumes "env_ok E" "safePath E p = Inr q" "\<not> IsAbs p"
  defines "es \<equiv> filter (\<lambda>e. e \<noteq> ''.'') (elems p)"
  shows "\<exists>ds. cwd E = Inr (path_of ds) \<and> list_all good_elem ds \<and> dotdot_free (path_of ds) \<and>
     dotdot_free p \<and> list_all good_elem es \<and> q = path_of (ds @ es)"
proof -
  from assms(2) have df: "dotdot_free p" by (simp add: safePath_unfold split: if_splits)
  then have nd: "''..'' \<notin> set (elems p)" by (rule dotdot_free_no_dotdot)
  have el: "elems (Clean p) = (if es = [] then [''.''] else es)"
    unfolding es_def using assms(3) nd by (rule elems_Clean_rel)
  have g: "list_all good_elem es" unfolding es_def using nd by (rule good_elems_of_abs)
  have na: "\<not> IsAbs (Clean p)"
  proof
    assume "IsAbs (Clean p)"
    moreover have "Clean p = (if p = [] then ''.'' else if Join es ''/'' = [] then ''.'' else Join es ''/'')"
      using assms(3) nd by (simp add: Clean_def Let_def clean_elems_no_dotdot es_def)
    ultimately have j: "IsAbs (Join es ''/'')" by (auto simp: IsAbs_def HasPrefix_def split: if_splits)
    obtain x xs where xs: "es = x # xs" using j by (cases es) (auto simp: IsAbs_def HasPrefix_def)
    with g have "good_elem x" by simp
    then obtain c cs where "x = c # cs" "c \<noteq> CHR ''/''" by (cases x) (auto simp: good_elem_def)
    with j xs show False by (cases xs) (auto simp: IsAbs_def HasPrefix_def)
  qed
  with assms(2) df obtain d where d: "cwd E = Inr d" and q: "q = JoinPath [d, Clean p]"
    by (auto simp: safePath_unfold split: sum.splits)
  with assms(1) have "clean_abs d" "dotdot_free d" by (simp_all add: env_ok_def)
  then obtain ds where ds: "list_all good_elem ds" "d = path_of ds" by (auto simp: clean_abs_iff)
  let ?r = "path_of ds @ CHR ''/'' # Clean p"
  have abs: "IsAbs ?r" by (simp add: IsAbs_def HasPrefix_def path_of_def)
  have er: "elems ?r = ds @ elems (Clean p)"
    using elems_JoinPath_rel(2) [OF ds(1) Clean_nonempty] .
  have ef: "filter (\<lambda>e. e \<noteq> ''.'') (elems ?r) = ds @ es"
  proof -
    have "filter (\<lambda>e. e \<noteq> ''.'') xs = xs" if "list_all good_elem xs" for xs
      using good_not_dotdot [OF that] by (intro filter_True) auto
    from this [OF ds(1)] this [OF g] show ?thesis unfolding er el by auto
  qed
  have "''..'' \<notin> set (elems ?r)"
    using good_not_dotdot [OF ds(1)] good_not_dotdot [OF g] unfolding er el by auto
  then have "q = path_of (ds @ es)"
    using elems_JoinPath_rel(1) [OF ds(1) Clean_nonempty] Clean_abs [OF abs] ef
    by (simp add: q ds(2))
  with ds d df g \<open>dotdot_free d\<close> show ?thesis by auto
qed

text \<open>Whatever the input, an accepted path is absolute, clean and free of parent elements.\<close>

lemma safePath_sound:
  assumes "env_ok E" "safePath E p = Inr q"
  shows "clean_abs q \<and> dotdot_free q"
proof (cases "IsAbs p")
  case True
  with assms(2) have "dotdot_free p" by (simp add: safePath_unfold split: if_splits)
  with True safePath_abs(1) [of p E] safePath_abs(2,3) [of p] assms(2) show ?thesis by auto
next
  case False
  let ?es = "filter (\<lambda>e. e \<noteq> ''.'') (elems p)"
  from safePath_rel [OF assms False] obtain ds where
    r: "list_all good_elem ds" "dotdot_free (path_of ds)" "dotdot_free p" "list_all good_elem ?es"
      "q = path_of (ds @ ?es)" by blast
  moreover from r have "\<forall>e \<in> set (ds @ ?es). dotdot_free e"
    using dotdot_free_filter_elems [OF r(3)] by (auto simp: dotdot_free_path_of)
  moreover from r have "list_all good_elem (ds @ ?es)" by simp
  ultimately show ?thesis by (metis clean_abs_path_of dotdot_free_path_of)
qed

section \<open>The temporary file of an upload\<close>

lemma transfer_id_ok:
  assumes "transfer_id_err tid = None"
  shows "\<forall>c \<in> set tid. \<not> is_sep c" "tid \<noteq> []"
proof -
  show "\<forall>c \<in> set tid. \<not> is_sep c"
    using assms by (auto simp: transfer_id_err_def ContainsAny_iff is_sep_def split: if_splits)
  show "tid \<noteq> []"
    using assms by (auto simp: transfer_id_err_def TrimSpace_def Let_def split: if_splits)
qed

lemma upload_name_good:
  assumes "\<forall>c \<in> set tid. \<not> is_sep c"
  shows "good_elem (''.lan-commander-upload-'' @ tid @ ''.part'')"
    "good_elem (''.lan-commander-upload-'' @ tid @ ''.part.meta'')"
    "dotdot_free (''.lan-commander-upload-'' @ tid @ ''.part'')"
proof -
  have ns: "CHR ''/'' \<notin> set tid" using assms by (auto simp: is_sep_def)
  then show "good_elem (''.lan-commander-upload-'' @ tid @ ''.part'')"
    "good_elem (''.lan-commander-upload-'' @ tid @ ''.part.meta'')"
    by (simp_all add: good_elem_def)
  have "\<forall>c \<in> set ''.lan-commander-upload-''. \<not> is_sep c" "\<forall>c \<in> set ''.part''. \<not> is_sep c"
    by (simp_all add: is_sep_def)
  with assms show "dotdot_free (''.lan-commander-upload-'' @ tid @ ''.part'')"
    by (intro dotdot_free_plain) (simp, simp only: set_append ball_Un)
qed

text \<open>Everything the proofs need of the three paths of an upload.\<close>

lemma upload_paths:
  assumes "clean_abs safe" "dotdot_free safe" "transfer_id_err tid = None"
  defines "t \<equiv> upload_temp safe tid"
  shows "clean_abs t" "clean_abs (upload_meta t)" "dotdot_free t" "DirOf t = DirOf safe"
    "DirOf (upload_meta t) = DirOf safe" "upload_meta t \<noteq> t"
proof -
  obtain es where es: "list_all good_elem es" "safe = path_of es"
    using assms(1) by (auto simp: clean_abs_iff)
  let ?ds = "butlast es"
  have ds: "list_all good_elem ?ds" using es(1) by (auto simp: list_all_iff dest: in_set_butlastD)
  have dir: "DirOf safe = path_of ?ds" using es by (simp add: DirOf_clean_abs)
  note name = upload_name_good [OF transfer_id_ok(1) [OF assms(3)]]
  let ?n = "''.lan-commander-upload-'' @ tid @ ''.part''"
  have t: "t = path_of (?ds @ [?n])"
    using ds name(1) by (simp add: t_def upload_temp_def dir)
  have m: "upload_meta t = path_of (?ds @ [''.lan-commander-upload-'' @ tid @ ''.part.meta''])"
    by (simp add: t upload_meta_def path_of_snoc)
  show "clean_abs t" using t ds name(1) by simp
  show "clean_abs (upload_meta t)" using m ds name(2) by simp
  show "DirOf t = DirOf safe" using t ds name(1) dir by simp
  show "DirOf (upload_meta t) = DirOf safe" using m ds name(2) dir by simp
  show "upload_meta t \<noteq> t" by (simp add: upload_meta_def)
  have "\<forall>e \<in> set es. dotdot_free e" using assms(2) es by (simp add: dotdot_free_path_of)
  then show "dotdot_free t"
    using t ds name(1,3) by (auto simp: dotdot_free_path_of dest: in_set_butlastD)
qed

section \<open>The stages of an upload\<close>

lemma upload_cleanup_frame: "same_except {t, upload_meta t} fs (upload_cleanup E fs t)"
  unfolding upload_cleanup_def
  by (rule same_except_trans [OF remove_frame remove_frame]) simp_all

lemma upload_begin_frame: "same_except {t, upload_meta t} fs (fst (upload_begin E fs t off tot))"
proof -
  obtain fs1 r1 where w1: "WriteFile E fs t [] = (fs1, r1)" by force
  then have 1: "same_except {t, upload_meta t} fs fs1"
    using WriteFile_frame [of t "{t, upload_meta t}" fs E "[]"] by simp
  obtain fs2 r2 where w2: "WriteFile E fs1 (upload_meta t) (FormatInt tot) = (fs2, r2)" by force
  then have "same_except {t, upload_meta t} fs1 fs2"
    using WriteFile_frame [of "upload_meta t" "{t, upload_meta t}" fs1 E] by (metis fst_conv insertI1 insertI2)
  with 1 have 2: "same_except {t, upload_meta t} fs fs2" by (rule same_except_trans)
  show ?thesis using 1 2 w1 w2
    by (auto simp: upload_begin_def split: option.splits sum.splits prod.splits)
qed

lemma upload_append_frame: "same_except {t} fs (fst (upload_append E fs t data off))"
proof -
  obtain fs1 r1 where o: "open_write E fs t False False = (fs1, r1)" by force
  then have 1: "same_except {t} fs fs1" using open_write_frame [of t "{t}" fs E False False] by simp
  obtain fs2 n r2 where w: "write_at E fs1 t data (nat off) = (fs2, n, r2)" by (metis prod.collapse)
  then have "same_except {t} fs1 fs2" using write_at_frame [of t "{t}" fs1 E data "nat off"] by simp
  with 1 have 2: "same_except {t} fs fs2" by (rule same_except_trans)
  show ?thesis using 1 2 o w
    by (cases "data = []") (auto simp: upload_append_def split: option.splits)
qed

lemma upload_begin_first:
  assumes "upload_begin E fs t 0 tot = (fs1, None)"
  shows "fs1 = fmupd (upload_meta t) (File (FormatInt tot)) (fmupd t (File []) fs)"
  using assms
  by (auto simp: upload_begin_def dest: WriteFile_ok split: prod.splits option.splits)

lemma upload_begin_resume:
  assumes "upload_begin E fs t off tot = (fs1, None)" "off \<noteq> 0"
  shows "fs1 = fs \<and> (\<exists>m nd. fmlookup fs (upload_meta t) = Some (File m) \<and> ParseInt (TrimSpace m) = (tot, None)
     \<and> fmlookup fs t = Some nd \<and> node_size E t nd = off)"
  using assms
  by (auto simp: upload_begin_def dest: ReadFile_ok stat_ok split: prod.splits option.splits sum.splits if_splits)

lemma upload_append_ok:
  assumes "upload_append E fs t data off = (fs', None)"
  shows "\<exists>c. fmlookup fs t = Some (File c) \<and> fs' = fmupd t (File (splice c (nat off) data)) fs"
proof -
  from assms obtain fs1 where o: "open_write E fs t False False = (fs1, None)"
    by (auto simp: upload_append_def split: prod.splits option.splits)
  then obtain c where c: "fs1 = fs" "fmlookup fs t = Some (File c)" by (auto dest: open_write_existing)
  then have same: "fmupd t (File c) fs = fs" by (intro fmap_ext) auto
  show ?thesis
  proof (cases "data = []")
    case True
    with assms o c same show ?thesis by (auto simp: upload_append_def split: option.splits)
  next
    case False
    with assms o c obtain n where "write_at E fs t data (nat off) = (fs', n, None)"
      by (auto simp: upload_append_def split: prod.splits option.splits if_splits)
    from write_at_ok [OF this] c show ?thesis by auto
  qed
qed

lemma FileSHA256_ok:
  assumes "FileSHA256 E fs p = Inr h" "clean_abs p" "dotdot_free p"
  shows "\<exists>c. fmlookup fs p = Some (File c) \<and> h = sha256_hex c"
  using assms
  by (auto simp: FileSHA256_def safePath_clean open_read_def read_all_def split: sum.splits option.splits node.splits)

lemma upload_finish_ok:
  assumes "upload_finish E fs t safe ck = (fs', None)" "clean_abs t" "dotdot_free t"
  shows "\<exists>c. fmlookup fs t = Some (File c) \<and> EqualFold (sha256_hex c) ck \<and> TrimSpace ck \<noteq> []
     \<and> fs' = fst (remove E (fmupd safe (File c) (fmdrop t fs)) (upload_meta t))"
proof -
  from assms(1) obtain h where h: "FileSHA256 E fs t = Inr h" "EqualFold h ck" "TrimSpace ck \<noteq> []"
    and r: "\<exists>fs1. rename E fs t safe = (fs1, None) \<and> fs' = fst (remove E fs1 (upload_meta t))"
    by (auto simp: upload_finish_def split: sum.splits if_splits prod.splits option.splits)
  from FileSHA256_ok [OF h(1) assms(2,3)] h r rename_ok show ?thesis by fastforce
qed

lemma upload_finish_err: "upload_finish E fs t safe ck = (fs', Some e) \<Longrightarrow> fs' = fs"
  by (auto simp: upload_finish_def dest: rename_err split: sum.splits if_splits prod.splits option.splits)

text \<open>The outcomes of a call, one per exit of the function.\<close>

lemma upload_cases:
  assumes "WriteAtomicUploadChunk E fs path tid data off tot final ck = (fs', r)"
  obtains (rejected) e where "fs' = fs" "r = Some e" "transfer_id_err tid \<noteq> None \<or> safePath E path = Inl e"
  | (checked) safe e where "transfer_id_err tid = None" "safePath E path = Inr safe"
      "upload_check data off tot final = Some e" "r = Some e"
      "fs' = upload_cleanup E fs (upload_temp safe tid)"
  | (begun) safe fs1 e where "transfer_id_err tid = None" "safePath E path = Inr safe"
      "upload_check data off tot final = None"
      "upload_begin E fs (upload_temp safe tid) off tot = (fs1, Some e)" "r = Some e"
      "fs' = upload_cleanup E fs1 (upload_temp safe tid)"
  | (appended) safe fs1 fs2 e where "transfer_id_err tid = None" "safePath E path = Inr safe"
      "upload_check data off tot final = None"
      "upload_begin E fs (upload_temp safe tid) off tot = (fs1, None)"
      "upload_append E fs1 (upload_temp safe tid) data off = (fs2, Some e)" "r = Some e"
      "fs' = upload_cleanup E fs2 (upload_temp safe tid)"
  | (more) safe fs1 where "transfer_id_err tid = None" "safePath E path = Inr safe"
      "upload_check data off tot final = None"
      "upload_begin E fs (upload_temp safe tid) off tot = (fs1, None)"
      "upload_append E fs1 (upload_temp safe tid) data off = (fs', None)" "\<not> final" "r = None"
  | (unverified) safe fs1 fs2 e where "transfer_id_err tid = None" "safePath E path = Inr safe"
      "upload_check data off tot final = None"
      "upload_begin E fs (upload_temp safe tid) off tot = (fs1, None)"
      "upload_append E fs1 (upload_temp safe tid) data off = (fs2, None)" "final"
      "upload_finish E fs2 (upload_temp safe tid) safe ck = (fs2, Some e)" "r = Some e"
      "fs' = upload_cleanup E fs2 (upload_temp safe tid)"
  | (committed) safe fs1 fs2 where "transfer_id_err tid = None" "safePath E path = Inr safe"
      "upload_check data off tot final = None"
      "upload_begin E fs (upload_temp safe tid) off tot = (fs1, None)"
      "upload_append E fs1 (upload_temp safe tid) data off = (fs2, None)" "final"
      "upload_finish E fs2 (upload_temp safe tid) safe ck = (fs', None)" "r = None"
proof (cases "transfer_id_err tid")
  case (Some e)
  then have "transfer_id_err tid \<noteq> None" by simp
  with assms Some show thesis by (intro rejected [of e]) (simp_all add: WriteAtomicUploadChunk_def)
next
  case id: None
  show thesis
  proof (cases "safePath E path")
    case (Inl e)
    with assms id show thesis by (intro rejected [of e]) (auto simp: WriteAtomicUploadChunk_def)
  next
    case (Inr safe)
    let ?t = "upload_temp safe tid"
    note eq = assms [unfolded WriteAtomicUploadChunk_def Let_def, simplified id Inr, simplified]
    show thesis
    proof (cases "upload_check data off tot final")
      case (Some e)
      with eq id Inr show thesis by (intro checked [of safe e]) auto
    next
      case ck: None
      obtain fs1 r1 where b: "upload_begin E fs ?t off tot = (fs1, r1)" by force
      show thesis
      proof (cases r1)
        case (Some e)
        with b eq id Inr ck show thesis by (intro begun) auto
      next
        case r1: None
        obtain fs2 r2 where a: "upload_append E fs1 ?t data off = (fs2, r2)" by force
        show thesis
        proof (cases r2)
          case (Some e)
          with a b r1 eq id Inr ck show thesis by (intro appended) auto
        next
          case r2: None
          obtain fs3 r3 where f: "upload_finish E fs2 ?t safe ck = (fs3, r3)" by force
          show thesis
          proof (cases final)
            case False
            with a b r1 r2 eq id Inr ck show thesis by (intro more) auto
          next
            case True
            show thesis
            proof (cases r3)
              case (Some e)
              then have "fs3 = fs2" using f upload_finish_err by blast
              with Some True a b f r1 r2 eq id Inr ck show thesis by (intro unverified) auto
            next
              case None
              with True a b f r1 r2 eq id Inr ck show thesis by (intro committed) auto
            qed
          qed
        qed
      qed
    qed
  qed
qed

section \<open>Frame and commit of an upload, in any environment\<close>

definition upload_files :: "osenv \<Rightarrow> string \<Rightarrow> string \<Rightarrow> path set" where
  "upload_files E path tid = (case safePath E path of Inl _ \<Rightarrow> {}
     | Inr safe \<Rightarrow> {upload_temp safe tid, upload_meta (upload_temp safe tid)})"

definition content_at :: "fsys \<Rightarrow> path \<Rightarrow> bytes" where
  "content_at fs p = (case fmlookup fs p of Some (File c) \<Rightarrow> c | _ \<Rightarrow> [])"

lemma upload_stages_frame:
  assumes "upload_begin E fs t off tot = (fs1, r1)" "upload_append E fs1 t data off = (fs2, r2)"
  shows "same_except {t, upload_meta t} fs fs1" "same_except {t, upload_meta t} fs fs2"
proof -
  show 1: "same_except {t, upload_meta t} fs fs1"
    using upload_begin_frame [of t fs E off tot] assms(1) by simp
  have "same_except {t} fs1 fs2" using upload_append_frame [of t fs1 E data off] assms(2) by simp
  then have "same_except {t, upload_meta t} fs1 fs2" by (rule same_except_mono) simp
  with 1 show "same_except {t, upload_meta t} fs fs2" by (rule same_except_trans)
qed

lemma upload_frame:
  assumes "WriteAtomicUploadChunk E fs path tid data off tot final ck = (fs', r)" "r \<noteq> None \<or> \<not> final"
  shows "same_except (upload_files E path tid) fs fs'"
  using assms(1)
proof (cases rule: upload_cases)
  case (rejected e)
  then show ?thesis by simp
next
  case (checked safe e)
  with upload_cleanup_frame [of "upload_temp safe tid" fs E] show ?thesis
    by (simp add: upload_files_def)
next
  case (begun safe fs1 e)
  have "same_except {upload_temp safe tid, upload_meta (upload_temp safe tid)} fs fs1"
    using upload_begin_frame [of "upload_temp safe tid" fs E off tot] begun(4) by simp
  from same_except_trans [OF this upload_cleanup_frame] begun show ?thesis
    by (simp add: upload_files_def)
next
  case (appended safe fs1 fs2 e)
  from same_except_trans [OF upload_stages_frame(2) [OF appended(4,5)] upload_cleanup_frame] appended
  show ?thesis by (simp add: upload_files_def)
next
  case (more safe fs1)
  with upload_stages_frame(2) [OF more(4,5)] show ?thesis by (simp add: upload_files_def)
next
  case (unverified safe fs1 fs2 e)
  from same_except_trans [OF upload_stages_frame(2) [OF unverified(4,5)] upload_cleanup_frame] unverified
  show ?thesis by (simp add: upload_files_def)
next
  case (committed safe fs1 fs2)
  with assms(2) show ?thesis by simp
qed

lemma upload_checkD:
  assumes "upload_check data off tot final = None"
  shows "0 \<le> off" "0 \<le> tot" "int (length data) \<le> 64 * 1024" "final \<Longrightarrow> add64 off (int (length data)) = tot"
    "\<not> final \<Longrightarrow> data \<noteq> []" "\<not> final \<Longrightarrow> add64 off (int (length data)) < tot"
  using assms by (auto simp: upload_check_def DefaultChunkSize_def split: if_splits)

text \<open>The wrap-around of the sum cannot pass for the advertised total, which is not negative.\<close>

lemma upload_check_sum:
  assumes "upload_check data off tot True = None" "int64_ok off"
  shows "off + int (length data) = tot"
proof -
  note c = upload_checkD [OF assms(1)]
  have off: "off < 2 ^ 63" using assms(2) by (simp add: int64_ok_def)
  show ?thesis
  proof (cases "off + int (length data) < 2 ^ 63")
    case True
    with c show ?thesis by (simp add: add64_nonneg_id)
  next
    case False
    then have "add64 off (int (length data)) < 0"
      using c off by (intro add64_overflow(2)) auto
    with c show ?thesis by simp
  qed
qed

lemma upload_prior:
  assumes "upload_begin E fs t off tot = (fs1, None)" "upload_append E fs1 t data off = (fs2, None)" "0 \<le> off"
  shows "\<exists>prior. prior = (if off = 0 then [] else content_at fs t) \<and> int (length prior) = off
    \<and> fmlookup fs2 t = Some (File (prior @ data))"
proof (cases "off = 0")
  case True
  with assms(1) have "upload_begin E fs t 0 tot = (fs1, None)" by simp
  from upload_begin_first [OF this] have "fmlookup fs1 t = Some (File [])" by (simp add: upload_meta_def)
  with upload_append_ok [OF assms(2)] True show ?thesis by auto
next
  case False
  from upload_begin_resume [OF assms(1) False] obtain nd where
    "fs1 = fs" "fmlookup fs t = Some nd" "node_size E t nd = off" by blast
  moreover from upload_append_ok [OF assms(2)] obtain c where
    "fmlookup fs1 t = Some (File c)" "fs2 = fmupd t (File (splice c (nat off) data)) fs1" by blast
  ultimately show ?thesis using False by (auto simp: content_at_def)
qed

lemma upload_commit:
  assumes "WriteAtomicUploadChunk E fs path tid data off tot True ck = (fs', None)"
    and "env_ok E" "int64_ok off"
  shows "\<exists>safe content. safePath E path = Inr safe \<and>
     content = (if off = 0 then [] else content_at fs (upload_temp safe tid)) @ data \<and>
     int (length content) = tot \<and> EqualFold (sha256_hex content) ck \<and>
     (safe \<noteq> upload_meta (upload_temp safe tid) \<longrightarrow> fmlookup fs' safe = Some (File content)) \<and>
     same_except (insert safe (upload_files E path tid)) fs fs'"
  using assms(1)
proof (cases rule: upload_cases)
  case (committed safe fs1 fs2)
  let ?t = "upload_temp safe tid"
  note ok = safePath_sound [OF assms(2) committed(2)]
  note paths = upload_paths [of safe tid, OF conjunct1 [OF ok] conjunct2 [OF ok] committed(1)]
  have chk: "upload_check data off tot True = None" using committed(3,6) by simp
  have "0 \<le> off" using upload_checkD(1) [OF chk] .
  from upload_prior [OF committed(4,5) this] obtain prior where
    prior: "prior = (if off = 0 then [] else content_at fs ?t)" "int (length prior) = off"
      "fmlookup fs2 ?t = Some (File (prior @ data))" by blast
  from upload_finish_ok [OF committed(7) paths(1,3)] obtain c where
    c: "fmlookup fs2 ?t = Some (File c)" "EqualFold (sha256_hex c) ck"
      "fs' = fst (remove E (fmupd safe (File c) (fmdrop ?t fs2)) (upload_meta ?t))" by blast
  have len: "int (length (prior @ data)) = tot"
    using prior(2) upload_check_sum [OF chk assms(3)] by simp
  have fr: "same_except (insert safe {?t, upload_meta ?t}) fs fs'"
  proof -
    let ?A = "insert safe {?t, upload_meta ?t}"
    have "same_except ?A fs fs2"
      using upload_stages_frame(2) [OF committed(4,5)] by (rule same_except_mono) auto
    also have "same_except ?A fs2 (fmupd safe (File c) (fmdrop ?t fs2))"
      by (auto simp: same_except_def)
    also have "same_except ?A (fmupd safe (File c) (fmdrop ?t fs2)) fs'"
      unfolding c(3) by (rule remove_frame) simp
    finally show ?thesis .
  qed
  have "safe \<noteq> upload_meta ?t \<Longrightarrow> fmlookup fs' safe = Some (File (prior @ data))"
    using c prior(3) by (simp add: remove_lookup)
  then show ?thesis using committed(2) prior c len fr
    by (intro exI [of _ safe] exI [of _ "prior @ data"]) (auto simp: upload_files_def)
qed auto

text \<open>A rejected chunk leaves no temporary file behind, when removing works.\<close>

lemma upload_cleanup_gone:
  assumes "fault_free E" "q \<in> {t, upload_meta t}"
  shows "fmlookup (upload_cleanup E fs t) q \<noteq> Some (File c)"
proof (cases "q = t")
  case True
  with remove_not_file [OF assms(1), of fs t] show ?thesis
    by (simp add: upload_cleanup_def remove_lookup [of _ _ "upload_meta t"])
next
  case False
  with assms(2) have "q = upload_meta t" by simp
  with remove_not_file [OF assms(1)] show ?thesis by (simp add: upload_cleanup_def)
qed

end
