(* ===== verification/UploadSpec.thy ===== *)
theory UploadSpec
  imports UploadFacts
begin

text \<open>
  The abstract specification of the atomic upload and the proof that
  \<^verbatim>\<open>WriteAtomicUploadChunk\<close> implements it: a transfer is either not pending or
  pending with its advertised size and the bytes received so far, a chunk extends, ends or
  drops it, and only a commit touches the target. Then the whole transfer: the chunks of a
  content, sent in order, put exactly this content at the target.
\<close>

section \<open>The specification\<close>

datatype upload_outcome = Rejected | Accepted | Committed bytes

type_synonym pending_upload = "(int \<times> bytes) option"

definition chunk_fits :: "bytes \<Rightarrow> bytes \<Rightarrow> int \<Rightarrow> bool \<Rightarrow> bool" where
  "chunk_fits prior data tot final \<longleftrightarrow> 0 \<le> tot \<and> int (length data) \<le> DefaultChunkSize \<and>
     (if final then int (length (prior @ data)) = tot
      else data \<noteq> [] \<and> int (length (prior @ data)) < tot)"

definition spec_prior :: "pending_upload \<Rightarrow> int \<Rightarrow> int \<Rightarrow> bytes option" where
  "spec_prior st off tot = (if off = 0 then Some []
     else case st of Some (tot', c) \<Rightarrow> if tot' = tot \<and> int (length c) = off then Some c else None
        | None \<Rightarrow> None)"

definition spec_upload ::
  "pending_upload \<Rightarrow> bytes \<Rightarrow> int \<Rightarrow> int \<Rightarrow> bool \<Rightarrow> string \<Rightarrow> pending_upload \<times> upload_outcome" where
  "spec_upload st data off tot final ck =
     (case spec_prior st off tot of None \<Rightarrow> (None, Rejected)
      | Some c \<Rightarrow>
          if \<not> chunk_fits c data tot final then (None, Rejected)
          else if \<not> final then (Some (tot, c @ data), Accepted)
          else if TrimSpace ck \<noteq> [] \<and> EqualFold (sha256_hex (c @ data)) ck
               then (None, Committed (c @ data))
          else (None, Rejected))"

section \<open>The state of a transfer in the tree\<close>

definition pending_at :: "fsys \<Rightarrow> path \<Rightarrow> pending_upload" where
  "pending_at fs t = (case (fmlookup fs t, fmlookup fs (upload_meta t)) of
       (Some (File c), Some (File m)) \<Rightarrow> (case ParseInt (TrimSpace m) of
            (tot, None) \<Rightarrow> Some (tot, c) | _ \<Rightarrow> None)
     | _ \<Rightarrow> None)"

text \<open>The conditions under which the machine lets an upload through: the directory exists, no
  directory bears one of the three names, the target is not one of the temporary files, and the
  bytes collected stay within the offsets a file can have.\<close>

definition upload_place :: "fsys \<Rightarrow> path \<Rightarrow> path \<Rightarrow> bool" where
  "upload_place fs safe t \<longleftrightarrow> fmlookup fs (DirOf safe) = Some Dir \<and> fmlookup fs safe \<noteq> Some Dir
     \<and> fmlookup fs t \<noteq> Some Dir \<and> fmlookup fs (upload_meta t) \<noteq> Some Dir
     \<and> safe \<noteq> t \<and> safe \<noteq> upload_meta t \<and> DirOf safe \<noteq> t \<and> DirOf safe \<noteq> upload_meta t"

definition upload_site :: "fsys \<Rightarrow> path \<Rightarrow> path \<Rightarrow> bool" where
  "upload_site fs safe t \<longleftrightarrow> upload_place fs safe t \<and> int (length (content_at fs t)) < 2 ^ 62"

lemma upload_meta_neq [simp]: "upload_meta t \<noteq> t" "t \<noteq> upload_meta t"
  by (simp_all add: upload_meta_def)

lemma pending_None_file:
  "\<forall>c. fmlookup fs t \<noteq> Some (File c) \<Longrightarrow> pending_at fs t = None"
  by (auto simp: pending_at_def split: option.splits node.splits)

lemma pending_begun [simp]:
  "int64_ok tot \<Longrightarrow> pending_at (fmupd t (File c) (fmupd (upload_meta t) (File (FormatInt tot)) fs)) t
     = Some (tot, c)"
  by (simp add: pending_at_def TrimSpace_graphic ParseInt_FormatInt graphic_FormatInt)

lemma pending_cleanup [simp]: "fault_free E \<Longrightarrow> pending_at (upload_cleanup E fs t) t = None"
  by (rule pending_None_file) (simp add: upload_cleanup_gone)

section \<open>The stages in an environment without failures\<close>

lemma upload_check_iff:
  assumes "0 \<le> off" "off < 2 ^ 62"
  shows "upload_check data off tot final = None \<longleftrightarrow>
     0 \<le> tot \<and> int (length data) \<le> DefaultChunkSize \<and>
     (if final then off + int (length data) = tot else data \<noteq> [] \<and> off + int (length data) < tot)"
proof (cases "int (length data) \<le> DefaultChunkSize")
  case True
  then have "add64 off (int (length data)) = off + int (length data)"
    using assms by (intro add64_nonneg_id) (simp_all add: DefaultChunkSize_def)
  with assms True show ?thesis by (auto simp: upload_check_def)
next
  case False
  then show ?thesis by (simp add: upload_check_def)
qed

lemma upload_begin_first_quiet:
  assumes "fault_free E" "fmlookup fs (DirOf t) = Some Dir" "fmlookup fs t \<noteq> Some Dir"
    "DirOf (upload_meta t) = DirOf t" "fmlookup fs (upload_meta t) \<noteq> Some Dir" "DirOf t \<noteq> t"
  shows "upload_begin E fs t 0 tot =
     (fmupd (upload_meta t) (File (FormatInt tot)) (fmupd t (File []) fs), None)"
  using assms by (simp add: upload_begin_def WriteFile_quiet)

lemma upload_begin_resume_quiet:
  assumes "fault_free E" "fmlookup fs t \<noteq> Some Dir" "off \<noteq> 0"
  shows "snd (upload_begin E fs t off tot) = None \<longleftrightarrow> (\<exists>c. pending_at fs t = Some (tot, c) \<and> int (length c) = off)"
  using assms
  by (auto simp: upload_begin_def ReadFile_quiet stat_def pending_at_def
      split: option.splits node.splits prod.splits if_splits)

lemma upload_append_quiet:
  assumes "fault_free E" "fmlookup fs t = Some (File c)"
  shows "upload_append E fs t data off = (fmupd t (File (splice c (nat off) data)) fs, None)"
proof -
  have "fmupd t (File c) fs = fs" using assms(2) by (intro fmap_ext) auto
  then show ?thesis using assms
    by (auto simp: upload_append_def open_write_def write_at_def)
qed

lemma FileSHA256_quiet:
  "fault_free E \<Longrightarrow> clean_abs p \<Longrightarrow> dotdot_free p \<Longrightarrow> fmlookup fs p = Some (File c)
    \<Longrightarrow> FileSHA256 E fs p = Inr (sha256_hex c)"
  by (simp add: FileSHA256_def safePath_clean open_read_def read_all_def)

lemma upload_finish_quiet:
  assumes "fault_free E" "clean_abs t" "dotdot_free t" "fmlookup fs t = Some (File c)"
    "upload_place fs safe t"
  shows "upload_finish E fs t safe ck = (if TrimSpace ck \<noteq> [] \<and> EqualFold (sha256_hex c) ck
     then (fst (remove E (fmupd safe (File c) (fmdrop t fs)) (upload_meta t)), None)
     else (fs, snd (upload_finish E fs t safe ck)))"
    "\<not> (TrimSpace ck \<noteq> [] \<and> EqualFold (sha256_hex c) ck) \<Longrightarrow> snd (upload_finish E fs t safe ck) \<noteq> None"
proof -
  have "rename E fs t safe = (fmupd safe (File c) (fmdrop t fs), None)"
    using assms by (auto simp: rename_def upload_place_def parent_err_def split: option.splits node.splits)
  then show "upload_finish E fs t safe ck = (if TrimSpace ck \<noteq> [] \<and> EqualFold (sha256_hex c) ck
     then (fst (remove E (fmupd safe (File c) (fmdrop t fs)) (upload_meta t)), None)
     else (fs, snd (upload_finish E fs t safe ck)))"
    using FileSHA256_quiet [OF assms(1-4)] by (auto simp: upload_finish_def)
  show "\<not> (TrimSpace ck \<noteq> [] \<and> EqualFold (sha256_hex c) ck) \<Longrightarrow> snd (upload_finish E fs t safe ck) \<noteq> None"
    using FileSHA256_quiet [OF assms(1-4)] by (auto simp: upload_finish_def)
qed

section \<open>One chunk refines the specification\<close>

lemma pending_content: "pending_at fs t = Some (tot, c) \<Longrightarrow> fmlookup fs t = Some (File c) \<and> content_at fs t = c"
  by (auto simp: pending_at_def content_at_def split: option.splits node.splits prod.splits)

lemma spec_prior_bounds:
  assumes "spec_prior (pending_at fs t) off tot = Some c" "upload_site fs safe t"
  shows "int (length c) = off" "0 \<le> off" "off < 2 ^ 62"
proof -
  show l: "int (length c) = off" using assms(1) by (auto simp: spec_prior_def split: if_splits option.splits prod.splits)
  then show "0 \<le> off" by simp
  show "off < 2 ^ 62"
  proof (cases "off = 0")
    case False
    with assms(1) have "pending_at fs t = Some (tot, c)"
      by (auto simp: spec_prior_def split: option.splits prod.splits if_splits)
    with pending_content assms(2) l show ?thesis by (auto simp: upload_site_def)
  qed simp
qed

lemma begin_prior:
  assumes "fault_free E" "upload_site fs safe t" "DirOf t = DirOf safe" "DirOf (upload_meta t) = DirOf safe"
    "int64_ok tot" "upload_begin E fs t off tot = (fs1, None)"
  shows "\<exists>c. spec_prior (pending_at fs t) off tot = Some c \<and> pending_at fs1 t = Some (tot, c)"
proof (cases "off = 0")
  case True
  with upload_begin_first [of E fs t tot fs1] assms(6)
  have "fs1 = fmupd t (File []) (fmupd (upload_meta t) (File (FormatInt tot)) fs)"
    by (simp add: fmupd_reorder_neq)
  with True assms(5) show ?thesis by (simp add: spec_prior_def)
next
  case False
  have "fmlookup fs t \<noteq> Some Dir" using assms(2) by (simp add: upload_site_def upload_place_def)
  with upload_begin_resume_quiet [OF assms(1) this False, of tot] assms(6)
  obtain c where "pending_at fs t = Some (tot, c)" "int (length c) = off" by auto
  moreover have "fs1 = fs" using upload_begin_resume [OF assms(6) False] by simp
  ultimately show ?thesis using False by (simp add: spec_prior_def)
qed

lemma begin_no_prior:
  assumes "fault_free E" "upload_site fs safe t" "DirOf t = DirOf safe" "DirOf (upload_meta t) = DirOf safe"
    "upload_begin E fs t off tot = (fs1, Some e)"
  shows "spec_prior (pending_at fs t) off tot = None"
proof (cases "off = 0")
  case True
  have "upload_begin E fs t 0 tot = (fmupd (upload_meta t) (File (FormatInt tot)) (fmupd t (File []) fs), None)"
    using assms(1-4) by (intro upload_begin_first_quiet) (auto simp: upload_site_def upload_place_def)
  with assms(5) True show ?thesis by simp
next
  case False
  have "fmlookup fs t \<noteq> Some Dir" using assms(2) by (simp add: upload_site_def upload_place_def)
  from upload_begin_resume_quiet [OF assms(1) this False, of tot] assms(5) False
  show ?thesis by (auto simp: spec_prior_def split: option.splits)
qed

lemma append_pending:
  assumes "fault_free E" "pending_at fs t = Some (tot, c)"
  shows "upload_append E fs t data (int (length c)) = (fmupd t (File (c @ data)) fs, None)"
    "pending_at (fmupd t (File (c @ data)) fs) t = Some (tot, c @ data)"
proof -
  show "upload_append E fs t data (int (length c)) = (fmupd t (File (c @ data)) fs, None)"
    using upload_append_quiet [OF assms(1)] pending_content [OF assms(2)] by simp
  show "pending_at (fmupd t (File (c @ data)) fs) t = Some (tot, c @ data)"
    using assms(2) by (auto simp: pending_at_def split: option.splits node.splits prod.splits)
qed

text \<open>What \<open>upload_site\<close> needs survives changes of the temporary files.\<close>

lemma upload_place_upd:
  "upload_place fs safe t \<Longrightarrow> same_except {t, upload_meta t} fs fs1
    \<Longrightarrow> pending_at fs1 t = Some (tot, c) \<Longrightarrow> upload_place fs1 safe t"
  unfolding upload_place_def
  using same_exceptD [of "{t, upload_meta t}" fs fs1 safe] same_exceptD [of "{t, upload_meta t}" fs fs1 "DirOf safe"]
  by (auto simp: content_at_def pending_at_def split: option.splits node.splits prod.splits)

definition outcome_ok :: "goerr option \<Rightarrow> upload_outcome \<Rightarrow> bool" where
  "outcome_ok r out \<longleftrightarrow> (r = None) = (out \<noteq> Rejected)"

definition target_after :: "upload_outcome \<Rightarrow> node option \<Rightarrow> node option" where
  "target_after out old = (case out of Committed c \<Rightarrow> Some (File c) | _ \<Rightarrow> old)"

text \<open>After a commit the temporary file is gone and the target holds the collected bytes.\<close>

lemma finish_commit:
  assumes "pending_at fs t = Some (tot, c)" "upload_place fs safe t" "fault_free E"
  defines "fs' \<equiv> fst (remove E (fmupd safe (File c) (fmdrop t fs)) (upload_meta t))"
  shows "pending_at fs' t = None" "fmlookup fs' safe = Some (File c)"
proof -
  show "pending_at fs' t = None"
    using assms(2) by (intro pending_None_file) (auto simp: fs'_def remove_lookup upload_place_def)
  show "fmlookup fs' safe = Some (File c)"
    using assms(2) by (auto simp: fs'_def remove_lookup upload_place_def)
qed

text \<open>A step from \<open>fs\<close> to \<open>fs'\<close> with result \<open>r\<close> is the specification's step to \<open>st'\<close> with outcome \<open>out\<close>.\<close>

definition step_matches ::
  "fsys \<Rightarrow> fsys \<Rightarrow> path \<Rightarrow> path \<Rightarrow> goerr option \<Rightarrow> pending_upload \<times> upload_outcome \<Rightarrow> bool" where
  "step_matches fs fs' safe t r so \<longleftrightarrow> pending_at fs' t = fst so \<and> outcome_ok r (snd so)
     \<and> fmlookup fs' safe = target_after (snd so) (fmlookup fs safe)"

lemma rejected_matches:
  assumes "fault_free E" "safe \<notin> {t, upload_meta t}" "same_except {t, upload_meta t} fs fs1"
  shows "step_matches fs (upload_cleanup E fs1 t) safe t (Some e) (None, Rejected)"
proof -
  have "same_except {t, upload_meta t} fs (upload_cleanup E fs1 t)"
    using assms(3) upload_cleanup_frame by (rule same_except_trans)
  then have "fmlookup (upload_cleanup E fs1 t) safe = fmlookup fs safe" using assms(2) by (rule same_exceptD)
  with assms(1) show ?thesis by (simp add: step_matches_def outcome_ok_def target_after_def)
qed

lemma check_fails_spec:
  assumes "upload_check data off tot final = Some e" "upload_site fs safe t"
  shows "spec_upload (pending_at fs t) data off tot final ck = (None, Rejected)"
proof (cases "spec_prior (pending_at fs t) off tot")
  case (Some c)
  note bd = spec_prior_bounds [OF Some assms(2)]
  have "upload_check data off tot final \<noteq> None" using assms(1) by simp
  then have "\<not> chunk_fits c data tot final"
    unfolding upload_check_iff [OF bd(2,3), of data tot final] chunk_fits_def using bd(1) by auto
  with Some show ?thesis by (simp add: spec_upload_def)
qed (simp add: spec_upload_def)

text \<open>After both stages, the bytes collected so far followed by the chunk are pending.\<close>

lemma chunk_started:
  assumes "fault_free E" "upload_site fs safe t" "DirOf t = DirOf safe" "DirOf (upload_meta t) = DirOf safe"
    "int64_ok tot" "upload_begin E fs t off tot = (fs1, None)" "upload_check data off tot final = None"
  obtains c where "spec_prior (pending_at fs t) off tot = Some c" "chunk_fits c data tot final"
    "upload_append E fs1 t data off = (fmupd t (File (c @ data)) fs1, None)"
    "pending_at (fmupd t (File (c @ data)) fs1) t = Some (tot, c @ data)"
    "upload_place (fmupd t (File (c @ data)) fs1) safe t"
proof -
  from begin_prior [OF assms(1-6)] obtain c where
    c: "spec_prior (pending_at fs t) off tot = Some c" "pending_at fs1 t = Some (tot, c)" by blast
  note bd = spec_prior_bounds [OF c(1) assms(2)]
  note ap = append_pending [OF assms(1) c(2), of data, unfolded bd(1)]
  have "chunk_fits c data tot final"
    using assms(7) bd(1) unfolding upload_check_iff [OF bd(2,3)] chunk_fits_def by (auto split: if_splits)
  moreover have "upload_place fs safe t" using assms(2) by (simp add: upload_site_def)
  then have "upload_place (fmupd t (File (c @ data)) fs1) safe t"
    by (rule upload_place_upd [OF _ upload_stages_frame(2) [OF assms(6) ap(1)] ap(2)])
  ultimately show thesis using c ap that by blast
qed

lemma finish_matches:
  assumes "fault_free E" "clean_abs t" "dotdot_free t" "upload_place fs2 safe t"
    "pending_at fs2 t = Some (tot, c)" "same_except {t, upload_meta t} fs fs2"
    "upload_finish E fs2 t safe ck = (fs3, r)"
  defines "good \<equiv> TrimSpace ck \<noteq> [] \<and> EqualFold (sha256_hex c) ck"
  shows "(r = None) = good"
    "r = None \<Longrightarrow> step_matches fs fs3 safe t None (None, Committed c)"
proof -
  note fin = upload_finish_quiet [OF assms(1-3) conjunct1 [OF pending_content [OF assms(5)]] assms(4), of ck]
  show g: "(r = None) = good"
    using fin assms(7) unfolding good_def by (cases good) (auto simp: good_def)
  assume "r = None"
  with g have good by simp
  with fin(1) assms(7) have "fs3 = fst (remove E (fmupd safe (File c) (fmdrop t fs2)) (upload_meta t))"
    by (auto simp: good_def)
  with finish_commit [OF assms(5,4,1)] show "step_matches fs fs3 safe t None (None, Committed c)"
    by (simp add: step_matches_def outcome_ok_def target_after_def)
qed

lemma upload_step_refines:
  assumes call: "WriteAtomicUploadChunk E fs path tid data off tot final ck = (fs', r)"
    and env: "fault_free E" "env_ok E" and path: "safePath E path = Inr safe"
    and tid: "transfer_id_err tid = None" and site: "upload_site fs safe (upload_temp safe tid)"
    and i64: "int64_ok tot"
  shows "step_matches fs fs' safe (upload_temp safe tid) r
     (spec_upload (pending_at fs (upload_temp safe tid)) data off tot final ck)"
proof -
  let ?t = "upload_temp safe tid"
  note ok = safePath_sound [OF env(2) path]
  note pth = upload_paths [of safe tid, OF conjunct1 [OF ok] conjunct2 [OF ok] tid]
  have place: "upload_place fs safe ?t" using site by (simp add: upload_site_def)
  then have safe_n: "safe \<notin> {?t, upload_meta ?t}" by (simp add: upload_place_def)
  note reject = rejected_matches [OF env(1) safe_n]
  note started = chunk_started [OF env(1) site pth(4,5) i64]
  show ?thesis using call
  proof (cases rule: upload_cases)
    case (rejected e)
    with tid path show ?thesis by simp
  next
    case (checked s e)
    then have s: "s = safe" using path by simp
    show ?thesis unfolding check_fails_spec [OF checked(3) site] checked(4,5) s
      by (rule reject) simp
  next
    case (begun s fs1 e)
    then have s: "s = safe" using path by simp
    have "spec_prior (pending_at fs ?t) off tot = None"
      using begin_no_prior [OF env(1) site pth(4,5)] begun(4) s by simp
    then have "spec_upload (pending_at fs ?t) data off tot final ck = (None, Rejected)"
      by (simp add: spec_upload_def)
    moreover have "same_except {?t, upload_meta ?t} fs fs1"
      using upload_begin_frame [of ?t fs E off tot] begun(4) s by simp
    ultimately show ?thesis using reject begun(5,6) s by simp
  next
    case (appended s fs1 fs2 e)
    then have s: "s = safe" using path by simp
    show ?thesis using started [OF appended(4) [unfolded s] appended(3)] appended(5) s by auto
  next
    case (more s fs1)
    then have s: "s = safe" using path by simp
    from started [OF more(4) [unfolded s] more(3)] more(5) s obtain c where
      c: "spec_prior (pending_at fs ?t) off tot = Some c" "chunk_fits c data tot final"
      "pending_at fs' ?t = Some (tot, c @ data)" by (metis prod.inject)
    have "fmlookup fs' safe = fmlookup fs safe"
      using upload_stages_frame(2) [OF more(4,5)] safe_n s by (blast dest: same_exceptD)
    with c more(6,7) show ?thesis
      by (simp add: spec_upload_def step_matches_def outcome_ok_def target_after_def)
  next
    case (unverified s fs1 fs2 e)
    then have s: "s = safe" using path by simp
    from started [OF unverified(4) [unfolded s] unverified(3)] unverified(5) s obtain c where
      c: "spec_prior (pending_at fs ?t) off tot = Some c"
      "pending_at fs2 ?t = Some (tot, c @ data)" "upload_place fs2 safe ?t" by (metis prod.inject)
    note fr = upload_stages_frame(2) [OF unverified(4,5), unfolded s]
    from finish_matches(1) [OF env(1) pth(1,3) c(3,2) fr unverified(7) [unfolded s]]
    have "spec_upload (pending_at fs ?t) data off tot final ck = (None, Rejected)"
      using c(1) unverified(6) by (auto simp: spec_upload_def)
    with reject [OF fr] unverified(8,9) s show ?thesis by simp
  next
    case (committed s fs1 fs2)
    then have s: "s = safe" using path by simp
    from started [OF committed(4) [unfolded s] committed(3)] committed(5) s obtain c where
      c: "spec_prior (pending_at fs ?t) off tot = Some c" "chunk_fits c data tot final"
      "pending_at fs2 ?t = Some (tot, c @ data)" "upload_place fs2 safe ?t" by (metis prod.inject)
    note fin = finish_matches [OF env(1) pth(1,3) c(4,3) upload_stages_frame(2) [OF committed(4,5), unfolded s]
        committed(7) [unfolded s]]
    have "spec_upload (pending_at fs ?t) data off tot final ck = (None, Committed (c @ data))"
      using c(1,2) committed(6) fin(1) by (simp add: spec_upload_def)
    with fin(2) committed(8) show ?thesis by simp
  qed
qed

end
