(* ===== verification/FileFacts.thy ===== *)
theory FileFacts
  imports UploadSpec
begin

text \<open>
  The other file operations of the agent: every one keeps the tree well-formed, the reads and
  writes of a chunk return and store the right bytes, a directory listing is the requested
  page of the whole listing, and a canceled upload leaves neither temporary file.
\<close>

section \<open>Well-formedness\<close>

lemma upload_cleanup_wf [intro]: "fs_wf fs \<Longrightarrow> fs_wf (upload_cleanup E fs t)"
  by (auto simp: upload_cleanup_def)

lemma upload_begin_wf:
  assumes "fs_wf fs" "clean_abs t" "clean_abs (upload_meta t)" "upload_begin E fs t off tot = (fs1, r)"
  shows "fs_wf fs1"
proof -
  obtain fsa ra where a: "WriteFile E fs t [] = (fsa, ra)" by force
  then have wa: "fs_wf fsa" using WriteFile_wf [OF assms(1,2), of E "[]"] by simp
  obtain fsb rb where b: "WriteFile E fsa (upload_meta t) (FormatInt tot) = (fsb, rb)" by force
  then have "fs_wf fsb" using WriteFile_wf [OF wa assms(3), of E "FormatInt tot"] by simp
  with assms(1,4) a b wa show ?thesis
    by (auto simp: upload_begin_def split: option.splits sum.splits prod.splits if_splits)
qed

lemma upload_append_wf:
  assumes "fs_wf fs" "clean_abs t" "upload_append E fs t data off = (fs1, r)"
  shows "fs_wf fs1"
proof -
  obtain fsa ra where a: "open_write E fs t False False = (fsa, ra)" by force
  then have wa: "fs_wf fsa" using open_write_wf [OF assms(1,2), of E False False] by simp
  obtain fsb n rb where b: "write_at E fsa t data (nat off) = (fsb, n, rb)" by (metis prod.collapse)
  then have "fs_wf fsb" using write_at_wf [OF wa, of E t data "nat off"] by simp
  with assms(1,3) a b wa show ?thesis
    by (cases "data = []") (auto simp: upload_append_def split: option.splits if_splits)
qed

lemma upload_finish_wf:
  assumes "fs_wf fs" "clean_abs safe" "upload_finish E fs t safe ck = (fs1, r)"
  shows "fs_wf fs1"
proof -
  obtain fsa ra where a: "rename E fs t safe = (fsa, ra)" by force
  then have wa: "fs_wf fsa" using rename_wf [OF assms(1,2), of E t] by simp
  then have "fs_wf (fst (remove E fsa (upload_meta t)))" by auto
  with assms(1,3) a wa show ?thesis
    by (auto simp: upload_finish_def split: option.splits sum.splits if_splits)
qed

lemma WriteAtomicUploadChunk_wf:
  assumes "WriteAtomicUploadChunk E fs path tid data off tot final ck = (fs', r)" "fs_wf fs" "env_ok E"
  shows "fs_wf fs'"
proof -
  have paths: "clean_abs safe \<and> clean_abs (upload_temp safe tid) \<and> clean_abs (upload_meta (upload_temp safe tid))"
    if "transfer_id_err tid = None" "safePath E path = Inr safe" for safe
    using safePath_sound [OF assms(3) that(2)] upload_paths(1,2) [OF _ _ that(1)] by blast
  show ?thesis using assms(1)
  proof (cases rule: upload_cases)
    case (rejected e)
    with assms(2) show ?thesis by simp
  next
    case (checked safe e)
    with assms(2) show ?thesis by auto
  next
    case (begun safe fs1 e)
    with upload_begin_wf [OF assms(2) _ _ begun(4)] paths [OF begun(1,2)] show ?thesis by auto
  next
    case (appended safe fs1 fs2 e)
    note p = paths [OF appended(1,2)]
    have "fs_wf fs1" using upload_begin_wf [OF assms(2) _ _ appended(4)] p by blast
    then have "fs_wf fs2" using upload_append_wf [OF _ _ appended(5)] p by blast
    with appended show ?thesis by auto
  next
    case (more safe fs1)
    note p = paths [OF more(1,2)]
    have "fs_wf fs1" using upload_begin_wf [OF assms(2) _ _ more(4)] p by blast
    then show ?thesis using upload_append_wf [OF _ _ more(5)] p by blast
  next
    case (unverified safe fs1 fs2 e)
    note p = paths [OF unverified(1,2)]
    have "fs_wf fs1" using upload_begin_wf [OF assms(2) _ _ unverified(4)] p by blast
    then have "fs_wf fs2" using upload_append_wf [OF _ _ unverified(5)] p by blast
    with unverified show ?thesis by auto
  next
    case (committed safe fs1 fs2)
    note p = paths [OF committed(1,2)]
    have "fs_wf fs1" using upload_begin_wf [OF assms(2) _ _ committed(4)] p by blast
    then have "fs_wf fs2" using upload_append_wf [OF _ _ committed(5)] p by blast
    then show ?thesis using upload_finish_wf [OF _ _ committed(7)] p by blast
  qed
qed

lemma pad_to_offset_wf: "fs_wf fs \<Longrightarrow> pad_to_offset E fs p off = (fs1, r) \<Longrightarrow> fs_wf fs1"
  using truncate_wf [of fs E p "nat off"]
  by (auto simp: pad_to_offset_def split: option.splits prod.splits if_splits)

lemma WriteFileChunk_wf:
  assumes "WriteFileChunk E fs path data off = (fs', r)" "fs_wf fs" "env_ok E"
  shows "fs_wf fs'"
proof (cases "off < 0 \<or> (\<exists>e. safePath E path = Inl e)")
  case True
  with assms(1,2) show ?thesis by (auto simp: WriteFileChunk_def split: if_splits)
next
  case False
  then obtain safe where s: "\<not> off < 0" "safePath E path = Inr safe" by (cases "safePath E path") auto
  then have ca: "clean_abs safe" using safePath_sound [OF assms(3)] by blast
  obtain fs1 r1 where o: "open_write E fs safe True (off = 0) = (fs1, r1)" by force
  then have w1: "fs_wf fs1" using open_write_wf [OF assms(2) ca, of E True "off = 0"] by simp
  obtain fs2 r2 where p: "pad_to_offset E fs1 safe off = (fs2, r2)" by force
  with w1 have w2: "fs_wf fs2" by (rule pad_to_offset_wf)
  obtain fs3 n r3 where w: "write_at E fs2 safe data (nat off) = (fs3, n, r3)" by (metis prod.collapse)
  then have "fs_wf fs3" using write_at_wf [OF w2, of E safe data "nat off"] by simp
  with assms(1) s o p w w1 w2 show ?thesis
    by (auto simp: WriteFileChunk_def split: option.splits if_splits)
qed

lemma remove_candidates_wf: "fs_wf fs \<Longrightarrow> fs_wf (fst (remove_candidates E fs ps))"
proof (induction ps arbitrary: fs)
  case (Cons p ps)
  obtain fs1 r where r: "remove E fs p = (fs1, r)" by force
  then have "fs_wf fs1" using remove_wf [OF Cons.prems, of E p] by simp
  with Cons.IH r show ?case by (simp split: option.splits)
qed simp

lemma CancelAtomicUpload_wf: "fs_wf fs \<Longrightarrow> fs_wf (fst (CancelAtomicUpload E fs path tid))"
  by (auto simp: CancelAtomicUpload_def Let_def split: option.splits sum.splits
      simp del: remove_candidates.simps intro: remove_candidates_wf)

section \<open>Reading a chunk\<close>

definition chunk_len :: "int \<Rightarrow> nat" where
  "chunk_len n = nat (if n \<le> 0 then DefaultChunkSize else n)"

lemma chunk_len_pos [simp]: "0 < chunk_len n"
  by (simp add: chunk_len_def DefaultChunkSize_def)

lemma ReadFileChunk_quiet:
  assumes "fault_free E" "safePath E path = Inr p" "fmlookup fs p = Some (File c)"
    "0 \<le> off" "off < int (length c) \<or> off = 0"
  shows "ReadFileChunk E fs path off n = (take (chunk_len n) (drop (nat off) c), int (length c), None)"
proof (cases "off = int (length c)")
  case True
  with assms show ?thesis by (auto simp: ReadFileChunk_def open_read_def Let_def)
next
  case False
  let ?m = "if n \<le> 0 then DefaultChunkSize else n"
  let ?k = "if ?m > int (length c) - off then int (length c) - off else ?m"
  from False assms have lt: "off < int (length c)" by auto
  have k: "take (nat ?k) (drop (nat off) c) = take (chunk_len n) (drop (nat off) c)"
    using assms(4) lt by (cases "?m > int (length c) - off") (auto simp: chunk_len_def nat_diff_distrib)
  have "length (take (nat ?k) (drop (nat off) c)) = nat ?k"
    using assms(4) lt by auto
  then have "read_at E (File c) p (nat off) (nat ?k) = (take (chunk_len n) (drop (nat off) c), None)"
    using assms(1) by (simp add: read_at_def Let_def k)
  then show ?thesis using assms(1-4) lt by (simp add: ReadFileChunk_def open_read_def Let_def)
qed

text \<open>Whatever fails, the bytes returned without an error are bytes of the file at this offset.\<close>

lemma ReadFileChunk_unfold:
  fixes n :: int
  assumes "0 \<le> off" "safePath E path = Inr p" "open_read E fs p = Inr nd" "fault E SFstat p = None"
  defines "m \<equiv> if n \<le> 0 then DefaultChunkSize else n"
  defines "k \<equiv> if m > node_size E p nd - off then node_size E p nd - off else m"
  shows "ReadFileChunk E fs path off n =
    (let beyond = Some (Sprintf ''offset %d beyond file size %d'' [GInt off, GInt (node_size E p nd)])
     in if off > node_size E p nd then ([], node_size E p nd, beyond)
        else if off = node_size E p nd then ([], node_size E p nd, if node_size E p nd = 0 then None else beyond)
        else (case read_at E nd p (nat off) (nat k) of
            (buf, Some err) \<Rightarrow> if buf = []
              then ([], node_size E p nd, Some (Sprintf ''read error at offset %d: %w'' [GInt off, GOs err]))
              else (buf, node_size E p nd, None)
          | (buf, None) \<Rightarrow> (buf, node_size E p nd, None)))"
  using assms(1-4) unfolding ReadFileChunk_def k_def m_def by (simp add: Let_def)

lemma read_at_prefix:
  assumes "read_at E (File c) p off k = (buf, r)"
  shows "prefix buf (drop off c)" "length buf \<le> k"
  using assms
  by (auto simp: read_at_def Let_def take_is_prefix split: option.splits
      intro: prefix_order.trans [OF take_is_prefix])

lemma ReadFileChunk_sound:
  assumes "ReadFileChunk E fs path off n = (buf, sz, None)"
  shows "0 \<le> off \<and> (\<exists>p nd. safePath E path = Inr p \<and> fmlookup fs p = Some nd \<and> sz = node_size E p nd \<and>
     (case nd of File c \<Rightarrow> prefix buf (drop (nat off) c) \<and> length buf \<le> chunk_len n
         \<and> (buf = [] \<longrightarrow> c = [] \<or> nat off < length c)
      | Dir \<Rightarrow> buf = []))"
proof -
  have off: "0 \<le> off" using assms by (auto simp: ReadFileChunk_def split: if_splits)
  with assms obtain p where p: "safePath E path = Inr p"
    by (cases "safePath E path") (auto simp: ReadFileChunk_def)
  with assms off obtain nd where nd: "open_read E fs p = Inr nd"
    by (cases "open_read E fs p") (auto simp: ReadFileChunk_def Let_def)
  with assms off p have st: "fault E SFstat p = None"
    by (cases "fault E SFstat p") (auto simp: ReadFileChunk_def Let_def)
  from nd have l: "fmlookup fs p = Some nd" by (auto simp: open_read_def split: option.splits)
  note u = ReadFileChunk_unfold [OF off p nd st, of n]
  show ?thesis
  proof (cases "off < node_size E p nd")
    case False
    with assms u have "buf = []" "sz = node_size E p nd" "node_size E p nd = 0"
      by (auto simp: Let_def split: if_splits)
    with off p l show ?thesis by (cases nd) auto
  next
    case True
    let ?m = "if n \<le> 0 then DefaultChunkSize else n"
    define k where "k = nat (if ?m > node_size E p nd - off then node_size E p nd - off else ?m)"
    have k: "k \<le> chunk_len n" by (auto simp: k_def chunk_len_def)
    obtain b r where ra: "read_at E nd p (nat off) k = (b, r)" by force
    with assms u True have e: "buf = b" "sz = node_size E p nd"
      by (auto simp: Let_def k_def [symmetric] split: if_splits option.splits)
    show ?thesis
    proof (cases nd)
      case (File c)
      with read_at_prefix [of E c p "nat off" k b r] ra k e True off p l show ?thesis by auto
    next
      case Dir
      with ra e off p l show ?thesis by (auto simp: read_at_def)
    qed
  qed
qed

section \<open>Writing a chunk in place\<close>


text \<open>
  The file after a successful write at \<open>off\<close>: offset 0 starts the file over, any other offset
  replaces the bytes there, with zeros between the old end and the offset.
\<close>

definition written :: "bytes \<Rightarrow> nat \<Rightarrow> bytes \<Rightarrow> bytes" where
  "written c off data = (if off = 0 then data else resize c off @ data @ drop (off + length data) c)"

lemma resize_resize [simp]: "resize (resize c n) n = resize c n"
  by (simp add: resize_def zeros_def min_def)

lemma length_resize [simp]: "length (resize c n) = n"
  by (simp add: resize_def zeros_def min_def)

lemma splice_written:
  assumes "off \<noteq> 0"
  shows "splice (if length c < off then resize c off else c) off data = written c off data"
proof (cases "length c < off")
  case True
  then show ?thesis using assms by (simp add: splice_def written_def)
next
  case False
  then have "resize c off = take off c" by (simp add: resize_def zeros_def)
  with assms False show ?thesis by (simp add: splice_def written_def)
qed

lemma WriteFileChunk_quiet:
  assumes "fault_free E" "safePath E path = Inr p" "fmlookup fs p \<noteq> Some Dir"
    "fmlookup fs (DirOf p) = Some Dir" "0 \<le> off"
  shows "WriteFileChunk E fs path data off =
     (fmupd p (File (written (content_at fs p) (nat off) data)) fs, None)"
proof -
  define c0 where "c0 = (if off = 0 then [] else content_at fs p)"
  let ?fs1 = "fmupd p (File c0) fs"
  have same: "fmlookup fs p = Some nd \<Longrightarrow> fmupd p nd fs = fs" for nd by (rule fmap_ext) auto
  have o: "open_write E fs p True (off = 0) = (?fs1, None)"
    using assms same
    by (auto simp: open_write_def content_at_def c0_def parent_err_def split: option.splits node.splits)
  define c1 where "c1 = (if length c0 < nat off then resize c0 (nat off) else c0)"
  have p: "pad_to_offset E ?fs1 p off = (fmupd p (File c1) fs, None)"
    using assms(1,5) by (auto simp: pad_to_offset_def truncate_file_def c1_def)
  have w: "write_at E (fmupd p (File c1) fs) p data (nat off) = (fmupd p (File (splice c1 (nat off) data)) fs, length data, None)"
    using assms(1) by (simp add: write_at_def)
  have "splice c1 (nat off) data = written (content_at fs p) (nat off) data"
  proof (cases "off = 0")
    case True
    then show ?thesis by (simp add: c1_def c0_def written_def)
  next
    case False
    then have "nat off \<noteq> 0" using assms(5) by simp
    from splice_written [OF this, of "content_at fs p" data] False show ?thesis
      by (auto simp: c1_def c0_def split: if_splits)
  qed
  with assms(2,5) o p w show ?thesis by (simp add: WriteFileChunk_def)
qed

text \<open>With any fault, the write touches the named file only.\<close>

lemma WriteFileChunk_frame:
  assumes "safePath E path = Inr p"
  shows "same_except {p} fs (fst (WriteFileChunk E fs path data off))"
proof -
  obtain fs1 r1 where o: "open_write E fs p True (off = 0) = (fs1, r1)" by force
  then have 1: "same_except {p} fs fs1" using open_write_frame [of p "{p}" fs E True "off = 0"] by simp
  obtain fs2 r2 where p: "pad_to_offset E fs1 p off = (fs2, r2)" by force
  have "same_except {p} fs1 fs2"
    using p truncate_frame [of p "{p}" fs1 E "nat off"]
    by (auto simp: pad_to_offset_def split: option.splits prod.splits if_splits)
  with 1 have 2: "same_except {p} fs fs2" by (rule same_except_trans)
  obtain fs3 n r3 where w: "write_at E fs2 p data (nat off) = (fs3, n, r3)" by (metis prod.collapse)
  then have "same_except {p} fs2 fs3" using write_at_frame [of p "{p}" fs2 E data "nat off"] by simp
  with 2 have 3: "same_except {p} fs fs3" by (rule same_except_trans)
  show ?thesis using assms o p w 1 2 3 by (auto simp: WriteFileChunk_def split: option.splits)
qed

section \<open>Directory pages\<close>

definition listing :: "osenv \<Rightarrow> fsys \<Rightarrow> path \<Rightarrow> path list" where
  "listing E fs p = sort_key Base (sorted_list_of_fset (children fs p))"

definition page_limit :: "int \<Rightarrow> nat" where
  "page_limit n = nat (if n \<le> 0 then DefaultDirEntries else if n > MaxDirEntries then MaxDirEntries else n)"

lemma page_limit_bounds: "0 < page_limit n" "int (page_limit n) \<le> MaxDirEntries"
  by (auto simp: page_limit_def DefaultDirEntries_def MaxDirEntries_def)

lemma listing_set: "set (listing E fs p) = {q. q |\<in>| fmdom fs \<and> DirOf q = p \<and> q \<noteq> p}"
  by (auto simp: listing_def children_def sorted_list_of_fset.rep_eq)

lemma listing_distinct: "distinct (listing E fs p)"
  by (simp add: listing_def sorted_list_of_fset.rep_eq)

lemma listing_sorted: "sorted (map Base (listing E fs p))"
  by (simp add: listing_def)

lemma ListDir_quiet:
  fixes lim :: int
  assumes "fault_free E" "safePath E path = Inr p" "fmlookup fs p = Some Dir" "0 \<le> off"
  defines "all \<equiv> listing E fs p"
  defines "start \<equiv> min (nat off) (length all)"
  defines "stop \<equiv> min (start + page_limit lim) (length all)"
  shows "ListDir E fs path off lim = Inr \<lparr>dc_path = p,
     dc_entries = List.map_filter (dir_entry E fs p) (take (stop - start) (drop start all)),
     dc_total = int (length all), dc_next_offset = int stop, dc_has_more = stop < length all\<rparr>"
proof -
  have rd: "read_dir E fs p = Inr all" using assms(1,3) by (simp add: read_dir_def all_def listing_def)
  have st: "stat E fs p = Inr Dir" using assms(1,3) by (simp add: stat_def)
  define limit2 where "limit2 = (if (if lim \<le> 0 then DefaultDirEntries else lim) > MaxDirEntries then MaxDirEntries
     else if lim \<le> 0 then DefaultDirEntries else lim)"
  have l2: "limit2 = int (page_limit lim)"
    by (auto simp: limit2_def page_limit_def Let_def DefaultDirEntries_def MaxDirEntries_def)
  have s: "(if off > int (length all) then int (length all) else off) = int start"
    using assms(4) by (auto simp: start_def)
  have e: "(if int start + limit2 > int (length all) then int (length all) else int start + limit2) = int stop"
    unfolding l2 by (auto simp: stop_def)
  let ?s = "if off > int (length all) then int (length all) else off"
  let ?e = "if ?s + limit2 > int (length all) then int (length all) else ?s + limit2"
  have "ListDir E fs path off lim = Inr \<lparr>dc_path = p,
     dc_entries = List.map_filter (dir_entry E fs p) (take (nat (?e - ?s)) (drop (nat ?s) all)),
     dc_total = int (length all), dc_next_offset = ?e, dc_has_more = ?e < int (length all)\<rparr>"
    using assms(2,4) st rd unfolding ListDir_def limit2_def
    by (simp add: Let_def split del: if_split)
  moreover have "nat (int stop - int start) = stop - start" by arith
  ultimately show ?thesis unfolding s e by simp
qed

section \<open>Canceling an upload\<close>

lemma CancelAtomicUpload_quiet:
  assumes "fault_free E" "safePath E path = Inr p" "transfer_id_err tid = None"
    "upload_place fs p (upload_temp p tid)"
  shows "CancelAtomicUpload E fs path tid = (fmdrop (upload_meta (upload_temp p tid)) (fmdrop (upload_temp p tid) fs), None)"
proof -
  have rm: "remove E fs' q = (fmdrop q fs', if fmlookup fs' q = None then Some ENOENT else None)"
    if "fmlookup fs' q \<noteq> Some Dir" for fs' q
  proof -
    have "fmlookup fs' q = None \<Longrightarrow> fmdrop q fs' = fs'" by (rule fmap_ext) auto
    with assms(1) that show ?thesis by (auto simp: remove_def split: option.splits node.splits)
  qed
  let ?t = "upload_temp p tid"
  have "fmlookup fs ?t \<noteq> Some Dir" "fmlookup (fmdrop ?t fs) (upload_meta ?t) \<noteq> Some Dir"
    using assms(4) by (auto simp: upload_place_def)
  with assms(2,3) show ?thesis by (simp add: CancelAtomicUpload_def Let_def rm)
qed

lemma CancelAtomicUpload_frame:
  assumes "CancelAtomicUpload E fs path tid = (fs', r)"
  shows "same_except (upload_files E path tid) fs fs'"
proof -
  have rc: "set ps \<subseteq> A \<Longrightarrow> same_except A fs0 (fst (remove_candidates E fs0 ps))" for ps A fs0
  proof (induction ps arbitrary: fs0)
    case (Cons q ps)
    obtain fs1 r1 where r: "remove E fs0 q = (fs1, r1)" by force
    then have s: "same_except A fs0 fs1" using remove_frame [of q A fs0 E] Cons.prems by simp
    moreover have "same_except A fs1 (fst (remove_candidates E fs1 ps))" using Cons by simp
    ultimately have "same_except A fs0 (fst (remove_candidates E fs1 ps))" by (rule same_except_trans)
    with s r show ?case by (simp split: option.splits)
  qed simp
  show ?thesis
  proof (cases "transfer_id_err tid")
    case (Some e)
    with assms show ?thesis by (simp add: CancelAtomicUpload_def)
  next
    case None
    show ?thesis
    proof (cases "safePath E path")
      case (Inl e)
      with None assms show ?thesis by (simp add: CancelAtomicUpload_def)
    next
      case (Inr p)
      let ?ps = "[upload_temp p tid, upload_meta (upload_temp p tid)]"
      have "fs' = fst (remove_candidates E fs ?ps)"
        using None Inr assms by (simp add: CancelAtomicUpload_def Let_def del: remove_candidates.simps)
      with rc [of ?ps "set ?ps" fs] Inr show ?thesis
        by (simp add: upload_files_def del: remove_candidates.simps)
    qed
  qed
qed

end
