(* ===== verification/IPGuard.thy ===== *)
theory IPGuard
  imports GoLib "HOL-Library.Multiset"
begin

text \<open>
  The connection guard of the agent (\<^verbatim>\<open>agent/internal/server/ipguard.go\<close>): live
  connections and authentication failures per remote address. Times are nanoseconds, the zero
  time of Go is 0, and the clock \<^verbatim>\<open>g.now()\<close> is an argument of the operations
  that read it.
\<close>

definition Second :: int where "Second = 1000000000"
definition Minute :: int where "Minute = 60 * Second"

definition MaxConnsPerIP :: int where "MaxConnsPerIP = 16"
definition MaxAuthFailuresPerIP :: int where "MaxAuthFailuresPerIP = 20"
definition AuthFailureWindow :: int where "AuthFailureWindow = Minute"
definition AuthBlockDuration :: int where "AuthBlockDuration = Minute"

lemmas guard_consts = Second_def Minute_def MaxConnsPerIP_def MaxAuthFailuresPerIP_def
  AuthFailureWindow_def AuthBlockDuration_def

section \<open>State and operations\<close>

record failureRecord =
  fr_count :: int
  fr_windowStart :: int
  fr_blockedUntil :: int

record ipGuard =
  g_active :: "(string, int) fmap"
  g_failures :: "(string, failureRecord) fmap"
  g_maxActive :: int
  g_maxFailures :: int
  g_window :: int
  g_block :: int

definition newIPGuard :: ipGuard where
  "newIPGuard = \<lparr>g_active = fmempty, g_failures = fmempty, g_maxActive = MaxConnsPerIP,
     g_maxFailures = MaxAuthFailuresPerIP, g_window = AuthFailureWindow, g_block = AuthBlockDuration\<rparr>"

definition active_of :: "ipGuard \<Rightarrow> string \<Rightarrow> int" where
  "active_of g ip = (case fmlookup (g_active g) ip of None \<Rightarrow> 0 | Some n \<Rightarrow> n)"

definition admit :: "int \<Rightarrow> ipGuard \<Rightarrow> string \<Rightarrow> ipGuard \<times> bool \<times> string" where
  "admit now g ip =
     (if (case fmlookup (g_failures g) ip of None \<Rightarrow> False | Some rec \<Rightarrow> now < fr_blockedUntil rec)
      then (g, False, ''too many failed authentication attempts'')
      else if active_of g ip \<ge> g_maxActive g
      then (g, False, ''too many simultaneous connections'')
      else (g\<lparr>g_active := fmupd ip (active_of g ip + 1) (g_active g)\<rparr>, True, ''''))"

definition release :: "ipGuard \<Rightarrow> string \<Rightarrow> ipGuard" where
  "release g ip =
     (if active_of g ip \<le> 1 then g\<lparr>g_active := fmdrop ip (g_active g)\<rparr>
      else g\<lparr>g_active := fmupd ip (active_of g ip - 1) (g_active g)\<rparr>)"

definition expired :: "int \<Rightarrow> ipGuard \<Rightarrow> failureRecord \<Rightarrow> bool" where
  "expired now g rec \<longleftrightarrow> now > fr_blockedUntil rec \<and> now - fr_windowStart rec > g_window g"

definition pruneLocked :: "int \<Rightarrow> ipGuard \<Rightarrow> ipGuard" where
  "pruneLocked now g =
     (if fcard (fmdom (g_failures g)) < 1024 then g
      else g\<lparr>g_failures := fmfilter (\<lambda>ip. case fmlookup (g_failures g) ip of
            None \<Rightarrow> False | Some rec \<Rightarrow> \<not> expired now g rec) (g_failures g)\<rparr>)"

definition count_failure :: "int \<Rightarrow> ipGuard \<Rightarrow> failureRecord option \<Rightarrow> failureRecord" where
  "count_failure now g old =
     (let rec0 = (case old of None \<Rightarrow> \<lparr>fr_count = 0, fr_windowStart = now, fr_blockedUntil = 0\<rparr>
            | Some rec \<Rightarrow> if now - fr_windowStart rec > g_window g
                then \<lparr>fr_count = 0, fr_windowStart = now, fr_blockedUntil = 0\<rparr> else rec);
          rec1 = rec0\<lparr>fr_count := fr_count rec0 + 1\<rparr>
      in if fr_count rec1 \<ge> g_maxFailures g
         then rec1\<lparr>fr_blockedUntil := now + g_block g, fr_count := 0, fr_windowStart := now\<rparr>
         else rec1)"

definition fail :: "int \<Rightarrow> ipGuard \<Rightarrow> string \<Rightarrow> ipGuard" where
  "fail now g ip =
     (let g1 = pruneLocked now g
      in g1\<lparr>g_failures := fmupd ip (count_failure now g1 (fmlookup (g_failures g1) ip)) (g_failures g1)\<rparr>)"

definition succeed :: "ipGuard \<Rightarrow> string \<Rightarrow> ipGuard" where
  "succeed g ip = g\<lparr>g_failures := fmdrop ip (g_failures g)\<rparr>"

definition remoteIP :: "string \<Rightarrow> string" where
  "remoteIP remoteAddr = (case SplitHostPort remoteAddr of None \<Rightarrow> remoteAddr | Some (host, _) \<Rightarrow> host)"

section \<open>Lookup equations\<close>

lemma active_release [guard_simps]:
  "0 \<le> active_of g ip \<Longrightarrow> active_of (release g ip) ip' = (if ip = ip' then max 0 (active_of g ip - 1) else active_of g ip')"
  by (auto simp: release_def active_of_def split: option.splits)

lemma active_prune [guard_simps]: "active_of (pruneLocked now g) ip = active_of g ip"
  by (simp add: pruneLocked_def active_of_def)

lemma active_fail [guard_simps]: "active_of (fail now g ip) ip' = active_of g ip'"
  by (simp add: fail_def Let_def active_of_def pruneLocked_def)

lemma active_succeed [guard_simps]: "active_of (succeed g ip) ip' = active_of g ip'"
  by (simp add: succeed_def active_of_def)

lemma active_admit [guard_simps]:
  "admit now g ip = (g', ok, why) \<Longrightarrow> active_of g' ip' = (if ok \<and> ip = ip' then active_of g ip + 1 else active_of g ip')"
  by (auto simp: admit_def active_of_def split: if_splits)

definition same_limits :: "ipGuard \<Rightarrow> ipGuard \<Rightarrow> bool" where
  "same_limits g g' \<longleftrightarrow> g_maxActive g' = g_maxActive g \<and> g_maxFailures g' = g_maxFailures g
     \<and> g_window g' = g_window g \<and> g_block g' = g_block g"

lemma same_limits_refl [simp]: "same_limits g g" by (simp add: same_limits_def)

lemma limits_admit [guard_simps]: "admit now g ip = (g', ok, why) \<Longrightarrow> same_limits g g'"
  by (auto simp: admit_def same_limits_def split: if_splits)

lemma limits_ops [guard_simps]:
  "same_limits g (release g ip)" "same_limits g (pruneLocked now g)" "same_limits g (fail now g ip)"
  "same_limits g (succeed g ip)"
  by (simp_all add: same_limits_def release_def pruneLocked_def fail_def succeed_def Let_def)

section \<open>The interface of a bounded pool of slots\<close>

text \<open>
  What the server relies on for its connection count, whatever the guard does about failed
  authentications: an admission takes one slot of its key below the limit, a release gives one
  back, and nothing else changes the count of any key.
\<close>

locale slot_pool =
  fixes acquire :: "'t \<Rightarrow> 's \<Rightarrow> 'k \<Rightarrow> 's \<times> bool"
    and give_back :: "'s \<Rightarrow> 'k \<Rightarrow> 's"
    and held :: "'s \<Rightarrow> 'k \<Rightarrow> int"
    and limit :: "'s \<Rightarrow> int"
  assumes acquire_held: "acquire t s k = (s', ok) \<Longrightarrow> held s' k' = held s k' + (if ok \<and> k' = k then 1 else 0)"
    and acquire_room: "acquire t s k = (s', True) \<Longrightarrow> held s k < limit s"
    and acquire_limit: "acquire t s k = (s', ok) \<Longrightarrow> limit s' = limit s"
    and give_back_held: "0 < held s k \<Longrightarrow> held (give_back s k) k' = held s k' - (if k' = k then 1 else 0)"
    and give_back_limit: "limit (give_back s k) = limit s"
begin

text \<open>The holders of slots are a multiset of keys; its counts are the pool's counts.\<close>

definition accounts :: "'s \<Rightarrow> 'k multiset \<Rightarrow> bool" where
  "accounts s M \<longleftrightarrow> (\<forall>k. held s k = int (count M k)) \<and> (\<forall>k. int (count M k) \<le> limit s)"

lemma accounts_acquire:
  assumes "accounts s M" "acquire t s k = (s', True)"
  shows "accounts s' (add_mset k M)"
  using assms acquire_room [OF assms(2)] acquire_limit [OF assms(2)] acquire_held [OF assms(2)]
  by (simp add: accounts_def)

lemma accounts_refused:
  assumes "accounts s M" "acquire t s k = (s', False)"
  shows "accounts s' M"
  using assms acquire_limit [OF assms(2)] acquire_held [OF assms(2)] by (simp add: accounts_def)

lemma accounts_give_back:
  assumes "accounts s M" "k \<in># M"
  shows "accounts (give_back s k) (M - {#k#})"
proof -
  have p: "0 < count M k" using assms(2) by simp
  then have "0 < held s k" using assms(1) by (simp add: accounts_def)
  note h = give_back_held [OF this]
  show ?thesis unfolding accounts_def
  proof (intro conjI allI)
    fix k'
    show "held (give_back s k) k' = int (count (M - {#k#}) k')"
      using assms(1) p unfolding h accounts_def by (simp add: of_nat_diff)
    have "int (count M k') \<le> limit s" using assms(1) by (simp add: accounts_def)
    then show "int (count (M - {#k#}) k') \<le> limit (give_back s k)"
      unfolding give_back_limit by simp
  qed
qed

lemma accounts_bound: "accounts s M \<Longrightarrow> int (count M k) \<le> limit s"
  by (simp add: accounts_def)

lemma accounts_same_view:
  "accounts s M \<Longrightarrow> (\<And>k. held s' k = held s k) \<Longrightarrow> limit s' = limit s \<Longrightarrow> accounts s' M"
  by (simp add: accounts_def)

end

definition guard_acquire :: "int \<Rightarrow> ipGuard \<Rightarrow> string \<Rightarrow> ipGuard \<times> bool" where
  "guard_acquire now g ip = (case admit now g ip of (g', ok, _) \<Rightarrow> (g', ok))"

interpretation ipg: slot_pool guard_acquire release active_of g_maxActive
proof (unfold_locales, goal_cases)
  case (1 t s k s' ok k')
  then obtain why where "admit t s k = (s', ok, why)" by (auto simp: guard_acquire_def split: prod.splits)
  from active_admit [OF this] show ?case by simp
next
  case (2 t s k s')
  then show ?case by (auto simp: guard_acquire_def admit_def split: if_splits)
next
  case (3 t s k s' ok)
  then obtain why where "admit t s k = (s', ok, why)" by (auto simp: guard_acquire_def split: prod.splits)
  from limits_admit [OF this] show ?case by (simp add: same_limits_def)
next
  case (4 s k k')
  then show ?case by (auto simp: active_release)
next
  case (5 s k)
  show ?case using limits_ops(1) [of s k] by (simp add: same_limits_def)
qed

end
