(* ===== verification/GuardFacts.thy ===== *)
theory GuardFacts
  imports IPGuard
begin

text \<open>
  What the connection guard guarantees on a timed sequence of operations: dropping expired
  records is invisible, addresses do not influence one another, the twentieth failure within
  the window blocks an address for the whole block time, and a block is not lifted early.
\<close>

section \<open>What the guard knows of an address\<close>

text \<open>The record that can still influence a decision at time \<open>now\<close>.\<close>

definition live :: "int \<Rightarrow> ipGuard \<Rightarrow> string \<Rightarrow> failureRecord option" where
  "live now g ip = (case fmlookup (g_failures g) ip of None \<Rightarrow> None
     | Some rec \<Rightarrow> if expired now g rec then None else Some rec)"

lemma live_prune [guard_simps]: "live now (pruneLocked now g) ip = live now g ip"
  by (auto simp: live_def pruneLocked_def expired_def split: option.splits)

lemma live_later:
  assumes "now \<le> now'"
  shows "live now' g ip = (case live now g ip of None \<Rightarrow> None
     | Some rec \<Rightarrow> if expired now' g rec then None else Some rec)"
  using assms by (auto simp: live_def expired_def split: option.splits)

lemma admit_live:
  "admit now g ip =
     (if (case live now g ip of None \<Rightarrow> False | Some rec \<Rightarrow> now < fr_blockedUntil rec)
      then (g, False, ''too many failed authentication attempts'')
      else if active_of g ip \<ge> g_maxActive g then (g, False, ''too many simultaneous connections'')
      else (g\<lparr>g_active := fmupd ip (active_of g ip + 1) (g_active g)\<rparr>, True, ''''))"
  by (auto simp: admit_def live_def expired_def split: option.splits)

lemma count_failure_live:
  "count_failure now g (fmlookup (g_failures g) ip) = count_failure now g (live now g ip)"
  by (auto simp: count_failure_def live_def expired_def split: option.splits)

lemma count_failure_limits:
  "same_limits g h \<Longrightarrow> count_failure now h old = count_failure now g old"
  by (cases old) (simp_all add: count_failure_def same_limits_def Let_def)

lemma expired_limits: "same_limits g h \<Longrightarrow> expired now h rec = expired now g rec"
  by (simp add: expired_def same_limits_def)

definition unless_expired :: "int \<Rightarrow> ipGuard \<Rightarrow> failureRecord \<Rightarrow> failureRecord option" where
  "unless_expired now g rec = (if expired now g rec then None else Some rec)"

lemma live_fail [guard_simps]:
  "live now (fail now g ip) ip' = (if ip' = ip then unless_expired now g (count_failure now g (live now g ip))
     else live now g ip')"
proof -
  let ?g1 = "pruneLocked now g"
  have lim: "same_limits g ?g1" by (rule limits_ops)
  have c: "count_failure now ?g1 (fmlookup (g_failures ?g1) ip) = count_failure now g (live now g ip)"
    unfolding count_failure_live count_failure_limits [OF lim] live_prune ..
  have e: "expired now (?g1\<lparr>g_failures := m\<rparr>) rec = expired now g rec" for m rec
    by (simp add: expired_def pruneLocked_def)
  show ?thesis
  proof (cases "ip' = ip")
    case True
    then show ?thesis unfolding fail_def Let_def c by (simp add: live_def e unless_expired_def)
  next
    case False
    have "live now (?g1\<lparr>g_failures := fmupd ip r (g_failures ?g1)\<rparr>) ip' = live now ?g1 ip'" for r
      using False expired_limits [OF lim] by (auto simp: live_def e split: option.splits)
    with False show ?thesis unfolding fail_def Let_def by (simp add: live_prune)
  qed
qed

lemma live_succeed [guard_simps]: "live now (succeed g ip) ip' = (if ip' = ip then None else live now g ip')"
  by (auto simp: live_def succeed_def expired_def split: option.splits)

lemma live_release [guard_simps]: "live now (release g ip) ip' = live now g ip'"
  by (auto simp: live_def release_def expired_def split: option.splits)

lemma live_admit [guard_simps]: "admit now g ip = (g', ok, why) \<Longrightarrow> live now g' ip' = live now g ip'"
  by (auto simp: admit_def live_def expired_def split: if_splits option.splits)

section \<open>Timed runs\<close>

datatype guard_op = OpAdmit string | OpRelease string | OpFail string | OpSucceed string

fun op_ip :: "guard_op \<Rightarrow> string" where
  "op_ip (OpAdmit ip) = ip"
| "op_ip (OpRelease ip) = ip"
| "op_ip (OpFail ip) = ip"
| "op_ip (OpSucceed ip) = ip"

text \<open>The second component is the decision of an admission.\<close>

fun guard_step :: "int \<Rightarrow> guard_op \<Rightarrow> ipGuard \<Rightarrow> ipGuard \<times> (string \<times> bool) list" where
  "guard_step now (OpAdmit ip) g = (case admit now g ip of (g', ok, _) \<Rightarrow> (g', [(ip, ok)]))"
| "guard_step now (OpRelease ip) g = (release g ip, [])"
| "guard_step now (OpFail ip) g = (fail now g ip, [])"
| "guard_step now (OpSucceed ip) g = (succeed g ip, [])"

fun guard_run :: "(int \<times> guard_op) list \<Rightarrow> ipGuard \<Rightarrow> ipGuard \<times> (string \<times> bool) list" where
  "guard_run [] g = (g, [])"
| "guard_run ((now, op) # ops) g =
     (case guard_step now op g of (g1, out1) \<Rightarrow>
      case guard_run ops g1 of (g2, out2) \<Rightarrow> (g2, out1 @ out2))"

lemma guard_run_append:
  "fst (guard_run (xs @ ys) g) = fst (guard_run ys (fst (guard_run xs g)))"
  by (induction xs g rule: guard_run.induct) (auto split: prod.splits)

definition well_timed :: "int \<Rightarrow> (int \<times> guard_op) list \<Rightarrow> bool" where
  "well_timed t0 ops \<longleftrightarrow> sorted (t0 # map fst ops)"

lemma well_timed_Cons: "well_timed t0 ((t, op) # ops) \<longleftrightarrow> t0 \<le> t \<and> well_timed t ops"
  by (auto simp: well_timed_def)

lemma well_timed_filter: "well_timed t0 ops \<Longrightarrow> well_timed t0 (filter P ops)"
  by (auto simp: well_timed_def intro: sorted_filter)

section \<open>Addresses do not influence one another\<close>

text \<open>Two guards that agree on everything that matters for address \<open>a\<close> from time \<open>now\<close> on.\<close>

definition agree_on :: "int \<Rightarrow> string \<Rightarrow> ipGuard \<Rightarrow> ipGuard \<Rightarrow> bool" where
  "agree_on now a g h \<longleftrightarrow> same_limits g h \<and> active_of h a = active_of g a
     \<and> 0 \<le> active_of g a \<and> live now h a = live now g a"

lemma agree_later: "now \<le> now' \<Longrightarrow> agree_on now a g h \<Longrightarrow> agree_on now' a g h"
  unfolding agree_on_def live_later [of now now'] using expired_limits [of g h]
  by (auto split: option.splits)

lemma guard_step_limits: "same_limits g (fst (guard_step now op g))"
  by (cases op) (auto simp: guard_simps split: prod.splits)

lemma same_limits_trans: "same_limits g h \<Longrightarrow> same_limits h k \<Longrightarrow> same_limits g k"
  by (simp add: same_limits_def)

lemma same_limits_sym: "same_limits g h \<Longrightarrow> same_limits h g"
  by (simp add: same_limits_def)

lemma active_release_other [guard_simps]: "ip' \<noteq> ip \<Longrightarrow> active_of (release g ip) ip' = active_of g ip'"
  by (simp add: release_def active_of_def)

lemma agree_other:
  assumes "agree_on now a g h" "op_ip op \<noteq> a"
  shows "agree_on now a (fst (guard_step now op g)) h"
proof -
  have "same_limits (fst (guard_step now op g)) h"
    using same_limits_trans [OF same_limits_sym [OF guard_step_limits [of g now op]]] assms(1)
    by (simp add: agree_on_def)
  moreover have "active_of (fst (guard_step now op g)) a = active_of g a"
    "live now (fst (guard_step now op g)) a = live now g a"
    using assms(2) by (cases op; auto simp: guard_simps split: prod.splits)+
  ultimately show ?thesis using assms(1) by (simp add: agree_on_def)
qed

lemma agree_own:
  assumes "agree_on now a g h" "op_ip op = a"
  shows "agree_on now a (fst (guard_step now op g)) (fst (guard_step now op h))"
    "snd (guard_step now op h) = snd (guard_step now op g)"
proof -
  have lim: "same_limits (fst (guard_step now op g)) (fst (guard_step now op h))"
    using same_limits_trans [OF same_limits_sym [OF guard_step_limits [of g now op]]
        same_limits_trans [OF _ guard_step_limits [of h now op]]] assms(1)
    by (simp add: agree_on_def)
  have l: "same_limits g h" "active_of h a = active_of g a" "live now h a = live now g a" "0 \<le> active_of g a"
    using assms(1) by (simp_all add: agree_on_def)
  show "snd (guard_step now op h) = snd (guard_step now op g)"
    using l assms(2) by (cases op) (auto simp: admit_live same_limits_def split: prod.splits option.splits)
  show "agree_on now a (fst (guard_step now op g)) (fst (guard_step now op h))"
  proof (cases op)
    case (OpAdmit ip)
    obtain g' ok why where g: "admit now g ip = (g', ok, why)" by (metis prod.collapse)
    obtain h' ok' why' where h: "admit now h ip = (h', ok', why')" by (metis prod.collapse)
    have "ok' = ok" using g h l OpAdmit assms(2) by (auto simp: admit_live same_limits_def split: if_splits option.splits)
    with lim l OpAdmit assms(2) g h active_admit [OF g] active_admit [OF h] live_admit [OF g] live_admit [OF h]
    show ?thesis by (simp add: agree_on_def)
  next
    case (OpFail ip)
    with lim l assms(2) show ?thesis
      by (simp add: agree_on_def guard_simps count_failure_limits expired_limits unless_expired_def)
  qed (use lim l assms(2) in \<open>simp_all add: agree_on_def guard_simps\<close>)
qed

lemma other_outputs: "op_ip op \<noteq> a \<Longrightarrow> filter (\<lambda>x. fst x = a) (snd (guard_step now op g)) = []"
  by (cases op) (auto split: prod.splits)

lemma own_outputs: "op_ip op = a \<Longrightarrow> filter (\<lambda>x. fst x = a) (snd (guard_step now op g)) = snd (guard_step now op g)"
  by (cases op) (auto split: prod.splits)

lemma non_interference_gen:
  assumes "well_timed t0 ops" "agree_on t0 a g h"
  shows "filter (\<lambda>x. fst x = a) (snd (guard_run ops g))
     = snd (guard_run (filter (\<lambda>(t, op). op_ip op = a) ops) h)"
  using assms
proof (induction ops arbitrary: t0 g h)
  case (Cons x ops)
  obtain t op where x: "x = (t, op)" by force
  with Cons.prems have t: "t0 \<le> t" "well_timed t ops" by (simp_all add: well_timed_Cons)
  note ag = agree_later [OF t(1) Cons.prems(2)]
  show ?case
  proof (cases "op_ip op = a")
    case True
    from Cons.IH [OF t(2) agree_own(1) [OF ag True]] agree_own(2) [OF ag True] own_outputs [OF True, of t g] x True
    show ?thesis by (simp add: case_prod_beta)
  next
    case False
    from Cons.IH [OF t(2) agree_other [OF ag False]] other_outputs [OF False, of t g] x False
    show ?thesis by (simp add: case_prod_beta)
  qed
qed simp

section \<open>Blocking\<close>

text \<open>How many failures of an address a sequence holds.\<close>

definition fails_of :: "string \<Rightarrow> (int \<times> guard_op) list \<Rightarrow> nat" where
  "fails_of a ops = length (filter (\<lambda>(t, op). op = OpFail a) ops)"

definition no_success :: "string \<Rightarrow> (int \<times> guard_op) list \<Rightarrow> bool" where
  "no_success a ops \<longleftrightarrow> (\<forall>(t, op) \<in> set ops. op \<noteq> OpSucceed a)"

lemma live_step_other:
  assumes "op \<noteq> OpFail a" "op \<noteq> OpSucceed a"
  shows "live now (fst (guard_step now op g)) a = live now g a"
  using assms by (cases op) (auto simp: guard_simps split: prod.splits)

text \<open>Counting below the limit, all failures within one window.\<close>

definition counted :: "int \<Rightarrow> int \<Rightarrow> ipGuard \<Rightarrow> string \<Rightarrow> nat \<Rightarrow> bool" where
  "counted t0 now g a n \<longleftrightarrow> (if n = 0 then live now g a = None
     else \<exists>rec. live now g a = Some rec \<and> fr_count rec = int n \<and> fr_blockedUntil rec = 0 \<and> t0 \<le> fr_windowStart rec)"

lemma counted_later:
  assumes "counted t0 now g a n" "now \<le> now'" "now' \<le> t0 + g_window g"
  shows "counted t0 now' g a n"
  using assms by (auto simp: counted_def live_later [OF assms(2)] expired_def)

lemma counted_fail:
  assumes "counted t0 now g a n" "int n + 1 < g_maxFailures g" "t0 \<le> now" "now \<le> t0 + g_window g" "0 \<le> g_window g"
  shows "counted t0 now (fst (guard_step now (OpFail a) g)) a (Suc n)"
proof (cases "n = 0")
  case True
  with assms show ?thesis
    by (auto simp: counted_def guard_simps count_failure_def unless_expired_def expired_def Let_def)
next
  case False
  then obtain rec where "live now g a = Some rec" "fr_count rec = int n" "fr_blockedUntil rec = 0" "t0 \<le> fr_windowStart rec"
    using assms(1) by (auto simp: counted_def)
  with assms show ?thesis
    by (auto simp: counted_def guard_simps count_failure_def unless_expired_def expired_def Let_def)
qed

lemma counted_run:
  assumes "well_timed now ops" "counted t0 now g a n" "t0 \<le> now" "\<forall>x \<in> set ops. fst x \<le> t0 + g_window g"
    "no_success a ops" "int (n + fails_of a ops) < g_maxFailures g" "0 \<le> g_window g" "now \<le> t0 + g_window g"
  shows "\<exists>now'. now \<le> now' \<and> (\<forall>x \<in> set ops. fst x \<le> now') \<and> now' \<in> insert now (fst ` set ops)
     \<and> counted t0 now' (fst (guard_run ops g)) a (n + fails_of a ops)"
  using assms
proof (induction ops arbitrary: now g n)
  case Nil
  then show ?case by (auto simp: fails_of_def)
next
  case (Cons x ops)
  obtain t op where x: "x = (t, op)" by force
  with Cons.prems have t: "now \<le> t" "well_timed t ops" "t \<le> t0 + g_window g" "t0 \<le> t"
    by (auto simp: well_timed_Cons)
  have c: "counted t0 t g a n" using counted_later [OF Cons.prems(2) t(1,3)] .
  let ?g1 = "fst (guard_step t op g)"
  have lim: "g_window ?g1 = g_window g" "g_maxFailures ?g1 = g_maxFailures g"
    using guard_step_limits [of g t op] by (simp_all add: same_limits_def)
  define m where "m = (if op = OpFail a then Suc n else n)"
  have m: "m + fails_of a ops = n + fails_of a (x # ops)" by (simp add: m_def fails_of_def x)
  have ns: "op \<noteq> OpSucceed a" "no_success a ops" using Cons.prems(5) x by (auto simp: no_success_def)
  have c1: "counted t0 t ?g1 a m"
  proof (cases "op = OpFail a")
    case True
    moreover have "int n + 1 < g_maxFailures g" using Cons.prems(6) True by (simp add: fails_of_def x)
    ultimately show ?thesis using counted_fail [OF c _ t(4,3) Cons.prems(7)] by (simp add: m_def)
  next
    case False
    with c ns(1) show ?thesis by (simp add: counted_def m_def live_step_other)
  qed
  have "\<exists>now'. t \<le> now' \<and> (\<forall>x \<in> set ops. fst x \<le> now') \<and> now' \<in> insert t (fst ` set ops)
     \<and> counted t0 now' (fst (guard_run ops ?g1)) a (m + fails_of a ops)"
    using Cons.prems t ns(2) m lim by (intro Cons.IH [OF t(2) c1]) auto
  then obtain now' where n': "t \<le> now'" "\<forall>x \<in> set ops. fst x \<le> now'" "now' \<in> insert t (fst ` set ops)"
    "counted t0 now' (fst (guard_run ops ?g1)) a (m + fails_of a ops)" by blast
  moreover have "fst (guard_run (x # ops) g) = fst (guard_run ops ?g1)" by (simp add: x case_prod_beta)
  ultimately show ?case using t(1) m x by (intro exI [of _ now']) auto
qed

text \<open>The failure that reaches the limit blocks the address for the block time.\<close>

definition blocked_until :: "int \<Rightarrow> int \<Rightarrow> ipGuard \<Rightarrow> string \<Rightarrow> bool" where
  "blocked_until now b g a \<longleftrightarrow> (\<exists>rec. live now g a = Some rec \<and> b \<le> fr_blockedUntil rec
     \<and> b \<le> fr_windowStart rec + g_block g \<and> fr_windowStart rec \<le> now)"

lemma counted_trips:
  assumes "counted t0 now g a n" "int n + 1 = g_maxFailures g" "t0 \<le> now" "now \<le> t0 + g_window g" "0 \<le> g_block g"
    "0 \<le> g_window g"
  shows "blocked_until now (now + g_block g) (fst (guard_step now (OpFail a) g)) a"
proof -
  have lim: "g_block (fail now g a) = g_block g" using limits_ops(3) [of g now a] by (simp add: same_limits_def)
  show ?thesis
  proof (cases "n = 0")
    case True
    with assms show ?thesis
      by (auto simp: counted_def blocked_until_def guard_simps lim count_failure_def unless_expired_def expired_def Let_def)
  next
    case False
    then obtain rec where "live now g a = Some rec" "fr_count rec = int n" "fr_blockedUntil rec = 0" "t0 \<le> fr_windowStart rec"
      using assms(1) by (auto simp: counted_def)
    with assms show ?thesis
      by (auto simp: blocked_until_def guard_simps lim count_failure_def unless_expired_def expired_def Let_def)
  qed
qed

lemma blocked_refuses:
  assumes "blocked_until now b g a" "now \<le> t" "t < b"
  shows "admit t g a = (g, False, ''too many failed authentication attempts'')"
  using assms unfolding blocked_until_def admit_live live_later [OF assms(2)]
  by (auto simp: expired_def)

lemma blocked_step:
  assumes "blocked_until now b g a" "now \<le> t" "t < b" "op \<noteq> OpSucceed a" "g_block g \<le> g_window g" "0 \<le> g_block g"
  shows "blocked_until t b (fst (guard_step t op g)) a"
proof -
  from assms(1) obtain rec where r: "live now g a = Some rec" "b \<le> fr_blockedUntil rec" "b \<le> fr_windowStart rec + g_block g" "fr_windowStart rec \<le> now"
    by (auto simp: blocked_until_def)
  then have l: "live t g a = Some rec" using assms(3) by (simp add: live_later [OF assms(2)] expired_def)
  have lim: "g_block (fst (guard_step t op g)) = g_block g"
    using guard_step_limits [of g t op] by (simp add: same_limits_def)
  show ?thesis
  proof (cases "op = OpFail a")
    case True
    with lim have lim': "g_block (fail t g a) = g_block g" by simp
    have "\<not> t - fr_windowStart rec > g_window g" using r(3) assms(3,5) by linarith
    with True l r assms show ?thesis
      by (auto simp: blocked_until_def guard_simps lim' count_failure_def unless_expired_def expired_def Let_def)
  next
    case False
    with l r lim assms(2,4) show ?thesis by (auto simp: blocked_until_def live_step_other)
  qed
qed

lemma blocked_run:
  assumes "blocked_until now b g a" "well_timed now ops" "\<forall>x \<in> set ops. fst x < b" "no_success a ops"
    "g_block g \<le> g_window g" "0 \<le> g_block g"
  shows "\<forall>(ip, ok) \<in> set (snd (guard_run ops g)). ip = a \<longrightarrow> \<not> ok"
  using assms
proof (induction ops arbitrary: now g)
  case (Cons x ops)
  obtain t op where x: "x = (t, op)" by force
  with Cons.prems have t: "now \<le> t" "well_timed t ops" "t < b" "op \<noteq> OpSucceed a" "no_success a ops"
    by (auto simp: well_timed_Cons no_success_def)
  let ?g1 = "fst (guard_step t op g)"
  have lim: "g_window ?g1 = g_window g" "g_block ?g1 = g_block g"
    using guard_step_limits [of g t op] by (simp_all add: same_limits_def)
  have "\<forall>(ip, ok) \<in> set (snd (guard_run ops ?g1)). ip = a \<longrightarrow> \<not> ok"
    using Cons.prems t lim by (intro Cons.IH [OF blocked_step [OF Cons.prems(1) t(1,3,4)]]) auto
  moreover have "\<forall>(ip, ok) \<in> set (snd (guard_step t op g)). ip = a \<longrightarrow> \<not> ok"
    using blocked_refuses [OF Cons.prems(1) t(1,3)] by (cases op) (auto split: prod.splits)
  ultimately show ?case using x by (auto simp: case_prod_beta)
qed simp

lemma guard_run_limits: "same_limits g (fst (guard_run ops g))"
proof (induction ops arbitrary: g)
  case (Cons x ops)
  obtain t op where x: "x = (t, op)" by force
  have "same_limits g (fst (guard_run ops (fst (guard_step t op g))))"
    using same_limits_trans [OF guard_step_limits Cons.IH] .
  then show ?case by (simp add: x case_prod_beta)
qed simp

lemma counted_blocks:
  assumes "well_timed t0 pre" "\<forall>x \<in> set pre. fst x \<le> tn" "t0 \<le> tn" "tn \<le> t0 + g_window g"
    "fmlookup (g_failures g) a = None" "int (fails_of a pre) + 1 = g_maxFailures g" "no_success a pre"
    "0 \<le> g_block g" "0 \<le> g_window g"
  shows "blocked_until tn (tn + g_block g) (fst (guard_run (pre @ [(tn, OpFail a)]) g)) a"
proof -
  let ?g = "fst (guard_run pre g)"
  have c0: "counted t0 t0 g a 0" using assms(5) by (simp add: counted_def live_def)
  have tm: "\<forall>x \<in> set pre. fst x \<le> t0 + g_window g" using assms(2,4) by fastforce
  have lt: "int (0 + fails_of a pre) < g_maxFailures g" using assms(6) by simp
  have le: "t0 \<le> t0 + g_window g" using assms(9) by simp
  from counted_run [OF assms(1) c0 order_refl tm assms(7) lt assms(9) le] obtain now' where
    n: "now' \<in> insert t0 (fst ` set pre)" "counted t0 now' ?g a (fails_of a pre)" by auto
  have l: "g_window ?g = g_window g" "g_maxFailures ?g = g_maxFailures g" "g_block ?g = g_block g"
    using guard_run_limits [of g pre] by (simp_all add: same_limits_def)
  have "now' \<le> tn" using n(1) assms(2,3) by auto
  from counted_later [OF n(2) this] have "counted t0 tn ?g a (fails_of a pre)" using l assms(4) by simp
  from counted_trips [OF this] l assms(3,4,6,8,9)
  have "blocked_until tn (tn + g_block g) (fst (guard_step tn (OpFail a) ?g)) a" by simp
  then show ?thesis by (simp add: guard_run_append)
qed

end
