(* ===== verification/OsFacts.thy ===== *)
theory OsFacts
  imports OsModel
begin

text \<open>
  Facts about the operating-system model that several components use: creating directories and
  temporary files, and the files a call leaves alone while it may create directories.
\<close>

section \<open>Files that stay\<close>

text \<open>Outside \<open>A\<close>, a file keeps its content; at most missing directories are created.\<close>

definition keeps_files :: "path set \<Rightarrow> fsys \<Rightarrow> fsys \<Rightarrow> bool" where
  "keeps_files A fs fs' \<longleftrightarrow> (\<forall>q. q \<notin> A \<longrightarrow> fmlookup fs' q = fmlookup fs q \<or>
     (fmlookup fs q = None \<and> fmlookup fs' q = Some Dir))"

lemma keeps_files_refl [simp]: "keeps_files A fs fs"
  by (simp add: keeps_files_def)

lemma keeps_files_trans [trans]: "keeps_files A fs fs1 \<Longrightarrow> keeps_files A fs1 fs2 \<Longrightarrow> keeps_files A fs fs2"
  unfolding keeps_files_def by (metis option.distinct(1))

lemma keeps_files_same: "same_except B fs fs' \<Longrightarrow> B \<subseteq> A \<Longrightarrow> keeps_files A fs fs'"
  by (auto simp: keeps_files_def same_except_def)

lemma keeps_files_mono: "keeps_files A fs fs' \<Longrightarrow> A \<subseteq> B \<Longrightarrow> keeps_files B fs fs'"
  by (auto simp: keeps_files_def)

lemma keeps_fileD: "keeps_files A fs fs' \<Longrightarrow> q \<notin> A \<Longrightarrow> fmlookup fs q = Some n \<Longrightarrow> fmlookup fs' q = Some n"
  unfolding keeps_files_def by (metis option.distinct(1))

lemma mkdirs_keeps: "keeps_files A fs (fst (mkdirs E fs ds es))"
proof (induction es arbitrary: fs ds)
  case (Cons e es)
  have "keeps_files A fs (fmupd (path_of (ds @ [e])) Dir fs)" if "fmlookup fs (path_of (ds @ [e])) = None"
    using that by (auto simp: keeps_files_def)
  with Cons.IH keeps_files_trans show ?case
    by (auto simp: Let_def split: option.splits node.splits)
qed simp

lemma mkdirs_wf:
  assumes "fs_wf fs" "list_all good_elem (ds @ es)" "fmlookup fs (path_of ds) = Some Dir"
  shows "fs_wf (fst (mkdirs E fs ds es))"
  using assms
proof (induction es arbitrary: fs ds)
  case (Cons e es)
  let ?p = "path_of (ds @ [e])"
  have g: "list_all good_elem (ds @ [e])" "list_all good_elem ((ds @ [e]) @ es)" using Cons.prems(2) by simp_all
  have d: "DirOf ?p = path_of ds" using g(1) by simp
  have "fs_wf (fmupd ?p Dir fs)" if "fmlookup fs ?p = None"
    using Cons.prems(1,3) that d clean_abs_path_of [OF g(1)] unfolding fs_wf_iff by auto
  with Cons.IH [OF _ g(2)] Cons.prems(1) show ?case
    by (auto simp: Let_def split: option.splits node.splits)
qed simp

lemma MkdirAll_wf:
  assumes "fs_wf fs" "clean_abs p"
  shows "fs_wf (fst (MkdirAll E fs p))"
proof -
  obtain es where "list_all good_elem es" "p = path_of es" using assms(2) by (auto simp: clean_abs_iff)
  moreover have "fmlookup fs (path_of []) = Some Dir" using assms(1) by (simp add: fs_wf_iff path_of_def)
  ultimately show ?thesis using mkdirs_wf [of fs "[]" es E] assms(1)
    by (simp add: MkdirAll_def elems_path_of)
qed

lemma DirOf_clean: "clean_abs p \<Longrightarrow> clean_abs (DirOf p)"
proof -
  assume "clean_abs p"
  then obtain es where "list_all good_elem es" "p = path_of es" by (auto simp: clean_abs_iff)
  moreover from this have "list_all good_elem (butlast es)" by (auto simp: list_all_iff dest: in_set_butlastD)
  ultimately show ?thesis by (simp add: DirOf_clean_abs)
qed

section \<open>Directories that exist\<close>

lemma MkdirAll_exists:
  assumes "list_all good_elem es" "\<And>n. n \<le> length es \<Longrightarrow> fmlookup fs (path_of (take n es)) = Some Dir"
  shows "MkdirAll E fs (path_of es) = (fs, None)"
proof -
  have "mkdirs E fs (take n es) (drop n es) = (fs, None)" if "n \<le> length es" for n
    using that
  proof (induction "length es - n" arbitrary: n)
    case 0
    then show ?case by simp
  next
    case (Suc k)
    then have n: "n < length es" by simp
    have t: "take n es @ [es ! n] = take (Suc n) es" using n by (simp add: take_Suc_conv_app_nth)
    have d: "drop n es = es ! n # drop (Suc n) es" using n by (simp add: Cons_nth_drop_Suc)
    have "fmlookup fs (path_of (take (Suc n) es)) = Some Dir" using n by (intro assms(2)) simp
    moreover have "mkdirs E fs (take (Suc n) es) (drop (Suc n) es) = (fs, None)"
      using Suc n by (intro Suc.hyps(1)) auto
    ultimately show ?case unfolding d by (simp add: t Let_def)
  qed
  from this [of 0] show ?thesis using assms(1) by (simp add: MkdirAll_def elems_path_of)
qed

lemma fs_wf_ancestors:
  assumes "fs_wf fs" "list_all good_elem es" "fmlookup fs (path_of es) = Some Dir" "n \<le> length es"
  shows "fmlookup fs (path_of (take n es)) = Some Dir"
  using assms(2,3,4)
proof (induction es rule: rev_induct)
  case (snoc e es)
  then have g: "list_all good_elem es" "good_elem e" by simp_all
  have "fmlookup fs (DirOf (path_of (es @ [e]))) = Some Dir"
    using assms(1) snoc.prems(2) unfolding fs_wf_iff by blast
  then have d: "fmlookup fs (path_of es) = Some Dir" using g by simp
  show ?case
  proof (cases "n = length (es @ [e])")
    case True
    with snoc.prems show ?thesis by simp
  next
    case False
    with snoc.IH [OF g(1) d] snoc.prems(3) show ?thesis by simp
  qed
qed simp

section \<open>Temporary files\<close>

lemma create_temp_ok:
  "create_temp E fs d pre post = (fs1, Inr p) \<Longrightarrow> fs1 = fmupd p (File []) fs \<and> fmlookup fs p = None"
  by (auto simp: create_temp_def Let_def split: option.splits if_splits)

lemma create_temp_err: "create_temp E fs d pre post = (fs1, Inl e) \<Longrightarrow> fs1 = fs"
  by (auto simp: create_temp_def Let_def split: option.splits if_splits)

end
