(* ===== verification/GoText.thy ===== *)
theory GoText
  imports Json
begin

text \<open>
  UTF-8 decoding as Go's \<^verbatim>\<open>[]rune(s)\<close> performs it (an invalid byte is one
  replacement rune) and the text \<^verbatim>\<open>json.Marshal\<close> writes for a value.
\<close>

section \<open>Runes\<close>

abbreviation RuneError :: nat where "RuneError \<equiv> 0xFFFD"

definition cont_byte :: "nat \<Rightarrow> bool" where
  "cont_byte b \<longleftrightarrow> 0x80 \<le> b \<and> b \<le> 0xBF"

text \<open>The first rune of a byte list and its width; the ranges rule out overlong forms,
  surrogates and values above \<open>0x10FFFF\<close>.\<close>

definition decode_rune :: "nat list \<Rightarrow> nat \<times> nat" where
  "decode_rune bs = (case bs of [] \<Rightarrow> (RuneError, 0)
     | a # r \<Rightarrow>
       if a < 0x80 then (a, 1)
       else if 0xC2 \<le> a \<and> a \<le> 0xDF then
         (case r of b # _ \<Rightarrow> if cont_byte b then ((a - 0xC0) * 64 + (b - 0x80), 2) else (RuneError, 1)
          | _ \<Rightarrow> (RuneError, 1))
       else if 0xE0 \<le> a \<and> a \<le> 0xEF then
         (case r of b # c # _ \<Rightarrow>
            if cont_byte b \<and> cont_byte c \<and> (a = 0xE0 \<longrightarrow> 0xA0 \<le> b) \<and> (a = 0xED \<longrightarrow> b \<le> 0x9F)
            then ((a - 0xE0) * 4096 + (b - 0x80) * 64 + (c - 0x80), 3) else (RuneError, 1)
          | _ \<Rightarrow> (RuneError, 1))
       else if 0xF0 \<le> a \<and> a \<le> 0xF4 then
         (case r of b # c # d # _ \<Rightarrow>
            if cont_byte b \<and> cont_byte c \<and> cont_byte d \<and> (a = 0xF0 \<longrightarrow> 0x90 \<le> b) \<and> (a = 0xF4 \<longrightarrow> b \<le> 0x8F)
            then ((a - 0xF0) * 262144 + (b - 0x80) * 4096 + (c - 0x80) * 64 + (d - 0x80), 4)
            else (RuneError, 1)
          | _ \<Rightarrow> (RuneError, 1))
       else (RuneError, 1))"

lemma decode_rune_width: "bs \<noteq> [] \<Longrightarrow> 0 < snd (decode_rune bs)"
  by (auto simp: decode_rune_def split: list.splits)

function runes_of :: "nat list \<Rightarrow> nat list" where
  "runes_of [] = []"
| "runes_of (b # bs) = fst (decode_rune (b # bs)) # runes_of (drop (snd (decode_rune (b # bs))) (b # bs))"
  by pat_completeness auto
termination
proof (relation "measure length", goal_cases)
  case (2 b bs)
  show ?case using decode_rune_width [of "b # bs"] by simp
qed simp

definition runes :: "string \<Rightarrow> nat list" where
  "runes s = runes_of (map of_char s)"

definition encode_rune :: "nat \<Rightarrow> string" where
  "encode_rune r = map char_of
     (if r < 0x80 then [r]
      else if r < 0x800 then [0xC0 + r div 64, 0x80 + r mod 64]
      else if r < 0x10000 then [0xE0 + r div 4096, 0x80 + r div 64 mod 64, 0x80 + r mod 64]
      else [0xF0 + r div 262144, 0x80 + r div 4096 mod 64, 0x80 + r div 64 mod 64, 0x80 + r mod 64])"

definition runes_string :: "nat list \<Rightarrow> string" where
  "runes_string rs = concat (map encode_rune rs)"

lemma length_runes_of: "length (runes_of bs) \<le> length bs"
proof (induction bs rule: runes_of.induct)
  case (2 b bs)
  have "0 < snd (decode_rune (b # bs))" by (rule decode_rune_width) simp
  moreover have "length (runes_of (drop (snd (decode_rune (b # bs))) (b # bs)))
    \<le> length (drop (snd (decode_rune (b # bs))) (b # bs))"
    by (rule "2.IH")
  ultimately show ?case unfolding runes_of.simps by simp
qed simp

lemma length_runes: "length (runes s) \<le> length s"
  using length_runes_of [of "map of_char s"] by (simp add: runes_def)

lemma length_encode_rune: "length (encode_rune r) \<le> 4"
  by (simp add: encode_rune_def)

lemma length_runes_string: "length (runes_string rs) \<le> 4 * length rs"
proof (induction rs)
  case (Cons r rs)
  with length_encode_rune [of r] show ?case by (simp add: runes_string_def)
qed (simp add: runes_string_def)

section \<open>The text of a JSON value\<close>

definition hex_digit :: "nat \<Rightarrow> char" where
  "hex_digit n = (if n < 10 then char_of (48 + n) else char_of (87 + n))"

text \<open>The escape of a byte below \<open>0x80\<close>, with the HTML characters escaped as the package does.\<close>

definition escape_ascii :: "nat \<Rightarrow> string" where
  "escape_ascii b =
     (if b = 0x22 \<or> b = 0x5C then [CHR 0x5C, char_of b]
      else if b = 8 then [CHR 0x5C, CHR ''b'']
      else if b = 12 then [CHR 0x5C, CHR ''f'']
      else if b = 10 then [CHR 0x5C, CHR ''n'']
      else if b = 13 then [CHR 0x5C, CHR ''r'']
      else if b = 9 then [CHR 0x5C, CHR ''t'']
      else if b < 0x20 \<or> b = 0x3C \<or> b = 0x3E \<or> b = 0x26
      then CHR 0x5C # ''u00'' @ [hex_digit (b div 16), hex_digit (b mod 16)]
      else [char_of b])"

text \<open>Line and paragraph separators are escaped; an invalid byte becomes an escaped replacement rune.\<close>

definition escape_rune :: "nat list \<Rightarrow> string" where
  "escape_rune bs = (case decode_rune bs of (r, w) \<Rightarrow>
     if w = 1 \<and> r = RuneError then CHR 0x5C # ''ufffd''
     else if r < 0x80 then escape_ascii r
     else if r = 0x2028 then CHR 0x5C # ''u2028''
     else if r = 0x2029 then CHR 0x5C # ''u2029''
     else map char_of (take w bs))"

function quote_bytes :: "nat list \<Rightarrow> string" where
  "quote_bytes [] = []"
| "quote_bytes (b # bs) = escape_rune (b # bs) @ quote_bytes (drop (snd (decode_rune (b # bs))) (b # bs))"
  by pat_completeness auto
termination
proof (relation "measure length", goal_cases)
  case (2 b bs)
  show ?case using decode_rune_width [of "b # bs"] by simp
qed simp

definition quote :: "string \<Rightarrow> string" where
  "quote s = [CHR 0x22] @ quote_bytes (map of_char s) @ [CHR 0x22]"

fun json_text :: "json \<Rightarrow> string" where
  "json_text JNull = ''null''"
| "json_text (JBool b) = (if b then ''true'' else ''false'')"
| "json_text (JNum i) = FormatInt i"
| "json_text (JFrac s) = s"
| "json_text (JStr s) = quote s"
| "json_text (JArr vs) = ''['' @ Join (map json_text vs) '','' @ '']''"
| "json_text (JObj kvs) = ''{'' @ Join (map (\<lambda>(k, v). quote k @ '':'' @ json_text v) kvs) '','' @ ''}''"

subsection \<open>Text never holds a line break\<close>

definition no_break :: "string \<Rightarrow> bool" where
  "no_break s \<longleftrightarrow> CHR 0x0A \<notin> set s"

lemma no_break_simps [simp]: "no_break []" "no_break (c # cs) \<longleftrightarrow> c \<noteq> CHR 0x0A \<and> no_break cs"
  "no_break (xs @ ys) \<longleftrightarrow> no_break xs \<and> no_break ys"
  by (auto simp: no_break_def)

lemma char_of_nl: "n < 256 \<Longrightarrow> (char_of n = (CHR 0x0A :: char)) = (n = (10 :: nat))"
proof
  assume "n < 256" "char_of n = (CHR 0x0A :: char)"
  then have "(of_char (char_of n :: char) :: nat) = 10" by simp
  with \<open>n < 256\<close> show "n = 10" by simp
next
  assume "n = 10"
  have "char_of (of_char (CHR 0x0A) :: nat) = (CHR 0x0A :: char)" by (rule char_of_char)
  with \<open>n = 10\<close> show "char_of n = (CHR 0x0A :: char)" by simp
qed

lemma no_break_ascii: "b < 0x80 \<Longrightarrow> no_break (escape_ascii b)"
proof -
  assume b: "b < 0x80"
  then have "hex_digit (b div 16) \<noteq> CHR 0x0A" "hex_digit (b mod 16) \<noteq> CHR 0x0A"
    using char_of_nl [of "48 + b div 16"] char_of_nl [of "48 + b mod 16"]
      char_of_nl [of "87 + b div 16"] char_of_nl [of "87 + b mod 16"]
    by (auto simp: hex_digit_def)
  then show ?thesis using b by (auto simp: escape_ascii_def char_of_nl)
qed

text \<open>A rune beyond ASCII has no ASCII byte in its encoding.\<close>

definition high_rune :: "nat list \<Rightarrow> nat \<times> nat \<Rightarrow> bool" where
  "high_rune bs rw \<longleftrightarrow> rw = (RuneError, 1) \<or> list_all (\<lambda>b. 0x80 \<le> b) (take (snd rw) bs)"

lemma high_rune_decode:
  assumes "0x80 \<le> a"
  shows "high_rune (a # r) (decode_rune (a # r))"
proof -
  have e: "high_rune (a # r) (RuneError, 1)" by (simp add: high_rune_def)
  consider "0xC2 \<le> a \<and> a \<le> 0xDF" | "0xE0 \<le> a \<and> a \<le> 0xEF" | "0xF0 \<le> a \<and> a \<le> 0xF4"
    | "\<not> (0xC2 \<le> a \<and> a \<le> 0xDF) \<and> \<not> (0xE0 \<le> a \<and> a \<le> 0xEF) \<and> \<not> (0xF0 \<le> a \<and> a \<le> 0xF4)"
    by blast
  then show ?thesis
  proof cases
    case 1
    then have "decode_rune (a # r) = (case r of b # _ \<Rightarrow> if cont_byte b then ((a - 0xC0) * 64 + (b - 0x80), 2)
         else (RuneError, 1) | _ \<Rightarrow> (RuneError, 1))" by (simp add: decode_rune_def)
    with e assms show ?thesis by (auto simp: high_rune_def cont_byte_def numeral_2_eq_2 split: list.splits)
  next
    case 2
    then have "decode_rune (a # r) = (case r of b # c # _ \<Rightarrow>
            if cont_byte b \<and> cont_byte c \<and> (a = 0xE0 \<longrightarrow> 0xA0 \<le> b) \<and> (a = 0xED \<longrightarrow> b \<le> 0x9F)
            then ((a - 0xE0) * 4096 + (b - 0x80) * 64 + (c - 0x80), 3) else (RuneError, 1)
          | _ \<Rightarrow> (RuneError, 1))" by (simp add: decode_rune_def)
    with e assms show ?thesis by (auto simp: high_rune_def cont_byte_def numeral_3_eq_3 split: list.splits)
  next
    case 3
    have four: "(4 :: nat) = Suc (Suc (Suc (Suc 0)))" by simp
    from 3 have "decode_rune (a # r) = (case r of b # c # d # _ \<Rightarrow>
            if cont_byte b \<and> cont_byte c \<and> cont_byte d \<and> (a = 0xF0 \<longrightarrow> 0x90 \<le> b) \<and> (a = 0xF4 \<longrightarrow> b \<le> 0x8F)
            then ((a - 0xF0) * 262144 + (b - 0x80) * 4096 + (c - 0x80) * 64 + (d - 0x80), 4)
            else (RuneError, 1)
          | _ \<Rightarrow> (RuneError, 1))" by (simp add: decode_rune_def)
    with e assms show ?thesis by (auto simp: high_rune_def cont_byte_def four split: list.splits)
  next
    case 4
    with assms have "decode_rune (a # r) = (RuneError, 1)" unfolding decode_rune_def by auto
    with e show ?thesis by simp
  qed
qed

lemma no_break_rune:
  assumes "\<forall>b \<in> set bs. b < 256" "bs \<noteq> []"
  shows "no_break (escape_rune bs)"
proof -
  obtain a r where bs: "bs = a # r" using assms(2) by (cases bs) auto
  show ?thesis
  proof (cases "a < 0x80")
    case True
    then have "decode_rune bs = (a, 1)" by (simp add: bs decode_rune_def)
    with True no_break_ascii show ?thesis by (simp add: escape_rune_def)
  next
    case False
    obtain n w where d: "decode_rune bs = (n, w)" by force
    show ?thesis
    proof (cases "(n, w) = (RuneError, 1)")
      case True
      with d show ?thesis by (simp add: escape_rune_def)
    next
      case hi: False
      with high_rune_decode [of a r] False d bs have "list_all (\<lambda>b. 0x80 \<le> b) (take w bs)"
        by (auto simp: high_rune_def)
      moreover have "\<forall>b \<in> set (take w bs). b < 256" using assms(1) by (meson in_set_takeD)
      ultimately have "no_break (map char_of (take w bs))"
        unfolding no_break_def list_all_iff using char_of_nl by (auto simp: image_iff) fastforce
      with d no_break_ascii show ?thesis by (simp add: escape_rune_def)
    qed
  qed
qed

lemma no_break_quote_bytes: "\<forall>b \<in> set bs. b < 256 \<Longrightarrow> no_break (quote_bytes bs)"
proof (induction bs rule: quote_bytes.induct)
  case (2 b bs)
  have "\<forall>x \<in> set (drop (snd (decode_rune (b # bs))) (b # bs)). x < 256"
    using "2.prems" by (meson in_set_dropD)
  from "2.IH" [OF this] no_break_rune [OF "2.prems"] show ?case
    unfolding quote_bytes.simps by simp
qed simp

lemma no_break_quote [simp]: "no_break (quote s)"
  using no_break_quote_bytes [of "map of_char s"] by (auto simp: quote_def)

end
