(* ===== verification/AgentAudit.thy ===== *)
theory AgentAudit
  imports OsFacts GoText Protocol
begin

text \<open>
  The agent's local audit log (\<^verbatim>\<open>agent/internal/audit/audit.go\<close>): one JSON
  object per line, appended to a file that is rotated once to \<open>path.1\<close> when a record would
  take it past its maximum size. The nil logger discards everything. The path is absolute and
  clean; the open file handle is the path it was opened at.
\<close>

definition DefaultMaxSize :: int where "DefaultMaxSize = 5 * 1024 * 1024"
definition maxDetailRunes :: nat where "maxDetailRunes = 512"

definition ResultOK :: string where "ResultOK = ''ok''"
definition ResultError :: string where "ResultError = ''error''"
definition ResultDenied :: string where "ResultDenied = ''denied''"

record Event =
  ev_time :: int
  ev_action :: string
  ev_result :: string
  ev_remote :: string
  ev_client :: string
  ev_user :: string
  ev_detail :: string

record AuditLogger =
  lg_path :: path
  lg_open :: bool
  lg_size :: int
  lg_maxSize :: int

section \<open>Opening and rotating\<close>

definition openFile :: "osenv \<Rightarrow> fsys \<Rightarrow> AuditLogger \<Rightarrow> fsys \<times> AuditLogger \<times> goerr option" where
  "openFile E fs l =
     (case MkdirAll E fs (DirOf (lg_path l)) of
        (fs1, Some err) \<Rightarrow> (fs1, l, Some (Sprintf ''create audit log directory: %w'' [GOs err]))
      | (fs1, None) \<Rightarrow>
        (case open_write E fs1 (lg_path l) True False of
           (fs2, Some err) \<Rightarrow> (fs2, l, Some (Sprintf ''open audit log: %w'' [GOs err]))
         | (fs2, None) \<Rightarrow>
           (case fault E SFstat (lg_path l) of
              Some err \<Rightarrow> (fs2, l, Some (Sprintf ''stat audit log: %w'' [GOs err]))
            | None \<Rightarrow>
              (fs2, l\<lparr>lg_open := True, lg_size := (case fmlookup fs2 (lg_path l) of
                   Some nd \<Rightarrow> node_size E (lg_path l) nd | None \<Rightarrow> 0)\<rparr>, None))))"

definition open_max :: "osenv \<Rightarrow> fsys \<Rightarrow> path \<Rightarrow> int \<Rightarrow> fsys \<times> AuditLogger option \<times> goerr option" where
  "open_max E fs path maxSize =
     (if path = [] then (fs, None, None)
      else (case openFile E fs \<lparr>lg_path = path, lg_open = False, lg_size = 0, lg_maxSize = maxSize\<rparr> of
          (fs1, l, Some err) \<Rightarrow> (fs1, None, Some err)
        | (fs1, l, None) \<Rightarrow> (fs1, Some l, None)))"

definition Open :: "osenv \<Rightarrow> fsys \<Rightarrow> path \<Rightarrow> fsys \<times> AuditLogger option \<times> goerr option" where
  "Open E fs path = open_max E fs path DefaultMaxSize"

definition backup_path :: "AuditLogger \<Rightarrow> path" where
  "backup_path l = lg_path l @ ''.1''"

definition rotate_log :: "osenv \<Rightarrow> fsys \<Rightarrow> AuditLogger \<Rightarrow> fsys \<times> AuditLogger" where
  "rotate_log E fs l =
     (let l1 = l\<lparr>lg_open := False\<rparr>;
          fs1 = fst (remove E fs (backup_path l));
          fs2 = fst (rename E fs1 (lg_path l) (backup_path l))
      in case openFile E fs2 l1 of (fs3, l2, _) \<Rightarrow> (fs3, l2))"

section \<open>Recording an event\<close>

definition truncate_text :: "string \<Rightarrow> nat \<Rightarrow> string" where
  "truncate_text s limit =
     (if length (runes s) \<le> limit then s
      else runes_string (take limit (runes s)) @ [CHR 0xE2, CHR 0x80, CHR 0xA6])"

definition event_json :: "osenv \<Rightarrow> Event \<Rightarrow> json" where
  "event_json E e = JObj ([(''time'', JStr (time_str E (ev_time e))),
       (''action'', JStr (ev_action e)), (''result'', JStr (ev_result e))]
     @ omit (ev_remote e = []) ''remote'' (JStr (ev_remote e))
     @ omit (ev_client e = []) ''client'' (JStr (ev_client e))
     @ omit (ev_user e = []) ''user'' (JStr (ev_user e))
     @ omit (ev_detail e = []) ''detail'' (JStr (ev_detail e)))"

definition event_line :: "osenv \<Rightarrow> int \<Rightarrow> Event \<Rightarrow> bytes" where
  "event_line E now e =
     json_text (event_json E (e\<lparr>ev_time := (if ev_time e = 0 then now else ev_time e),
        ev_detail := truncate_text (ev_detail e) maxDetailRunes\<rparr>)) @ [CHR 0x0A]"

text \<open>A write to a file opened for appending goes to its end.\<close>

definition append_file :: "osenv \<Rightarrow> fsys \<Rightarrow> path \<Rightarrow> bytes \<Rightarrow> fsys \<times> nat \<times> oserr option" where
  "append_file E fs p d = write_at E fs p d (case fmlookup fs p of Some (File c) \<Rightarrow> length c | _ \<Rightarrow> 0)"

definition Log :: "osenv \<Rightarrow> int \<Rightarrow> fsys \<Rightarrow> AuditLogger option \<Rightarrow> Event \<Rightarrow> fsys \<times> AuditLogger option" where
  "Log E now fs logger e = (case logger of None \<Rightarrow> (fs, None)
     | Some l \<Rightarrow>
       let line = event_line E now e
       in if \<not> lg_open l then (fs, Some l)
          else case (if lg_size l + int (length line) > lg_maxSize l then rotate_log E fs l else (fs, l)) of
            (fs1, l1) \<Rightarrow>
              if \<not> lg_open l1 then (fs1, Some l1)
              else (case append_file E fs1 (lg_path l1) line of
                  (fs2, n, _) \<Rightarrow> (fs2, Some (l1\<lparr>lg_size := lg_size l1 + int n\<rparr>))))"

definition CloseLog :: "AuditLogger option \<Rightarrow> AuditLogger option" where
  "CloseLog logger = map_option (\<lambda>l. l\<lparr>lg_open := False\<rparr>) logger"

section \<open>One event is one line\<close>

lemma no_break_Join: "no_break sep \<Longrightarrow> \<forall>x \<in> set xs. no_break x \<Longrightarrow> no_break (Join xs sep)"
  by (induction xs sep rule: Join.induct) auto

lemma no_break_event: "no_break (json_text (event_json E e))"
  by (auto simp: event_json_def omit_def intro!: no_break_Join)

lemma event_line_one:
  "\<exists>text. event_line E now e = text @ [CHR 0x0A] \<and> CHR 0x0A \<notin> set text"
  using no_break_event [of E] by (auto simp: event_line_def no_break_def)

lemma length_truncate_text: "length (truncate_text s n) \<le> max (length s) (4 * n + 3)"
  "length (runes s) > n \<Longrightarrow> length (truncate_text s n) \<le> 4 * n + 3"
proof -
  show "length (runes s) > n \<Longrightarrow> length (truncate_text s n) \<le> 4 * n + 3"
    using length_runes_string [of "take n (runes s)"] by (simp add: truncate_text_def min_def)
  then show "length (truncate_text s n) \<le> max (length s) (4 * n + 3)"
    by (cases "length (runes s) > n") (auto simp: truncate_text_def)
qed

section \<open>Sizes and content\<close>

text \<open>The size the logger keeps is the size of the file.\<close>

definition log_ok :: "fsys \<Rightarrow> AuditLogger \<Rightarrow> bool" where
  "log_ok fs l \<longleftrightarrow> clean_abs (lg_path l) \<and> (lg_open l \<longrightarrow>
     (\<exists>c. fmlookup fs (lg_path l) = Some (File c) \<and> lg_size l = int (length c)))"

definition log_content :: "fsys \<Rightarrow> AuditLogger \<Rightarrow> bytes" where
  "log_content fs l = (case fmlookup fs (lg_path l) of Some (File c) \<Rightarrow> c | _ \<Rightarrow> [])"

lemma openFile_path: "openFile E fs l = (fs', l', r) \<Longrightarrow> lg_path l' = lg_path l \<and> lg_maxSize l' = lg_maxSize l"
  by (auto simp: openFile_def split: prod.splits option.splits)

lemma openFile_ok:
  assumes "openFile E fs l = (fs', l', r)" "clean_abs (lg_path l)" "\<not> lg_open l"
  shows "log_ok fs' l'"
proof -
  obtain fs1 r1 where m: "MkdirAll E fs (DirOf (lg_path l)) = (fs1, r1)" by force
  obtain fs2 r2 where o: "open_write E fs1 (lg_path l) True False = (fs2, r2)" by force
  have "r2 = None \<Longrightarrow> \<exists>c. fmlookup fs2 (lg_path l) = Some (File c)" using o by (auto dest: open_write_ok)
  with assms m o show ?thesis
    by (auto simp: openFile_def log_ok_def split: option.splits)
qed

lemma append_file_file:
  assumes "append_file E fs p d = (fs', n, r)" "fmlookup fs p = Some (File c)"
  shows "fs' = fmupd p (File (c @ take n d)) fs" "n \<le> length d" "r = None \<Longrightarrow> n = length d"
  using assms by (auto simp: append_file_def write_at_def Let_def split: option.splits)

lemma Log_ok:
  assumes "log_ok fs l" "Log E now fs (Some l) e = (fs', r)"
  shows "\<exists>l'. r = Some l' \<and> log_ok fs' l' \<and> lg_path l' = lg_path l \<and> lg_maxSize l' = lg_maxSize l"
proof (cases "lg_open l")
  case False
  with assms show ?thesis by (auto simp: Log_def)
next
  case True
  let ?line = "event_line E now e"
  obtain fs1 l1 where x: "(if lg_size l + int (length ?line) > lg_maxSize l then rotate_log E fs l else (fs, l)) = (fs1, l1)"
    by force
  have l1: "log_ok fs1 l1 \<and> lg_path l1 = lg_path l \<and> lg_maxSize l1 = lg_maxSize l"
  proof (cases "lg_size l + int (length ?line) > lg_maxSize l")
    case rot: True
    then obtain fs0 r0 where "openFile E fs0 (l\<lparr>lg_open := False\<rparr>) = (fs1, l1, r0)"
      using x by (auto simp: rotate_log_def Let_def split: prod.splits)
    with openFile_ok [OF this] openFile_path [OF this] assms(1) show ?thesis by (simp add: log_ok_def)
  qed (use x assms in simp)
  show ?thesis
  proof (cases "lg_open l1")
    case False
    with assms(2) True x l1 show ?thesis by (auto simp: Log_def Let_def)
  next
    case open1: True
    with l1 obtain c where c: "fmlookup fs1 (lg_path l1) = Some (File c)" "lg_size l1 = int (length c)"
      by (auto simp: log_ok_def)
    obtain fs2 n r2 where a: "append_file E fs1 (lg_path l1) ?line = (fs2, n, r2)" by (metis prod.collapse)
    from append_file_file [OF a c(1)] c(2) l1 assms(2) True x open1 a show ?thesis
      by (auto simp: Log_def Let_def log_ok_def)
  qed
qed

text \<open>Without failures, an event is appended, or starts a new file with the old one kept.\<close>

lemma openFile_fresh:
  assumes "fault_free E" "fs_wf fs" "clean_abs (lg_path l)" "fmlookup fs (lg_path l) = None"
    "fmlookup fs (DirOf (lg_path l)) = Some Dir"
  shows "openFile E fs l = (fmupd (lg_path l) (File []) fs, l\<lparr>lg_open := True, lg_size := 0\<rparr>, None)"
proof -
  from assms(3) obtain es where es: "list_all good_elem es" "lg_path l = path_of es" by (auto simp: clean_abs_iff)
  then have d: "DirOf (lg_path l) = path_of (butlast es)" by (simp add: DirOf_clean_abs)
  have g: "list_all good_elem (butlast es)" using es(1) by (auto simp: list_all_iff dest: in_set_butlastD)
  have "MkdirAll E fs (path_of (butlast es)) = (fs, None)"
    using assms(2,5) d fs_wf_ancestors [OF assms(2) g] by (intro MkdirAll_exists [OF g]) auto
  with assms(1,4,5) d show ?thesis
    by (simp add: openFile_def open_write_def parent_err_def)
qed

lemma backup_sibling:
  assumes "clean_abs (lg_path l)" "lg_path l \<noteq> ''/''"
  shows "clean_abs (backup_path l)" "DirOf (backup_path l) = DirOf (lg_path l)"
proof -
  obtain es where es: "list_all good_elem es" "lg_path l = path_of es" using assms(1) by (auto simp: clean_abs_iff)
  moreover have "es \<noteq> []" using es(2) assms(2) by (auto simp: path_of_def)
  then obtain ds e where "es = ds @ [e]" by (metis rev_exhaust)
  ultimately have b: "backup_path l = path_of (ds @ [e @ ''.1''])" "list_all good_elem (ds @ [e @ ''.1''])"
    and p: "lg_path l = path_of (ds @ [e])" "list_all good_elem (ds @ [e])"
    by (auto simp: backup_path_def path_of_snoc good_elem_def append_eq_Cons_conv)
  show "clean_abs (backup_path l)" using b by (metis clean_abs_path_of)
  show "DirOf (backup_path l) = DirOf (lg_path l)" using b p by simp
qed

lemma Log_quiet:
  fixes now :: int and e :: Event
  assumes "fault_free E" "fs_wf fs" "log_ok fs l" "lg_open l" "fmlookup fs (backup_path l) \<noteq> Some Dir"
  defines "line \<equiv> event_line E now e" and "c \<equiv> log_content fs l"
  shows "Log E now fs (Some l) e =
     (if int (length c) + int (length line) \<le> lg_maxSize l
      then (fmupd (lg_path l) (File (c @ line)) fs, Some (l\<lparr>lg_size := int (length (c @ line))\<rparr>))
      else (fmupd (lg_path l) (File line) (fmupd (backup_path l) (File c) fs),
            Some (l\<lparr>lg_size := int (length line)\<rparr>)))"
proof -
  from assms(3,4) have c: "fmlookup fs (lg_path l) = Some (File c)" "lg_size l = int (length c)"
    and ca: "clean_abs (lg_path l)" by (auto simp: log_ok_def c_def log_content_def)
  let ?p = "lg_path l" and ?b = "backup_path l"
  have pb: "?p \<noteq> ?b" by (simp add: backup_path_def)
  show ?thesis
  proof (cases "int (length c) + int (length line) \<le> lg_maxSize l")
    case True
    with assms(1,4) c show ?thesis
      by (simp add: Log_def Let_def line_def [symmetric] append_file_def write_at_def)
  next
    case False
    have par: "fmlookup fs (DirOf ?p) = Some Dir" using assms(2) c(1) unfolding fs_wf_iff by blast
    have "?p \<noteq> ''/''" using assms(2) c(1) by (auto simp: fs_wf_iff)
    note sib = backup_sibling [OF ca this]
    from par have db: "DirOf ?p \<noteq> ?p" "DirOf ?p \<noteq> ?b" using c(1) assms(5) by auto
    define fs1 where "fs1 = fst (remove E fs ?b)"
    have l1: "fmlookup fs1 q = (if q = ?b then None else fmlookup fs q)" for q
      using assms(1,5) by (auto simp: fs1_def remove_def split: option.splits node.splits)
    have w1: "fs_wf fs1" using assms(2) by (auto simp: fs1_def)
    have rn: "rename E fs1 ?p ?b = (fmupd ?b (File c) (fmdrop ?p fs1), None)"
      using assms(1) sib(2) c(1) pb par db by (simp add: rename_def l1 parent_err_def)
    define fs2 where "fs2 = fmupd ?b (File c) (fmdrop ?p fs1)"
    have w2: "fs_wf fs2" using rename_wf [OF w1 sib(1), of E ?p] rn by (simp add: fs2_def)
    have op: "openFile E fs2 (l\<lparr>lg_open := False\<rparr>) = (fmupd ?p (File []) fs2, l\<lparr>lg_size := 0\<rparr>, None)"
      using openFile_fresh [OF assms(1) w2, of "l\<lparr>lg_open := False\<rparr>"] ca pb par db assms(4)
      by (simp add: fs2_def l1)
    have rot: "rotate_log E fs l = (fmupd ?p (File []) fs2, l\<lparr>lg_size := 0\<rparr>)"
      using op rn by (simp add: rotate_log_def Let_def fs1_def [symmetric] fs2_def)
    have eq: "fmupd ?p (File line) fs2 = fmupd ?p (File line) (fmupd ?b (File c) fs)"
      by (rule fmap_ext) (auto simp: fs2_def l1)
    show ?thesis using False rot assms(1,4) c(2) eq
      by (simp add: Log_def Let_def line_def [symmetric] append_file_def write_at_def)
  qed
qed

end
