(* ===== verification/Executor.thy ===== *)
theory Executor
  imports OsModel Protocol
begin

text \<open>
  Running a command (\<^verbatim>\<open>agent/internal/executor\<close>). Starting the process, killing it and
  copying its output is the operating system's part, so the process is an argument: a function
  from the command line and the deadline to how it ended and to the writes it made on each
  stream. What the code decides is modelled: shell, command line, clamped timeout, capped
  output, exit code.
\<close>

definition MaxOutputSize :: nat where "MaxOutputSize = 1 * 1024 * 1024"
definition MaxTimeout :: int where "MaxTimeout = 300"

section \<open>The shell\<close>

definition detectShell :: "bool \<Rightarrow> string \<Rightarrow> string \<times> string list" where
  "detectShell windows shell =
     (if windows then
        (if ToLower shell = ''powershell'' \<or> ToLower shell = ''pwsh''
         then (''powershell'', [''-NoProfile'', ''-NonInteractive'', ''-Command''])
         else (''cmd.exe'', [''/c'']))
      else if shell = ''sh'' then (''/bin/sh'', [''-c'']) else (''/bin/bash'', [''-c'']))"

text \<open>On Windows, \<^verbatim>\<open>cmd.exe\<close> gets the command verbatim in one command line.\<close>

definition applyShellCommandLine :: "bool \<Rightarrow> string \<Rightarrow> string \<Rightarrow> string option" where
  "applyShellCommandLine windows shellCmd command =
     (if \<not> windows then None
      else if \<not> EqualFold shellCmd ''cmd.exe'' then None
      else Some (''cmd.exe /d /s /c '' @ [CHR 0x22] @ command @ [CHR 0x22]))"

section \<open>The capped writer\<close>

record cappedWriter =
  cw_buf :: bytes
  cw_limit :: int
  cw_total :: int

text \<open>The result is the writer and the number of bytes it reports as written.\<close>

definition capped_write :: "cappedWriter \<Rightarrow> bytes \<Rightarrow> cappedWriter \<times> nat" where
  "capped_write c p =
     (let original = length p; remaining = cw_limit c - cw_total c
      in if remaining \<le> 0 then (c, original)
         else let p1 = (if int (length p) > remaining then take (nat remaining) p else p)
              in (c\<lparr>cw_buf := cw_buf c @ p1, cw_total := cw_total c + int (length p1)\<rparr>, original))"

definition capture :: "bytes list \<Rightarrow> bytes" where
  "capture writes = cw_buf (fold (\<lambda>p c. fst (capped_write c p)) writes
     \<lparr>cw_buf = [], cw_limit = int MaxOutputSize, cw_total = 0\<rparr>)"

section \<open>Running\<close>

text \<open>How \<^verbatim>\<open>Run\<close> ended: success, an exit error with its code, a wait delay after the
  shell exited (with the code of the process, when it has one), or another error.\<close>

datatype run_error = ExitError int | WaitDelay "int option" | OtherError

record process =
  pr_deadline :: bool
  pr_error :: "run_error option"
  pr_stdout :: "bytes list"
  pr_stderr :: "bytes list"
  pr_millis :: int

record invocation =
  iv_shell :: string
  iv_args :: "string list"
  iv_cmdline :: "string option"
  iv_seconds :: int

definition full_command :: "string \<Rightarrow> string list \<Rightarrow> string" where
  "full_command cmd args = (if args \<noteq> [] then cmd @ '' '' @ Join args '' '' else cmd)"

definition clamp_timeout :: "int \<Rightarrow> int" where
  "clamp_timeout timeout = (if timeout \<le> 0 \<or> timeout > MaxTimeout then MaxTimeout else timeout)"

definition invocation_of :: "bool \<Rightarrow> string \<Rightarrow> string list \<Rightarrow> int \<Rightarrow> string \<Rightarrow> invocation" where
  "invocation_of windows cmd args timeout shell =
     (case detectShell windows shell of (shellCmd, shellArgs) \<Rightarrow>
        let fullCmd = full_command cmd args
        in \<lparr>iv_shell = shellCmd, iv_args = shellArgs @ [fullCmd],
            iv_cmdline = applyShellCommandLine windows shellCmd fullCmd,
            iv_seconds = clamp_timeout timeout\<rparr>)"

definition exit_code :: "bool \<Rightarrow> run_error option \<Rightarrow> int" where
  "exit_code deadlineExceeded err = (case err of None \<Rightarrow> 0
     | Some e \<Rightarrow> if deadlineExceeded then -1
        else (case e of ExitError code \<Rightarrow> code | WaitDelay (Some code) \<Rightarrow> code | _ \<Rightarrow> -2))"

definition Execute ::
  "bool \<Rightarrow> (invocation \<Rightarrow> process) \<Rightarrow> string \<Rightarrow> string list \<Rightarrow> int \<Rightarrow> string \<Rightarrow> CommandResultPayload result" where
  "Execute windows run cmd args timeout shell =
     (let p = run (invocation_of windows cmd args timeout shell)
      in Inr \<lparr>cr_stdout = capture (pr_stdout p), cr_stderr = capture (pr_stderr p),
              cr_exit_code = exit_code (pr_deadline p) (pr_error p), cr_duration = pr_millis p\<rparr>)"

definition ValidateShell :: "bool \<Rightarrow> (string \<Rightarrow> goerr option) \<Rightarrow> string \<Rightarrow> goerr option" where
  "ValidateShell windows look_path shell =
     (let cmd = fst (detectShell windows shell)
      in case look_path cmd of None \<Rightarrow> None
         | Some err \<Rightarrow> Some (Sprintf ''shell %q not found: %w'' [GStr cmd, GErr err]))"

text \<open>Where the model has the argument \<open>windows\<close>, the code compares \<^verbatim>\<open>runtime.GOOS\<close>.\<close>

definition IsWindows :: "string \<Rightarrow> bool" where
  "IsWindows GOOS \<longleftrightarrow> GOOS = ''windows''"

section \<open>Facts\<close>

lemma clamp_timeout_bounds: "1 \<le> clamp_timeout n" "clamp_timeout n \<le> MaxTimeout"
  "1 \<le> n \<Longrightarrow> n \<le> MaxTimeout \<Longrightarrow> clamp_timeout n = n"
  by (auto simp: clamp_timeout_def MaxTimeout_def)

lemma capped_fold:
  assumes "cw_total c = int (length (cw_buf c))" "0 \<le> cw_limit c" "length (cw_buf c) \<le> nat (cw_limit c)"
  shows "cw_buf (fold (\<lambda>p c. fst (capped_write c p)) ws c) = take (nat (cw_limit c)) (cw_buf c @ concat ws)"
  using assms
proof (induction ws arbitrary: c)
  case (Cons w ws)
  let ?c = "fst (capped_write c w)"
  have c: "cw_limit ?c = cw_limit c" "cw_total ?c = int (length (cw_buf ?c))"
    "cw_buf ?c = take (nat (cw_limit c)) (cw_buf c @ w)"
    using Cons.prems by (auto simp: capped_write_def Let_def nat_diff_distrib)
  have l: "length (cw_buf ?c) \<le> nat (cw_limit ?c)" unfolding c by (simp only: length_take min.cobounded2)
  have "0 \<le> cw_limit ?c" unfolding c(1) by (rule Cons.prems(2))
  from Cons.IH [OF c(2) this l]
  have "cw_buf (fold (\<lambda>p c. fst (capped_write c p)) ws ?c)
      = take (nat (cw_limit c)) (take (nat (cw_limit c)) (cw_buf c @ w) @ concat ws)"
    unfolding c(1,3) .
  also have "\<dots> = take (nat (cw_limit c)) (cw_buf c @ w @ concat ws)"
    using Cons.prems(3) by (cases "length (cw_buf c @ w) \<le> nat (cw_limit c)") (auto simp: min_def)
  finally show ?case by simp
qed simp

lemma capture_prefix: "capture ws = take MaxOutputSize (concat ws)"
  by (simp add: capture_def capped_fold)

text \<open>The writer always reports what it was offered, so the copy never fails short.\<close>

lemma capped_write_reports: "snd (capped_write c p) = length p"
  by (simp add: capped_write_def Let_def)

end
