(* ===== verification/AgentProps.thy ===== *)
theory AgentProps
  imports FileFacts GuardFacts AgentAudit Executor
begin

text \<open>
  The properties of the agent's components: path validation, the atomic upload, reads, pages
  and writes, the connection guard, the audit log and the command executor. Each theorem is
  followed, where it has a hypothesis, by an instance of it at a concrete input.
\<close>

section \<open>A concrete tree for the instances\<close>

definition demo_fs :: fsys where
  "demo_fs = fmap_of_list [(''/'', Dir), (''/d'', Dir), (''/d/f'', File ''hello'')]"

lemma demo_lookup [simp]:
  "fmlookup demo_fs ''/'' = Some Dir" "fmlookup demo_fs ''/d'' = Some Dir"
  "fmlookup demo_fs ''/d/f'' = Some (File ''hello'')"
  "p \<notin> {''/'', ''/d'', ''/d/f''} \<Longrightarrow> fmlookup demo_fs p = None"
  by (auto simp: demo_fs_def fmlookup_of_list)

lemma demo_paths:
  "safePath quiet ''/d/g'' = Inr ''/d/g''" "safePath quiet ''/d/f'' = Inr ''/d/f''"
  "safePath quiet ''/d'' = Inr ''/d''" "safePath quiet ''d/../f'' \<noteq> Inr []"
  "DirOf ''/d/g'' = ''/d''" "DirOf ''/d/f'' = ''/d''" "DirOf ''/d'' = ''/''" "DirOf ''/'' = ''/''"
  "transfer_id_err ''t1'' = None"
  "upload_temp ''/d/g'' ''t1'' = ''/d/.lan-commander-upload-t1.part''"
  "upload_meta ''/d/.lan-commander-upload-t1.part'' = ''/d/.lan-commander-upload-t1.part.meta''"
  by code_simp+

lemma demo_site: "upload_site demo_fs ''/d/g'' (upload_temp ''/d/g'' ''t1'')"
  by (simp add: demo_paths upload_site_def upload_place_def content_at_def)

lemma digest_not_blank [simp]: "TrimSpace (sha256_hex c) \<noteq> []"
  by (simp add: sha256_hex_nonempty)

section \<open>Files\<close>

text \<open>(C5) Path validation: an accepted path is absolute and clean and has no parent element, a
  relative one lies below the working directory, and a path with a parent element is refused with
  the traversal error, whatever separators it uses.\<close>

theorem safePath_confines:
  assumes "env_ok E"
  shows "(\<forall>q. safePath E p = Inr q \<longrightarrow> clean_abs q \<and> ''..'' \<notin> set (FieldsFunc q is_sep) \<and>
       (if IsAbs p then q = Clean p else \<exists>d. cwd E = Inr d \<and> prefix (elems d) (elems q)))
     \<and> (''..'' \<in> set (FieldsFunc p is_sep) \<longrightarrow>
          safePath E p = Inl (Sprintf ''%w: %q contains \"..\"'' [GErr ErrPathTraversal, GStr p]))"
proof (intro conjI allI impI)
  fix q assume q: "safePath E p = Inr q"
  from safePath_sound [OF assms q] show "clean_abs q" "''..'' \<notin> set (FieldsFunc q is_sep)"
    by (auto simp: dotdot_free_def)
  show "if IsAbs p then q = Clean p else \<exists>d. cwd E = Inr d \<and> prefix (elems d) (elems q)"
  proof (cases "IsAbs p")
    case True
    with q show ?thesis using safePath_abs(1) [of p E] by (auto simp: safePath_unfold split: if_splits)
  next
    case False
    from safePath_rel [OF assms q False] obtain ds es where
      "cwd E = Inr (path_of ds)" "list_all good_elem ds" "list_all good_elem es" "q = path_of (ds @ es)" by blast
    with False show ?thesis by (auto simp: elems_path_of)
  qed
next
  assume "''..'' \<in> set (FieldsFunc p is_sep)"
  then show "safePath E p = Inl (Sprintf ''%w: %q contains \"..\"'' [GErr ErrPathTraversal, GStr p])"
    by (simp add: safePath_unfold dotdot_free_def)
qed

lemma safePath_confines_witness:
  "safePath quiet ''a/../../etc'' = Inl (Sprintf ''%w: %q contains \"..\"'' [GErr ErrPathTraversal, GStr ''a/../../etc''])"
proof -
  have "''..'' \<in> set (FieldsFunc ''a/../../etc'' is_sep)" by code_simp
  with safePath_confines [OF env_ok_quiet, of "''a/../../etc''"] show ?thesis by blast
qed

text \<open>(C6) Integrity of an upload, in every environment: when the final chunk is acknowledged, the bytes collected
  so far followed by this chunk have the advertised size and the announced SHA-256 digest, no file but the target
  and the two temporary ones has changed, and the target holds exactly these bytes, unless the target is the metadata
  file of its own transfer (then it is removed, see below).\<close>

theorem upload_commit_integrity:
  assumes "WriteAtomicUploadChunk E fs path tid data off tot True ck = (fs', None)"
    and "env_ok E" "int64_ok off"
  shows "\<exists>safe content. safePath E path = Inr safe \<and>
     content = (if off = 0 then [] else content_at fs (upload_temp safe tid)) @ data \<and>
     int (length content) = tot \<and> EqualFold (sha256_hex content) ck \<and>
     (safe \<noteq> upload_meta (upload_temp safe tid) \<longrightarrow> fmlookup fs' safe = Some (File content)) \<and>
     same_except (insert safe (upload_files E path tid)) fs fs'"
  using assms by (rule upload_commit)

lemma demo_upload:
  "spec_upload (pending_at demo_fs (upload_temp ''/d/g'' ''t1'')) ''abc'' 0 3 True (sha256_hex ''abc'')
     = (None, Committed ''abc'')"
  by (simp add: spec_upload_def spec_prior_def chunk_fits_def DefaultChunkSize_def)

lemma demo_upload_step:
  assumes "WriteAtomicUploadChunk quiet demo_fs ''/d/g'' ''t1'' ''abc'' 0 3 True (sha256_hex ''abc'') = (fs', r)"
  shows "r = None"
  using upload_step_refines [OF assms fault_free_quiet env_ok_quiet demo_paths(1,9) demo_site]
  by (simp add: demo_upload step_matches_def outcome_ok_def int64_ok_def)

lemma upload_commit_integrity_witness:
  "\<exists>fs'. WriteAtomicUploadChunk quiet demo_fs ''/d/g'' ''t1'' ''abc'' 0 3 True (sha256_hex ''abc'') = (fs', None)
     \<and> fmlookup fs' ''/d/g'' = Some (File ''abc'')"
proof -
  obtain fs' r where c: "WriteAtomicUploadChunk quiet demo_fs ''/d/g'' ''t1'' ''abc'' 0 3 True (sha256_hex ''abc'') = (fs', r)"
    by force
  with demo_upload_step have c': "WriteAtomicUploadChunk quiet demo_fs ''/d/g'' ''t1'' ''abc'' 0 3 True (sha256_hex ''abc'') = (fs', None)"
    by blast
  from upload_commit_integrity [OF c' env_ok_quiet] c' show ?thesis
    by (simp add: int64_ok_def demo_paths)
qed

text \<open>(C7) Atomicity of an upload, in every environment: a chunk that is rejected or is not the
  final one changes no file but the two temporary ones of its transfer.\<close>

theorem upload_atomic:
  assumes "WriteAtomicUploadChunk E fs path tid data off tot final ck = (fs', r)" "r \<noteq> None \<or> \<not> final"
  shows "same_except (upload_files E path tid) fs fs'"
  using assms by (rule upload_frame)

lemma upload_atomic_witness:
  "same_except (upload_files quiet ''/d/f'' ''t1'') demo_fs
     (fst (WriteAtomicUploadChunk quiet demo_fs ''/d/f'' ''t1'' ''abc'' 0 9 False ''''))"
  by (rule upload_atomic [OF surjective_pairing]) simp

text \<open>(C8) Refinement: without machine failures, a chunk is exactly one step of the abstract upload
  on the pending transfer (nothing pending, or a size and the bytes so far): same next state,
  success exactly when the specification accepts or commits, and the target replaced exactly
  on a commit.\<close>

theorem upload_refines_spec:
  assumes "WriteAtomicUploadChunk E fs path tid data off tot final ck = (fs', r)"
    and "fault_free E" "env_ok E" "safePath E path = Inr safe" "transfer_id_err tid = None"
    and "upload_site fs safe (upload_temp safe tid)" "int64_ok tot"
  shows "step_matches fs fs' safe (upload_temp safe tid) r
     (spec_upload (pending_at fs (upload_temp safe tid)) data off tot final ck)"
  using assms by (rule upload_step_refines)

lemma upload_refines_spec_witness:
  "\<exists>fs' r. WriteAtomicUploadChunk quiet demo_fs ''/d/g'' ''t1'' ''ab'' 0 3 False '''' = (fs', r)
     \<and> r = None \<and> pending_at fs' (upload_temp ''/d/g'' ''t1'') = Some (3, ''ab'')"
proof -
  obtain fs' r where c: "WriteAtomicUploadChunk quiet demo_fs ''/d/g'' ''t1'' ''ab'' 0 3 False '''' = (fs', r)" by force
  from upload_refines_spec [OF c fault_free_quiet env_ok_quiet demo_paths(1,9) demo_site]
  have "r = None \<and> pending_at fs' (upload_temp ''/d/g'' ''t1'') = Some (3, ''ab'')"
    by (simp add: step_matches_def outcome_ok_def int64_ok_def spec_upload_def spec_prior_def
        chunk_fits_def DefaultChunkSize_def)
  with c show ?thesis by blast
qed

text \<open>Every file operation of the agent keeps the tree well-formed (names are clean absolute
  paths below existing directories), whatever fails.\<close>

theorem file_operations_keep_tree:
  assumes "fs_wf fs" "env_ok E"
  shows "fs_wf (fst (WriteFileChunk E fs path data off)) \<and>
    fs_wf (fst (WriteAtomicUploadChunk E fs path tid data off tot final ck)) \<and>
    fs_wf (fst (CancelAtomicUpload E fs path tid))"
  using WriteFileChunk_wf [OF surjective_pairing assms] WriteAtomicUploadChunk_wf [OF surjective_pairing assms]
    CancelAtomicUpload_wf [OF assms(1)] by simp

lemma demo_wf: "fs_wf demo_fs"
proof -
  have "clean_abs ''/d''" "clean_abs ''/d/f''" by code_simp+
  then show ?thesis unfolding fs_wf_iff
    by (auto simp: demo_fs_def fmlookup_of_list demo_paths split: if_splits)
qed

lemma file_operations_keep_tree_witness:
  "fs_wf (fst (WriteFileChunk quiet demo_fs ''/d/f'' ''abc'' 10))"
  using file_operations_keep_tree [OF demo_wf env_ok_quiet] by blast

text \<open>Reading a chunk, in every environment: bytes returned without an error are bytes of the
  file from the requested offset on, at most a chunk of them, with the true file size; an empty
  chunk means an empty file or an offset before its end.\<close>

theorem read_chunk_sound:
  assumes "ReadFileChunk E fs path off n = (buf, sz, None)"
  shows "0 \<le> off \<and> (\<exists>p nd. safePath E path = Inr p \<and> fmlookup fs p = Some nd \<and> sz = node_size E p nd \<and>
     (case nd of File c \<Rightarrow> prefix buf (drop (nat off) c) \<and> length buf \<le> chunk_len n
         \<and> (buf = [] \<longrightarrow> c = [] \<or> nat off < length c)
      | Dir \<Rightarrow> buf = []))"
  using assms by (rule ReadFileChunk_sound)

lemma read_chunk_sound_witness:
  "ReadFileChunk quiet demo_fs ''/d/f'' 1 2 = (''el'', 5, None) \<and> prefix ''el'' (drop 1 ''hello'')"
proof -
  have r: "ReadFileChunk quiet demo_fs ''/d/f'' 1 2 = (''el'', 5, None)"
    using ReadFileChunk_quiet [OF fault_free_quiet demo_paths(2), of demo_fs "''hello''" 1 2]
    by (simp add: chunk_len_def numeral_2_eq_2)
  from read_chunk_sound [OF r] r show ?thesis by (auto simp: demo_paths)
qed

text \<open>Writing a chunk in place, without machine failures: offset 0 starts the file over, any
  other offset replaces the bytes there, and a gap before it is filled with zeros; nothing else
  changes.\<close>

theorem write_chunk_content:
  assumes "fault_free E" "safePath E path = Inr p" "fmlookup fs p \<noteq> Some Dir"
    "fmlookup fs (DirOf p) = Some Dir" "0 \<le> off"
  shows "WriteFileChunk E fs path data off =
     (fmupd p (File (if off = 0 then data
        else take (nat off) (content_at fs p) @ replicate (nat off - length (content_at fs p)) (CHR 0x00)
          @ data @ drop (nat off + length data) (content_at fs p))) fs, None)"
  using WriteFileChunk_quiet [OF assms] assms(5) by (simp add: written_def resize_def zeros_def)

lemma write_chunk_content_witness:
  "WriteFileChunk quiet demo_fs ''/d/f'' ''XY'' 1 = (fmupd ''/d/f'' (File ''hXYlo'') demo_fs, None)"
  using write_chunk_content [OF fault_free_quiet demo_paths(2), of demo_fs 1 "''XY''"]
  by (simp add: demo_paths content_at_def numeral_3_eq_3)

text \<open>A directory page, without machine failures: the entries from the requested offset, at most
  the clamped limit of them, of the listing sorted by name; the next offset is where the page
  ends, and more is announced exactly when entries remain, so following it always advances.\<close>

theorem list_dir_page:
  fixes lim :: int
  assumes "fault_free E" "safePath E path = Inr p" "fmlookup fs p = Some Dir" "0 \<le> off"
  shows "\<exists>page. ListDir E fs path off lim = Inr page \<and> dc_path page = p
     \<and> dc_total page = int (length (listing E fs p))
     \<and> dc_entries page = List.map_filter (dir_entry E fs p) (take (page_limit lim) (drop (nat off) (listing E fs p)))
     \<and> dc_has_more page = (nat off + page_limit lim < length (listing E fs p))
     \<and> (dc_has_more page \<longrightarrow> dc_next_offset page = off + int (page_limit lim) \<and> off < dc_next_offset page)"
proof -
  let ?all = "listing E fs p"
  let ?s = "min (nat off) (length ?all)"
  let ?e = "min (?s + page_limit lim) (length ?all)"
  have "take (?e - ?s) (drop ?s ?all) = take (page_limit lim) (drop (nat off) ?all)"
    by (cases "nat off \<le> length ?all") (auto simp: min_def)
  moreover have "(?e < length ?all) = (nat off + page_limit lim < length ?all)"
    using page_limit_bounds(1) [of lim] by (auto simp: min_def)
  moreover have "?e < length ?all \<Longrightarrow> int ?e = off + int (page_limit lim)"
    using assms(4) by (auto simp: min_def split: if_splits)
  ultimately show ?thesis
    using ListDir_quiet [OF assms, of lim] page_limit_bounds(1) [of lim] by auto
qed

lemma list_dir_page_witness:
  "\<exists>page. ListDir quiet demo_fs ''/d'' 0 50 = Inr page \<and> dc_path page = ''/d''"
  using list_dir_page [OF fault_free_quiet demo_paths(3), of demo_fs 0 50] by auto

text \<open>Canceling an upload, without machine failures, drops both temporary files and nothing
  else, and forgets the pending transfer.\<close>

theorem cancel_forgets:
  assumes "fault_free E" "safePath E path = Inr p" "transfer_id_err tid = None"
    "upload_place fs p (upload_temp p tid)"
  shows "snd (CancelAtomicUpload E fs path tid) = None
     \<and> pending_at (fst (CancelAtomicUpload E fs path tid)) (upload_temp p tid) = None
     \<and> same_except (upload_files E path tid) fs (fst (CancelAtomicUpload E fs path tid))"
proof -
  note c = CancelAtomicUpload_quiet [OF assms]
  have "pending_at (fst (CancelAtomicUpload E fs path tid)) (upload_temp p tid) = None"
    by (rule pending_None_file) (simp add: c)
  with c CancelAtomicUpload_frame [OF surjective_pairing, of E path tid fs] show ?thesis by simp
qed

lemma cancel_forgets_witness:
  "pending_at (fst (CancelAtomicUpload quiet demo_fs ''/d/g'' ''t1'')) (upload_temp ''/d/g'' ''t1'') = None"
  using cancel_forgets [OF fault_free_quiet demo_paths(1,9)] demo_site by (simp add: upload_site_def)

text \<open>The target may bear the name of the metadata file of its own transfer.\<close>

lemma finish_over_metadata:
  assumes "upload_finish E fs t (upload_meta t) ck = (fs', None)" "fault E SRemove (upload_meta t) = None"
  shows "fmlookup fs' (upload_meta t) = None"
  using assms by (auto simp: upload_finish_def rename_def remove_def split: if_splits sum.splits option.splits prod.splits node.splits)

lemma demo_own_metadata:
  "\<exists>fs'. WriteAtomicUploadChunk quiet demo_fs ''/d/.lan-commander-upload-t1.part.meta'' ''t1'' ''abc'' 0 3 True
       (sha256_hex ''abc'') = (fs', None)"
proof -
  let ?m = "''/d/.lan-commander-upload-t1.part.meta''"
  let ?t = "''/d/.lan-commander-upload-t1.part''"
  have p: "safePath quiet ?m = Inr ?m" "upload_temp ?m ''t1'' = ?t" "clean_abs ?t" "dotdot_free ?t"
    "DirOf ?t = ''/d''" "DirOf ?m = ''/d''" "upload_check ''abc'' 0 3 True = None"
    by code_simp+
  have b: "upload_begin quiet demo_fs ?t 0 3 = (fmupd ?m (File (FormatInt 3)) (fmupd ?t (File []) demo_fs), None)"
    using upload_begin_first_quiet [of quiet demo_fs ?t 3] p by (simp add: demo_paths)
  let ?fs1 = "fmupd ?m (File (FormatInt 3)) (fmupd ?t (File []) demo_fs)"
  have a: "upload_append quiet ?fs1 ?t ''abc'' 0 = (fmupd ?t (File ''abc'') ?fs1, None)"
    using upload_append_quiet [of quiet ?fs1 ?t "[]" "''abc''" 0] by simp
  let ?fs2 = "fmupd ?t (File ''abc'') ?fs1"
  have h: "FileSHA256 quiet ?fs2 ?t = Inr (sha256_hex ''abc'')"
    using FileSHA256_quiet [of quiet ?t ?fs2 "''abc''"] p by simp
  have r: "rename quiet ?fs2 ?t ?m = (fmupd ?m (File ''abc'') (fmdrop ?t ?fs2), None)"
    using p by (simp add: rename_def parent_err_def)
  have f: "upload_finish quiet ?fs2 ?t ?m (sha256_hex ''abc'')
      = (fst (remove quiet (fmupd ?m (File ''abc'') (fmdrop ?t ?fs2)) ?m), None)"
    using h r by (simp add: upload_finish_def demo_paths)
  have "WriteAtomicUploadChunk quiet demo_fs ?m ''t1'' ''abc'' 0 3 True (sha256_hex ''abc'')
      = (fst (remove quiet (fmupd ?m (File ''abc'') (fmdrop ?t ?fs2)) ?m), None)"
    by (simp only: WriteAtomicUploadChunk_def Let_def demo_paths(9) p(1,2,7) a b f option.case sum.case prod.case not_True_eq_False if_False)
  then show ?thesis by blast
qed



section \<open>The connection guard\<close>

text \<open>(C26) Blocking: once an address has failed as often as the limit says within one window, every
  admission it asks for during the block time is refused, whatever the other addresses do and
  however its own open connections go on failing, unless one of them authenticates.\<close>

theorem guard_blocks:
  assumes "well_timed t0 (pre @ (tn, OpFail a) # post)" "fmlookup (g_failures g) a = None"
    and "tn \<le> t0 + g_window g" "int (fails_of a pre) + 1 = g_maxFailures g" "no_success a (pre @ post)"
    and "\<forall>x \<in> set post. fst x < tn + g_block g" "0 \<le> g_block g" "g_block g \<le> g_window g"
  shows "\<forall>(ip, ok) \<in> set (snd (guard_run post (fst (guard_run (pre @ [(tn, OpFail a)]) g)))). ip = a \<longrightarrow> \<not> ok"
proof -
  from assms(1) have wt: "well_timed t0 pre" "\<forall>x \<in> set pre. fst x \<le> tn" "t0 \<le> tn" "well_timed tn post"
    by (auto simp: well_timed_def sorted_append)
  have ns: "no_success a pre" "no_success a post" using assms(5) by (auto simp: no_success_def)
  let ?g = "fst (guard_run (pre @ [(tn, OpFail a)]) g)"
  have b: "blocked_until tn (tn + g_block g) ?g a"
    using wt(1-3) assms ns by (intro counted_blocks) auto
  have l: "g_window ?g = g_window g" "g_block ?g = g_block g"
    using guard_run_limits [of g "pre @ [(tn, OpFail a)]"] by (simp_all add: same_limits_def)
  show ?thesis
    using blocked_run [OF b wt(4) assms(6) ns(2)] unfolding l using assms(7,8) by blast
qed

lemma guard_blocks_witness:
  "snd (guard_run [(5, OpAdmit ''10.0.0.9'')]
     (fst (guard_run (replicate 19 (1, OpFail ''10.0.0.9'') @ [(2, OpFail ''10.0.0.9'')]) newIPGuard)))
   = [(''10.0.0.9'', False)]"
proof -
  let ?g = "fst (guard_run (replicate 19 (1, OpFail ''10.0.0.9'') @ [(2, OpFail ''10.0.0.9'')]) newIPGuard)"
  have "\<forall>(ip, ok) \<in> set (snd (guard_run [(5, OpAdmit ''10.0.0.9'')] ?g)). ip = ''10.0.0.9'' \<longrightarrow> \<not> ok"
    by (rule guard_blocks [where ?t0.0 = 1])
      (auto simp: well_timed_def sorted_append newIPGuard_def guard_consts fails_of_def no_success_def)
  then show ?thesis by (auto split: prod.splits)
qed

text \<open>Isolation: what the guard decides for an address depends on the operations of this address
  only; the others (and the dropping of their expired records) cannot be noticed.\<close>

theorem guard_isolation:
  assumes "well_timed t0 ops" "\<forall>ip. 0 \<le> active_of g ip"
  shows "filter (\<lambda>x. fst x = a) (snd (guard_run ops g))
     = snd (guard_run (filter (\<lambda>(t, op). op_ip op = a) ops) g)"
  using assms by (intro non_interference_gen [OF assms(1)]) (simp add: agree_on_def)

lemma guard_isolation_witness:
  "filter (\<lambda>x. fst x = ''a'') (snd (guard_run [(1, OpAdmit ''a''), (2, OpFail ''b''), (3, OpAdmit ''a'')] newIPGuard))
     = snd (guard_run [(1, OpAdmit ''a''), (3, OpAdmit ''a'')] newIPGuard)"
  using guard_isolation [of 1 "[(1, OpAdmit ''a''), (2, OpFail ''b''), (3, OpAdmit ''a'')]" newIPGuard "''a''"]
  by (simp add: well_timed_def newIPGuard_def active_of_def)

section \<open>The audit log\<close>

text \<open>One event is one line: the record written for an event ends in a line break and holds no
  other, whatever text the peer put into its fields, so no peer can forge an entry.\<close>

theorem audit_event_one_line:
  "\<exists>text. event_line E now e = text @ [CHR 0x0A] \<and> CHR 0x0A \<notin> set text"
  by (rule event_line_one)

text \<open>Recording an event, without machine failures: the line is appended, or, when the file
  would pass its maximum size, the file becomes the one backup and the line starts a new file;
  nothing else changes and the size the logger keeps is the size of the file.\<close>

theorem audit_append_or_rotate:
  fixes now :: int and e :: Event
  assumes "fault_free E" "fs_wf fs" "log_ok fs l" "lg_open l" "fmlookup fs (backup_path l) \<noteq> Some Dir"
  shows "Log E now fs (Some l) e =
     (let line = event_line E now e; c = log_content fs l
      in if int (length c) + int (length line) \<le> lg_maxSize l
      then (fmupd (lg_path l) (File (c @ line)) fs, Some (l\<lparr>lg_size := int (length (c @ line))\<rparr>))
      else (fmupd (lg_path l) (File line) (fmupd (backup_path l) (File c) fs),
            Some (l\<lparr>lg_size := int (length line)\<rparr>)))"
  unfolding Let_def using assms by (rule Log_quiet)

definition demo_log :: AuditLogger where
  "demo_log = \<lparr>lg_path = ''/d/f'', lg_open = True, lg_size = 5, lg_maxSize = 7\<rparr>"

definition demo_event :: Event where
  "demo_event = \<lparr>ev_time = 1, ev_action = ''auth'', ev_result = ''ok'', ev_remote = [], ev_client = [],
     ev_user = ''eve'', ev_detail = []\<rparr>"

lemma audit_append_or_rotate_witness:
  "fmlookup (fst (Log quiet 1 demo_fs (Some demo_log) demo_event)) ''/d/f.1'' = Some (File ''hello'')"
proof -
  have ca: "clean_abs ''/d/f''" by code_simp
  have "length (event_line quiet 1 demo_event) > 2" by (simp add: event_line_def event_json_def demo_event_def)
  with audit_append_or_rotate [OF fault_free_quiet demo_wf, of demo_log 1 demo_event] ca show ?thesis
    by (simp add: demo_log_def log_ok_def log_content_def backup_path_def Let_def)
qed

text \<open>Whatever fails while an event is recorded, an open log's size stays the size of its file,
  and path and maximum size stay what they were.\<close>

theorem audit_size_tracked:
  assumes "log_ok fs l" "Log E now fs (Some l) e = (fs', r)"
  shows "\<exists>l'. r = Some l' \<and> log_ok fs' l' \<and> lg_path l' = lg_path l \<and> lg_maxSize l' = lg_maxSize l"
  using assms by (rule Log_ok)

lemma audit_size_tracked_witness:
  "\<exists>fs' l'. Log quiet 1 demo_fs (Some demo_log) demo_event = (fs', Some l') \<and> log_ok fs' l'"
proof -
  have "clean_abs ''/d/f''" by code_simp
  then have "log_ok demo_fs demo_log" by (simp add: log_ok_def demo_log_def)
  from audit_size_tracked [OF this surjective_pairing, of quiet 1 demo_event] show ?thesis
    by (metis prod.collapse)
qed

section \<open>Commands\<close>

text \<open>Running a command: the process gets a deadline between one second and the hard cap, the
  reported output of each stream is what it wrote cut at one megabyte, and the exit code is the
  process's own, 0 on success and -1 on a timeout.\<close>

theorem execute_result:
  "\<exists>r. Execute windows run cmd args timeout shell = Inr r
     \<and> (let iv = invocation_of windows cmd args timeout shell; p = run iv in
        1 \<le> iv_seconds iv \<and> iv_seconds iv \<le> 300
        \<and> cr_stdout r = take (1024 * 1024) (concat (pr_stdout p))
        \<and> cr_stderr r = take (1024 * 1024) (concat (pr_stderr p))
        \<and> (pr_error p = None \<longrightarrow> cr_exit_code r = 0)
        \<and> (pr_error p \<noteq> None \<and> pr_deadline p \<longrightarrow> cr_exit_code r = -1)
        \<and> (\<forall>code. pr_error p = Some (ExitError code) \<and> \<not> pr_deadline p \<longrightarrow> cr_exit_code r = code))"
  using clamp_timeout_bounds(1,2) [of timeout]
  by (auto simp: Execute_def Let_def capture_prefix MaxOutputSize_def exit_code_def invocation_of_def
      MaxTimeout_def split: prod.splits)

lemma execute_result_witness:
  "\<exists>r. Execute False (\<lambda>iv. \<lparr>pr_deadline = False, pr_error = Some (ExitError 3), pr_stdout = [''ab'', ''c''],
       pr_stderr = [], pr_millis = 4\<rparr>) ''ls'' [''-l''] 0 '''' = Inr r \<and> cr_exit_code r = 3 \<and> cr_stdout r = ''abc''"
  using execute_result [of False "\<lambda>iv. \<lparr>pr_deadline = False, pr_error = Some (ExitError 3), pr_stdout = [''ab'', ''c''],
       pr_stderr = [], pr_millis = 4\<rparr>" "''ls''" "[''-l'']" 0 "''''"]
  by (auto simp: Let_def)

end
