(* ===== verification/ProcTree.thy ===== *)
theory ProcTree
  imports Executor
begin

text \<open>
  The processes of a command (\<^verbatim>\<open>executor/proctree_unix.go\<close>, \<^verbatim>\<open>executor/proctree_windows.go\<close>):
  the shell, what it starts, and the cancelation that ends all of it when the deadline passes.
  The table maps identifiers to processes; what the processes do is the step relation \<open>ps_step\<close>.
  Signals follow POSIX, the result of \<^verbatim>\<open>Run\<close> follows \<^verbatim>\<open>os/exec\<close>; \<^verbatim>\<open>taskkill\<close> is an argument.
\<close>

section \<open>Processes\<close>

text \<open>An exited process stays in the table until its parent waits for it.\<close>

record proc =
  pc_group :: int
  pc_parent :: int
  pc_running :: bool

type_synonym ptable = "(int, proc) fmap"

datatype sigerr = ESRCH | EPERM | ErrProcessDone

definition running :: "ptable \<Rightarrow> int \<Rightarrow> bool" where
  "running t p = (case fmlookup t p of None \<Rightarrow> False | Some x \<Rightarrow> pc_running x)"

text \<open>A killed process is no longer running; \<open>may\<close> tells which processes the agent may signal.\<close>

definition stop_when :: "(int \<Rightarrow> proc \<Rightarrow> bool) \<Rightarrow> ptable \<Rightarrow> ptable" where
  "stop_when P t = fmmap_keys (\<lambda>p x. if P p x then x\<lparr>pc_running := False\<rparr> else x) t"

definition in_group :: "int \<Rightarrow> ptable \<Rightarrow> int fset" where
  "in_group g t = ffilter (\<lambda>p. map_option pc_group (fmlookup t p) = Some g) (fmdom t)"

text \<open>\<^verbatim>\<open>syscall.Kill\<close> of the group \<open>g\<close> with \<^verbatim>\<open>SIGKILL\<close>: it fails only when it reaches no process.\<close>

definition kill_group :: "(int \<Rightarrow> bool) \<Rightarrow> int \<Rightarrow> ptable \<Rightarrow> ptable \<times> sigerr option" where
  "kill_group may g t =
     (if in_group g t = {||} then (t, Some ESRCH)
      else if ffilter may (in_group g t) = {||} then (t, Some EPERM)
      else (stop_when (\<lambda>p x. pc_group x = g \<and> may p) t, None))"

text \<open>\<^verbatim>\<open>Process.Kill\<close> of the process alone.\<close>

definition process_kill :: "(int \<Rightarrow> bool) \<Rightarrow> int \<Rightarrow> ptable \<Rightarrow> ptable \<times> sigerr option" where
  "process_kill may p t =
     (if fmlookup t p = None then (t, Some ErrProcessDone)
      else if \<not> may p then (t, Some EPERM)
      else (stop_when (\<lambda>q x. q = p) t, None))"

section \<open>Canceling\<close>

text \<open>Unix: the group of the shell, or the shell alone when no process of the group can be signaled.\<close>

definition cancel_unix :: "(int \<Rightarrow> bool) \<Rightarrow> int option \<Rightarrow> ptable \<Rightarrow> ptable \<times> sigerr option" where
  "cancel_unix may process t =
     (case process of None \<Rightarrow> (t, None)
      | Some pid \<Rightarrow> (case kill_group may pid t of
          (t1, Some err) \<Rightarrow> process_kill may pid t1
        | (t1, None) \<Rightarrow> (t1, None)))"

text \<open>Windows: the tree by \<^verbatim>\<open>taskkill /T /F\<close>, whose result is ignored, then the shell.\<close>

definition cancel_windows ::
  "(int \<Rightarrow> ptable \<Rightarrow> ptable) \<Rightarrow> (int \<Rightarrow> bool) \<Rightarrow> int option \<Rightarrow> ptable \<Rightarrow> ptable \<times> sigerr option" where
  "cancel_windows taskkill may process t =
     (case process of None \<Rightarrow> (t, None)
      | Some pid \<Rightarrow> (case process_kill may pid (taskkill pid t) of
          (t1, Some err) \<Rightarrow> if err \<noteq> ErrProcessDone then (t1, Some err) else (t1, None)
        | (t1, None) \<Rightarrow> (t1, None)))"

text \<open>
  A started command on Unix is the leader of a group of its own (\<^verbatim>\<open>Setpgid\<close>); on Windows it stays in
  the group of the agent. The identifier of a new process is unused, also as a group.
\<close>

definition fresh_pid :: "int \<Rightarrow> ptable \<Rightarrow> bool" where
  "fresh_pid p t \<longleftrightarrow> p |\<notin>| fmdom t \<and> in_group p t = {||}"

definition start_shell :: "bool \<Rightarrow> int \<Rightarrow> int \<Rightarrow> ptable \<Rightarrow> ptable" where
  "start_shell setpgid agent pid t =
     fmupd pid \<lparr>pc_group = (if setpgid then pid else (case fmlookup t agent of None \<Rightarrow> agent | Some x \<Rightarrow> pc_group x)),
       pc_parent = agent, pc_running = True\<rparr> t"

section \<open>What the processes do\<close>

text \<open>
  The state holds the table, the processes the shell started directly or through others, and of these the
  ones that chose a group of their own or inherited it.
\<close>

record pstate =
  ps_table :: ptable
  ps_started :: "int fset"
  ps_left :: "int fset"

definition inherit :: "int \<Rightarrow> int \<Rightarrow> int fset \<Rightarrow> int fset" where
  "inherit p q A = (if p |\<in>| A then finsert q A else A |-| {|q|})"

definition do_fork :: "int \<Rightarrow> int \<Rightarrow> proc \<Rightarrow> pstate \<Rightarrow> pstate" where
  "do_fork p q x s = \<lparr>ps_table = fmupd q (x\<lparr>pc_parent := p\<rparr>) (ps_table s),
     ps_started = inherit p q (ps_started s), ps_left = inherit p q (ps_left s)\<rparr>"

inductive ps_step :: "pstate \<Rightarrow> pstate \<Rightarrow> bool" where
  ps_fork: "fmlookup (ps_table s) p = Some x \<Longrightarrow> pc_running x \<Longrightarrow> fresh_pid q (ps_table s) \<Longrightarrow> ps_step s (do_fork p q x s)"
| ps_exit: "ps_step s (s\<lparr>ps_table := stop_when (\<lambda>q x. q = p) (ps_table s)\<rparr>)"
| ps_wait: "\<not> running (ps_table s) p \<Longrightarrow> ps_step s (s\<lparr>ps_table := fmdrop p (ps_table s)\<rparr>)"
| ps_group: "fmlookup (ps_table s) p = Some x \<Longrightarrow>
    ps_step s (s\<lparr>ps_table := fmupd p (x\<lparr>pc_group := g\<rparr>) (ps_table s),
      ps_left := (if p |\<in>| ps_started s then finsert p (ps_left s) else ps_left s)\<rparr>)"

inductive ps_reach :: "pstate \<Rightarrow> pstate \<Rightarrow> bool" where
  ps_refl: "ps_reach s s"
| ps_next: "ps_reach s s1 \<Longrightarrow> ps_step s1 s2 \<Longrightarrow> ps_reach s s2"

definition shell_started :: "bool \<Rightarrow> int \<Rightarrow> int \<Rightarrow> ptable \<Rightarrow> pstate" where
  "shell_started setpgid agent pid t =
     \<lparr>ps_table = start_shell setpgid agent pid t, ps_started = {|pid|}, ps_left = {||}\<rparr>"

section \<open>How \<^verbatim>\<open>Run\<close> ends\<close>

text \<open>
  \<^verbatim>\<open>Cmd.Wait\<close> with the status of the shell (minus one after a signal), what \<^verbatim>\<open>Cancel\<close> returned if the
  deadline passed before, and whether the pipes stayed open beyond the wait delay.
\<close>

definition cmd_wait :: "int \<Rightarrow> sigerr option option \<Rightarrow> bool \<Rightarrow> run_error option" where
  "cmd_wait status canceled held =
     (if status \<noteq> 0 then Some (ExitError status)
      else case canceled of
          Some None \<Rightarrow> Some OtherError
        | Some (Some err) \<Rightarrow> if err = ErrProcessDone then (if held then Some (WaitDelay (Some 0)) else None) else Some OtherError
        | None \<Rightarrow> if held then Some (WaitDelay (Some 0)) else None)"

text \<open>
  What happens to a command: the processes as they are when the deadline passes, if it does, the
  status the shell exits with by itself, and the output. A shell killed by a signal has the status minus one.
\<close>

record course =
  cs_timed_out :: bool
  cs_table :: ptable
  cs_status :: int
  cs_held :: bool
  cs_stdout :: "bytes list"
  cs_stderr :: "bytes list"
  cs_millis :: int

definition run_course :: "(ptable \<Rightarrow> ptable \<times> sigerr option) \<Rightarrow> int \<Rightarrow> course \<Rightarrow> process" where
  "run_course cancel pid c =
     (let (t1, r) = cancel (cs_table c);
          status = (if cs_timed_out c \<and> running (cs_table c) pid \<and> \<not> running t1 pid then -1 else cs_status c)
      in \<lparr>pr_deadline = cs_timed_out c,
          pr_error = cmd_wait status (if cs_timed_out c then Some r else None) (cs_held c),
          pr_stdout = cs_stdout c, pr_stderr = cs_stderr c, pr_millis = cs_millis c\<rparr>)"

section \<open>Facts\<close>

lemma lookup_stop_when [simp]:
  "fmlookup (stop_when P t) p = map_option (\<lambda>x. if P p x then x\<lparr>pc_running := False\<rparr> else x) (fmlookup t p)"
  by (simp add: stop_when_def)

lemma running_stop_when [simp]:
  "running (stop_when P t) p \<longleftrightarrow> running t p \<and> \<not> pred_option (P p) (fmlookup t p)"
  by (cases "fmlookup t p") (auto simp: running_def)

lemma in_groupI: "fmlookup t p = Some x \<Longrightarrow> pc_group x = g \<Longrightarrow> p |\<in>| in_group g t"
  by (simp add: in_group_def fmdomI)

lemma not_running_absent [simp]: "fmlookup t p = None \<Longrightarrow> \<not> running t p"
  by (simp add: running_def)

text \<open>A process that did not leave is in the group of the shell.\<close>

definition grouped :: "int \<Rightarrow> pstate \<Rightarrow> bool" where
  "grouped pid s \<longleftrightarrow> (\<forall>p. p |\<in>| ps_started s \<longrightarrow> p |\<notin>| ps_left s \<longrightarrow>
     pred_option (\<lambda>x. pc_group x = pid) (fmlookup (ps_table s) p))"

lemma grouped_step: "ps_step s s1 \<Longrightarrow> grouped pid s \<Longrightarrow> grouped pid s1"
proof (induction rule: ps_step.induct)
  case (ps_fork s p x q)
  then show ?case by (auto simp: grouped_def do_fork_def inherit_def)
next
  case (ps_exit s p)
  then show ?case by (auto simp: grouped_def pred_option_def)
next
  case (ps_wait s p)
  then show ?case by (auto simp: grouped_def)
next
  case (ps_group s p x g)
  then show ?case by (auto simp: grouped_def)
qed

lemma grouped_reach: "ps_reach s s1 \<Longrightarrow> grouped pid s \<Longrightarrow> grouped pid s1"
  by (induction rule: ps_reach.induct) (auto intro: grouped_step)

lemma grouped_start: "grouped pid (shell_started True agent pid t)"
  by (simp add: grouped_def shell_started_def start_shell_def)

text \<open>After the cancelation nothing runs that is in the group and may be signaled.\<close>

lemma cancel_unix_group:
  assumes c: "cancel_unix may (Some pid) t = (t1, r)" and g: "pred_option (\<lambda>x. pc_group x = pid) (fmlookup t p)" and m: "may p"
  shows "\<not> running t1 p"
proof (cases "fmlookup t p")
  case None
  then show ?thesis using c
    by (auto simp: cancel_unix_def kill_group_def process_kill_def split: if_splits)
next
  case (Some x)
  then have "p |\<in>| ffilter may (in_group pid t)" using g m by (simp add: in_groupI)
  then have ne: "ffilter may (in_group pid t) \<noteq> {||}" "in_group pid t \<noteq> {||}" by auto
  have "t1 = stop_when (\<lambda>p x. pc_group x = pid \<and> may p) t"
    using c ne by (simp add: cancel_unix_def kill_group_def)
  then show ?thesis using Some g m by simp
qed

lemma cancel_unix_succeeds:
  assumes "fmlookup t p = Some x" "pc_group x = pid" "may p"
  shows "snd (cancel_unix may (Some pid) t) = None"
proof -
  have "p |\<in>| ffilter may (in_group pid t)" using assms by (simp add: in_groupI)
  then have "ffilter may (in_group pid t) \<noteq> {||}" "in_group pid t \<noteq> {||}" by auto
  then show ?thesis by (simp add: cancel_unix_def kill_group_def)
qed

lemma cancel_windows_shell:
  "cancel_windows taskkill may (Some pid) t = (t1, None) \<Longrightarrow> \<not> running t1 pid"
  by (auto simp: cancel_windows_def process_kill_def running_def split: if_splits option.splits)

lemma timed_out_exit:
  assumes "cancel (cs_table c) = (t1, None)" "cs_timed_out c"
  shows "exit_code (pr_deadline (run_course cancel pid c)) (pr_error (run_course cancel pid c)) = -1"
  using assms by (simp add: run_course_def exit_code_def cmd_wait_def Let_def)

section \<open>The property\<close>

text \<open>(C39) The deadline is enforced on all a command started. When it passes on Unix, whatever the shell and
  its descendants did (starting processes, exiting, waiting, changing groups), the cancelation leaves none of them
  running that stayed in the group of the shell and may be signaled by the agent; if the shell itself is still there,
  the result of the command has the exit code minus one, whatever status and output it had. On Windows
  a cancelation without an error leaves the shell not running, whatever \<^verbatim>\<open>taskkill\<close> does, with the same exit code.\<close>

theorem timeout_ends_command:
  assumes r: "ps_reach (shell_started True agent pid t) s" and c: "cs_timed_out c" "cs_table c = ps_table s"
  shows "(p |\<in>| ps_started s \<and> p |\<notin>| ps_left s \<and> may p \<longrightarrow>
           \<not> running (fst (cancel_unix may (Some pid) (ps_table s))) p
         \<and> (p = pid \<and> pid |\<in>| fmdom (ps_table s) \<longrightarrow>
              map_sum id cr_exit_code
                (Execute False (\<lambda>_. run_course (cancel_unix may (Some pid)) pid c) cmd args secs shell) = Inr (-1)))
       \<and> (cancel_windows taskkill may (Some pid) (ps_table s) = (t1, None) \<longrightarrow>
           \<not> running t1 pid
         \<and> map_sum id cr_exit_code
             (Execute True (\<lambda>_. run_course (cancel_windows taskkill may (Some pid)) pid c) cmd args secs shell) = Inr (-1))"
proof (intro conjI impI; (elim conjE)?)
  assume p: "p |\<in>| ps_started s" "p |\<notin>| ps_left s" "may p"
  have g: "pred_option (\<lambda>x. pc_group x = pid) (fmlookup (ps_table s) p)"
    using grouped_reach [OF r grouped_start] p by (simp add: grouped_def)
  show "\<not> running (fst (cancel_unix may (Some pid) (ps_table s))) p"
    using cancel_unix_group [where may = may and pid = pid and t = "ps_table s" and p = p] g p(3)
    by (simp add: prod_eq_iff)
  assume "p = pid" "pid |\<in>| fmdom (ps_table s)"
  then obtain x where x: "fmlookup (ps_table s) pid = Some x" "pc_group x = pid" "may pid"
    using g p(3) by (auto elim: fmdomE)
  have "cancel_unix may (Some pid) (cs_table c) = (fst (cancel_unix may (Some pid) (ps_table s)), None)"
    using cancel_unix_succeeds [where may = may, OF x] c(2) by (simp add: prod_eq_iff)
  from timed_out_exit [where cancel = "cancel_unix may (Some pid)", OF this c(1)]
  show "map_sum id cr_exit_code
      (Execute False (\<lambda>_. run_course (cancel_unix may (Some pid)) pid c) cmd args secs shell) = Inr (-1)"
    by (simp add: Execute_def Let_def)
next
  assume w: "cancel_windows taskkill may (Some pid) (ps_table s) = (t1, None)"
  show "\<not> running t1 pid" by (rule cancel_windows_shell [OF w])
  show "map_sum id cr_exit_code
      (Execute True (\<lambda>_. run_course (cancel_windows taskkill may (Some pid)) pid c) cmd args secs shell) = Inr (-1)"
    using timed_out_exit [where cancel = "cancel_windows taskkill may (Some pid)", OF w [folded c(2)] c(1)] by (simp add: Execute_def Let_def)
qed

text \<open>A shell with the number 10 starts the process 11 and exits; the deadline passes afterwards.\<close>

lemma timeout_ends_command_witness:
  "let s1 = do_fork 10 11 \<lparr>pc_group = 10, pc_parent = 1, pc_running = True\<rparr> (shell_started True 1 10 fmempty);
       s = s1\<lparr>ps_table := stop_when (\<lambda>q x. q = 10) (ps_table s1)\<rparr>
   in running (ps_table s) 11 \<and> \<not> running (fst (cancel_unix (\<lambda>_. True) (Some 10) (ps_table s))) 11"
proof -
  let ?x = "\<lparr>pc_group = 10, pc_parent = 1, pc_running = True\<rparr>"
  let ?sh = "shell_started True 1 10 fmempty"
  let ?fork = "do_fork 10 11 ?x ?sh"
  let ?late = "?fork\<lparr>ps_table := stop_when (\<lambda>q x. q = 10) (ps_table ?fork)\<rparr>"
  let ?c = "\<lparr>cs_timed_out = True, cs_table = ps_table ?late, cs_status = 0, cs_held = False, cs_stdout = [],
     cs_stderr = [], cs_millis = 0\<rparr>"
  have x: "fmlookup (ps_table ?sh) 10 = Some ?x" "fresh_pid 11 (ps_table ?sh)"
    by (simp_all add: shell_started_def start_shell_def fresh_pid_def in_group_def fset_eq_iff)
  have "ps_step ?sh ?fork" by (rule ps_fork [OF x(1) _ x(2)]) simp
  then have r: "ps_reach ?sh ?late" by (rule ps_next [OF ps_next [OF ps_refl] ps_exit])
  have m: "11 |\<in>| ps_started ?late" "11 |\<notin>| ps_left ?late" "running (ps_table ?late) 11"
    by (simp_all add: do_fork_def inherit_def shell_started_def running_def)
  have "\<not> running (fst (cancel_unix (\<lambda>_. True) (Some 10) (ps_table ?late))) 11"
    using timeout_ends_command [OF r, where c = ?c and p = 11 and may = "\<lambda>_. True"] m by simp
  then show ?thesis using m(3) by (simp add: Let_def)
qed

end
