(* ===== verification/Monitor.thy ===== *)
theory Monitor
  imports OsModel Protocol
begin

text \<open>
  System information and screenshots (\<^verbatim>\<open>agent/internal/system/monitor.go\<close>,
  \<^verbatim>\<open>agent/internal/screenshot/capture.go\<close>). What the metrics and capture packages report
  is an argument; which of it is taken, what a failed reading becomes and how the primary
  network interface is chosen is modelled. A floating-point percentage is its JSON text.
\<close>

section \<open>Payloads\<close>

type_synonym percentage = string

record CPUInfo = ci_percent :: percentage ci_cores :: int ci_model :: string
record MemoryInfo = mi_total :: nat mi_used :: nat mi_free :: nat mi_percent :: percentage
record DiskInfo = di_mount :: string di_fs_type :: string di_total :: nat di_used :: nat di_free :: nat
  di_percent :: percentage
record NetInfo = ni_ip :: string ni_mac :: string ni_hostname :: string

record SystemInfoPayload =
  si_hostname :: string
  si_os :: string
  si_platform :: string
  si_arch :: string
  si_cpu :: CPUInfo
  si_memory :: MemoryInfo
  si_disks :: "DiskInfo list"
  si_uptime :: nat
  si_net :: NetInfo
  si_agent_version :: string

record AgentInfoPayload =
  ai_hostname :: string
  ai_os :: string
  ai_arch :: string
  ai_agent_version :: string
  ai_port :: int
  ai_authenticated :: bool

definition encode_disk :: "DiskInfo \<Rightarrow> json" where
  "encode_disk d = JObj [(''mount'', JStr (di_mount d)), (''fs_type'', JStr (di_fs_type d)),
     (''total'', JNum (int (di_total d))), (''used'', JNum (int (di_used d))),
     (''free'', JNum (int (di_free d))), (''percent'', JFrac (di_percent d))]"

definition encode_system_info :: "SystemInfoPayload \<Rightarrow> json" where
  "encode_system_info i = JObj [(''hostname'', JStr (si_hostname i)), (''os'', JStr (si_os i)),
     (''platform'', JStr (si_platform i)), (''arch'', JStr (si_arch i)),
     (''cpu'', JObj [(''percent'', JFrac (ci_percent (si_cpu i))), (''cores'', JNum (ci_cores (si_cpu i))),
        (''model'', JStr (ci_model (si_cpu i)))]),
     (''memory'', JObj [(''total'', JNum (int (mi_total (si_memory i)))), (''used'', JNum (int (mi_used (si_memory i)))),
        (''free'', JNum (int (mi_free (si_memory i)))), (''percent'', JFrac (mi_percent (si_memory i)))]),
     (''disks'', JArr (map encode_disk (si_disks i))), (''uptime'', JNum (int (si_uptime i))),
     (''net'', JObj [(''ip'', JStr (ni_ip (si_net i))), (''mac'', JStr (ni_mac (si_net i))),
        (''hostname'', JStr (ni_hostname (si_net i)))]),
     (''agent_version'', JStr (si_agent_version i))]"

definition encode_agent_info :: "AgentInfoPayload \<Rightarrow> json" where
  "encode_agent_info i = JObj [(''hostname'', JStr (ai_hostname i)), (''os'', JStr (ai_os i)),
     (''arch'', JStr (ai_arch i)), (''agent_version'', JStr (ai_agent_version i)),
     (''port'', JNum (ai_port i)), (''authenticated'', JBool (ai_authenticated i))]"

section \<open>What the machine reports\<close>

record address =
  ad_is_ipnet :: bool
  ad_loopback :: bool
  ad_ip4 :: bool
  ad_text :: string

record iface =
  if_up :: bool
  if_loopback :: bool
  if_addrs :: "address list option"
  if_mac :: "string option"

record usage = us_total :: nat us_used :: nat us_free :: nat us_percent :: percentage

record machine =
  mc_hostname :: string
  mc_goos :: string
  mc_goarch :: string
  mc_platform :: "(string \<times> string) option"
  mc_cpu_percent :: "percentage list"
  mc_cpu_cores :: int
  mc_cpu_models :: "string list"
  mc_memory :: "MemoryInfo option"
  mc_partitions :: "(string \<times> string) list"
  mc_usage :: "string \<Rightarrow> usage option"
  mc_uptime :: nat
  mc_ifaces :: "iface list option"

section \<open>The monitor\<close>

record Monitor =
  mo_hostname :: string
  mo_os :: string
  mo_platform :: string
  mo_arch :: string
  mo_agentVer :: string

definition NewMonitor :: "string \<Rightarrow> machine \<Rightarrow> Monitor" where
  "NewMonitor version m = \<lparr>mo_hostname = mc_hostname m, mo_os = mc_goos m,
     mo_platform = (case mc_platform m of
        Some (platform, platformVersion) \<Rightarrow>
          if platformVersion \<noteq> [] then platform @ '' '' @ platformVersion else platform
      | None \<Rightarrow> mc_goos m),
     mo_arch = mc_goarch m, mo_agentVer = version\<rparr>"

fun first_ip4 :: "string option \<Rightarrow> address list \<Rightarrow> (string \<times> string) option" where
  "first_ip4 mac [] = None"
| "first_ip4 mac (a # as) =
     (if \<not> ad_is_ipnet a \<or> ad_loopback a then first_ip4 mac as
      else if ad_ip4 a then Some (ad_text a, case mac of Some hw \<Rightarrow> hw | None \<Rightarrow> [])
      else first_ip4 mac as)"

fun primary_of :: "iface list \<Rightarrow> string \<times> string" where
  "primary_of [] = ([], [])"
| "primary_of (i # is) =
     (if \<not> if_up i then primary_of is
      else if if_loopback i then primary_of is
      else case if_addrs i of None \<Rightarrow> primary_of is
         | Some addrs \<Rightarrow> (case first_ip4 (if_mac i) addrs of Some r \<Rightarrow> r | None \<Rightarrow> primary_of is))"

definition getPrimaryNet :: "machine \<Rightarrow> string \<times> string" where
  "getPrimaryNet m = (case mc_ifaces m of None \<Rightarrow> ([], []) | Some is \<Rightarrow> primary_of is)"

definition disk_info :: "machine \<Rightarrow> string \<times> string \<Rightarrow> DiskInfo option" where
  "disk_info m d = (case mc_usage m (fst d) of None \<Rightarrow> None
     | Some u \<Rightarrow> Some \<lparr>di_mount = fst d, di_fs_type = snd d, di_total = us_total u, di_used = us_used u,
         di_free = us_free u, di_percent = us_percent u\<rparr>)"

definition GetSystemInfo :: "Monitor \<Rightarrow> machine \<Rightarrow> SystemInfoPayload" where
  "GetSystemInfo mo m =
     (let cpuPercentVal = (case mc_cpu_percent m of p # _ \<Rightarrow> p | [] \<Rightarrow> ''0'');
          cpuModel = (case mc_cpu_models m of n # _ \<Rightarrow> n | [] \<Rightarrow> []);
          mem = (case mc_memory m of Some i \<Rightarrow> i
             | None \<Rightarrow> \<lparr>mi_total = 0, mi_used = 0, mi_free = 0, mi_percent = ''0''\<rparr>)
      in case getPrimaryNet m of (ip, mac) \<Rightarrow>
         \<lparr>si_hostname = mo_hostname mo, si_os = mo_os mo, si_platform = mo_platform mo, si_arch = mo_arch mo,
          si_cpu = \<lparr>ci_percent = cpuPercentVal, ci_cores = mc_cpu_cores m, ci_model = cpuModel\<rparr>,
          si_memory = mem, si_disks = List.map_filter (disk_info m) (mc_partitions m),
          si_uptime = mc_uptime m,
          si_net = \<lparr>ni_ip = ip, ni_mac = mac, ni_hostname = mo_hostname mo\<rparr>,
          si_agent_version = mo_agentVer mo\<rparr>)"

section \<open>Screenshots\<close>

text \<open>The display count, the bounds, and what capturing and encoding a display gives.\<close>

record displays =
  dp_count :: int
  dp_bounds :: "int \<Rightarrow> int \<times> int"
  dp_capture :: "int \<Rightarrow> goerr + (goerr + bytes)"

definition CaptureDisplay :: "displays \<Rightarrow> int \<Rightarrow> (bytes \<times> int \<times> int) result" where
  "CaptureDisplay d displayIndex =
     (let n = dp_count d
      in if displayIndex < 0 \<or> displayIndex \<ge> n
         then Inl (Sprintf ''invalid display index %d: only %d display(s) available'' [GInt displayIndex, GInt n])
         else (case dp_capture d displayIndex of
             Inl err \<Rightarrow> Inl (Sprintf ''capture failed for display %d: %w'' [GInt displayIndex, GErr err])
           | Inr (Inl err) \<Rightarrow> Inl (Sprintf ''PNG encode failed: %w'' [GErr err])
           | Inr (Inr png) \<Rightarrow> Inr (png, fst (dp_bounds d displayIndex), snd (dp_bounds d displayIndex))))"

definition CaptureAll :: "displays \<Rightarrow> (bytes \<times> int \<times> int) result" where
  "CaptureAll d = CaptureDisplay d 0"

section \<open>The primary interface\<close>

text \<open>The usable addresses in the order they are reported.\<close>

definition usable :: "address \<Rightarrow> bool" where
  "usable a \<longleftrightarrow> ad_is_ipnet a \<and> \<not> ad_loopback a \<and> ad_ip4 a"

definition addrs_of :: "iface \<Rightarrow> address list" where
  "addrs_of i = (if if_up i \<and> \<not> if_loopback i then (case if_addrs i of None \<Rightarrow> [] | Some as \<Rightarrow> filter usable as) else [])"

definition with_mac :: "string option \<Rightarrow> address \<Rightarrow> string \<times> string" where
  "with_mac mac a = (ad_text a, case mac of Some hw \<Rightarrow> hw | None \<Rightarrow> [])"

definition candidates :: "iface list \<Rightarrow> (string \<times> string) list" where
  "candidates is = concat (map (\<lambda>i. map (with_mac (if_mac i)) (addrs_of i)) is)"

lemma first_ip4_filter:
  "first_ip4 mac as = (case filter usable as of [] \<Rightarrow> None | a # _ \<Rightarrow> Some (with_mac mac a))"
  by (induction as) (auto simp: usable_def with_mac_def)

lemma primary_of_Cons:
  "primary_of (i # is) = (case addrs_of i of [] \<Rightarrow> primary_of is | a # _ \<Rightarrow> with_mac (if_mac i) a)"
proof (cases "if_up i \<and> \<not> if_loopback i")
  case True
  then show ?thesis
    by (cases "if_addrs i") (simp_all add: addrs_of_def first_ip4_filter split: list.split)
next
  case False
  then show ?thesis by (auto simp: addrs_of_def)
qed

lemma primary_of_candidates:
  "primary_of is = (case candidates is of [] \<Rightarrow> ([], []) | c # _ \<Rightarrow> c)"
proof (induction "is")
  case (Cons i "is")
  show ?case unfolding primary_of_Cons using Cons
    by (cases "addrs_of i") (simp_all add: candidates_def)
qed (simp add: candidates_def)

end
