(* ===== verification/AgentHandlers.thy ===== *)
theory AgentHandlers
  imports Filesystem IPGuard AgentAudit Executor Monitor
begin

text \<open>
  The agent's message handlers (\<^verbatim>\<open>agent/internal/server/handlers.go\<close> and the
  client methods of \<^verbatim>\<open>server.go\<close>). A handler runs on the shared state it can
  reach (tree, guard, audit log) and on its client, and returns both; the machine it runs on is
  the record \<open>World\<close>.
\<close>

definition MaxAuthAttempts :: int where "MaxAuthAttempts = 5"
definition SendQueue :: nat where "SendQueue = 64"

section \<open>State\<close>

record Client =
  cl_id :: string
  cl_remote :: string
  cl_ip :: string
  cl_ipTracked :: bool
  cl_user :: string
  cl_authed :: bool
  cl_attempts :: int
  cl_closed :: bool
  cl_send :: "Message list"

text \<open>
  \<open>w_race\<close> is the choice of \<^verbatim>\<open>select\<close> when the client is closed and its queue
  has room; \<open>w_text\<close> is how \<^verbatim>\<open>fmt\<close> renders a text for the audit log.
\<close>

record World =
  w_os :: osenv
  w_now :: int
  w_race :: "Message \<Rightarrow> bool"
  w_windows :: bool
  w_run :: "invocation \<Rightarrow> process"
  w_elapsed :: string
  w_displays :: displays
  w_machine :: machine
  w_monitor :: Monitor
  w_text :: "gotext \<Rightarrow> string"

record HState =
  hs_fs :: fsys
  hs_guard :: ipGuard
  hs_log :: "AuditLogger option"
  hs_client :: Client

section \<open>Sending\<close>

definition closeClient :: "Client \<Rightarrow> Client" where
  "closeClient c = c\<lparr>cl_closed := True\<rparr>"

definition enqueue :: "Message \<Rightarrow> Client \<Rightarrow> Client" where
  "enqueue m c = c\<lparr>cl_send := cl_send c @ [m]\<rparr>"

text \<open>Every message can be written as JSON: numbers that are not finite, which the package refuses, are no values of the model.\<close>

definition sendMsg :: "World \<Rightarrow> Message \<Rightarrow> Client \<Rightarrow> Client" where
  "sendMsg w m c =
     (if cl_closed c then (if w_race w m \<and> length (cl_send c) < SendQueue then enqueue m c else c)
      else if length (cl_send c) < SendQueue then enqueue m c
      else closeClient c)"

definition message :: "World \<Rightarrow> string \<Rightarrow> string \<Rightarrow> json \<Rightarrow> gotext \<Rightarrow> Message" where
  "message w i t payload err = \<lparr>msg_id = i, msg_type = t, msg_payload = payload, msg_time = w_now w, msg_error = err\<rparr>"

definition on_client :: "(Client \<Rightarrow> Client) \<Rightarrow> HState \<Rightarrow> HState" where
  "on_client f st = st\<lparr>hs_client := f (hs_client st)\<rparr>"

definition sendError :: "World \<Rightarrow> string \<Rightarrow> gotext \<Rightarrow> HState \<Rightarrow> HState" where
  "sendError w requestID errMsg = on_client (sendMsg w (message w requestID MsgError JNull errMsg))"

definition sendResponse :: "World \<Rightarrow> string \<Rightarrow> string \<Rightarrow> json \<Rightarrow> HState \<Rightarrow> HState" where
  "sendResponse w requestID respType payload =
     on_client (sendMsg w (message w requestID respType payload no_text))"

definition sendAgentInfo :: "World \<Rightarrow> Client \<Rightarrow> Client" where
  "sendAgentInfo w c =
     (let info = GetSystemInfo (w_monitor w) (w_machine w)
      in sendMsg w (message w [] MsgAgentInfo (encode_agent_info
           \<lparr>ai_hostname = si_hostname info, ai_os = si_os info, ai_arch = si_arch info,
            ai_agent_version = si_agent_version info, ai_port = 0, ai_authenticated = cl_authed c\<rparr>) no_text) c)"

text \<open>A periodic update is skipped when the client is closed or its queue is full.\<close>

definition pushSystemUpdate :: "World \<Rightarrow> Client \<Rightarrow> Client" where
  "pushSystemUpdate w c =
     (let m = message w [] MsgSystemUpdate (encode_system_info (GetSystemInfo (w_monitor w) (w_machine w))) no_text
      in if cl_closed c \<and> \<not> w_race w m then c
         else if length (cl_send c) < SendQueue then enqueue m c else c)"

definition audit_event :: "World \<Rightarrow> Event \<Rightarrow> HState \<Rightarrow> HState" where
  "audit_event w e st = (case Log (w_os w) (w_now w) (hs_fs st) (hs_log st) e of
      (fs, l) \<Rightarrow> st\<lparr>hs_fs := fs, hs_log := l\<rparr>)"

definition record_ev :: "World \<Rightarrow> string \<Rightarrow> string \<Rightarrow> gotext \<Rightarrow> HState \<Rightarrow> HState" where
  "record_ev w action result detail st =
     audit_event w \<lparr>ev_time = 0, ev_action = action, ev_result = result, ev_remote = cl_remote (hs_client st),
        ev_client = cl_id (hs_client st), ev_user = cl_user (hs_client st), ev_detail = w_text w detail\<rparr> st"

section \<open>Authentication\<close>

text \<open>\<^verbatim>\<open>json.Marshal(msg.Payload)\<close>; an interface value decoded from JSON always marshals.\<close>

definition remarshal :: "json \<Rightarrow> json option" where
  "remarshal v = Some (via_interface v)"

definition handleAuth :: "World \<Rightarrow> string \<Rightarrow> Message \<Rightarrow> HState \<Rightarrow> HState" where
  "handleAuth w tok msg st =
     (case remarshal (msg_payload msg) of
        None \<Rightarrow> sendError w (msg_id msg) (lit ''invalid auth payload'') st
      | Some v \<Rightarrow> (case decode_auth v of
          None \<Rightarrow> sendError w (msg_id msg) (lit ''invalid auth payload format'') st
        | Some auth \<Rightarrow>
          if tok \<noteq> [] \<and> au_token auth \<noteq> tok then
            (let attempts = cl_attempts (hs_client st) + 1;
                 st1 = on_client (\<lambda>c. c\<lparr>cl_attempts := attempts\<rparr>) st;
                 st2 = st1\<lparr>hs_guard := fail (w_now w) (hs_guard st1) (cl_ip (hs_client st1))\<rparr>;
                 st3 = on_client (\<lambda>c. c\<lparr>cl_user := au_username auth\<rparr>) st2;
                 st4 = record_ev w ''auth'' ResultDenied (Sprintf ''invalid token (attempt %d/%d)''
                         [GInt attempts, GInt MaxAuthAttempts]) st3;
                 st5 = sendError w (msg_id msg) (lit ''invalid authentication token'') st4
             in if attempts \<ge> MaxAuthAttempts then on_client closeClient st5 else st5)
          else
            (let st1 = on_client (\<lambda>c. c\<lparr>cl_authed := True\<rparr>) st;
                 st2 = st1\<lparr>hs_guard := succeed (hs_guard st1) (cl_ip (hs_client st1))\<rparr>;
                 st3 = on_client (\<lambda>c. c\<lparr>cl_user := au_username auth\<rparr>) st2;
                 st4 = record_ev w ''auth'' ResultOK no_text st3;
                 st5 = sendResponse w (msg_id msg) MsgAuthOk
                         (JObj [(''message'', JStr ''authenticated successfully'')]) st4
             in on_client (sendAgentInfo w) st5)))"

section \<open>Requests\<close>

definition handleExecCommand :: "World \<Rightarrow> Message \<Rightarrow> HState \<Rightarrow> HState" where
  "handleExecCommand w msg st =
     (case remarshal (msg_payload msg) of
        None \<Rightarrow> sendError w (msg_id msg) (lit ''invalid exec payload'') st
      | Some v \<Rightarrow> (case decode_exec v of
          None \<Rightarrow> sendError w (msg_id msg) (lit ''invalid exec payload format'') st
        | Some p \<Rightarrow>
          (case Execute (w_windows w) (w_run w) (ex_command p) (ex_args p) (ex_timeout p) (ex_shell p) of
             Inl err \<Rightarrow>
               sendError w (msg_id msg) (Sprintf ''execution error: %v'' [GErr err])
                 (record_ev w ''exec_command'' ResultError (Sprintf ''%s: %v'' [GStr (ex_command p), GErr err]) st)
           | Inr result \<Rightarrow>
               sendResponse w (msg_id msg) MsgCommandResult (encode_command_result result)
                 (record_ev w ''exec_command'' ResultOK (Sprintf ''exit=%d duration=%s shell=%q command=%s''
                    [GInt (cr_exit_code result), GStr (w_elapsed w), GStr (ex_shell p), GStr (ex_command p)]) st))))"

definition handleListDir :: "World \<Rightarrow> Message \<Rightarrow> HState \<Rightarrow> HState" where
  "handleListDir w msg st =
     (case remarshal (msg_payload msg) of
        None \<Rightarrow> sendError w (msg_id msg) (lit ''invalid list_dir payload'') st
      | Some v \<Rightarrow> (case decode_list_dir v of
          None \<Rightarrow> sendError w (msg_id msg) (lit ''invalid list_dir payload format'') st
        | Some p \<Rightarrow>
          (case ListDir (w_os w) (hs_fs st) (ld_path p) (ld_offset p) (ld_limit p) of
             Inl err \<Rightarrow>
               sendError w (msg_id msg) (Sprintf ''list_dir error: %v'' [GErr err])
                 (record_ev w ''list_dir'' ResultError (Sprintf ''%s: %v'' [GStr (ld_path p), GErr err]) st)
           | Inr contents \<Rightarrow>
               sendResponse w (msg_id msg) MsgDirContents (encode_dir_contents contents)
                 (if ld_offset p = 0 then record_ev w ''list_dir'' ResultOK (lit (ld_path p)) st else st))))"

definition get_chunk_size :: "int \<Rightarrow> int" where
  "get_chunk_size n =
     (let chunk1 = (if n \<le> 0 then DefaultChunkSize else n)
      in if chunk1 > MaxChunkSize then MaxChunkSize else chunk1)"

definition handleGetFile :: "World \<Rightarrow> Message \<Rightarrow> HState \<Rightarrow> HState" where
  "handleGetFile w msg st =
     (case remarshal (msg_payload msg) of
        None \<Rightarrow> sendError w (msg_id msg) (lit ''invalid get_file payload'') st
      | Some v \<Rightarrow> (case decode_get_file v of
          None \<Rightarrow> sendError w (msg_id msg) (lit ''invalid get_file payload format'') st
        | Some p \<Rightarrow>
          (case ReadFileChunk (w_os w) (hs_fs st) (gf_path p) (gf_offset p) (get_chunk_size (gf_chunk_size p)) of
             (_, _, Some err) \<Rightarrow>
               sendError w (msg_id msg) (Sprintf ''get_file error: %v'' [GErr err])
                 (record_ev w ''get_file'' ResultError (Sprintf ''%s: %v'' [GStr (gf_path p), GErr err]) st)
           | (data, totalSize, None) \<Rightarrow>
             (let st1 = (if gf_offset p = 0
                    then record_ev w ''get_file'' ResultOK (Sprintf ''%s (%d bytes)'' [GStr (gf_path p), GInt totalSize]) st
                    else st);
                  final = (add64 (gf_offset p) (int (length data)) \<ge> totalSize)
              in case (if final then FileSHA256 (w_os w) (hs_fs st1) (gf_path p) else Inr []) of
                   Inl err \<Rightarrow> sendError w (msg_id msg) (Sprintf ''checksum error: %v'' [GErr err]) st1
                 | Inr checksum \<Rightarrow>
                     sendResponse w (msg_id msg) MsgFileChunk (encode_file_chunk
                       \<lparr>fc_path = gf_path p, fc_data = data, fc_offset = gf_offset p, fc_total_size = totalSize,
                        fc_final = final, fc_checksum = checksum\<rparr>) st1))))"

definition file_ack :: "SendFilePayload \<Rightarrow> bool \<Rightarrow> json" where
  "file_ack p committed = JObj ([(''path'', JStr (sf_path p)), (''offset'', JNum (sf_offset p)),
       (''final'', JBool (sf_final p))]
     @ (if sf_transfer_id p \<noteq> [] then [(''committed'', JBool committed)] else []))"

definition handleSendFile :: "World \<Rightarrow> Message \<Rightarrow> HState \<Rightarrow> HState" where
  "handleSendFile w msg st =
     (case remarshal (msg_payload msg) of
        None \<Rightarrow> sendError w (msg_id msg) (lit ''invalid send_file payload'') st
      | Some v \<Rightarrow> (case decode_send_file v of
          None \<Rightarrow> sendError w (msg_id msg) (lit ''invalid send_file payload format'') st
        | Some p \<Rightarrow>
          (case (if sf_transfer_id p = []
                 then WriteFileChunk (w_os w) (hs_fs st) (sf_path p) (sf_data p) (sf_offset p)
                 else WriteAtomicUploadChunk (w_os w) (hs_fs st) (sf_path p) (sf_transfer_id p) (sf_data p)
                        (sf_offset p) (sf_total_size p) (sf_final p) (sf_checksum p)) of
             (fs1, Some err) \<Rightarrow>
               sendError w (msg_id msg) (Sprintf ''send_file error: %v'' [GErr err]) (st\<lparr>hs_fs := fs1\<rparr>)
           | (fs1, None) \<Rightarrow>
             (let committed = sf_final p;
                  st1 = st\<lparr>hs_fs := fs1\<rparr>;
                  st2 = (if sf_offset p = 0 \<or> sf_final p
                     then record_ev w ''send_file'' ResultOK (Sprintf ''%s offset=%d final=%t committed=%t''
                            [GStr (sf_path p), GInt (sf_offset p), GBool (sf_final p), GBool committed]) st1
                     else st1)
              in sendResponse w (msg_id msg) MsgFileAck (file_ack p committed) st2))))"

definition handleCancelFile :: "World \<Rightarrow> Message \<Rightarrow> HState \<Rightarrow> HState" where
  "handleCancelFile w msg st =
     (case remarshal (msg_payload msg) of
        None \<Rightarrow> sendError w (msg_id msg) (lit ''invalid cancel_file payload'') st
      | Some v \<Rightarrow> (case decode_cancel_file v of
          None \<Rightarrow> sendError w (msg_id msg) (lit ''invalid cancel_file payload format'') st
        | Some p \<Rightarrow>
          (case CancelAtomicUpload (w_os w) (hs_fs st) (cf_path p) (cf_transfer_id p) of
             (fs1, Some err) \<Rightarrow>
               sendError w (msg_id msg) (Sprintf ''cancel_file error: %v'' [GErr err])
                 (record_ev w ''cancel_file'' ResultError (Sprintf ''%s: %v'' [GStr (cf_path p), GErr err]) (st\<lparr>hs_fs := fs1\<rparr>))
           | (fs1, None) \<Rightarrow>
               sendResponse w (msg_id msg) MsgFileAck
                 (JObj [(''path'', JStr (cf_path p)), (''committed'', JBool False), (''canceled'', JBool True)])
                 (record_ev w ''cancel_file'' ResultOK (lit (cf_path p)) (st\<lparr>hs_fs := fs1\<rparr>)))))"

definition handleScreenshot :: "World \<Rightarrow> Message \<Rightarrow> HState \<Rightarrow> HState" where
  "handleScreenshot w msg st =
     (case CaptureAll (w_displays w) of
        Inl err \<Rightarrow> sendError w (msg_id msg) (Sprintf ''screenshot error: %v'' [GErr err])
          (record_ev w ''screenshot'' ResultError err st)
      | Inr (data, width, height) \<Rightarrow>
          sendResponse w (msg_id msg) MsgScreenshotData
            (encode_screenshot \<lparr>sd_format = ''png'', sd_data = data, sd_width = width, sd_height = height\<rparr>)
            (record_ev w ''screenshot'' ResultOK (Sprintf ''%dx%d'' [GInt width, GInt height]) st))"

definition handleSystemInfo :: "World \<Rightarrow> Message \<Rightarrow> HState \<Rightarrow> HState" where
  "handleSystemInfo w msg st = sendResponse w (msg_id msg) MsgSystemUpdate
     (encode_system_info (GetSystemInfo (w_monitor w) (w_machine w))) st"

section \<open>Dispatch\<close>

definition dispatch :: "World \<Rightarrow> Message \<Rightarrow> HState \<Rightarrow> HState" where
  "dispatch w msg st =
     (if msg_type msg = MsgExecCommand then handleExecCommand w msg st
      else if msg_type msg = MsgListDir then handleListDir w msg st
      else if msg_type msg = MsgGetFile then handleGetFile w msg st
      else if msg_type msg = MsgSendFile then handleSendFile w msg st
      else if msg_type msg = MsgCancelFile then handleCancelFile w msg st
      else if msg_type msg = MsgScreenshot then handleScreenshot w msg st
      else if msg_type msg = MsgSystemInfo then handleSystemInfo w msg st
      else sendError w (msg_id msg) (Sprintf ''unknown message type: %s'' [GStr (msg_type msg)]) st)"

definition handleMessage :: "World \<Rightarrow> string \<Rightarrow> Message \<Rightarrow> HState \<Rightarrow> HState" where
  "handleMessage w tok msg st =
     (if msg_type msg = MsgAuth then handleAuth w tok msg st
      else if msg_type msg = MsgKeepAlive then st
      else if \<not> cl_authed (hs_client st)
      then sendError w (msg_id msg) (lit ''authentication required'') st
      else dispatch w msg st)"

end
