(* ===== verification/AgentServer.thy ===== *)
theory AgentServer
  imports AgentHandlers
begin

text \<open>
  The agent's connections (\<^verbatim>\<open>agent/internal/server/server.go\<close>) as a step relation.
  A step is what one goroutine does between two points where another may run: the handshake
  (\<^verbatim>\<open>handleWebSocket\<close>) admits, upgrades, registers and greets; the read pump reads a
  message, refreshes the deadline, handles it and refreshes again; the write pump sends a
  message, pushes an update or ends; the authentication timer fires; shutdown closes the
  registered clients. A client pointer is an index into the list of all clients ever created.
  Handling one message is one step: what it does to the shared state happens under the mutexes
  of the guard and the log and by single file operations.
\<close>

definition MaxClients :: nat where "MaxClients = 128"

section \<open>State\<close>

text \<open>Where the goroutines of a connection are.\<close>

datatype pump = Upgraded | Registered | Reading | Got Message | Handled | Stopped

record Conn =
  cn_client :: Client
  cn_pump :: pump
  cn_timer :: bool
  cn_writer :: bool
  cn_sent :: "Message list"

record Server =
  sv_token :: string
  sv_fs :: fsys
  sv_guard :: ipGuard
  sv_log :: "AuditLogger option"
  sv_clients :: "nat fset"
  sv_conns :: "Conn list"
  sv_pending :: "string multiset"

definition NewServer :: "string \<Rightarrow> fsys \<Rightarrow> AuditLogger option \<Rightarrow> Server" where
  "NewServer authToken fs logger = \<lparr>sv_token = authToken, sv_fs = fs, sv_guard = newIPGuard, sv_log = logger,
     sv_clients = {||}, sv_conns = [], sv_pending = {#}\<rparr>"

definition hstate :: "Server \<Rightarrow> Client \<Rightarrow> HState" where
  "hstate s c = \<lparr>hs_fs = sv_fs s, hs_guard = sv_guard s, hs_log = sv_log s, hs_client = c\<rparr>"

definition put_shared :: "HState \<Rightarrow> Server \<Rightarrow> Server" where
  "put_shared st s = s\<lparr>sv_fs := hs_fs st, sv_guard := hs_guard st, sv_log := hs_log st\<rparr>"

definition put_conn :: "nat \<Rightarrow> Conn \<Rightarrow> Server \<Rightarrow> Server" where
  "put_conn p c s = s\<lparr>sv_conns := (sv_conns s)[p := c]\<rparr>"

definition connection_event :: "string \<Rightarrow> string \<Rightarrow> Event" where
  "connection_event remote detail = \<lparr>ev_time = 0, ev_action = ''connect'', ev_result = ResultDenied,
     ev_remote = remote, ev_client = [], ev_user = [], ev_detail = detail\<rparr>"

definition server_log :: "World \<Rightarrow> Event \<Rightarrow> Server \<Rightarrow> Server" where
  "server_log w e s = (case Log (w_os w) (w_now w) (sv_fs s) (sv_log s) e of
     (fs, l) \<Rightarrow> s\<lparr>sv_fs := fs, sv_log := l\<rparr>)"

section \<open>The operations of a step\<close>

definition newClient :: "string \<Rightarrow> string \<Rightarrow> Client" where
  "newClient uuid remote = \<lparr>cl_id = uuid, cl_remote = remote, cl_ip = remoteIP remote, cl_ipTracked = True,
     cl_user = [], cl_authed = False, cl_attempts = 0, cl_closed = False, cl_send = []\<rparr>"

definition newConn :: "string \<Rightarrow> string \<Rightarrow> Conn" where
  "newConn uuid remote = \<lparr>cn_client = newClient uuid remote, cn_pump = Upgraded, cn_timer = False,
     cn_writer = False, cn_sent = []\<rparr>"

text \<open>Registering: the capacity check and the insertion under the server's mutex.\<close>

definition register :: "nat \<Rightarrow> Server \<Rightarrow> Server \<times> bool" where
  "register p s = (if fcard (sv_clients s) \<ge> MaxClients then (s, False)
     else (s\<lparr>sv_clients := finsert p (sv_clients s)\<rparr>, True))"

text \<open>Unregistering gives the slot back and closes the client, once.\<close>

definition unregister :: "nat \<Rightarrow> Server \<Rightarrow> Server" where
  "unregister p s =
     (if p |\<in>| sv_clients s then
        (let c = sv_conns s ! p;
             s1 = s\<lparr>sv_clients := sv_clients s |-| {|p|}\<rparr>;
             s2 = (if cl_ipTracked (cn_client c)
                   then s1\<lparr>sv_guard := release (sv_guard s1) (cl_ip (cn_client c))\<rparr> else s1)
         in put_conn p (c\<lparr>cn_client := closeClient (cn_client c)\<rparr>) s2)
      else s)"

text \<open>The greeting asks for authentication, or admits the client when no token is configured.\<close>

definition greet :: "World \<Rightarrow> Server \<Rightarrow> Conn \<Rightarrow> Conn" where
  "greet w s c =
     (if sv_token s \<noteq> []
      then c\<lparr>cn_client := sendMsg w (message w [] MsgAuthRequired
               (JObj [(''message'', JStr ''authentication required'')]) no_text) (cn_client c), cn_timer := True\<rparr>
      else c\<lparr>cn_client := sendAgentInfo w ((cn_client c)\<lparr>cl_authed := True\<rparr>)\<rparr>)"

text \<open>The read pump ends: unregister, then close the socket.\<close>

definition stop_reading :: "nat \<Rightarrow> Server \<Rightarrow> Server" where
  "stop_reading p s =
     (let s1 = unregister p s in put_conn p ((sv_conns s1 ! p)\<lparr>cn_pump := Stopped\<rparr>) s1)"

definition with_defaults :: "World \<Rightarrow> string \<Rightarrow> Message \<Rightarrow> Message" where
  "with_defaults w uuid msg = msg\<lparr>msg_id := (if msg_id msg = [] then uuid else msg_id msg),
     msg_time := (if msg_time msg = 0 then w_now w else msg_time msg)\<rparr>"

definition handle_step :: "World \<Rightarrow> nat \<Rightarrow> Message \<Rightarrow> Server \<Rightarrow> Server" where
  "handle_step w p msg s =
     (let c = sv_conns s ! p; st = handleMessage w (sv_token s) msg (hstate s (cn_client c))
      in put_conn p (c\<lparr>cn_client := hs_client st, cn_pump := Handled\<rparr>) (put_shared st s))"

definition auth_timeout :: "World \<Rightarrow> nat \<Rightarrow> Server \<Rightarrow> Server" where
  "auth_timeout w p s =
     (let c = sv_conns s ! p
      in if cl_authed (cn_client c) then put_conn p (c\<lparr>cn_timer := False\<rparr>) s
         else let st = record_ev w ''auth'' ResultDenied (lit ''not authenticated within the time limit'')
                         (hstate s (cn_client c))
              in put_conn p (c\<lparr>cn_client := closeClient (cn_client c), cn_timer := False\<rparr>) (put_shared st s))"

definition conn_at :: "Server \<Rightarrow> nat \<Rightarrow> pump set \<Rightarrow> bool" where
  "conn_at s p A \<longleftrightarrow> p < length (sv_conns s) \<and> cn_pump (sv_conns s ! p) \<in> A"

text \<open>
  One round of the write pump: the client is done, a queued message is written (with the error of the socket, if
  any), or the ticker fires. Leaving the loop closes the client.
\<close>

datatype writeEvent = Finished | Queued "goerr option" | Ticked

definition end_writer :: "Conn \<Rightarrow> Conn" where
  "end_writer c = c\<lparr>cn_client := closeClient (cn_client c), cn_writer := False\<rparr>"

definition writePump :: "World \<Rightarrow> writeEvent \<Rightarrow> Conn \<Rightarrow> Conn" where
  "writePump w event c = (case event of
       Finished \<Rightarrow> if cl_closed (cn_client c) then end_writer c else c
     | Queued write_err \<Rightarrow> (case cl_send (cn_client c) of [] \<Rightarrow> c
         | m # ms \<Rightarrow> let c1 = c\<lparr>cn_client := (cn_client c)\<lparr>cl_send := ms\<rparr>\<rparr>
             in (case write_err of Some err \<Rightarrow> end_writer c1 | None \<Rightarrow> c1\<lparr>cn_sent := cn_sent c1 @ [m]\<rparr>))
     | Ticked \<Rightarrow> if cl_authed (cn_client c) then c\<lparr>cn_client := pushSystemUpdate w (cn_client c)\<rparr> else c)"

definition SetAuditLogger :: "AuditLogger option \<Rightarrow> Server \<Rightarrow> Server" where
  "SetAuditLogger l s = s\<lparr>sv_log := l\<rparr>"

section \<open>Steps\<close>

text \<open>
  The machine \<open>w\<close> may differ from step to step. \<open>Refresh\<close> of a read deadline fails on a closed
  connection, so the pump only goes on with an open one.
\<close>

inductive serve :: "World \<Rightarrow> Server \<Rightarrow> Server \<Rightarrow> bool" where
  refuse: "admit (w_now w) (sv_guard s) (remoteIP remote) = (g, False, reason) \<Longrightarrow>
     serve w s (server_log w (connection_event remote reason) (s\<lparr>sv_guard := g\<rparr>))"
| admitted: "admit (w_now w) (sv_guard s) (remoteIP remote) = (g, True, reason) \<Longrightarrow>
     serve w s (s\<lparr>sv_guard := g, sv_pending := add_mset remote (sv_pending s)\<rparr>)"
| upgrade_failed: "remote \<in># sv_pending s \<Longrightarrow>
     serve w s (s\<lparr>sv_pending := sv_pending s - {#remote#}, sv_guard := release (sv_guard s) (remoteIP remote)\<rparr>)"
| upgraded: "remote \<in># sv_pending s \<Longrightarrow>
     serve w s (s\<lparr>sv_pending := sv_pending s - {#remote#}, sv_conns := sv_conns s @ [newConn uuid remote]\<rparr>)"
| registered: "conn_at s p {Upgraded} \<Longrightarrow> register p s = (s1, True) \<Longrightarrow>
     serve w s (put_conn p ((sv_conns s ! p)\<lparr>cn_pump := Registered\<rparr>) s1)"
| full: "conn_at s p {Upgraded} \<Longrightarrow> register p s = (s1, False) \<Longrightarrow> c = sv_conns s ! p \<Longrightarrow>
     serve w s (put_conn p (c\<lparr>cn_client := closeClient (cn_client c), cn_pump := Stopped\<rparr>)
       (server_log w (connection_event (cl_remote (cn_client c)) ''maximum number of clients reached'')
         (s1\<lparr>sv_guard := release (sv_guard s1) (cl_ip (cn_client c))\<rparr>)))"
| greeted: "conn_at s p {Registered} \<Longrightarrow>
     serve w s (put_conn p ((greet w s (sv_conns s ! p))\<lparr>cn_pump := Reading, cn_writer := True\<rparr>) s)"
| read_message: "conn_at s p {Reading} \<Longrightarrow> \<not> cl_closed (cn_client (sv_conns s ! p)) \<Longrightarrow>
     serve w s (put_conn p ((sv_conns s ! p)\<lparr>cn_pump := Got (with_defaults w uuid msg)\<rparr>) s)"
| read_failed: "conn_at s p {Reading, Handled} \<Longrightarrow> serve w s (stop_reading p s)"
| handled: "conn_at s p {Got msg} \<Longrightarrow> serve w s (handle_step w p msg s)"
| refreshed: "conn_at s p {Handled} \<Longrightarrow> \<not> cl_closed (cn_client (sv_conns s ! p)) \<Longrightarrow>
     serve w s (put_conn p ((sv_conns s ! p)\<lparr>cn_pump := Reading\<rparr>) s)"
| timed_out: "p < length (sv_conns s) \<Longrightarrow> cn_timer (sv_conns s ! p) \<Longrightarrow> serve w s (auth_timeout w p s)"
| timer_ended: "p < length (sv_conns s) \<Longrightarrow> cl_closed (cn_client (sv_conns s ! p)) \<Longrightarrow>
     serve w s (put_conn p ((sv_conns s ! p)\<lparr>cn_timer := False\<rparr>) s)"
| pumped: "p < length (sv_conns s) \<Longrightarrow> c = sv_conns s ! p \<Longrightarrow> cn_writer c \<Longrightarrow>
     serve w s (put_conn p (writePump w event c) s)"
| shutdown_closes: "p |\<in>| sv_clients s \<Longrightarrow> c = sv_conns s ! p \<Longrightarrow>
     serve w s (put_conn p (c\<lparr>cn_client := closeClient (cn_client c)\<rparr>) s)"

inductive reachable :: "Server \<Rightarrow> Server \<Rightarrow> bool" where
  start: "reachable s0 s0"
| step: "reachable s0 s \<Longrightarrow> env_ok (w_os w) \<Longrightarrow> serve w s s' \<Longrightarrow> reachable s0 s'"

inductive_cases serveE: "serve w s s'"

end
