(* ===== verification/HandlerFacts.thy ===== *)
theory HandlerFacts
  imports AgentHandlers FileFacts
begin

text \<open>
  What one handled message does: only an authenticated client reaches a file, a command or the
  screen; every request is answered once under its own identifier; the tree stays well-formed
  and files outside the request and the audit log stay as they are.
\<close>

section \<open>The audit log in the tree\<close>

definition log_paths :: "AuditLogger option \<Rightarrow> path set" where
  "log_paths lo = (case lo of None \<Rightarrow> {} | Some l \<Rightarrow> {lg_path l, backup_path l})"

lemma openFile_effect:
  assumes "openFile E fs l = (fs', l', r)"
  shows "keeps_files {lg_path l} fs fs'" "fs_wf fs \<Longrightarrow> clean_abs (lg_path l) \<Longrightarrow> fs_wf fs'"
proof -
  obtain fs1 r1 where m: "MkdirAll E fs (DirOf (lg_path l)) = (fs1, r1)" by force
  obtain fs2 r2 where o: "open_write E fs1 (lg_path l) True False = (fs2, r2)" by force
  have fs': "fs' = fs1 \<or> fs' = fs2" using assms m o by (cases r1; cases r2) (auto simp: openFile_def split: option.splits)
  have k1: "keeps_files {lg_path l} fs fs1"
    using mkdirs_keeps [of _ fs E "[]" "elems (DirOf (lg_path l))"] m by (simp add: MkdirAll_def)
  have k2: "keeps_files {lg_path l} fs1 fs2"
    using open_write_frame [of "lg_path l" "{lg_path l}" fs1 E True False] o by (auto intro: keeps_files_same)
  show "keeps_files {lg_path l} fs fs'" using fs' k1 keeps_files_trans [OF k1 k2] by blast
  assume w: "fs_wf fs" and c: "clean_abs (lg_path l)"
  have w1: "fs_wf fs1" using MkdirAll_wf [OF w DirOf_clean [OF c], of E] m by simp
  have "fs_wf fs2" using open_write_wf [OF w1 c, of E True False] o by simp
  with w1 fs' show "fs_wf fs'" by blast
qed

lemma rotate_effect:
  assumes "rotate_log E fs l = (fs', l')"
  shows "keeps_files {lg_path l, backup_path l} fs fs'" "lg_path l' = lg_path l"
    "fs_wf fs \<Longrightarrow> clean_abs (lg_path l) \<Longrightarrow> lg_path l \<noteq> ''/'' \<Longrightarrow> fs_wf fs'"
proof -
  let ?A = "{lg_path l, backup_path l}"
  define fs1 where "fs1 = fst (remove E fs (backup_path l))"
  define fs2 where "fs2 = fst (rename E fs1 (lg_path l) (backup_path l))"
  obtain r where o: "openFile E fs2 (l\<lparr>lg_open := False\<rparr>) = (fs', l', r)"
    using assms by (auto simp: rotate_log_def Let_def fs1_def fs2_def split: prod.splits)
  have "keeps_files ?A fs fs1" unfolding fs1_def by (rule keeps_files_same [of ?A]) (auto intro: remove_frame)
  also have "keeps_files ?A fs1 fs2" unfolding fs2_def by (rule keeps_files_same [of ?A]) (auto intro: rename_frame)
  also have "keeps_files ?A fs2 fs'" using openFile_effect(1) [OF o] by (rule keeps_files_mono) simp
  finally show "keeps_files ?A fs fs'" .
  show "lg_path l' = lg_path l" using openFile_path [OF o] by simp
  assume w: "fs_wf fs" and c: "clean_abs (lg_path l)" and "lg_path l \<noteq> ''/''"
  have "fs_wf fs1" using w by (auto simp: fs1_def)
  then have "fs_wf fs2" unfolding fs2_def using backup_sibling(1) [OF c \<open>lg_path l \<noteq> ''/''\<close>] by auto
  then show "fs_wf fs'" using openFile_effect(2) [OF o] c by simp
qed

definition log_place :: "AuditLogger option \<Rightarrow> bool" where
  "log_place lo \<longleftrightarrow> (case lo of None \<Rightarrow> True | Some l \<Rightarrow> clean_abs (lg_path l) \<and> lg_path l \<noteq> ''/'')"

lemma Log_effect:
  assumes "Log E now fs lo e = (fs', lo')"
  shows "keeps_files (log_paths lo) fs fs'" "log_paths lo' = log_paths lo" "log_place lo \<Longrightarrow> log_place lo'"
    "fs_wf fs \<Longrightarrow> log_place lo \<Longrightarrow> fs_wf fs'"
proof -
  have "keeps_files (log_paths lo) fs fs' \<and> log_paths lo' = log_paths lo \<and> (log_place lo \<longrightarrow> log_place lo')
      \<and> (fs_wf fs \<and> log_place lo \<longrightarrow> fs_wf fs')"
  proof (cases lo)
    case None
    with assms show ?thesis by (simp add: Log_def)
  next
    case (Some l)
    let ?line = "event_line E now e"
    obtain fs1 l1 where x: "(if lg_size l + int (length ?line) > lg_maxSize l then rotate_log E fs l else (fs, l)) = (fs1, l1)"
      by force
    have r: "keeps_files (log_paths lo) fs fs1 \<and> lg_path l1 = lg_path l \<and> (fs_wf fs \<and> log_place lo \<longrightarrow> fs_wf fs1)"
    proof (cases "lg_size l + int (length ?line) > lg_maxSize l")
      case True
      with x have "rotate_log E fs l = (fs1, l1)" by simp
      from rotate_effect [OF this] show ?thesis unfolding Some log_paths_def log_place_def option.case by blast
    next
      case False
      with x show ?thesis by simp
    qed
    note r1 = conjunct1 [OF r] and r2 = conjunct1 [OF conjunct2 [OF r]] and r3 = conjunct2 [OF conjunct2 [OF r]]
    obtain fs2 n err where a: "append_file E fs1 (lg_path l1) ?line = (fs2, n, err)" by (metis prod.collapse)
    obtain off where off: "fs2 = fst (write_at E fs1 (lg_path l1) ?line off)" using a unfolding append_file_def by (metis fst_conv)
    have "same_except (log_paths lo) fs1 fs2"
      unfolding off by (rule write_at_frame) (simp add: r2 Some log_paths_def)
    then have k2: "keeps_files (log_paths lo) fs1 fs2" by (rule keeps_files_same) simp
    have w2: "fs_wf fs1 \<Longrightarrow> fs_wf fs2" unfolding off by (rule write_at_wf)
    have eq: "(fs', lo') = (if \<not> lg_open l then (fs, Some l) else if \<not> lg_open l1 then (fs1, Some l1)
        else (fs2, Some (l1\<lparr>lg_size := lg_size l1 + int n\<rparr>)))"
      using assms unfolding Some Log_def Let_def option.case x by (simp add: a split: if_splits)
    then have fs': "fs' = fs \<or> fs' = fs1 \<or> fs' = fs2" by (simp split: if_splits)
    from eq r2 obtain l' where l': "lo' = Some l'" "lg_path l' = lg_path l" by (auto split: if_splits)
    have "keeps_files (log_paths lo) fs fs'" using fs' r1 keeps_files_trans [OF r1 k2] by auto
    moreover have "log_paths lo' = log_paths lo" "log_place lo' = log_place lo"
      using l' by (simp_all add: Some log_paths_def log_place_def backup_path_def)
    moreover have "fs_wf fs \<and> log_place lo \<longrightarrow> fs_wf fs'" using fs' r3 w2 by blast
    ultimately show ?thesis by simp
  qed
  then show "keeps_files (log_paths lo) fs fs'" "log_paths lo' = log_paths lo" "log_place lo \<Longrightarrow> log_place lo'"
    "fs_wf fs \<Longrightarrow> log_place lo \<Longrightarrow> fs_wf fs'" by blast+
qed

section \<open>What an upload call may touch\<close>

lemma upload_finish_frame: "same_except {safe, t, upload_meta t} fs (fst (upload_finish E fs t safe ck))"
proof -
  let ?A = "{safe, t, upload_meta t}"
  obtain fs1 r1 where r: "rename E fs t safe = (fs1, r1)" by force
  then have 1: "same_except ?A fs fs1" using rename_frame [of t ?A safe fs E] by simp
  have "same_except ?A fs1 (fst (remove E fs1 (upload_meta t)))" by (rule remove_frame) simp
  with 1 have 2: "same_except ?A fs (fst (remove E fs1 (upload_meta t)))" by (rule same_except_trans)
  show ?thesis using r 1 2 by (auto simp: upload_finish_def split: option.splits sum.splits)
qed

lemma upload_frame_all:
  assumes "safePath E path = Inr safe"
  shows "same_except (insert safe (upload_files E path tid)) fs
     (fst (WriteAtomicUploadChunk E fs path tid data off tot final ck))"
proof -
  obtain fs' r where c: "WriteAtomicUploadChunk E fs path tid data off tot final ck = (fs', r)" by force
  have "same_except (insert safe (upload_files E path tid)) fs fs'"
  proof (cases "r \<noteq> None \<or> \<not> final")
    case True
    from upload_frame [OF c True] show ?thesis by (rule same_except_mono) auto
  next
    case False
    from c show ?thesis
    proof (cases rule: upload_cases)
      case (committed s fs1 fs2)
      let ?t = "upload_temp s tid"
      have s: "s = safe" using committed(2) assms by simp
      have "same_except {s, ?t, upload_meta ?t} fs fs2"
        using upload_stages_frame(2) [OF committed(4,5)] by (rule same_except_mono) auto
      moreover have "same_except {s, ?t, upload_meta ?t} fs2 fs'"
        using upload_finish_frame [of s ?t fs2 E ck] committed(7) by simp
      ultimately have "same_except {s, ?t, upload_meta ?t} fs fs'" by (rule same_except_trans)
      then show ?thesis using assms s by (simp add: upload_files_def)
    qed (use False in auto)
  qed
  with c show ?thesis by simp
qed

section \<open>Effects of the pieces\<close>

lemma on_client_simps [simp]:
  "hs_fs (on_client f st) = hs_fs st" "hs_guard (on_client f st) = hs_guard st"
  "hs_log (on_client f st) = hs_log st" "hs_client (on_client f st) = f (hs_client st)"
  by (simp_all add: on_client_def)

lemma sendMsg_simps [simp]:
  "cl_authed (sendMsg w m c) = cl_authed c" "cl_attempts (sendMsg w m c) = cl_attempts c"
  "cl_ip (sendMsg w m c) = cl_ip c" "cl_ipTracked (sendMsg w m c) = cl_ipTracked c"
  "cl_id (sendMsg w m c) = cl_id c" "cl_remote (sendMsg w m c) = cl_remote c" "cl_user (sendMsg w m c) = cl_user c"
  by (simp_all add: sendMsg_def enqueue_def closeClient_def)

lemma sendMsg_closed: "cl_closed c \<Longrightarrow> cl_closed (sendMsg w m c)"
  by (simp add: sendMsg_def enqueue_def)

lemma sendMsg_open: "\<not> cl_closed (sendMsg w m c) \<Longrightarrow> \<not> cl_closed c \<and> cl_send (sendMsg w m c) = cl_send c @ [m]"
  by (auto simp: sendMsg_def enqueue_def closeClient_def split: if_splits)

lemma sendAgentInfo_simps [simp]:
  "cl_authed (sendAgentInfo w c) = cl_authed c" "cl_attempts (sendAgentInfo w c) = cl_attempts c"
  "cl_ip (sendAgentInfo w c) = cl_ip c" "cl_ipTracked (sendAgentInfo w c) = cl_ipTracked c"
  "cl_id (sendAgentInfo w c) = cl_id c" "cl_remote (sendAgentInfo w c) = cl_remote c"
  by (simp_all add: sendAgentInfo_def Let_def)

lemma send_simps [simp]:
  "hs_fs (sendError w i e st) = hs_fs st" "hs_guard (sendError w i e st) = hs_guard st"
  "hs_log (sendError w i e st) = hs_log st"
  "hs_client (sendError w i e st) = sendMsg w (message w i MsgError JNull e) (hs_client st)"
  "hs_fs (sendResponse w i t v st) = hs_fs st" "hs_guard (sendResponse w i t v st) = hs_guard st"
  "hs_log (sendResponse w i t v st) = hs_log st"
  "hs_client (sendResponse w i t v st) = sendMsg w (message w i t v no_text) (hs_client st)"
  by (simp_all add: sendError_def sendResponse_def)

lemma record_ev_simps [simp]:
  "hs_client (record_ev w a r d st) = hs_client st" "hs_guard (record_ev w a r d st) = hs_guard st"
  by (simp_all add: record_ev_def audit_event_def split: prod.splits)

lemma record_ev_effect:
  "keeps_files (log_paths (hs_log st)) (hs_fs st) (hs_fs (record_ev w a r d st))"
  "log_paths (hs_log (record_ev w a r d st)) = log_paths (hs_log st)"
  "log_place (hs_log st) \<Longrightarrow> log_place (hs_log (record_ev w a r d st))"
  "fs_wf (hs_fs st) \<Longrightarrow> log_place (hs_log st) \<Longrightarrow> fs_wf (hs_fs (record_ev w a r d st))"
proof -
  obtain e where e: "record_ev w a r d st = audit_event w e st" by (simp add: record_ev_def)
  obtain fs l where l: "Log (w_os w) (w_now w) (hs_fs st) (hs_log st) e = (fs, l)" by force
  show "keeps_files (log_paths (hs_log st)) (hs_fs st) (hs_fs (record_ev w a r d st))"
    "log_paths (hs_log (record_ev w a r d st)) = log_paths (hs_log st)"
    "log_place (hs_log st) \<Longrightarrow> log_place (hs_log (record_ev w a r d st))"
    "fs_wf (hs_fs st) \<Longrightarrow> log_place (hs_log st) \<Longrightarrow> fs_wf (hs_fs (record_ev w a r d st))"
    using Log_effect [OF l] by (simp_all add: e audit_event_def l)
qed

text \<open>A step of a handler that only logs.\<close>

definition only_logs :: "HState \<Rightarrow> HState \<Rightarrow> bool" where
  "only_logs st st' \<longleftrightarrow> keeps_files (log_paths (hs_log st)) (hs_fs st) (hs_fs st')
     \<and> log_paths (hs_log st') = log_paths (hs_log st)
     \<and> (log_place (hs_log st) \<longrightarrow> log_place (hs_log st'))
     \<and> (fs_wf (hs_fs st) \<and> log_place (hs_log st) \<longrightarrow> fs_wf (hs_fs st'))"

lemma only_logs_refl [simp]: "only_logs st st"
  by (simp add: only_logs_def)

lemma only_logs_record [simp]: "only_logs st (record_ev w a r d st)"
  by (simp add: only_logs_def record_ev_effect)

lemma only_logs_cong:
  "hs_fs st1 = hs_fs st \<Longrightarrow> hs_log st1 = hs_log st \<Longrightarrow> hs_fs st2 = hs_fs st' \<Longrightarrow> hs_log st2 = hs_log st'
    \<Longrightarrow> only_logs st st' \<Longrightarrow> only_logs st1 st2"
  by (simp add: only_logs_def)

section \<open>One answer per request\<close>

text \<open>A handler ends by sending one message that bears the identifier of its request.\<close>

definition replies :: "World \<Rightarrow> string \<Rightarrow> HState \<Rightarrow> HState \<Rightarrow> bool" where
  "replies w i st st' \<longleftrightarrow> (\<exists>m c. msg_id m = i \<and> hs_client st' = sendMsg w m c \<and> c = hs_client st)"

lemma replies_error [simp]: "hs_client st1 = hs_client st \<Longrightarrow> replies w i st (sendError w i e st1)"
  unfolding replies_def by (intro exI [of _ "message w i MsgError JNull e"]) (simp add: message_def)

lemma replies_response [simp]: "hs_client st1 = hs_client st \<Longrightarrow> replies w i st (sendResponse w i t v st1)"
  unfolding replies_def by (intro exI [of _ "message w i t v no_text"]) (simp add: message_def)

lemma dispatch_replies: "replies w (msg_id msg) st (dispatch w msg st)"
proof -
  have 1: "replies w (msg_id msg) st (handleExecCommand w msg st)"
    by (simp add: handleExecCommand_def split: option.split sum.split)
  have 2: "replies w (msg_id msg) st (handleListDir w msg st)"
    by (simp add: handleListDir_def split: option.split sum.split)
  have 3: "replies w (msg_id msg) st (handleGetFile w msg st)"
    by (simp add: handleGetFile_def Let_def split: option.split sum.split prod.split)
  have 4: "replies w (msg_id msg) st (handleSendFile w msg st)"
    by (simp add: handleSendFile_def Let_def split: option.split sum.split prod.split del: split_paired_All)
  have 5: "replies w (msg_id msg) st (handleCancelFile w msg st)"
    by (simp add: handleCancelFile_def split: option.split sum.split prod.split)
  have 6: "replies w (msg_id msg) st (handleScreenshot w msg st)"
    by (simp add: handleScreenshot_def split: option.split sum.split prod.split)
  show ?thesis using 1 2 3 4 5 6 by (simp add: dispatch_def handleSystemInfo_def)
qed

section \<open>Files reached by a request\<close>

definition request_paths :: "osenv \<Rightarrow> Message \<Rightarrow> path set" where
  "request_paths E msg =
     (if msg_type msg = MsgSendFile then
        (case decode_send_file (via_interface (msg_payload msg)) of None \<Rightarrow> {}
         | Some p \<Rightarrow> (case safePath E (sf_path p) of Inl _ \<Rightarrow> {}
             | Inr safe \<Rightarrow> if sf_transfer_id p = [] then {safe}
                 else insert safe (upload_files E (sf_path p) (sf_transfer_id p))))
      else if msg_type msg = MsgCancelFile then
        (case decode_cancel_file (via_interface (msg_payload msg)) of None \<Rightarrow> {}
         | Some p \<Rightarrow> upload_files E (cf_path p) (cf_transfer_id p))
      else {})"

text \<open>A step that changes only the files of \<open>A\<close> and the audit log.\<close>

definition changes_only :: "path set \<Rightarrow> HState \<Rightarrow> HState \<Rightarrow> bool" where
  "changes_only A st st' \<longleftrightarrow> keeps_files (A \<union> log_paths (hs_log st)) (hs_fs st) (hs_fs st')
     \<and> log_paths (hs_log st') = log_paths (hs_log st)
     \<and> (log_place (hs_log st) \<longrightarrow> log_place (hs_log st'))
     \<and> (fs_wf (hs_fs st) \<and> log_place (hs_log st) \<longrightarrow> fs_wf (hs_fs st'))
     \<and> hs_guard st' = hs_guard st"

lemma changes_onlyI:
  assumes "keeps_files A (hs_fs st) fs1" "fs_wf (hs_fs st) \<Longrightarrow> fs_wf fs1"
    "only_logs (st\<lparr>hs_fs := fs1\<rparr>) st'" "hs_guard st' = hs_guard st"
  shows "changes_only A st st'"
proof -
  have "keeps_files (A \<union> log_paths (hs_log st)) (hs_fs st) fs1" using assms(1) by (rule keeps_files_mono) simp
  also have "keeps_files (A \<union> log_paths (hs_log st)) fs1 (hs_fs st')"
    using assms(3) by (auto simp: only_logs_def intro: keeps_files_mono)
  finally show ?thesis using assms by (simp add: changes_only_def only_logs_def)
qed

lemma changes_only_logs:
  "only_logs st st' \<Longrightarrow> hs_guard st' = hs_guard st \<Longrightarrow> changes_only {} st st'"
  by (rule changes_onlyI [of "{}" st "hs_fs st"]) simp_all

lemma only_logs_sends [simp]:
  "only_logs st st1 \<Longrightarrow> only_logs st (sendError w i e st1)"
  "only_logs st st1 \<Longrightarrow> only_logs st (sendResponse w i t v st1)"
  "only_logs st st1 \<Longrightarrow> only_logs st (on_client f st1)"
  by (simp_all add: only_logs_def)

lemma readers_only_log:
  "only_logs st (handleExecCommand w msg st) \<and> hs_guard (handleExecCommand w msg st) = hs_guard st"
  "only_logs st (handleListDir w msg st) \<and> hs_guard (handleListDir w msg st) = hs_guard st"
  "only_logs st (handleGetFile w msg st) \<and> hs_guard (handleGetFile w msg st) = hs_guard st"
  "only_logs st (handleScreenshot w msg st) \<and> hs_guard (handleScreenshot w msg st) = hs_guard st"
  "only_logs st (handleSystemInfo w msg st) \<and> hs_guard (handleSystemInfo w msg st) = hs_guard st"
proof -
  show "only_logs st (handleExecCommand w msg st) \<and> hs_guard (handleExecCommand w msg st) = hs_guard st"
    by (simp add: handleExecCommand_def split: option.split sum.split)
  show "only_logs st (handleListDir w msg st) \<and> hs_guard (handleListDir w msg st) = hs_guard st"
    by (simp add: handleListDir_def split: option.split sum.split)
  show "only_logs st (handleGetFile w msg st) \<and> hs_guard (handleGetFile w msg st) = hs_guard st"
    by (simp add: handleGetFile_def Let_def split: option.split sum.split prod.split)
  show "only_logs st (handleScreenshot w msg st) \<and> hs_guard (handleScreenshot w msg st) = hs_guard st"
    by (simp add: handleScreenshot_def split: option.split sum.split prod.split)
  show "only_logs st (handleSystemInfo w msg st) \<and> hs_guard (handleSystemInfo w msg st) = hs_guard st"
    by (simp add: handleSystemInfo_def)
qed

lemma send_file_changes:
  assumes "env_ok (w_os w)" "msg_type msg = MsgSendFile"
  shows "changes_only (request_paths (w_os w) msg) st (handleSendFile w msg st)"
proof (cases "decode_send_file (via_interface (msg_payload msg))")
  case None
  then show ?thesis
    by (intro changes_onlyI [of _ st "hs_fs st"]) (simp_all add: handleSendFile_def remarshal_def)
next
  case (Some p)
  define call where "call = (if sf_transfer_id p = []
     then WriteFileChunk (w_os w) (hs_fs st) (sf_path p) (sf_data p) (sf_offset p)
     else WriteAtomicUploadChunk (w_os w) (hs_fs st) (sf_path p) (sf_transfer_id p) (sf_data p)
            (sf_offset p) (sf_total_size p) (sf_final p) (sf_checksum p))"
  obtain fs1 r where c: "call = (fs1, r)" by force
  have wf: "fs_wf (hs_fs st) \<Longrightarrow> fs_wf fs1"
    using c WriteFileChunk_wf [OF _ _ assms(1)] WriteAtomicUploadChunk_wf [OF _ _ assms(1)]
    by (auto simp: call_def split: if_splits)
  have k: "keeps_files (request_paths (w_os w) msg) (hs_fs st) fs1"
  proof (cases "safePath (w_os w) (sf_path p)")
    case (Inl e)
    then have "fs1 = hs_fs st" using c
      by (auto simp: call_def WriteFileChunk_def WriteAtomicUploadChunk_def split: if_splits option.splits)
    then show ?thesis by simp
  next
    case (Inr safe)
    have "same_except (request_paths (w_os w) msg) (hs_fs st) fs1"
      using c WriteFileChunk_frame [OF Inr, of "hs_fs st" "sf_data p" "sf_offset p"]
        upload_frame_all [OF Inr, of "sf_transfer_id p" "hs_fs st" "sf_data p" "sf_offset p" "sf_total_size p" "sf_final p" "sf_checksum p"]
      by (cases "sf_transfer_id p = []") (simp_all add: call_def request_paths_def assms(2) Some Inr)
    then show ?thesis by (rule keeps_files_same) simp
  qed
  have st': "handleSendFile w msg st = (case call of
      (fs1, Some err) \<Rightarrow> sendError w (msg_id msg) (Sprintf ''send_file error: %v'' [GErr err]) (st\<lparr>hs_fs := fs1\<rparr>)
    | (fs1, None) \<Rightarrow> sendResponse w (msg_id msg) MsgFileAck (file_ack p (sf_final p))
         (if sf_offset p = 0 \<or> sf_final p
          then record_ev w ''send_file'' ResultOK (Sprintf ''%s offset=%d final=%t committed=%t''
                 [GStr (sf_path p), GInt (sf_offset p), GBool (sf_final p), GBool (sf_final p)]) (st\<lparr>hs_fs := fs1\<rparr>)
          else st\<lparr>hs_fs := fs1\<rparr>))"
    unfolding handleSendFile_def remarshal_def option.case Some call_def [symmetric] Let_def ..
  show ?thesis
    by (rule changes_onlyI [OF k wf]) (auto simp: st' c split: option.split)
qed

lemma cancel_file_changes:
  assumes "msg_type msg = MsgCancelFile"
  shows "changes_only (request_paths (w_os w) msg) st (handleCancelFile w msg st)"
proof (cases "decode_cancel_file (via_interface (msg_payload msg))")
  case None
  then show ?thesis
    by (intro changes_onlyI [of _ st "hs_fs st"]) (simp_all add: handleCancelFile_def remarshal_def)
next
  case (Some p)
  obtain fs1 r where c: "CancelAtomicUpload (w_os w) (hs_fs st) (cf_path p) (cf_transfer_id p) = (fs1, r)" by force
  have k: "keeps_files (request_paths (w_os w) msg) (hs_fs st) fs1"
    using CancelAtomicUpload_frame [OF c]
    by (intro keeps_files_same [of "request_paths (w_os w) msg"]) (simp_all add: request_paths_def assms Some msg_types)
  have wf: "fs_wf (hs_fs st) \<Longrightarrow> fs_wf fs1" using CancelAtomicUpload_wf [of "hs_fs st" "w_os w" "cf_path p" "cf_transfer_id p"] c by simp
  show ?thesis
    by (rule changes_onlyI [OF k wf]) (auto simp: handleCancelFile_def remarshal_def Some c split: option.split)
qed

lemma changes_only_mono: "changes_only A st st' \<Longrightarrow> A \<subseteq> B \<Longrightarrow> changes_only B st st'"
  unfolding changes_only_def by (meson Un_mono keeps_files_mono order_refl)

lemma dispatch_changes:
  assumes "env_ok (w_os w)"
  shows "changes_only (request_paths (w_os w) msg) st (dispatch w msg st)"
proof -
  note ro = readers_only_log [of st w msg]
  have r: "only_logs st st' \<and> hs_guard st' = hs_guard st \<Longrightarrow> changes_only (request_paths (w_os w) msg) st st'" for st'
    by (rule changes_only_mono [OF changes_only_logs]) simp_all
  show ?thesis
    unfolding dispatch_def
    using send_file_changes [OF assms] cancel_file_changes r [OF ro(1)] r [OF ro(2)] r [OF ro(3)] r [OF ro(4)] r [OF ro(5)]
      r [of "sendError w (msg_id msg) (Sprintf ''unknown message type: %s'' [GStr (msg_type msg)]) st"]
    by simp
qed

section \<open>Authentication\<close>

definition right_token :: "string \<Rightarrow> Message \<Rightarrow> bool" where
  "right_token tok msg \<longleftrightarrow> (case decode_auth (via_interface (msg_payload msg)) of None \<Rightarrow> False
     | Some auth \<Rightarrow> tok = [] \<or> au_token auth = tok)"

definition wrong_token :: "string \<Rightarrow> Message \<Rightarrow> bool" where
  "wrong_token tok msg \<longleftrightarrow> (case decode_auth (via_interface (msg_payload msg)) of None \<Rightarrow> False
     | Some auth \<Rightarrow> tok \<noteq> [] \<and> au_token auth \<noteq> tok)"

lemma sendMsg_send_prefix: "\<exists>rest. cl_send (sendMsg w m c) = cl_send c @ rest"
  by (simp add: sendMsg_def enqueue_def closeClient_def)

lemma handleAuth_malformed:
  "\<not> right_token tok msg \<Longrightarrow> \<not> wrong_token tok msg \<Longrightarrow>
    handleAuth w tok msg st = sendError w (msg_id msg) (lit ''invalid auth payload format'') st"
  by (auto simp: handleAuth_def remarshal_def right_token_def wrong_token_def split: option.splits)

lemma handleAuth_wrong:
  fixes w :: World and st :: HState
  assumes "wrong_token tok msg"
  defines "st' \<equiv> handleAuth w tok msg st" and "c \<equiv> hs_client st"
  shows "hs_guard st' = fail (w_now w) (hs_guard st) (cl_ip c)"
    "only_logs st st'" "cl_attempts (hs_client st') = cl_attempts c + 1" "cl_authed (hs_client st') = cl_authed c"
    "cl_ip (hs_client st') = cl_ip c" "cl_ipTracked (hs_client st') = cl_ipTracked c"
    "cl_attempts c + 1 \<ge> MaxAuthAttempts \<Longrightarrow> cl_closed (hs_client st')"
    "cl_closed c \<Longrightarrow> cl_closed (hs_client st')"
    "\<not> cl_closed (hs_client st') \<Longrightarrow> \<exists>m. msg_id m = msg_id msg \<and> cl_send (hs_client st') = cl_send c @ [m]"
proof -
  obtain auth where a: "decode_auth (via_interface (msg_payload msg)) = Some auth" "tok \<noteq> []" "au_token auth \<noteq> tok"
    using assms(1) by (auto simp: wrong_token_def split: option.splits)
  define st3 where "st3 = st\<lparr>hs_guard := fail (w_now w) (hs_guard st) (cl_ip c),
     hs_client := c\<lparr>cl_attempts := cl_attempts c + 1, cl_user := au_username auth\<rparr>\<rparr>"
  define st4 where "st4 = record_ev w ''auth'' ResultDenied (Sprintf ''invalid token (attempt %d/%d)''
                         [GInt (cl_attempts c + 1), GInt MaxAuthAttempts]) st3"
  define st5 where "st5 = sendError w (msg_id msg) (lit ''invalid authentication token'') st4"
  have st': "st' = (if cl_attempts c + 1 \<ge> MaxAuthAttempts then on_client closeClient st5 else st5)"
    unfolding st'_def handleAuth_def remarshal_def option.case a(1) Let_def
    using a(2,3) by (simp add: st5_def st4_def st3_def c_def on_client_def)
  have o: "only_logs st st4" unfolding st4_def
    by (rule only_logs_cong [OF _ _ _ _ only_logs_record [of st3]]) (simp_all add: st3_def)
  show "only_logs st st'" unfolding st' st5_def using o by simp
  show "hs_guard st' = fail (w_now w) (hs_guard st) (cl_ip c)"
    unfolding st' st5_def st4_def st3_def by simp
  have cl: "hs_client st4 = c\<lparr>cl_attempts := cl_attempts c + 1, cl_user := au_username auth\<rparr>"
    by (simp add: st4_def st3_def)
  show "cl_attempts (hs_client st') = cl_attempts c + 1" "cl_authed (hs_client st') = cl_authed c"
    "cl_ip (hs_client st') = cl_ip c" "cl_ipTracked (hs_client st') = cl_ipTracked c"
    unfolding st' st5_def by (simp_all add: cl closeClient_def)
  show "cl_attempts c + 1 \<ge> MaxAuthAttempts \<Longrightarrow> cl_closed (hs_client st')"
    unfolding st' by (simp add: closeClient_def)
  show "cl_closed c \<Longrightarrow> cl_closed (hs_client st')"
    unfolding st' st5_def by (simp add: cl closeClient_def sendMsg_closed)
  let ?m = "message w (msg_id msg) MsgError JNull (lit ''invalid authentication token'')"
  show "\<exists>m. msg_id m = msg_id msg \<and> cl_send (hs_client st') = cl_send c @ [m]" if "\<not> cl_closed (hs_client st')"
  proof (intro exI [of _ ?m] conjI)
    show "msg_id ?m = msg_id msg" by (simp add: message_def)
    show "cl_send (hs_client st') = cl_send c @ [?m]"
      using that sendMsg_open [of w ?m "hs_client st4"] unfolding st' st5_def
      by (auto simp: cl closeClient_def split: if_splits)
  qed
qed

lemma handleAuth_right:
  fixes w :: World and st :: HState
  assumes "right_token tok msg"
  defines "st' \<equiv> handleAuth w tok msg st" and "c \<equiv> hs_client st"
  shows "hs_guard st' = succeed (hs_guard st) (cl_ip c)"
    "only_logs st st'" "cl_attempts (hs_client st') = cl_attempts c" "cl_authed (hs_client st')"
    "cl_ip (hs_client st') = cl_ip c" "cl_ipTracked (hs_client st') = cl_ipTracked c"
    "cl_closed c \<Longrightarrow> cl_closed (hs_client st')"
    "\<not> cl_closed (hs_client st') \<Longrightarrow> \<exists>m m'. msg_id m = msg_id msg \<and> msg_type m = MsgAuthOk \<and> msg_id m' = []
       \<and> msg_type m' = MsgAgentInfo \<and> cl_send (hs_client st') = cl_send c @ [m, m']"
proof -
  obtain auth where a: "decode_auth (via_interface (msg_payload msg)) = Some auth" "tok = [] \<or> au_token auth = tok"
    using assms(1) by (auto simp: right_token_def split: option.splits)
  define st3 where "st3 = st\<lparr>hs_guard := succeed (hs_guard st) (cl_ip c),
     hs_client := c\<lparr>cl_authed := True, cl_user := au_username auth\<rparr>\<rparr>"
  define st4 where "st4 = record_ev w ''auth'' ResultOK no_text st3"
  let ?v = "JObj [(''message'', JStr ''authenticated successfully'')]"
  define st5 where "st5 = sendResponse w (msg_id msg) MsgAuthOk ?v st4"
  have st': "st' = on_client (sendAgentInfo w) st5"
    unfolding st'_def handleAuth_def remarshal_def option.case a(1) Let_def
    using a(2) by (auto simp: st5_def st4_def st3_def c_def on_client_def)
  have o: "only_logs st st4" unfolding st4_def
    by (rule only_logs_cong [OF _ _ _ _ only_logs_record [of st3]]) (simp_all add: st3_def)
  show "only_logs st st'" unfolding st' st5_def using o by simp
  show "hs_guard st' = succeed (hs_guard st) (cl_ip c)" unfolding st' st5_def st4_def st3_def by simp
  have cl: "hs_client st4 = c\<lparr>cl_authed := True, cl_user := au_username auth\<rparr>" by (simp add: st4_def st3_def)
  show "cl_attempts (hs_client st') = cl_attempts c" "cl_authed (hs_client st')"
    "cl_ip (hs_client st') = cl_ip c" "cl_ipTracked (hs_client st') = cl_ipTracked c"
    unfolding st' st5_def by (simp_all add: cl)
  show "cl_closed c \<Longrightarrow> cl_closed (hs_client st')"
    unfolding st' st5_def by (simp add: cl sendAgentInfo_def Let_def sendMsg_closed)
  let ?m = "message w (msg_id msg) MsgAuthOk ?v no_text"
  show "\<exists>m m'. msg_id m = msg_id msg \<and> msg_type m = MsgAuthOk \<and> msg_id m' = []
       \<and> msg_type m' = MsgAgentInfo \<and> cl_send (hs_client st') = cl_send c @ [m, m']" if "\<not> cl_closed (hs_client st')"
  proof -
    obtain v where s: "hs_client st' = sendMsg w (message w [] MsgAgentInfo v no_text) (hs_client st5)"
      by (simp add: st' sendAgentInfo_def Let_def)
    note 1 = sendMsg_open [OF that [unfolded s]]
    have s5: "hs_client st5 = sendMsg w ?m (hs_client st4)" by (simp add: st5_def)
    note 2 = sendMsg_open [of w ?m "hs_client st4"]
    have "cl_send (hs_client st') = cl_send c @ [?m, message w [] MsgAgentInfo v no_text]"
      using 1 2 by (simp add: s s5 cl)
    then show ?thesis
      by (intro exI [of _ ?m] exI [of _ "message w [] MsgAgentInfo v no_text"]) (simp add: message_def)
  qed
qed

lemma token_cases:
  obtains (right) "right_token tok msg" "\<not> wrong_token tok msg" | (wrong) "wrong_token tok msg" "\<not> right_token tok msg"
  | (malformed) "\<not> right_token tok msg" "\<not> wrong_token tok msg"
  by (cases "decode_auth (via_interface (msg_payload msg))") (auto simp: right_token_def wrong_token_def)

section \<open>One message\<close>

text \<open>The client fields no handler changes, and closing that is never undone.\<close>

definition client_follows :: "Client \<Rightarrow> Client \<Rightarrow> bool" where
  "client_follows c c' \<longleftrightarrow> cl_ip c' = cl_ip c \<and> cl_ipTracked c' = cl_ipTracked c \<and> (cl_closed c \<longrightarrow> cl_closed c')
     \<and> (cl_authed c \<longrightarrow> cl_authed c')"

lemma replies_follows:
  "replies w i st st' \<Longrightarrow> client_follows (hs_client st) (hs_client st') \<and> cl_attempts (hs_client st') = cl_attempts (hs_client st)
     \<and> cl_authed (hs_client st') = cl_authed (hs_client st)"
  by (auto simp: replies_def client_follows_def sendMsg_closed)

lemma handleMessage_follows: "client_follows (hs_client st) (hs_client (handleMessage w tok msg st))"
proof (cases "msg_type msg = MsgAuth")
  case True
  then have e: "handleMessage w tok msg st = handleAuth w tok msg st" by (simp add: handleMessage_def)
  show ?thesis unfolding e
  proof (cases rule: token_cases [of tok msg])
    case right
    from handleAuth_right [OF right(1), where w = w and st = st] show "client_follows (hs_client st) (hs_client (handleAuth w tok msg st))"
      by (simp add: client_follows_def)
  next
    case wrong
    from handleAuth_wrong [OF wrong(1), where w = w and st = st] show "client_follows (hs_client st) (hs_client (handleAuth w tok msg st))"
      by (simp add: client_follows_def)
  next
    case malformed
    from replies_follows [OF replies_error [OF refl, where w = w and st = st and i = "msg_id msg"]] handleAuth_malformed [OF malformed]
    show "client_follows (hs_client st) (hs_client (handleAuth w tok msg st))" by simp
  qed
next
  case False
  then show ?thesis
    using replies_follows [OF dispatch_replies [of w msg st]] replies_follows [OF replies_error [OF refl, where w = w and st = st and i = "msg_id msg"]]
    by (simp add: handleMessage_def client_follows_def)
qed

lemma handleMessage_attempts:
  assumes "cl_attempts (hs_client st) < MaxAuthAttempts"
  shows "cl_attempts (hs_client (handleMessage w tok msg st)) \<le> MaxAuthAttempts \<and>
    (cl_attempts (hs_client (handleMessage w tok msg st)) = MaxAuthAttempts \<longrightarrow> cl_closed (hs_client (handleMessage w tok msg st)))
    \<and> cl_attempts (hs_client st) \<le> cl_attempts (hs_client (handleMessage w tok msg st))"
proof (cases "msg_type msg = MsgAuth")
  case True
  then have e: "handleMessage w tok msg st = handleAuth w tok msg st" by (simp add: handleMessage_def)
  show ?thesis
  proof (cases rule: token_cases [of tok msg])
    case right
    from handleAuth_right [OF right(1), where w = w and st = st] assms show ?thesis unfolding e by simp
  next
    case wrong
    note h = handleAuth_wrong [OF wrong(1), where w = w and st = st]
    from h(3,7) assms show ?thesis unfolding e by auto
  next
    case malformed
    with assms show ?thesis unfolding e by (simp add: handleAuth_malformed)
  qed
next
  case False
  with assms replies_follows [OF dispatch_replies [of w msg st]] show ?thesis
    by (simp add: handleMessage_def)
qed

lemma handleMessage_authed:
  "cl_authed (hs_client (handleMessage w tok msg st)) \<longleftrightarrow>
     cl_authed (hs_client st) \<or> (msg_type msg = MsgAuth \<and> right_token tok msg)"
proof (cases "msg_type msg = MsgAuth")
  case True
  then have e: "handleMessage w tok msg st = handleAuth w tok msg st" by (simp add: handleMessage_def)
  show ?thesis unfolding e using True handleAuth_right(4) [where tok = tok and msg = msg and w = w and st = st] handleAuth_wrong(4) [where tok = tok and msg = msg and w = w and st = st]
    by (cases rule: token_cases [of tok msg]) (simp_all add: handleAuth_malformed)
next
  case False
  with replies_follows [OF dispatch_replies [of w msg st]] show ?thesis by (simp add: handleMessage_def)
qed

text \<open>What a message can change beside its client.\<close>

definition reach_paths :: "osenv \<Rightarrow> bool \<Rightarrow> Message \<Rightarrow> path set" where
  "reach_paths E authed msg = (if authed then request_paths E msg else {})"

lemma handleMessage_state:
  fixes tok :: string and msg :: Message and st :: HState
  assumes "env_ok (w_os w)"
  defines "st' \<equiv> handleMessage w tok msg st"
  shows "keeps_files (reach_paths (w_os w) (cl_authed (hs_client st)) msg \<union> log_paths (hs_log st)) (hs_fs st) (hs_fs st')"
    "log_paths (hs_log st') = log_paths (hs_log st)" "log_place (hs_log st) \<Longrightarrow> log_place (hs_log st')"
    "fs_wf (hs_fs st) \<Longrightarrow> log_place (hs_log st) \<Longrightarrow> fs_wf (hs_fs st')"
    "hs_guard st' \<in> {hs_guard st, fail (w_now w) (hs_guard st) (cl_ip (hs_client st)), succeed (hs_guard st) (cl_ip (hs_client st))}"
proof -
  let ?A = "reach_paths (w_os w) (cl_authed (hs_client st)) msg"
  let ?G = "{hs_guard st, fail (w_now w) (hs_guard st) (cl_ip (hs_client st)), succeed (hs_guard st) (cl_ip (hs_client st))}"
  have "(only_logs st st' \<or> changes_only ?A st st') \<and> hs_guard st' \<in> ?G"
  proof (cases "msg_type msg = MsgAuth")
    case True
    then have e: "st' = handleAuth w tok msg st" by (simp add: handleMessage_def st'_def)
    show ?thesis unfolding e
      using handleAuth_right(1,2) [where tok = tok and msg = msg and w = w and st = st] handleAuth_wrong(1,2) [where tok = tok and msg = msg and w = w and st = st]
      by (cases rule: token_cases [of tok msg]) (simp_all add: handleAuth_malformed)
  next
    case False
    have "changes_only (request_paths (w_os w) msg) st (dispatch w msg st)" by (rule dispatch_changes [OF assms(1)])
    with False show ?thesis by (auto simp: st'_def handleMessage_def reach_paths_def changes_only_def)
  qed
  then have c: "changes_only ?A st (st'\<lparr>hs_guard := hs_guard st\<rparr>)" "hs_guard st' \<in> ?G"
    by (auto simp: only_logs_def changes_only_def intro: keeps_files_mono)
  from c(1) show "keeps_files (?A \<union> log_paths (hs_log st)) (hs_fs st) (hs_fs st')"
    "log_paths (hs_log st') = log_paths (hs_log st)" "log_place (hs_log st) \<Longrightarrow> log_place (hs_log st')"
    "fs_wf (hs_fs st) \<Longrightarrow> log_place (hs_log st) \<Longrightarrow> fs_wf (hs_fs st')"
    by (simp_all add: changes_only_def)
  from c(2) show "hs_guard st' \<in> ?G" .
qed

lemma handleMessage_answer:
  assumes "msg_type msg \<noteq> MsgKeepAlive" "\<not> cl_closed (hs_client (handleMessage w tok msg st))"
  shows "\<exists>m rest. msg_id m = msg_id msg \<and> (\<forall>r \<in> set rest. msg_id r = []) \<and>
     cl_send (hs_client (handleMessage w tok msg st)) = cl_send (hs_client st) @ m # rest"
proof (cases "msg_type msg = MsgAuth")
  case True
  then have e: "handleMessage w tok msg st = handleAuth w tok msg st" by (simp add: handleMessage_def)
  show ?thesis
  proof (cases rule: token_cases [of tok msg])
    case right
    from handleAuth_right(8) [OF right(1) assms(2) [unfolded e]] show ?thesis unfolding e by force
  next
    case wrong
    from handleAuth_wrong(9) [OF wrong(1) assms(2) [unfolded e]] show ?thesis unfolding e by force
  next
    case malformed
    from assms(2) sendMsg_open show ?thesis unfolding e handleAuth_malformed [OF malformed]
      by (auto simp: message_def)
  qed
next
  case False
  have "replies w (msg_id msg) st (handleMessage w tok msg st)"
    using False assms(1) dispatch_replies [of w msg st] by (simp add: handleMessage_def)
  then obtain m where m: "msg_id m = msg_id msg" "hs_client (handleMessage w tok msg st) = sendMsg w m (hs_client st)"
    by (auto simp: replies_def)
  from sendMsg_open [OF assms(2) [unfolded m(2)]] m show ?thesis
    by (intro exI [of _ m] exI [of _ "[]"]) simp
qed

end
