(* ===== verification/ServerFacts.thy ===== *)
theory ServerFacts
  imports AgentServer HandlerFacts
begin

text \<open>
  Invariants of the agent's connections in every reachable state: the registered clients are
  those whose read pump runs and are at most 128, the guard counts exactly the handshakes and
  connections of each address and never more than its limit, a client gets at most five
  failed authentications, and the tree stays well-formed.
\<close>

section \<open>The invariant\<close>

definition holders_of :: "string multiset \<Rightarrow> Conn list \<Rightarrow> string multiset" where
  "holders_of pend cs = image_mset remoteIP pend
     + image_mset (\<lambda>c. cl_ip (cn_client c)) (filter_mset (\<lambda>c. cn_pump c \<noteq> Stopped) (mset cs))"

definition holders :: "Server \<Rightarrow> string multiset" where
  "holders s = holders_of (sv_pending s) (sv_conns s)"

definition slots_ok :: "Server \<Rightarrow> bool" where
  "slots_ok s \<longleftrightarrow> ipg.accounts (sv_guard s) (holders s) \<and> g_maxActive (sv_guard s) = MaxConnsPerIP"

definition running :: "Conn \<Rightarrow> bool" where
  "running c \<longleftrightarrow> cn_pump c \<notin> {Upgraded, Stopped}"

definition registry_ok :: "Server \<Rightarrow> bool" where
  "registry_ok s \<longleftrightarrow> fcard (sv_clients s) \<le> MaxClients \<and>
     (\<forall>p. p |\<in>| sv_clients s \<longleftrightarrow> p < length (sv_conns s) \<and> running (sv_conns s ! p))"

definition conn_ok :: "Conn \<Rightarrow> bool" where
  "conn_ok c \<longleftrightarrow> cl_ipTracked (cn_client c) \<and> 0 \<le> cl_attempts (cn_client c)
     \<and> cl_attempts (cn_client c) \<le> MaxAuthAttempts
     \<and> (cl_attempts (cn_client c) = MaxAuthAttempts \<longrightarrow> cl_closed (cn_client c) \<and> (\<forall>m. cn_pump c \<noteq> Got m))"

definition server_inv :: "Server \<Rightarrow> bool" where
  "server_inv s \<longleftrightarrow> slots_ok s \<and> registry_ok s \<and> (\<forall>c \<in> set (sv_conns s). conn_ok c)
     \<and> fs_wf (sv_fs s) \<and> log_place (sv_log s)"

section \<open>Replacing a connection\<close>

lemma put_conn_simps [simp]:
  "sv_clients (put_conn p c s) = sv_clients s" "sv_guard (put_conn p c s) = sv_guard s"
  "sv_pending (put_conn p c s) = sv_pending s" "sv_fs (put_conn p c s) = sv_fs s"
  "sv_log (put_conn p c s) = sv_log s" "sv_token (put_conn p c s) = sv_token s"
  "sv_conns (put_conn p c s) = (sv_conns s)[p := c]"
  by (simp_all add: put_conn_def)

lemma server_log_simps [simp]:
  "sv_clients (server_log w e s) = sv_clients s" "sv_guard (server_log w e s) = sv_guard s"
  "sv_pending (server_log w e s) = sv_pending s" "sv_conns (server_log w e s) = sv_conns s"
  "sv_token (server_log w e s) = sv_token s"
  by (simp_all add: server_log_def split: prod.splits)

lemma server_log_tree:
  "fs_wf (sv_fs s) \<Longrightarrow> log_place (sv_log s) \<Longrightarrow> fs_wf (sv_fs (server_log w e s)) \<and> log_place (sv_log (server_log w e s))"
  using Log_effect(3,4) [of "w_os w" "w_now w" "sv_fs s" "sv_log s" e]
  by (simp add: server_log_def split: prod.splits)

lemma put_shared_simps [simp]:
  "sv_clients (put_shared st s) = sv_clients s" "sv_pending (put_shared st s) = sv_pending s"
  "sv_conns (put_shared st s) = sv_conns s" "sv_token (put_shared st s) = sv_token s"
  "sv_fs (put_shared st s) = hs_fs st" "sv_guard (put_shared st s) = hs_guard st" "sv_log (put_shared st s) = hs_log st"
  by (simp_all add: put_shared_def)

lemma hstate_simps [simp]:
  "hs_fs (hstate s c) = sv_fs s" "hs_guard (hstate s c) = sv_guard s" "hs_log (hstate s c) = sv_log s"
  "hs_client (hstate s c) = c"
  by (simp_all add: hstate_def)

lemma holders_update_same:
  assumes "p < length cs" "cl_ip (cn_client c) = cl_ip (cn_client (cs ! p))"
    "(cn_pump c = Stopped) = (cn_pump (cs ! p) = Stopped)"
  shows "holders_of pend (cs[p := c]) = holders_of pend cs"
proof -
  have m: "mset cs = add_mset (cs ! p) (mset cs - {#cs ! p#})" using assms(1) by (simp add: insert_DiffM)
  have "holders_of pend (cs[p := c]) = image_mset remoteIP pend
     + image_mset (\<lambda>c. cl_ip (cn_client c)) (filter_mset (\<lambda>c. cn_pump c \<noteq> Stopped) (add_mset c (mset cs - {#cs ! p#})))"
    using assms(1) by (simp add: holders_of_def mset_update)
  also have "\<dots> = image_mset remoteIP pend
     + image_mset (\<lambda>c. cl_ip (cn_client c)) (filter_mset (\<lambda>c. cn_pump c \<noteq> Stopped) (add_mset (cs ! p) (mset cs - {#cs ! p#})))"
    using assms(2,3) by simp
  also have "\<dots> = holders_of pend cs" unfolding holders_of_def m [symmetric] ..
  finally show ?thesis .
qed

lemma holders_update_stop:
  assumes "p < length cs" "cn_pump (cs ! p) \<noteq> Stopped" "cn_pump c = Stopped"
  shows "holders_of pend (cs[p := c]) = holders_of pend cs - {#cl_ip (cn_client (cs ! p))#}"
    "cl_ip (cn_client (cs ! p)) \<in># holders_of pend cs"
proof -
  let ?f = "\<lambda>M. image_mset (\<lambda>c. cl_ip (cn_client c)) (filter_mset (\<lambda>c. cn_pump c \<noteq> Stopped) M)"
  have m: "mset cs = add_mset (cs ! p) (mset cs - {#cs ! p#})" using assms(1) by (simp add: insert_DiffM)
  have f: "?f (mset cs) = add_mset (cl_ip (cn_client (cs ! p))) (?f (mset cs - {#cs ! p#}))"
    by (subst m) (simp add: assms(2))
  show "cl_ip (cn_client (cs ! p)) \<in># holders_of pend cs" unfolding holders_of_def f by simp
  have "?f (mset (cs[p := c])) = ?f (mset cs - {#cs ! p#})" using assms(1,3) by (simp add: mset_update)
  then show "holders_of pend (cs[p := c]) = holders_of pend cs - {#cl_ip (cn_client (cs ! p))#}"
    unfolding holders_of_def f by simp
qed

section \<open>Steps that change one connection only\<close>

lemma slots_same:
  assumes "slots_ok s" "holders s' = holders s" "\<And>ip. active_of (sv_guard s') ip = active_of (sv_guard s) ip"
    "g_maxActive (sv_guard s') = g_maxActive (sv_guard s)"
  shows "slots_ok s'"
  using assms ipg.accounts_same_view [of "sv_guard s" "holders s" "sv_guard s'"] by (simp add: slots_ok_def)

lemma registry_put:
  assumes "registry_ok s" "running c = running (sv_conns s ! p)"
  shows "registry_ok (put_conn p c s)"
proof -
  have "running ((sv_conns s)[p := c] ! q) = running (sv_conns s ! q)" if "q < length (sv_conns s)" for q
    using assms(2) that by (cases "q = p") simp_all
  with assms(1) show ?thesis by (auto simp: registry_ok_def)
qed

lemma conns_put:
  assumes "\<forall>c \<in> set (sv_conns s). conn_ok c" "conn_ok c"
  shows "\<forall>c \<in> set (sv_conns (put_conn p c s)). conn_ok c"
  using assms set_update_subset_insert [of "sv_conns s" p c] by auto

text \<open>A connection replaced by one with the same address that runs or not as before.\<close>

lemma inv_put:
  assumes "server_inv s" "p < length (sv_conns s)" "conn_ok c" "cl_ip (cn_client c) = cl_ip (cn_client (sv_conns s ! p))"
    "(cn_pump c = Stopped) = (cn_pump (sv_conns s ! p) = Stopped)"
    "(cn_pump c = Upgraded) = (cn_pump (sv_conns s ! p) = Upgraded)"
  shows "server_inv (put_conn p c s)"
proof -
  have i: "slots_ok s" "registry_ok s" "\<forall>c \<in> set (sv_conns s). conn_ok c" "fs_wf (sv_fs s)" "log_place (sv_log s)"
    using assms(1) unfolding server_inv_def by blast+
  have "holders (put_conn p c s) = holders s"
    using holders_update_same [OF assms(2,4,5)] by (simp add: holders_def)
  then have "slots_ok (put_conn p c s)" by (intro slots_same [OF i(1)]) simp_all
  moreover have "registry_ok (put_conn p c s)"
    by (rule registry_put [OF i(2)]) (simp only: running_def insert_iff empty_iff assms(5,6))
  moreover note conns_put [OF i(3) assms(3)]
  moreover have "fs_wf (sv_fs (put_conn p c s))" "log_place (sv_log (put_conn p c s))" using i(4,5) by simp_all
  ultimately show ?thesis unfolding server_inv_def by blast
qed

text \<open>Shared state replaced by one with the same slot counts.\<close>

lemma inv_shared:
  assumes "server_inv s" "sv_conns s' = sv_conns s" "sv_clients s' = sv_clients s" "sv_pending s' = sv_pending s"
    "\<And>ip. active_of (sv_guard s') ip = active_of (sv_guard s) ip" "g_maxActive (sv_guard s') = g_maxActive (sv_guard s)"
    "fs_wf (sv_fs s')" "log_place (sv_log s')"
  shows "server_inv s'"
proof -
  have "slots_ok s'" using assms slots_same [of s s'] by (simp add: server_inv_def holders_def)
  with assms show ?thesis by (simp add: server_inv_def registry_ok_def)
qed

lemma guard_view:
  assumes "g' \<in> {g, fail now g ip, succeed g ip}"
  shows "active_of g' a = active_of g a" "g_maxActive g' = g_maxActive g"
  using assms limits_ops(3) [of g now ip] limits_ops(4) [of g ip]
  by (auto simp: guard_simps same_limits_def)

lemma handle_step_inv:
  assumes "server_inv s" "env_ok (w_os w)" "conn_at s p {Got msg}"
  shows "server_inv (handle_step w p msg s)"
proof -
  let ?c = "sv_conns s ! p"
  let ?st = "handleMessage w (sv_token s) msg (hstate s (cn_client ?c))"
  let ?s1 = "put_shared ?st s"
  have p: "p < length (sv_conns s)" "cn_pump ?c = Got msg" using assms(3) by (simp_all add: conn_at_def)
  then have ck: "conn_ok ?c" using assms(1) by (simp add: server_inv_def)
  note h = handleMessage_state [OF assms(2), where st = "hstate s (cn_client ?c)" and tok = "sv_token s" and msg = msg]
  note g = guard_view [OF h(5)]
  have i1: "server_inv ?s1"
    using h(3,4) g assms(1) by (intro inv_shared [OF assms(1)]) (simp_all add: server_inv_def)
  have "cl_attempts (cn_client ?c) < MaxAuthAttempts" using ck p(2) by (auto simp: conn_ok_def order_less_le)
  then have "conn_ok (?c\<lparr>cn_client := hs_client ?st, cn_pump := Handled\<rparr>)"
    using handleMessage_attempts [where st = "hstate s (cn_client ?c)" and w = w and tok = "sv_token s" and msg = msg]
      handleMessage_follows [where st = "hstate s (cn_client ?c)" and w = w and tok = "sv_token s" and msg = msg] ck
    by (auto simp: conn_ok_def client_follows_def)
  moreover have "cl_ip (hs_client ?st) = cl_ip (cn_client ?c)"
    using handleMessage_follows [where st = "hstate s (cn_client ?c)" and w = w and tok = "sv_token s" and msg = msg] by (simp add: client_follows_def)
  ultimately have "server_inv (put_conn p (?c\<lparr>cn_client := hs_client ?st, cn_pump := Handled\<rparr>) ?s1)"
    using p by (intro inv_put [OF i1]) simp_all
  then show ?thesis by (simp add: handle_step_def Let_def)
qed

text \<open>A running connection stops: its slot goes back and it leaves the registry.\<close>

lemma inv_stop:
  assumes "server_inv s" "p < length (sv_conns s)" "cn_pump (sv_conns s ! p) \<noteq> Stopped" "conn_ok c" "cn_pump c = Stopped"
  defines "ip \<equiv> cl_ip (cn_client (sv_conns s ! p))"
  shows "server_inv (put_conn p c (s\<lparr>sv_clients := sv_clients s |-| {|p|}, sv_guard := release (sv_guard s) ip\<rparr>))"
proof -
  let ?s = "put_conn p c (s\<lparr>sv_clients := sv_clients s |-| {|p|}, sv_guard := release (sv_guard s) ip\<rparr>)"
  have i: "slots_ok s" "registry_ok s" "\<forall>c \<in> set (sv_conns s). conn_ok c" "fs_wf (sv_fs s)" "log_place (sv_log s)"
    using assms(1) unfolding server_inv_def by blast+
  note hu = holders_update_stop [OF assms(2,3,5), of "sv_pending s"]
  have a: "ipg.accounts (sv_guard s) (holders s)" "ip \<in># holders s"
    using i(1) hu(2) by (simp_all add: slots_ok_def ip_def holders_def)
  have "holders ?s = holders s - {#ip#}" using hu(1) by (simp add: holders_def ip_def)
  with ipg.accounts_give_back [OF a] i(1) limits_ops(1) [of "sv_guard s" ip] have "slots_ok ?s"
    by (simp add: slots_ok_def same_limits_def)
  moreover have "registry_ok ?s"
    unfolding registry_ok_def
  proof (intro conjI allI)
    have "fcard (sv_clients s |-| {|p|}) \<le> fcard (sv_clients s)" by (rule fcard_mono) blast
    then show "fcard (sv_clients ?s) \<le> MaxClients" using i(2) by (simp add: registry_ok_def)
    fix q
    have r: "q |\<in>| sv_clients s \<longleftrightarrow> q < length (sv_conns s) \<and> running (sv_conns s ! q)"
      using i(2) unfolding registry_ok_def by blast
    have "\<not> running c" using assms(5) by (simp add: running_def)
    then show "q |\<in>| sv_clients ?s \<longleftrightarrow> q < length (sv_conns ?s) \<and> running (sv_conns ?s ! q)"
      using r assms(2) by (cases "q = p") simp_all
  qed
  moreover have "\<forall>c \<in> set (sv_conns ?s). conn_ok c" using conns_put [OF i(3) assms(4), of p] by simp
  moreover have "fs_wf (sv_fs ?s)" "log_place (sv_log ?s)" using i(4,5) by simp_all
  ultimately show ?thesis unfolding server_inv_def by blast
qed

section \<open>Every step keeps the invariant\<close>

lemma conn_ok_mono:
  assumes "conn_ok c" "cl_ipTracked (cn_client c') = cl_ipTracked (cn_client c)"
    "cl_attempts (cn_client c') = cl_attempts (cn_client c)"
    "cl_closed (cn_client c) \<Longrightarrow> cl_closed (cn_client c')" "(\<forall>m. cn_pump c' \<noteq> Got m) \<or> cn_pump c' = cn_pump c"
  shows "conn_ok c'"
  using assms by (auto simp: conn_ok_def)

lemma closeClient_simps [simp]:
  "cl_ip (closeClient c) = cl_ip c" "cl_ipTracked (closeClient c) = cl_ipTracked c"
  "cl_attempts (closeClient c) = cl_attempts c" "cl_authed (closeClient c) = cl_authed c" "cl_closed (closeClient c)"
  by (simp_all add: closeClient_def)

lemma pushSystemUpdate_simps [simp]:
  "cl_ip (pushSystemUpdate w c) = cl_ip c" "cl_ipTracked (pushSystemUpdate w c) = cl_ipTracked c"
  "cl_attempts (pushSystemUpdate w c) = cl_attempts c" "cl_authed (pushSystemUpdate w c) = cl_authed c"
  "cl_closed (pushSystemUpdate w c) = cl_closed c"
  by (simp_all add: pushSystemUpdate_def Let_def enqueue_def)

lemma writePump_simps [simp]:
  "cl_ip (cn_client (writePump w event c)) = cl_ip (cn_client c)"
  "cl_ipTracked (cn_client (writePump w event c)) = cl_ipTracked (cn_client c)"
  "cl_attempts (cn_client (writePump w event c)) = cl_attempts (cn_client c)"
  "cl_authed (cn_client (writePump w event c)) = cl_authed (cn_client c)"
  "cl_closed (cn_client c) \<Longrightarrow> cl_closed (cn_client (writePump w event c))"
  "cn_pump (writePump w event c) = cn_pump c" "cn_timer (writePump w event c) = cn_timer c"
  by (simp_all add: writePump_def end_writer_def Let_def split: writeEvent.split list.split option.split)

text \<open>What the pump has sent are the first messages of the queue, in order; it ends closed.\<close>

lemma writePump_sends:
  "\<exists>ms. cn_sent (writePump w event c) = cn_sent c @ ms \<and> prefix ms (cl_send (cn_client c))"
  "\<not> cn_writer (writePump w event c) \<Longrightarrow> cn_writer c \<Longrightarrow> cl_closed (cn_client (writePump w event c))"
  by (auto simp: writePump_def end_writer_def Let_def split: writeEvent.splits list.splits option.splits if_splits)

lemma SetAuditLogger_new: "SetAuditLogger l (NewServer tok fs None) = NewServer tok fs l"
  by (simp add: SetAuditLogger_def NewServer_def)

lemma greet_simps [simp]:
  "cl_ip (cn_client (greet w s c)) = cl_ip (cn_client c)"
  "cl_ipTracked (cn_client (greet w s c)) = cl_ipTracked (cn_client c)"
  "cl_attempts (cn_client (greet w s c)) = cl_attempts (cn_client c)" "cn_pump (greet w s c) = cn_pump c"
  by (simp_all add: greet_def)

lemma greet_closed: "cl_closed (cn_client c) \<Longrightarrow> cl_closed (cn_client (greet w s c))"
  by (simp add: greet_def sendAgentInfo_def Let_def sendMsg_closed)

lemma inv_conn: "server_inv s \<Longrightarrow> p < length (sv_conns s) \<Longrightarrow> conn_ok (sv_conns s ! p)"
  by (simp add: server_inv_def)

text \<open>A connection whose client keeps its counters, the pump moving between running states.\<close>

lemma inv_put_mono:
  assumes "server_inv s" "p < length (sv_conns s)"
    "cl_ip (cn_client c) = cl_ip (cn_client (sv_conns s ! p))"
    "cl_ipTracked (cn_client c) = cl_ipTracked (cn_client (sv_conns s ! p))"
    "cl_attempts (cn_client c) = cl_attempts (cn_client (sv_conns s ! p))"
    "cl_closed (cn_client (sv_conns s ! p)) \<Longrightarrow> cl_closed (cn_client c)"
    "(\<forall>m. cn_pump c \<noteq> Got m) \<or> cn_pump c = cn_pump (sv_conns s ! p)"
    "(cn_pump c = Stopped) = (cn_pump (sv_conns s ! p) = Stopped)"
    "(cn_pump c = Upgraded) = (cn_pump (sv_conns s ! p) = Upgraded)"
  shows "server_inv (put_conn p c s)"
  by (rule inv_put [OF assms(1,2) conn_ok_mono [OF inv_conn [OF assms(1,2)] assms(4-7)] assms(3,8,9)])

lemma inv_server_log:
  assumes "server_inv s"
  shows "server_inv (server_log w e s)"
  by (rule inv_shared [OF assms]) (use server_log_tree [of s w e] assms in \<open>simp_all add: server_inv_def\<close>)

lemma inv_admit:
  assumes "server_inv s" "admit now (sv_guard s) (remoteIP remote) = (g, ok, why)"
  shows "server_inv (if ok then s\<lparr>sv_guard := g, sv_pending := add_mset remote (sv_pending s)\<rparr> else s\<lparr>sv_guard := g\<rparr>)"
proof -
  let ?s = "if ok then s\<lparr>sv_guard := g, sv_pending := add_mset remote (sv_pending s)\<rparr> else s\<lparr>sv_guard := g\<rparr>"
  have i: "ipg.accounts (sv_guard s) (holders s)" "g_maxActive (sv_guard s) = MaxConnsPerIP"
    using assms(1) by (simp_all add: server_inv_def slots_ok_def)
  have a: "guard_acquire now (sv_guard s) (remoteIP remote) = (g, ok)" using assms(2) by (simp add: guard_acquire_def)
  have m: "g_maxActive g = MaxConnsPerIP" using ipg.acquire_limit [OF a] i(2) by simp
  have "slots_ok ?s"
  proof (cases ok)
    case True
    have "ipg.accounts g (add_mset (remoteIP remote) (holders s))"
      using ipg.accounts_acquire [OF i(1)] a True by simp
    moreover have "holders ?s = add_mset (remoteIP remote) (holders s)"
      using True by (simp add: holders_def holders_of_def)
    ultimately show ?thesis using True m by (simp add: slots_ok_def)
  next
    case False
    have "ipg.accounts g (holders s)" using ipg.accounts_refused [OF i(1)] a False by simp
    then show ?thesis using False m by (simp add: slots_ok_def holders_def)
  qed
  with assms(1) show ?thesis by (simp add: server_inv_def registry_ok_def)
qed

lemma inv_upgrade_failed:
  assumes "server_inv s" "remote \<in># sv_pending s"
  shows "server_inv (s\<lparr>sv_pending := sv_pending s - {#remote#}, sv_guard := release (sv_guard s) (remoteIP remote)\<rparr>)"
proof -
  let ?s = "s\<lparr>sv_pending := sv_pending s - {#remote#}, sv_guard := release (sv_guard s) (remoteIP remote)\<rparr>"
  have i: "ipg.accounts (sv_guard s) (holders s)" "g_maxActive (sv_guard s) = MaxConnsPerIP"
    using assms(1) by (simp_all add: server_inv_def slots_ok_def)
  obtain M where M: "sv_pending s = add_mset remote M" using assms(2) by (metis insert_DiffM)
  have h: "holders s = add_mset (remoteIP remote) (holders ?s)" by (simp add: holders_def holders_of_def M)
  have "ipg.accounts (release (sv_guard s) (remoteIP remote)) (holders s - {#remoteIP remote#})"
    by (rule ipg.accounts_give_back [OF i(1)]) (simp add: h)
  then have "slots_ok ?s" using h i(2) limits_ops(1) [of "sv_guard s" "remoteIP remote"]
    by (simp add: slots_ok_def same_limits_def)
  with assms(1) show ?thesis by (simp add: server_inv_def registry_ok_def)
qed

lemma inv_upgraded:
  assumes "server_inv s" "remote \<in># sv_pending s"
  shows "server_inv (s\<lparr>sv_pending := sv_pending s - {#remote#}, sv_conns := sv_conns s @ [newConn uuid remote]\<rparr>)"
proof -
  let ?s = "s\<lparr>sv_pending := sv_pending s - {#remote#}, sv_conns := sv_conns s @ [newConn uuid remote]\<rparr>"
  obtain M where M: "sv_pending s = add_mset remote M" using assms(2) by (metis insert_DiffM)
  have h: "holders ?s = holders s" by (simp add: holders_def holders_of_def M newConn_def newClient_def)
  have "slots_ok ?s" by (rule slots_same [of s]) (use assms(1) h in \<open>simp_all add: server_inv_def\<close>)
  moreover have "registry_ok ?s"
    unfolding registry_ok_def
  proof (intro conjI allI)
    show "fcard (sv_clients ?s) \<le> MaxClients" using assms(1) by (simp add: server_inv_def registry_ok_def)
    fix q
    have r: "q |\<in>| sv_clients s \<longleftrightarrow> q < length (sv_conns s) \<and> running (sv_conns s ! q)"
      using assms(1) unfolding server_inv_def registry_ok_def by blast
    have n: "\<not> running (newConn uuid remote)" by (simp add: running_def newConn_def)
    show "q |\<in>| sv_clients ?s \<longleftrightarrow> q < length (sv_conns ?s) \<and> running (sv_conns ?s ! q)"
      using r n by (cases "q < length (sv_conns s)") (auto simp: nth_append less_Suc_eq)
  qed
  moreover have "conn_ok (newConn uuid remote)"
    by (simp add: conn_ok_def newConn_def newClient_def MaxAuthAttempts_def)
  ultimately show ?thesis using assms(1) by (simp add: server_inv_def)
qed

lemma inv_registered:
  assumes "server_inv s" "conn_at s p {Upgraded}" "register p s = (s1, True)"
  shows "server_inv (put_conn p ((sv_conns s ! p)\<lparr>cn_pump := Registered\<rparr>) s1)"
proof -
  let ?c = "(sv_conns s ! p)\<lparr>cn_pump := Registered\<rparr>"
  have p: "p < length (sv_conns s)" "cn_pump (sv_conns s ! p) = Upgraded" using assms(2) by (simp_all add: conn_at_def)
  have s1: "s1 = s\<lparr>sv_clients := finsert p (sv_clients s)\<rparr>" "fcard (sv_clients s) < MaxClients"
    using assms(3) by (auto simp: register_def split: if_splits)
  let ?s = "put_conn p ?c s1"
  have h: "holders ?s = holders s" using holders_update_same [OF p(1), of ?c] p(2) by (simp add: holders_def s1)
  have "slots_ok ?s" by (rule slots_same [of s]) (use assms(1) h s1 in \<open>simp_all add: server_inv_def\<close>)
  moreover have "registry_ok ?s"
    unfolding registry_ok_def
  proof (intro conjI allI)
    have "fcard (finsert p (sv_clients s)) \<le> Suc (fcard (sv_clients s))" by (simp add: fcard_finsert_if)
    then show "fcard (sv_clients ?s) \<le> MaxClients" using s1 by simp
    fix q
    have r: "q |\<in>| sv_clients s \<longleftrightarrow> q < length (sv_conns s) \<and> running (sv_conns s ! q)"
      using assms(1) unfolding server_inv_def registry_ok_def by blast
    have n: "running ?c" by (simp add: running_def)
    show "q |\<in>| sv_clients ?s \<longleftrightarrow> q < length (sv_conns ?s) \<and> running (sv_conns ?s ! q)"
      using r n p(1) by (cases "q = p") (simp_all add: s1)
  qed
  moreover have "conn_ok ?c" by (rule conn_ok_mono [OF inv_conn [OF assms(1) p(1)]]) simp_all
  then have "\<forall>c \<in> set (sv_conns ?s). conn_ok c" using conns_put [of s ?c p] assms(1) by (simp add: server_inv_def s1)
  ultimately show ?thesis using assms(1) unfolding server_inv_def by (simp add: s1)
qed

lemma fminus_absent: "p |\<notin>| A \<Longrightarrow> A |-| {|p|} = A"
  by auto

lemma inv_full:
  assumes "server_inv s" "conn_at s p {Upgraded}" "c = sv_conns s ! p"
  shows "server_inv (put_conn p (c\<lparr>cn_client := closeClient (cn_client c), cn_pump := Stopped\<rparr>)
       (server_log w e (s\<lparr>sv_guard := release (sv_guard s) (cl_ip (cn_client c))\<rparr>)))"
proof -
  let ?c = "c\<lparr>cn_client := closeClient (cn_client c), cn_pump := Stopped\<rparr>"
  let ?g = "release (sv_guard s) (cl_ip (cn_client c))"
  have p: "p < length (sv_conns s)" "cn_pump c = Upgraded" using assms(2,3) by (simp_all add: conn_at_def)
  have "\<not> running c" using p(2) by (simp add: running_def)
  then have "p |\<notin>| sv_clients s" using assms(1,3) unfolding server_inv_def registry_ok_def by blast
  then have cl: "sv_clients s |-| {|p|} = sv_clients s" by (rule fminus_absent)
  have "conn_ok ?c" by (rule conn_ok_mono [OF inv_conn [OF assms(1) p(1)]]) (simp_all add: assms(3))
  from inv_stop [OF assms(1) p(1) _ this] p(2) assms(3) cl
  have "server_inv (put_conn p ?c (s\<lparr>sv_clients := sv_clients s, sv_guard := ?g\<rparr>))" by simp
  then have "server_inv (server_log w e (put_conn p ?c (s\<lparr>sv_clients := sv_clients s, sv_guard := ?g\<rparr>)))"
    by (rule inv_server_log)
  moreover have "server_log w e (put_conn p ?c (s\<lparr>sv_clients := sv_clients s, sv_guard := ?g\<rparr>))
      = put_conn p ?c (server_log w e (s\<lparr>sv_guard := ?g\<rparr>))"
    by (simp add: server_log_def put_conn_def split: prod.splits)
  ultimately show ?thesis by simp
qed

lemma inv_stop_reading:
  assumes "server_inv s" "conn_at s p {Reading, Handled}"
  shows "server_inv (stop_reading p s)"
proof -
  let ?c = "sv_conns s ! p"
  have p: "p < length (sv_conns s)" "cn_pump ?c \<noteq> Stopped" "running ?c" using assms(2) by (auto simp: conn_at_def running_def)
  have m: "p |\<in>| sv_clients s" using assms(1) p(1,3) unfolding server_inv_def registry_ok_def by blast
  have t: "cl_ipTracked (cn_client ?c)" using inv_conn [OF assms(1) p(1)] by (simp add: conn_ok_def)
  have "conn_ok (?c\<lparr>cn_client := closeClient (cn_client ?c), cn_pump := Stopped\<rparr>)"
    by (rule conn_ok_mono [OF inv_conn [OF assms(1) p(1)]]) simp_all
  from inv_stop [OF assms(1) p(1,2) this] show ?thesis
    using m t p(1) by (simp add: stop_reading_def unregister_def Let_def put_conn_def)
qed

lemma inv_auth_timeout:
  assumes "server_inv s" "p < length (sv_conns s)"
  shows "server_inv (auth_timeout w p s)"
proof (cases "cl_authed (cn_client (sv_conns s ! p))")
  case True
  have "server_inv (put_conn p ((sv_conns s ! p)\<lparr>cn_timer := False\<rparr>) s)"
    by (rule inv_put_mono [OF assms]) simp_all
  with True show ?thesis by (simp add: auth_timeout_def Let_def)
next
  case False
  let ?c = "sv_conns s ! p"
  let ?st = "record_ev w ''auth'' ResultDenied (lit ''not authenticated within the time limit'') (hstate s (cn_client ?c))"
  have "server_inv (put_shared ?st s)"
    by (rule inv_shared [OF assms(1)])
      (use assms(1) record_ev_effect(3,4) [of "hstate s (cn_client ?c)"] in \<open>simp_all add: server_inv_def\<close>)
  then have "server_inv (put_conn p (?c\<lparr>cn_client := closeClient (cn_client ?c), cn_timer := False\<rparr>) (put_shared ?st s))"
    by (rule inv_put_mono) (use assms(2) in simp_all)
  with False show ?thesis by (simp add: auth_timeout_def Let_def)
qed

lemma serve_inv:
  assumes "serve w s s'" "server_inv s" "env_ok (w_os w)"
  shows "server_inv s'"
  using assms(1)
proof cases
  case (refuse remote g reason)
  from inv_server_log [OF inv_admit [OF assms(2) refuse(2)]] refuse(1) show ?thesis by simp
next
  case (admitted remote g reason)
  from inv_admit [OF assms(2) admitted(2)] admitted(1) show ?thesis by simp
next
  case (upgrade_failed remote)
  with inv_upgrade_failed [OF assms(2)] show ?thesis by simp
next
  case (upgraded remote uuid)
  with inv_upgraded [OF assms(2)] show ?thesis by simp
next
  case (registered p s1)
  with inv_registered [OF assms(2)] show ?thesis by simp
next
  case (full p s1 c)
  then have "s1 = s" by (auto simp: register_def split: if_splits)
  with inv_full [OF assms(2) full(2) full(4)] full(1) show ?thesis by simp
next
  case (greeted p)
  then show ?thesis by (auto simp: conn_at_def greet_closed intro!: inv_put_mono [OF assms(2)])
next
  case (read_message p uuid msg)
  let ?c = "sv_conns s ! p"
  have p: "p < length (sv_conns s)" "cn_pump ?c = Reading" using read_message(2) by (simp_all add: conn_at_def)
  have "conn_ok (?c\<lparr>cn_pump := Got (with_defaults w uuid msg)\<rparr>)"
    using inv_conn [OF assms(2) p(1)] read_message(3) by (simp add: conn_ok_def)
  from inv_put [OF assms(2) p(1) this] p(2) read_message(1) show ?thesis by simp
next
  case (read_failed p)
  with inv_stop_reading [OF assms(2)] show ?thesis by simp
next
  case (handled p msg)
  with handle_step_inv [OF assms(2,3)] show ?thesis by simp
next
  case (refreshed p)
  then show ?thesis by (auto simp: conn_at_def intro!: inv_put_mono [OF assms(2)])
next
  case (timed_out p)
  with inv_auth_timeout [OF assms(2)] show ?thesis by simp
next
  case (timer_ended p)
  then show ?thesis by (auto intro!: inv_put_mono [OF assms(2)])
next
  case (pumped p c event)
  then show ?thesis by (auto intro!: inv_put_mono [OF assms(2)])
next
  case (shutdown_closes p c)
  then have "p < length (sv_conns s)" using assms(2) unfolding server_inv_def registry_ok_def by blast
  with shutdown_closes show ?thesis by (auto intro!: inv_put_mono [OF assms(2)])
qed

lemma initial_inv:
  assumes "fs_wf fs" "log_place logger"
  shows "server_inv (NewServer tok fs logger)"
  using assms
  by (simp add: server_inv_def NewServer_def slots_ok_def registry_ok_def holders_def holders_of_def
      ipg.accounts_def newIPGuard_def active_of_def MaxConnsPerIP_def fcard_fempty)

lemma reachable_inv:
  assumes "reachable s0 s" "server_inv s0"
  shows "server_inv s"
  using assms by (induction rule: reachable.induct) (auto intro: serve_inv)

end
