(* ===== verification/ServerProps.thy ===== *)
theory ServerProps
  imports ServerFacts
begin

text \<open>
  The properties of the agent's connections: limits, authentication, what a client without the
  token can reach, one answer per request, and silence after closing.
\<close>

section \<open>Concrete instances\<close>

definition demo_machine :: machine where
  "demo_machine = \<lparr>mc_hostname = ''host'', mc_goos = ''linux'', mc_goarch = ''amd64'', mc_platform = None,
     mc_cpu_percent = [], mc_cpu_cores = 1, mc_cpu_models = [], mc_memory = None, mc_partitions = [],
     mc_usage = (\<lambda>_. None), mc_uptime = 0, mc_ifaces = None\<rparr>"

definition demo_world :: World where
  "demo_world = \<lparr>w_os = quiet, w_now = 1, w_race = (\<lambda>_. False), w_windows = False,
     w_run = (\<lambda>_. \<lparr>pr_deadline = False, pr_error = None, pr_stdout = [], pr_stderr = [], pr_millis = 0\<rparr>),
     w_elapsed = ''0s'', w_displays = \<lparr>dp_count = 0, dp_bounds = (\<lambda>_. (0, 0)), dp_capture = (\<lambda>_. Inr (Inr []))\<rparr>,
     w_machine = demo_machine, w_monitor = NewMonitor ''1'' demo_machine, w_text = (\<lambda>_. [])\<rparr>"

definition root_fs :: fsys where
  "root_fs = fmupd ''/'' Dir fmempty"

lemma root_wf [simp]: "fs_wf root_fs"
  using clean_abs_root unfolding fs_wf_iff root_fs_def by (auto simp: DirOf_def split: if_splits) code_simp

lemma demo_env [simp]: "env_ok (w_os demo_world)"
  by (simp add: demo_world_def)

section \<open>Limits\<close>

text \<open>(C27) Connection limits: in every reachable state at most 128 clients are registered, and for
  every address the guard's count is the number of its handshakes in flight and connections, at
  most 16; so slots are neither leaked nor released twice.\<close>

theorem server_limits:
  assumes "reachable (NewServer tok fs logger) s" "fs_wf fs" "log_place logger"
  shows "fcard (sv_clients s) \<le> 128 \<and>
     (\<forall>ip. active_of (sv_guard s) ip = int (count (holders s) ip) \<and> count (holders s) ip \<le> 16)"
proof -
  have i: "server_inv s" by (rule reachable_inv [OF assms(1) initial_inv [OF assms(2,3)]])
  then have "ipg.accounts (sv_guard s) (holders s)" "g_maxActive (sv_guard s) = 16"
    by (simp_all add: server_inv_def slots_ok_def MaxConnsPerIP_def)
  moreover have "int (count (holders s) ip) \<le> g_maxActive (sv_guard s)" for ip
    by (rule ipg.accounts_bound [OF calculation(1)])
  moreover have "fcard (sv_clients s) \<le> 128" using i by (simp add: server_inv_def registry_ok_def MaxClients_def)
  ultimately show ?thesis by (auto simp: ipg.accounts_def)
qed

text \<open>(C28) Brute force on one connection: no client ever counts more than five failed
  authentications, and the fifth closes it for good.\<close>

theorem auth_attempts_bounded:
  assumes "reachable (NewServer tok fs logger) s" "fs_wf fs" "log_place logger" "c \<in> set (sv_conns s)"
  shows "cl_attempts (cn_client c) \<le> 5 \<and> (cl_attempts (cn_client c) = 5 \<longrightarrow> cl_closed (cn_client c))"
  using reachable_inv [OF assms(1) initial_inv [OF assms(2,3)]] assms(4)
  by (auto simp: server_inv_def conn_ok_def MaxAuthAttempts_def)

text \<open>A run that admits and upgrades one connection, for the instances.\<close>

definition demo_guard :: ipGuard where
  "demo_guard = fst (admit 1 newIPGuard (remoteIP ''10.0.0.5:4000''))"

definition demo_server :: Server where
  "demo_server = (NewServer ''secret'' root_fs None)\<lparr>sv_guard := demo_guard,
     sv_conns := [newConn ''id-1'' ''10.0.0.5:4000'']\<rparr>"

lemma demo_reachable: "reachable (NewServer ''secret'' root_fs None) demo_server"
proof -
  let ?s0 = "NewServer ''secret'' root_fs None"
  let ?s1 = "?s0\<lparr>sv_guard := demo_guard, sv_pending := add_mset ''10.0.0.5:4000'' (sv_pending ?s0)\<rparr>"
  have a: "admit (w_now demo_world) (sv_guard ?s0) (remoteIP ''10.0.0.5:4000'') = (demo_guard, True, '''')"
    by (simp add: demo_world_def NewServer_def demo_guard_def admit_def newIPGuard_def active_of_def MaxConnsPerIP_def)
  have 1: "reachable ?s0 ?s1"
    by (rule reachable.step [OF reachable.start demo_env serve.admitted [OF a]])
  have "serve demo_world ?s1 (?s1\<lparr>sv_pending := sv_pending ?s1 - {#''10.0.0.5:4000''#},
      sv_conns := sv_conns ?s1 @ [newConn ''id-1'' ''10.0.0.5:4000'']\<rparr>)"
    by (rule serve.upgraded) simp
  from reachable.step [OF 1 demo_env this] show ?thesis
    by (simp add: demo_server_def NewServer_def)
qed

lemma server_limits_witness:
  "active_of (sv_guard demo_server) ''10.0.0.5'' = int (count (holders demo_server) ''10.0.0.5'')"
  using server_limits [OF demo_reachable root_wf] by (simp add: log_place_def)

lemma auth_attempts_bounded_witness: "cl_attempts (cn_client (newConn ''id-1'' ''10.0.0.5:4000'')) \<le> 5"
  using auth_attempts_bounded [OF demo_reachable root_wf, of "newConn ''id-1'' ''10.0.0.5:4000''"]
  by (simp add: log_place_def demo_server_def)

section \<open>Authentication\<close>

text \<open>(C3) A client without authentication that does not present the token reaches nothing: whatever
  it sends, every file outside the audit log keeps its content (directories on the log's path
  may be created), it stays unauthenticated, and its address cannot clear its failures.\<close>

theorem unauthenticated_reaches_nothing:
  assumes "\<not> cl_authed (hs_client st)" "\<not> (msg_type msg = MsgAuth \<and> right_token tok msg)" "env_ok (w_os w)"
  shows "keeps_files (log_paths (hs_log st)) (hs_fs st) (hs_fs (handleMessage w tok msg st))
     \<and> \<not> cl_authed (hs_client (handleMessage w tok msg st))
     \<and> hs_guard (handleMessage w tok msg st) \<in> {hs_guard st, fail (w_now w) (hs_guard st) (cl_ip (hs_client st))}"
proof -
  have k: "keeps_files (log_paths (hs_log st)) (hs_fs st) (hs_fs (handleMessage w tok msg st))"
    using handleMessage_state(1) [OF assms(3), of st msg tok] assms(1) by (simp add: reach_paths_def)
  have a: "\<not> cl_authed (hs_client (handleMessage w tok msg st))" using handleMessage_authed assms(1,2) by blast
  have "hs_guard (handleMessage w tok msg st) \<in> {hs_guard st, fail (w_now w) (hs_guard st) (cl_ip (hs_client st))}"
  proof (cases "msg_type msg = MsgAuth")
    case True
    then have "\<not> right_token tok msg" using assms(2) by blast
    then show ?thesis using True handleAuth_wrong(1) [of tok msg w st] handleAuth_malformed [of tok msg w st]
      by (cases "wrong_token tok msg") (simp_all add: handleMessage_def)
  next
    case False
    with assms(1) show ?thesis by (simp add: handleMessage_def)
  qed
  with k a show ?thesis by blast
qed

definition demo_state :: HState where
  "demo_state = hstate (NewServer ''secret'' root_fs None) (newClient ''id-1'' ''10.0.0.5:4000'')"

definition demo_exec :: Message where
  "demo_exec = \<lparr>msg_id = ''7'', msg_type = MsgExecCommand, msg_payload = JObj [(''command'', JStr ''id'')], msg_time = 1,
     msg_error = no_text\<rparr>"

lemma demo_exec_type: "msg_type demo_exec \<noteq> MsgAuth" "msg_type demo_exec \<noteq> MsgKeepAlive" "msg_id demo_exec = ''7''"
  by (simp_all add: demo_exec_def msg_types)

lemma unauthenticated_reaches_nothing_witness:
  "\<not> cl_authed (hs_client (handleMessage demo_world ''secret'' demo_exec demo_state))"
  using unauthenticated_reaches_nothing [of demo_state demo_exec "''secret''" demo_world] demo_exec_type
  by (simp add: demo_state_def newClient_def)

lemma put_conn_authed:
  "cl_authed (cn_client c) = cl_authed (cn_client (xs ! q)) \<Longrightarrow>
    cl_authed (cn_client (xs[q := c] ! p)) = cl_authed (cn_client (xs ! p))"
  by (cases "q = p"; cases "p < length xs") (simp_all add: list_update_beyond)

lemma unregister_authed: "cl_authed (cn_client (sv_conns (unregister q s) ! p)) = cl_authed (cn_client (sv_conns s ! p))"
  by (simp add: unregister_def Let_def put_conn_authed)

lemma stop_reading_authed: "cl_authed (cn_client (sv_conns (stop_reading q s) ! p)) = cl_authed (cn_client (sv_conns s ! p))"
  by (simp add: stop_reading_def Let_def put_conn_authed unregister_authed)

lemma auth_timeout_authed: "cl_authed (cn_client (sv_conns (auth_timeout w q s) ! p)) = cl_authed (cn_client (sv_conns s ! p))"
  by (simp add: auth_timeout_def Let_def put_conn_authed)

lemma register_conns: "register q s = (s1, ok) \<Longrightarrow> sv_conns s1 = sv_conns s"
  by (auto simp: register_def split: if_splits)

lemma authed_step:
  assumes "serve w s s'" "p < length (sv_conns s)" "cn_pump (sv_conns s ! p) \<noteq> Registered"
    "\<forall>msg. cn_pump (sv_conns s ! p) \<noteq> Got msg"
  shows "cl_authed (cn_client (sv_conns s' ! p)) = cl_authed (cn_client (sv_conns s ! p))"
  using assms(1)
proof cases
  case (greeted q)
  with assms(3) show ?thesis by (cases "q = p") (simp_all add: conn_at_def)
next
  case (handled q msg)
  with assms(4) show ?thesis by (cases "q = p") (simp_all add: conn_at_def handle_step_def Let_def)
next
  case (read_failed q)
  then show ?thesis by (simp add: stop_reading_authed)
next
  case (timed_out q)
  then show ?thesis by (simp add: auth_timeout_authed)
next
  case (upgraded remote uuid)
  with assms(2) show ?thesis by (simp add: nth_append)
next
  case (registered q s1)
  then show ?thesis by (simp add: register_conns put_conn_authed)
next
  case (full q s1 c)
  then show ?thesis by (simp add: register_conns put_conn_authed)
qed (simp_all add: put_conn_authed)

lemma greeted_authed:
  assumes "serve w s s'" "p < length (sv_conns s)" "cn_pump (sv_conns s ! p) = Registered"
  shows "cl_authed (cn_client (sv_conns s' ! p)) \<longrightarrow> cl_authed (cn_client (sv_conns s ! p)) \<or> sv_token s = []"
  using assms(1)
proof cases
  case (greeted q)
  with assms(2) show ?thesis by (cases "q = p") (auto simp: greet_def)
next
  case (handled q msg)
  with assms(3) show ?thesis by (cases "q = p") (simp_all add: conn_at_def handle_step_def Let_def)
next
  case (read_failed q)
  then show ?thesis by (simp add: stop_reading_authed)
next
  case (timed_out q)
  then show ?thesis by (simp add: auth_timeout_authed)
next
  case (upgraded remote uuid)
  with assms(2) show ?thesis by (simp add: nth_append)
next
  case (registered q s1)
  then show ?thesis by (simp add: register_conns put_conn_authed)
next
  case (full q s1 c)
  then show ?thesis by (simp add: register_conns put_conn_authed)
qed (simp_all add: put_conn_authed)

lemma handled_authed:
  assumes "serve w s s'" "p < length (sv_conns s)" "cn_pump (sv_conns s ! p) = Got msg"
  shows "cl_authed (cn_client (sv_conns s' ! p)) \<longrightarrow> cl_authed (cn_client (sv_conns s ! p))
     \<or> (msg_type msg = MsgAuth \<and> right_token (sv_token s) msg)"
  using assms(1)
proof cases
  case (greeted q)
  with assms(3) show ?thesis by (cases "q = p") (simp_all add: conn_at_def)
next
  case (handled q msg')
  with assms(2,3) show ?thesis
    by (cases "q = p") (simp_all add: conn_at_def handle_step_def Let_def handleMessage_authed)
next
  case (read_failed q)
  then show ?thesis by (simp add: stop_reading_authed)
next
  case (timed_out q)
  then show ?thesis by (simp add: auth_timeout_authed)
next
  case (upgraded remote uuid)
  with assms(2) show ?thesis by (simp add: nth_append)
next
  case (registered q s1)
  then show ?thesis by (simp add: register_conns put_conn_authed)
next
  case (full q s1 c)
  then show ?thesis by (simp add: register_conns put_conn_authed)
qed (simp_all add: put_conn_authed)

text \<open>Authentication only by the token: a step of the server after which a connection is
  authenticated and was not before is the handling of an auth message with the configured token,
  or the greeting of a server without a token.\<close>

theorem authenticated_only_by_token:
  assumes "serve w s s'" "p < length (sv_conns s)" "\<not> cl_authed (cn_client (sv_conns s ! p))"
    "cl_authed (cn_client (sv_conns s' ! p))"
  shows "sv_token s = [] \<or> (\<exists>msg. cn_pump (sv_conns s ! p) = Got msg \<and> msg_type msg = MsgAuth \<and> right_token (sv_token s) msg)"
proof -
  consider "cn_pump (sv_conns s ! p) = Registered" | msg where "cn_pump (sv_conns s ! p) = Got msg"
    using authed_step [OF assms(1,2)] assms(3,4) by blast
  then show ?thesis
  proof cases
    case 1
    from greeted_authed [OF assms(1,2) 1] assms(3,4) show ?thesis by blast
  next
    case (2 msg)
    from handled_authed [OF assms(1,2) 2] assms(3,4) 2 show ?thesis by blast
  qed
qed

definition demo_auth :: Message where
  "demo_auth = \<lparr>msg_id = ''1'', msg_type = MsgAuth, msg_payload = encode_auth \<lparr>au_token = ''secret'', au_username = ''bob''\<rparr>,
     msg_time = 1, msg_error = no_text\<rparr>"

definition demo_got :: Server where
  "demo_got = demo_server\<lparr>sv_conns := [(newConn ''id-1'' ''10.0.0.5:4000'')\<lparr>cn_pump := Got demo_auth\<rparr>]\<rparr>"

lemma demo_auth_right: "right_token ''secret'' demo_auth" "msg_type demo_auth = MsgAuth"
  by (simp_all add: right_token_def demo_auth_def encode_auth_def omit_def decode_auth_def Unmarshal_def auth_field_def)

lemma authenticated_only_by_token_witness:
  "cl_authed (cn_client (sv_conns (handle_step demo_world 0 demo_auth demo_got) ! 0))
     \<and> (\<exists>msg. cn_pump (sv_conns demo_got ! 0) = Got msg \<and> right_token ''secret'' msg)"
proof -
  have st: "serve demo_world demo_got (handle_step demo_world 0 demo_auth demo_got)"
    by (rule serve.handled) (simp add: conn_at_def demo_got_def)
  have a: "cl_authed (cn_client (sv_conns (handle_step demo_world 0 demo_auth demo_got) ! 0))"
    using demo_auth_right
    by (simp add: handle_step_def Let_def handleMessage_authed demo_got_def demo_server_def NewServer_def)
  from authenticated_only_by_token [OF st _ _ a] a show ?thesis
    by (auto simp: demo_got_def demo_server_def NewServer_def newConn_def newClient_def)
qed

text \<open>(C29) Every request is answered once: after any message but a keep-alive, either the connection
  is closed or exactly one message with the request's identifier has been queued, first, and
  whatever follows it (the greeting after authentication) bears none.\<close>

theorem request_answered:
  assumes "msg_type msg \<noteq> MsgKeepAlive" "\<not> cl_closed (hs_client (handleMessage w tok msg st))"
  shows "\<exists>m rest. msg_id m = msg_id msg \<and> (\<forall>r \<in> set rest. msg_id r = []) \<and>
     cl_send (hs_client (handleMessage w tok msg st)) = cl_send (hs_client st) @ m # rest"
  using assms by (rule handleMessage_answer)

lemma request_answered_witness:
  "\<exists>m rest. msg_id m = ''7'' \<and> cl_send (hs_client (handleMessage demo_world ''secret'' demo_exec demo_state)) = m # rest"
proof -
  have "\<not> cl_closed (hs_client (handleMessage demo_world ''secret'' demo_exec demo_state))"
    using demo_exec_type by (simp add: handleMessage_def demo_state_def newClient_def sendMsg_def enqueue_def SendQueue_def)
  from request_answered [OF demo_exec_type(2) this] demo_exec_type(3) show ?thesis
    by (auto simp: demo_state_def newClient_def)
qed

section \<open>After closing\<close>

lemma closed_step:
  assumes "serve w s s'" "p < length (sv_conns s)" "cl_closed (cn_client (sv_conns s ! p))"
    "\<forall>msg. cn_pump (sv_conns s ! p) \<noteq> Got msg"
  shows "p < length (sv_conns s') \<and> cl_closed (cn_client (sv_conns s' ! p)) \<and> (\<forall>msg. cn_pump (sv_conns s' ! p) \<noteq> Got msg)"
proof -
  have upd: "p < length xs \<and> cl_closed (cn_client (xs ! p)) \<and> (\<forall>msg. cn_pump (xs ! p) \<noteq> Got msg)"
    if "xs = (sv_conns s)[q := c]" "q = p \<Longrightarrow> cl_closed (cn_client c) \<and> (\<forall>msg. cn_pump c \<noteq> Got msg)" for xs q c
    using that assms(2-4) by (cases "q = p") simp_all
  have un: "p < length (sv_conns (unregister q s)) \<and> cl_closed (cn_client (sv_conns (unregister q s) ! p))
      \<and> (\<forall>msg. cn_pump (sv_conns (unregister q s) ! p) \<noteq> Got msg)" for q
    using assms(2-4) by (cases "q = p") (simp_all add: unregister_def Let_def)
  from assms(1) show ?thesis
  proof cases
    case (upgraded remote uuid)
    with assms(2-4) show ?thesis by (simp add: nth_append)
  next
    case (registered q s1)
    with assms(4) upd [of "sv_conns s'" q "(sv_conns s ! q)\<lparr>cn_pump := Registered\<rparr>"] assms(3) show ?thesis
      by (simp add: register_conns)
  next
    case (full q s1 c)
    with upd [of "sv_conns s'" q "c\<lparr>cn_client := closeClient (cn_client c), cn_pump := Stopped\<rparr>"] show ?thesis
      by (simp add: register_conns)
  next
    case (greeted q)
    with upd [of "sv_conns s'" q "(greet w s (sv_conns s ! q))\<lparr>cn_pump := Reading, cn_writer := True\<rparr>"] assms(3) show ?thesis
      by (simp add: greet_closed)
  next
    case (read_message q uuid msg)
    with upd [of "sv_conns s'" q "(sv_conns s ! q)\<lparr>cn_pump := Got (with_defaults w uuid msg)\<rparr>"] assms(3) show ?thesis
      by auto
  next
    case (read_failed q)
    with un [of q] show ?thesis by (cases "q = p") (simp_all add: stop_reading_def Let_def)
  next
    case (handled q msg)
    with assms(4) have "q \<noteq> p" by (auto simp: conn_at_def)
    with handled(1) assms(2-4) show ?thesis by (simp add: handle_step_def Let_def)
  next
    case (refreshed q)
    with upd [of "sv_conns s'" q "(sv_conns s ! q)\<lparr>cn_pump := Reading\<rparr>"] assms(3) show ?thesis by auto
  next
    case (timed_out q)
    with assms(2-4) show ?thesis by (cases "q = p") (simp_all add: auth_timeout_def Let_def)
  next
    case (timer_ended q)
    with assms(2-4) show ?thesis by (cases "q = p") simp_all
  next
    case (pumped q c event)
    with assms(2-4) show ?thesis by (cases "q = p") simp_all
  next
    case (shutdown_closes q c)
    with assms(2-4) show ?thesis by (cases "q = p") simp_all
  qed (use assms(2-4) in simp_all)
qed

text \<open>Silence after closing: once a connection is closed and is not in the middle of handling a
  message, it stays closed and never handles another message, however the other goroutines run.\<close>

theorem closed_stays_silent:
  assumes "reachable s s'" "p < length (sv_conns s)" "cl_closed (cn_client (sv_conns s ! p))"
    "\<forall>msg. cn_pump (sv_conns s ! p) \<noteq> Got msg"
  shows "cl_closed (cn_client (sv_conns s' ! p)) \<and> (\<forall>msg. cn_pump (sv_conns s' ! p) \<noteq> Got msg)"
proof -
  have "p < length (sv_conns s') \<and> cl_closed (cn_client (sv_conns s' ! p)) \<and> (\<forall>msg. cn_pump (sv_conns s' ! p) \<noteq> Got msg)"
    using assms by (induction rule: reachable.induct) (auto intro: closed_step [THEN conjunct1]
      dest: closed_step [THEN conjunct2])
  then show ?thesis by blast
qed

definition demo_closed :: Server where
  "demo_closed = demo_server\<lparr>sv_conns := [(newConn ''id-1'' ''10.0.0.5:4000'')
     \<lparr>cn_client := closeClient (newClient ''id-1'' ''10.0.0.5:4000''), cn_pump := Reading\<rparr>]\<rparr>"

lemma closed_stays_silent_witness:
  "\<forall>msg. cn_pump (sv_conns (stop_reading 0 demo_closed) ! 0) \<noteq> Got msg"
proof -
  have "serve demo_world demo_closed (stop_reading 0 demo_closed)"
    by (rule serve.read_failed) (simp add: conn_at_def demo_closed_def)
  then have "reachable demo_closed (stop_reading 0 demo_closed)"
    by (rule reachable.step [OF reachable.start demo_env])
  from closed_stays_silent [OF this, of 0] show ?thesis by (simp add: demo_closed_def)
qed

end
