(* ===== verification/GoLoop.thy ===== *)
theory GoLoop
  imports Prelude
begin

text \<open>
  The Go loop \<^verbatim>\<open>for { ... }\<close>: a body that either leaves the loop with a value or
  goes on with a new state. A loop that is never left has the value \<open>None\<close>. The two rules are
  the loop's proof obligations: what holds when it is left, and that it is left at all.
\<close>

partial_function (option) go_loop :: "('s \<Rightarrow> 'b + 's) \<Rightarrow> 's \<Rightarrow> 'b option" where
  "go_loop body s = (case body s of Inl x \<Rightarrow> Some x | Inr s' \<Rightarrow> go_loop body s')"

lemma go_loop_leave: "body s = Inl x \<Longrightarrow> go_loop body s = Some x"
  by (subst go_loop.simps) simp

lemma go_loop_next: "body s = Inr s' \<Longrightarrow> go_loop body s = go_loop body s'"
  by (subst go_loop.simps) simp

text \<open>Partial correctness: an invariant of the body gives the postcondition of the value.\<close>

lemma go_loop_partial_all:
  fixes body :: "'s \<Rightarrow> 'b + 's"
  assumes "go_loop body s = Some x"
  shows "(\<forall>t y. I t \<longrightarrow> body t = Inl y \<longrightarrow> Q y) \<longrightarrow>
   (\<forall>t t'. I t \<longrightarrow> body t = Inr t' \<longrightarrow> I t') \<longrightarrow> I s \<longrightarrow> Q x" (is "?P body s x")
  using assms
proof (rule go_loop.raw_induct [rotated])
  fix loop and body :: "'s \<Rightarrow> 'b + 's" and s x
  assume IH: "\<And>b t y. loop b t = Some y \<Longrightarrow> ?P b t y"
    and eq: "(case body s of Inl x \<Rightarrow> Some x | Inr s' \<Rightarrow> loop body s') = Some x"
  show "?P body s x"
  proof (cases "body s")
    case (Inl y)
    with eq show ?thesis by simp
  next
    case (Inr s')
    with eq have "loop body s' = Some x" by simp
    with IH Inr show ?thesis by blast
  qed
qed

lemma go_loop_partial:
  assumes "go_loop body s = Some x" "I s"
    and "\<And>t y. I t \<Longrightarrow> body t = Inl y \<Longrightarrow> Q y"
    and "\<And>t t'. I t \<Longrightarrow> body t = Inr t' \<Longrightarrow> I t'"
  shows "Q x"
  using go_loop_partial_all [of body s x I Q] assms by blast

text \<open>Total correctness: the invariant, and a measure that every round decreases.\<close>

lemma go_loop_total:
  fixes m :: "'s \<Rightarrow> nat"
  assumes "I s"
    and leave: "\<And>t y. I t \<Longrightarrow> body t = Inl y \<Longrightarrow> Q y"
    and again: "\<And>t t'. I t \<Longrightarrow> body t = Inr t' \<Longrightarrow> I t' \<and> m t' < m t"
  shows "\<exists>x. go_loop body s = Some x \<and> Q x"
  using assms(1)
proof (induction "m s" arbitrary: s rule: less_induct)
  case less
  show ?case
  proof (cases "body s")
    case (Inl x)
    with leave [OF less.prems] show ?thesis by (simp add: go_loop_leave)
  next
    case (Inr s')
    with again [OF less.prems] less.hyps [of s'] show ?thesis by (simp add: go_loop_next)
  qed
qed

end
