(* ===== verification/FileTransfer.thy ===== *)
theory FileTransfer
  imports Filesystem GoLoop
begin

text \<open>
  File transfer as the controller runs it
  (\<^verbatim>\<open>control-center/backend/transfer/transfer.go\<close>): download into a temporary file
  that replaces the destination only after size and digest have been checked, and upload in
  acknowledged chunks with a cancel request when it fails.

  The agent is a \<open>requester\<close>: a function of its own state that answers a request, as the
  interface \<^verbatim>\<open>Requester\<close> has it. The context is polled: \<open>ctx k\<close> is the answer to its
  \<open>k\<close>-th poll. The local machine may behave differently in every round: \<open>En k\<close> is the
  environment of round \<open>k\<close>.
\<close>

type_synonym 'r requester =
  "'r \<Rightarrow> string \<Rightarrow> string \<Rightarrow> json \<Rightarrow> int \<Rightarrow> 'r \<times> Message option \<times> goerr option"

type_synonym ctx_polls = "nat \<Rightarrow> goerr option"

definition TransferChunkSize :: int where "TransferChunkSize = 64 * 1024"

definition cancelFileMessage :: string where "cancelFileMessage = ''cancel_file''"

section \<open>Validation and decoding\<close>

definition validateRequest ::
  "ctx_polls option \<Rightarrow> 'r requester option \<Rightarrow> string \<Rightarrow> string \<Rightarrow> string \<Rightarrow> goerr option" where
  "validateRequest ctx requester agentID firstPath secondPath =
     (if ctx = None then Some (lit ''transfer context cannot be nil'')
      else if requester = None then Some (lit ''transfer requester cannot be nil'')
      else if TrimSpace agentID = [] then Some (lit ''agent ID cannot be empty'')
      else if TrimSpace firstPath = [] then Some (lit ''transfer path cannot be empty'')
      else if TrimSpace secondPath = [] then Some (lit ''transfer destination cannot be empty'')
      else None)"

definition decodePayload :: "(json \<Rightarrow> 'a option) \<Rightarrow> Message option \<Rightarrow> 'a result" where
  "decodePayload decode response = (case response of
       None \<Rightarrow> Inl (lit ''empty response'')
     | Some m \<Rightarrow> (case decode (via_interface (msg_payload m)) of
           None \<Rightarrow> Inl (lit ''json: cannot unmarshal'')
         | Some x \<Rightarrow> Inr x))"

text \<open>The temporary file is read through its open handle.\<close>

definition verifyChecksum :: "osenv \<Rightarrow> fsys \<Rightarrow> path \<Rightarrow> string \<Rightarrow> goerr option" where
  "verifyChecksum E fs file expected = (case fault E SSeek file of
       Some err \<Rightarrow> Some (Sprintf ''cannot verify transferred file: %w'' [GOs err])
     | None \<Rightarrow> (case fmlookup fs file of
         None \<Rightarrow> Some (Sprintf ''cannot verify transferred file: %w'' [GOs EIO])
       | Some nd \<Rightarrow> (case read_all E nd file of
           Inl err \<Rightarrow> Some (Sprintf ''cannot verify transferred file: %w'' [GOs err])
         | Inr content \<Rightarrow> if \<not> EqualFold (sha256_hex content) expected
             then Some (lit ''transfer checksum mismatch'') else None)))"

section \<open>Download\<close>

text \<open>\<open>dn_written\<close> is the position of the temporary file's handle.\<close>

record 'r dnState =
  dn_round :: nat
  dn_offset :: int
  dn_total :: int
  dn_written :: nat
  dn_fs :: fsys
  dn_remote :: 'r

text \<open>The checks on a chunk before it is written, in the code's order; \<open>tot\<close> is -1 at first.\<close>

definition download_total :: "int \<Rightarrow> FileChunkPayload \<Rightarrow> int" where
  "download_total tot chunk = (if tot < 0 then fc_total_size chunk else tot)"

definition download_check :: "int \<Rightarrow> int \<Rightarrow> FileChunkPayload \<Rightarrow> goerr option" where
  "download_check offset tot chunk =
     (if fc_offset chunk \<noteq> offset
      then Some (Sprintf ''file chunk offset mismatch: received %d, expected %d'' [GInt (fc_offset chunk), GInt offset])
      else if int (length (fc_data chunk)) > TransferChunkSize
      then Some (Sprintf ''file chunk exceeds %d bytes'' [GInt TransferChunkSize])
      else if \<not> tot < 0 \<and> fc_total_size chunk \<noteq> tot
      then Some (lit ''file size changed during transfer'')
      else if download_total tot chunk < 0
        \<or> add64 offset (int (length (fc_data chunk))) > download_total tot chunk
      then Some (lit ''invalid file chunk size'')
      else if \<not> fc_final chunk \<and> fc_data chunk = []
      then Some (lit ''agent returned an empty non-final file chunk'')
      else None)"

text \<open>After the chunk has been written: \<open>None\<close> goes on, \<open>Some r\<close> leaves the loop with \<open>r\<close>.\<close>

definition download_after ::
  "osenv \<Rightarrow> fsys \<Rightarrow> path \<Rightarrow> int \<Rightarrow> int \<Rightarrow> FileChunkPayload \<Rightarrow> goerr option option" where
  "download_after E fs part offset tot chunk =
     (if \<not> fc_final chunk
      then (if offset \<ge> tot then Some (Some (lit ''non-final chunk reached the advertised file size'')) else None)
      else if offset \<noteq> tot
      then Some (Some (Sprintf ''final chunk ended at %d, expected %d'' [GInt offset, GInt tot]))
      else if fc_checksum chunk = [] then Some (Some (lit ''final file chunk is missing its checksum''))
      else Some (verifyChecksum E fs part (fc_checksum chunk)))"

definition download_round ::
  "'r requester \<Rightarrow> ctx_polls \<Rightarrow> (nat \<Rightarrow> osenv) \<Rightarrow> string \<Rightarrow> string \<Rightarrow> path \<Rightarrow> int
    \<Rightarrow> 'r dnState \<Rightarrow> ('r dnState \<times> goerr option) + 'r dnState" where
  "download_round requester ctx En agentID remotePath part timeout s =
     (let k = dn_round s; offset = dn_offset s in
      case ctx k of Some err \<Rightarrow> Inl (s, Some (Sprintf ''download cancelled: %w'' [GErr err]))
      | None \<Rightarrow>
     (case requester (dn_remote s) agentID MsgGetFile (encode_get_file
          \<lparr>gf_path = remotePath, gf_offset = offset, gf_chunk_size = TransferChunkSize\<rparr>) timeout of
        (r1, _, Some err) \<Rightarrow> Inl (s\<lparr>dn_remote := r1\<rparr>, Some (Sprintf ''file transfer failed: %w'' [GErr err]))
      | (r1, response, None) \<Rightarrow>
     (let s1 = s\<lparr>dn_remote := r1\<rparr> in
      case decodePayload decode_file_chunk response of
        Inl err \<Rightarrow> Inl (s1, Some (Sprintf ''invalid file chunk response: %w'' [GErr err]))
      | Inr chunk \<Rightarrow>
     (case download_check offset (dn_total s) chunk of Some err \<Rightarrow> Inl (s1, Some err)
      | None \<Rightarrow>
      let tot = download_total (dn_total s) chunk in
      (case write_at (En k) (dn_fs s) part (fc_data chunk) (dn_written s) of
        (fs1, _, Some err) \<Rightarrow>
          Inl (s1\<lparr>dn_fs := fs1, dn_total := tot\<rparr>, Some (Sprintf ''cannot write downloaded chunk: %w'' [GOs err]))
      | (fs1, n, None) \<Rightarrow>
          let s2 = s1\<lparr>dn_fs := fs1, dn_total := tot, dn_written := dn_written s + n, dn_offset := add64 offset (int (length (fc_data chunk)))\<rparr>
          in (case download_after (En k) fs1 part (dn_offset s2) tot chunk of
                Some r \<Rightarrow> Inl (s2, r)
              | None \<Rightarrow> Inr (s2\<lparr>dn_round := Suc k\<rparr>)))))))"

text \<open>After the loop: flush, close, and rename over the destination.\<close>

definition download_commit :: "osenv \<Rightarrow> fsys \<Rightarrow> path \<Rightarrow> path \<Rightarrow> fsys \<times> goerr option" where
  "download_commit E fs part destination =
     (case fault E SSync part of
        Some err \<Rightarrow> (fs, Some (Sprintf ''cannot flush downloaded file: %w'' [GOs err]))
      | None \<Rightarrow> (case fault E SClose part of
          Some err \<Rightarrow> (fs, Some (Sprintf ''cannot close downloaded file: %w'' [GOs err]))
        | None \<Rightarrow> (case rename E fs part destination of
            (fs1, Some err) \<Rightarrow> (fs1, Some (Sprintf ''cannot finalize downloaded file %q: %w'' [GStr destination, GOs err]))
          | (fs1, None) \<Rightarrow> (fs1, None))))"

text \<open>Where the download goes, before the temporary file is created.\<close>

definition download_target :: "osenv \<Rightarrow> fsys \<Rightarrow> string \<Rightarrow> path result" where
  "download_target E fs localPath =
     (case AbsPath (cwd E) localPath of
        Inl err \<Rightarrow> Inl (Sprintf ''invalid local path: %w'' [GErr err])
      | Inr destination \<Rightarrow> (case stat E fs (DirOf destination) of
          Inl err \<Rightarrow> Inl (Sprintf ''local directory is not accessible: %w'' [GOs err])
        | Inr info \<Rightarrow> if \<not> is_dir info
            then Inl (Sprintf ''local path parent is not a directory: %s'' [GStr (DirOf destination)])
            else Inr destination))"

definition Download ::
  "ctx_polls option \<Rightarrow> 'r requester option \<Rightarrow> (nat \<Rightarrow> osenv) \<Rightarrow> string \<Rightarrow> string \<Rightarrow> string \<Rightarrow> int
    \<Rightarrow> 'r \<Rightarrow> fsys \<Rightarrow> ('r \<times> fsys \<times> goerr option) option" where
  "Download ctx requester En agentID remotePath localPath timeout r fs =
     (case validateRequest ctx requester agentID remotePath localPath of
        Some err \<Rightarrow> Some (r, fs, Some err)
      | None \<Rightarrow>
     (case download_target (En 0) fs localPath of Inl err \<Rightarrow> Some (r, fs, Some err)
      | Inr destination \<Rightarrow>
     (case create_temp (En 0) fs (DirOf destination) ''.lan-commander-download-'' '''' of
        (fs1, Inl err) \<Rightarrow> Some (r, fs1, Some (Sprintf ''cannot create temporary download: %w'' [GOs err]))
      | (fs1, Inr part) \<Rightarrow>
      (case go_loop (download_round (the requester) (the ctx) En agentID remotePath part timeout)
          \<lparr>dn_round = 0, dn_offset = 0, dn_total = -1, dn_written = 0, dn_fs = fs1, dn_remote = r\<rparr> of
         None \<Rightarrow> None
       | Some (s, Some err) \<Rightarrow>
           Some (dn_remote s, fst (remove (En (dn_round s)) (dn_fs s) part), Some err)
       | Some (s, None) \<Rightarrow>
           (case download_commit (En (dn_round s)) (dn_fs s) part destination of
              (fs2, Some err) \<Rightarrow> Some (dn_remote s, fst (remove (En (dn_round s)) fs2 part), Some err)
            | (fs2, None) \<Rightarrow> Some (dn_remote s, fs2, None))))))"

section \<open>Upload\<close>

definition sendUploadChunk ::
  "'r requester \<Rightarrow> goerr option \<Rightarrow> string \<Rightarrow> SendFilePayload \<Rightarrow> int \<Rightarrow> 'r \<Rightarrow> 'r \<times> goerr option" where
  "sendUploadChunk requester ctx_err agentID payload timeout r =
     (case ctx_err of Some err \<Rightarrow> (r, Some (Sprintf ''upload cancelled: %w'' [GErr err]))
      | None \<Rightarrow>
     (case requester r agentID MsgSendFile (encode_send_file payload) timeout of
        (r1, _, Some err) \<Rightarrow> (r1, Some (Sprintf ''upload chunk failed at offset %d: %w'' [GInt (sf_offset payload), GErr err]))
      | (r1, response, None) \<Rightarrow>
        if (case response of None \<Rightarrow> True | Some m \<Rightarrow> msg_type m \<noteq> MsgFileAck)
        then (r1, Some (Sprintf ''invalid upload acknowledgement at offset %d'' [GInt (sf_offset payload)]))
        else (case decodePayload decode_file_ack response of
            Inl err \<Rightarrow> (r1, Some (Sprintf ''invalid upload acknowledgement at offset %d: %w'' [GInt (sf_offset payload), GErr err]))
          | Inr ack \<Rightarrow>
            if fa_path ack \<noteq> [] \<and> fa_path ack \<noteq> sf_path payload
            then (r1, Some (Sprintf ''upload acknowledgement path mismatch: received %q, expected %q'' [GStr (fa_path ack), GStr (sf_path payload)]))
            else if fa_offset ack \<noteq> sf_offset payload
            then (r1, Some (Sprintf ''upload acknowledgement offset mismatch: received %d, expected %d'' [GInt (fa_offset ack), GInt (sf_offset payload)]))
            else if fa_final ack \<noteq> sf_final payload
            then (r1, Some (lit ''upload acknowledgement final flag mismatch''))
            else if sf_final payload \<and> fa_committed ack = Some False
            then (r1, Some (lit ''agent did not commit the final upload chunk''))
            else (r1, None))))"

text \<open>
  \<^verbatim>\<open>source.Read\<close> of at most a chunk at \<open>off\<close>: data, or an error, never both. A read may
  return fewer bytes than asked for: at most \<open>progress\<close> of them when that is not 0.
\<close>

definition source_read :: "osenv \<Rightarrow> path \<Rightarrow> bytes \<Rightarrow> nat \<Rightarrow> bytes \<times> oserr option" where
  "source_read E p content off = (case fault E SRead p of Some err \<Rightarrow> ([], Some err)
     | None \<Rightarrow> (let got = take (nat TransferChunkSize) (drop off content)
         in if got = [] then ([], Some EOF)
            else (if progress E p = 0 then got else take (progress E p) got, None)))"

record 'r upState =
  up_round :: nat
  up_offset :: int
  up_hashed :: bytes
  up_polls :: nat
  up_sent :: bool
  up_remote :: 'r

text \<open>
  One round. The file may change while it is read: \<open>now k\<close> is its content in round \<open>k\<close>. The
  bytes hashed so far stand for the state of the hash.
\<close>

definition upload_chunk_payload :: "string \<Rightarrow> string \<Rightarrow> bytes \<Rightarrow> int \<Rightarrow> int \<Rightarrow> bytes \<Rightarrow> SendFilePayload" where
  "upload_chunk_payload remotePath transferID data offset totalSize hashed =
     (let final = (add64 offset (int (length data)) = totalSize)
      in \<lparr>sf_path = remotePath, sf_data = data, sf_offset = offset, sf_total_size = totalSize, sf_final = final,
          sf_checksum = (if final then sha256_hex hashed else []), sf_transfer_id = transferID\<rparr>)"

definition upload_round ::
  "'r requester \<Rightarrow> ctx_polls \<Rightarrow> (nat \<Rightarrow> osenv) \<Rightarrow> string \<Rightarrow> string \<Rightarrow> path \<Rightarrow> int \<Rightarrow> string \<Rightarrow> int \<Rightarrow> (nat \<Rightarrow> bytes)
    \<Rightarrow> 'r upState \<Rightarrow> ('r upState \<times> goerr option) + 'r upState" where
  "upload_round requester ctx En agentID remotePath localPath timeout transferID totalSize now s =
     (let k = up_round s; offset = up_offset s in
      case ctx (up_polls s) of Some err \<Rightarrow> Inl (s, Some (Sprintf ''upload cancelled: %w'' [GErr err]))
      | None \<Rightarrow>
     (case source_read (En k) localPath (now k) (length (up_hashed s)) of
        (data, None) \<Rightarrow>
          (let payload = upload_chunk_payload remotePath transferID data offset totalSize (up_hashed s @ data);
               s1 = s\<lparr>up_hashed := up_hashed s @ data, up_sent := True, up_polls := up_polls s + 2\<rparr>
           in case sendUploadChunk requester (ctx (up_polls s + 1)) agentID payload timeout (up_remote s) of
                (r1, Some err) \<Rightarrow> Inl (s1\<lparr>up_remote := r1\<rparr>, Some err)
              | (r1, None) \<Rightarrow>
                  let s2 = s1\<lparr>up_remote := r1, up_offset := add64 offset (int (length data))\<rparr>
                  in if sf_final payload then Inl (s2, None) else Inr (s2\<lparr>up_round := Suc k\<rparr>))
      | (_, Some EOF) \<Rightarrow>
          if totalSize = 0 then
            (case sendUploadChunk requester (ctx (up_polls s + 1)) agentID
                \<lparr>sf_path = remotePath, sf_data = [], sf_offset = 0, sf_total_size = 0, sf_final = True,
                 sf_checksum = sha256_hex (up_hashed s), sf_transfer_id = transferID\<rparr> timeout (up_remote s) of
               (r1, err) \<Rightarrow> Inl (s\<lparr>up_remote := r1, up_sent := True\<rparr>, err))
          else Inl (s, Some (Sprintf ''upload ended at %d, expected %d bytes'' [GInt offset, GInt totalSize]))
      | (_, Some readErr) \<Rightarrow> Inl (s, Some (Sprintf ''cannot read upload source: %w'' [GOs readErr]))))"

text \<open>The deferred cancel request, sent when the upload failed after its first chunk.\<close>

definition upload_cancel :: "'r requester \<Rightarrow> string \<Rightarrow> string \<Rightarrow> string \<Rightarrow> int \<Rightarrow> bool \<Rightarrow> goerr option \<Rightarrow> 'r \<Rightarrow> 'r" where
  "upload_cancel requester agentID remotePath transferID timeout sentChunk err r =
     (if err \<noteq> None \<and> sentChunk
      then fst (requester r agentID cancelFileMessage
             (encode_cancel_file \<lparr>cf_path = remotePath, cf_transfer_id = transferID\<rparr>) timeout)
      else r)"

definition upload_source :: "osenv \<Rightarrow> fsys \<Rightarrow> string \<Rightarrow> bytes result" where
  "upload_source E fs localPath =
     (case open_read E fs (os_path E localPath) of
        Inl err \<Rightarrow> Inl (Sprintf ''cannot open upload source: %w'' [GOs err])
      | Inr nd \<Rightarrow> (case fault E SFstat (os_path E localPath) of
          Some err \<Rightarrow> Inl (Sprintf ''cannot stat upload source: %w'' [GOs err])
        | None \<Rightarrow> (case nd of Dir \<Rightarrow> Inl (lit ''upload source is not a regular file'') | File c \<Rightarrow> Inr c)))"

definition Upload ::
  "ctx_polls option \<Rightarrow> 'r requester option \<Rightarrow> (nat \<Rightarrow> osenv) \<Rightarrow> string \<Rightarrow> (nat \<Rightarrow> bytes \<Rightarrow> bytes)
    \<Rightarrow> string \<Rightarrow> string \<Rightarrow> string \<Rightarrow> int \<Rightarrow> 'r \<Rightarrow> fsys \<Rightarrow> ('r \<times> goerr option) option" where
  "Upload ctx requester En uuid now agentID localPath remotePath timeout r fs =
     (case validateRequest ctx requester agentID localPath remotePath of Some err \<Rightarrow> Some (r, Some err)
      | None \<Rightarrow>
     (case upload_source (En 0) fs localPath of Inl err \<Rightarrow> Some (r, Some err)
      | Inr c \<Rightarrow>
     (case go_loop (upload_round (the requester) (the ctx) En agentID remotePath (os_path (En 0) localPath)
            timeout uuid (int (length c)) (\<lambda>k. now k c))
          \<lparr>up_round = 0, up_offset = 0, up_hashed = [], up_polls = 0, up_sent = False, up_remote = r\<rparr> of
        None \<Rightarrow> None
      | Some (s, err) \<Rightarrow>
          Some (upload_cancel (the requester) agentID remotePath uuid timeout (up_sent s) err (up_remote s), err))))"

end
