(* ===== verification/TransferFacts.thy ===== *)
theory TransferFacts
  imports FileTransfer UploadFacts OsFacts
begin

text \<open>
  What the two transfer loops keep, whatever the agent answers and whatever fails on the local
  machine: a download only ever writes its temporary file and leaves the loop without an error
  only with a verified content, and both loops end.
\<close>

section \<open>One round of a download\<close>

text \<open>The chunk a round received, and the tests it passed.\<close>

definition chunk_of :: "Message option \<Rightarrow> FileChunkPayload option" where
  "chunk_of response = (case decodePayload decode_file_chunk response of Inl _ \<Rightarrow> None | Inr c \<Rightarrow> Some c)"

definition dn_request :: "'r requester \<Rightarrow> string \<Rightarrow> string \<Rightarrow> int \<Rightarrow> 'r \<Rightarrow> int \<Rightarrow> 'r \<times> Message option \<times> goerr option" where
  "dn_request requester agentID remotePath timeout r offset =
     requester r agentID MsgGetFile (encode_get_file
       \<lparr>gf_path = remotePath, gf_offset = offset, gf_chunk_size = TransferChunkSize\<rparr>) timeout"

text \<open>Everything a round can do: fail before writing, fail while writing, or take the chunk in.\<close>

lemma download_round_cases:
  assumes "download_round requester ctx En agentID remotePath part timeout s = res"
  obtains (failed) r1 e where "res = Inl (s\<lparr>dn_remote := r1\<rparr>, Some e)"
  | (write_failed) r1 fs1 n tot e data where
      "write_at (En (dn_round s)) (dn_fs s) part data (dn_written s) = (fs1, n, Some e)"
      "\<exists>err. res = Inl (s\<lparr>dn_remote := r1, dn_fs := fs1, dn_total := tot\<rparr>, Some err)"
  | (taken) r1 m chunk fs1 s2 where
      "dn_request requester agentID remotePath timeout (dn_remote s) (dn_offset s) = (r1, m, None)"
      "chunk_of m = Some chunk" "download_check (dn_offset s) (dn_total s) chunk = None"
      "write_at (En (dn_round s)) (dn_fs s) part (fc_data chunk) (dn_written s) = (fs1, length (fc_data chunk), None)"
      "s2 = s\<lparr>dn_remote := r1, dn_fs := fs1, dn_total := download_total (dn_total s) chunk,
         dn_written := dn_written s + length (fc_data chunk),
         dn_offset := add64 (dn_offset s) (int (length (fc_data chunk)))\<rparr>"
      "res = (case download_after (En (dn_round s)) fs1 part (dn_offset s2) (dn_total s2) chunk of
          Some r \<Rightarrow> Inl (s2, r) | None \<Rightarrow> Inr (s2\<lparr>dn_round := Suc (dn_round s)\<rparr>))"
proof (cases "ctx (dn_round s)")
  case (Some err)
  with assms have "res = Inl (s\<lparr>dn_remote := dn_remote s\<rparr>, Some (Sprintf ''download cancelled: %w'' [GErr err]))"
    by (simp add: download_round_def)
  then show thesis by (rule failed)
next
  case poll: None
  obtain r1 m e where rq: "dn_request requester agentID remotePath timeout (dn_remote s) (dn_offset s) = (r1, m, e)"
    by (metis prod.collapse)
  note unfolded = download_round_def dn_request_def [symmetric] poll rq
  show thesis
  proof (cases e)
    case (Some err)
    with assms have "\<exists>x. res = Inl (s\<lparr>dn_remote := r1\<rparr>, Some x)" by (auto simp: unfolded)
        then show thesis using failed by blast
  next
    case e: None
    show thesis
    proof (cases "decodePayload decode_file_chunk m")
      case (Inl err)
      with assms e have "\<exists>x. res = Inl (s\<lparr>dn_remote := r1\<rparr>, Some x)" by (auto simp: unfolded)
        then show thesis using failed by blast
    next
      case (Inr chunk)
      show thesis
      proof (cases "download_check (dn_offset s) (dn_total s) chunk")
        case (Some err)
        with assms e Inr have "\<exists>x. res = Inl (s\<lparr>dn_remote := r1\<rparr>, Some x)" by (auto simp: unfolded)
        then show thesis using failed by blast
      next
        case chk: None
        obtain fs1 n w where w:
          "write_at (En (dn_round s)) (dn_fs s) part (fc_data chunk) (dn_written s) = (fs1, n, w)"
          by (metis prod.collapse)
        show thesis
        proof (cases w)
          case (Some err)
          with assms e Inr chk w have "res = Inl (s\<lparr>dn_remote := r1, dn_fs := fs1,
              dn_total := download_total (dn_total s) chunk\<rparr>, Some (Sprintf ''cannot write downloaded chunk: %w'' [GOs err]))"
            by (simp add: unfolded Let_def)
          with w Some show thesis using write_failed by blast
        next
          case None
          with w have "n = length (fc_data chunk)" by (auto dest: write_at_ok)
          define s2 where "s2 = s\<lparr>dn_remote := r1, dn_fs := fs1, dn_total := download_total (dn_total s) chunk,
            dn_written := dn_written s + length (fc_data chunk),
            dn_offset := add64 (dn_offset s) (int (length (fc_data chunk)))\<rparr>"
          have "res = (case download_after (En (dn_round s)) fs1 part (dn_offset s2) (dn_total s2) chunk of
              Some r \<Rightarrow> Inl (s2, r) | None \<Rightarrow> Inr (s2\<lparr>dn_round := Suc (dn_round s)\<rparr>))"
            unfolding s2_def using assms e Inr chk w None \<open>n = _\<close> by (auto simp: unfolded Let_def)
          moreover have "chunk_of m = Some chunk" by (simp add: chunk_of_def Inr)
          ultimately show thesis
            using taken rq e chk w None \<open>n = _\<close> s2_def by blast
        qed
      qed
    qed
  qed
qed

section \<open>What a download keeps\<close>

lemma add64_wrap [simp]: "add64 (wrap64 a) b = wrap64 (a + b)"
proof -
  have "wrap64 (wrap64 a + b) = ((a + 2 ^ 63) mod 2 ^ 64 + b) mod 2 ^ 64 - 2 ^ 63"
    by (simp add: wrap64_def algebra_simps)
  also have "\<dots> = wrap64 (a + b)" by (simp only: wrap64_def mod_add_left_eq) (simp add: algebra_simps)
  finally show ?thesis by (simp add: add64_def)
qed

lemma wrap64_0 [simp]: "wrap64 0 = 0"
  by (simp add: int64_ok_def)

definition dn_inv :: "fsys \<Rightarrow> path \<Rightarrow> 'r dnState \<Rightarrow> bool" where
  "dn_inv fs0 part s \<longleftrightarrow> same_except {part} fs0 (dn_fs s) \<and> dn_offset s = wrap64 (int (dn_written s))
     \<and> (\<exists>d. fmlookup (dn_fs s) part = Some (File d) \<and> length d = dn_written s)"

text \<open>A content is verified by an answer: the final chunk, its size and its digest.\<close>

definition verified_by ::
  "'r requester \<Rightarrow> string \<Rightarrow> string \<Rightarrow> int \<Rightarrow> bytes \<Rightarrow> bool" where
  "verified_by requester agentID remotePath timeout c \<longleftrightarrow>
     (\<exists>r off r1 m chunk. dn_request requester agentID remotePath timeout r off = (r1, m, None)
        \<and> chunk_of m = Some chunk \<and> fc_final chunk \<and> fc_total_size chunk = wrap64 (int (length c))
        \<and> fc_checksum chunk \<noteq> [] \<and> EqualFold (sha256_hex c) (fc_checksum chunk))"

definition dn_result :: "('r requester \<Rightarrow> bytes \<Rightarrow> bool) \<Rightarrow> 'r requester \<Rightarrow> fsys \<Rightarrow> path
    \<Rightarrow> 'r dnState \<times> goerr option \<Rightarrow> bool" where
  "dn_result verified requester fs0 part res = (case res of (s, r) \<Rightarrow> same_except {part} fs0 (dn_fs s)
     \<and> (\<exists>c. fmlookup (dn_fs s) part = Some (File c) \<and> (r = None \<longrightarrow> verified requester c)))"

lemma verifyChecksum_ok:
  "verifyChecksum E fs p ck = None \<Longrightarrow> \<exists>c. fmlookup fs p = Some (File c) \<and> EqualFold (sha256_hex c) ck"
  by (auto simp: verifyChecksum_def read_all_def split: option.splits node.splits if_splits)

lemma download_after_leave:
  assumes "download_after E fs part off tot chunk = Some None"
  shows "fc_final chunk" "off = tot" "fc_checksum chunk \<noteq> []" "verifyChecksum E fs part (fc_checksum chunk) = None"
  using assms by (auto simp: download_after_def split: if_splits)

lemma download_check_total: "download_check off tot chunk = None \<Longrightarrow> download_total tot chunk = fc_total_size chunk"
  by (auto simp: download_check_def download_total_def split: if_splits)

lemma taken_inv:
  assumes "dn_inv fs0 part s"
    and "write_at E (dn_fs s) part data (dn_written s) = (fs1, length data, None)"
    and "dn_fs s2 = fs1" "dn_written s2 = dn_written s + length data"
    and "dn_offset s2 = add64 (dn_offset s) (int (length data))"
  shows "dn_inv fs0 part s2"
proof -
  from assms(1) obtain d where d: "fmlookup (dn_fs s) part = Some (File d)" "length d = dn_written s"
    by (auto simp: dn_inv_def)
  from write_at_ok [OF assms(2)] d(1) have fs1: "fs1 = fmupd part (File (splice d (dn_written s) data)) (dn_fs s)"
    by auto
  then have "fmlookup fs1 part = Some (File (d @ data))" using splice_append [of d data] by (simp add: d(2))
  moreover have "same_except {part} fs0 fs1"
    using assms(1) unfolding fs1 dn_inv_def by (auto simp: same_except_def)
  moreover have "dn_offset s2 = wrap64 (int (dn_written s2))"
    using assms(1,4,5) by (simp add: dn_inv_def)
  ultimately show ?thesis using assms(3,4) d(2) by (auto simp: dn_inv_def)
qed

lemma download_round_keeps:
  assumes inv: "dn_inv fs0 part s"
    and round: "download_round requester ctx En agentID remotePath part timeout s = res"
  shows "case res of Inl x \<Rightarrow> dn_result (\<lambda>rq. verified_by rq agentID remotePath timeout) requester fs0 part x
    | Inr s' \<Rightarrow> dn_inv fs0 part s'"
  using round
proof (cases rule: download_round_cases)
  case (failed r1 e)
  with inv show ?thesis by (auto simp: dn_result_def dn_inv_def)
next
  case (write_failed r1 fs1 n tot e data)
  from inv obtain d where d: "fmlookup (dn_fs s) part = Some (File d)" by (auto simp: dn_inv_def)
  have "same_except {part} (dn_fs s) fs1"
    using write_at_frame [of part "{part}" "dn_fs s" "En (dn_round s)" data "dn_written s"] write_failed(1) by simp
  with inv have "same_except {part} fs0 fs1" unfolding dn_inv_def by (blast intro: same_except_trans)
  moreover have "\<exists>c. fmlookup fs1 part = Some (File c)"
    using write_failed(1) d by (auto simp: write_at_def Let_def split: option.splits)
  ultimately show ?thesis using write_failed(2) by (auto simp: dn_result_def)
next
  case (taken r1 m chunk fs1 s2)
  have inv2: "dn_inv fs0 part s2" using taken(5) by (intro taken_inv [OF inv taken(4)]) simp_all
  show ?thesis
  proof (cases "download_after (En (dn_round s)) fs1 part (dn_offset s2) (dn_total s2) chunk")
    case None
    with taken(6) inv2 show ?thesis by (simp add: dn_inv_def)
  next
    case (Some r)
    have "verified_by requester agentID remotePath timeout c"
      if "r = None" and c: "fmlookup (dn_fs s2) part = Some (File c)" for c
    proof -
      note leave = download_after_leave [OF Some [unfolded \<open>r = None\<close>]]
      from verifyChecksum_ok [OF leave(4)] c taken(5) have "EqualFold (sha256_hex c) (fc_checksum chunk)" by simp
      moreover have "fc_total_size chunk = wrap64 (int (length c))"
        using leave(2) inv2 c taken(5) download_check_total [OF taken(3)] by (auto simp: dn_inv_def)
      ultimately show ?thesis using taken(1,2) leave(1,3) unfolding verified_by_def by blast
    qed
    with Some taken(6) inv2 show ?thesis by (auto simp: dn_result_def dn_inv_def)
  qed
qed

section \<open>The whole download\<close>

lemma download_target_ok:
  "download_target E fs localPath = Inr dest \<Longrightarrow> AbsPath (cwd E) localPath = Inr dest \<and> fmlookup fs (DirOf dest) = Some Dir"
  by (auto simp: download_target_def stat_def split: sum.splits option.splits if_splits elim: is_dir.elims)

lemma validate_none:
  "validateRequest ctx requester a p q = None \<Longrightarrow> \<exists>c rq. ctx = Some c \<and> requester = Some rq"
  by (auto simp: validateRequest_def split: if_splits)

lemma download_commit_cases:
  assumes "download_commit E fs part dest = (fs2, r)"
  shows "(r \<noteq> None \<and> fs2 = fs) \<or> (r = None \<and> rename E fs part dest = (fs2, None))"
  using assms by (auto simp: download_commit_def split: option.splits prod.splits dest: rename_err)

definition removes_work :: "(nat \<Rightarrow> osenv) \<Rightarrow> bool" where
  "removes_work En \<longleftrightarrow> (\<forall>k p. fault (En k) SRemove p = None)"

text \<open>Removing the temporary file restores the tree.\<close>

lemma download_restored:
  assumes "same_except {part} (fmupd part (File []) fs) fs2" "fmlookup fs2 part = Some (File c)"
    "fmlookup fs part = None" "fault E SRemove part = None"
  shows "fmlookup (fst (remove E fs2 part)) q = fmlookup fs q"
  using assms by (auto simp: remove_def same_except_def)

lemma download_run:
  assumes "go_loop (download_round rq ctx En agentID remotePath part timeout)
      \<lparr>dn_round = 0, dn_offset = 0, dn_total = -1, dn_written = 0, dn_fs = fmupd part (File []) fs, dn_remote = r\<rparr>
    = Some x"
  shows "dn_result (\<lambda>rq. verified_by rq agentID remotePath timeout) rq (fmupd part (File []) fs) part x"
  using assms
proof (rule go_loop_partial [where I = "dn_inv (fmupd part (File []) fs) part"])
  show "dn_inv (fmupd part (File []) fs) part
     \<lparr>dn_round = 0, dn_offset = 0, dn_total = -1, dn_written = 0, dn_fs = fmupd part (File []) fs, dn_remote = r\<rparr>"
    by (simp add: dn_inv_def)
next
  fix s x
  assume "dn_inv (fmupd part (File []) fs) part s"
    "download_round rq ctx En agentID remotePath part timeout s = Inl x"
  from download_round_keeps [OF this]
  show "dn_result (\<lambda>rq. verified_by rq agentID remotePath timeout) rq (fmupd part (File []) fs) part x" by simp
next
  fix s s'
  assume "dn_inv (fmupd part (File []) fs) part s"
    "download_round rq ctx En agentID remotePath part timeout s = Inr s'"
  from download_round_keeps [OF this] show "dn_inv (fmupd part (File []) fs) part s'" by simp
qed

lemma Download_cases:
  assumes "Download ctx requester En agentID remotePath localPath timeout r fs = Some (r', fs', res)"
  obtains (refused) e where "res = Some e" "fs' = fs" "r' = r"
  | (failed) part fs2 c k e where "res = Some e" "fs' = fst (remove (En k) fs2 part)"
      "same_except {part} (fmupd part (File []) fs) fs2" "fmlookup fs2 part = Some (File c)" "fmlookup fs part = None"
  | (saved) part fs2 c dest rq k where "res = None" "requester = Some rq" "AbsPath (cwd (En 0)) localPath = Inr dest"
      "verified_by rq agentID remotePath timeout c" "rename (En k) fs2 part dest = (fs', None)"
      "same_except {part} (fmupd part (File []) fs) fs2" "fmlookup fs2 part = Some (File c)" "fmlookup fs part = None"
proof (cases "validateRequest ctx requester agentID remotePath localPath")
  case (Some e)
  with assms show thesis by (intro refused [of e]) (simp_all add: Download_def)
next
  case v: None
  from validate_none [OF v] obtain rq where rq: "requester = Some rq" by blast
  show thesis
  proof (cases "download_target (En 0) fs localPath")
    case (Inl e)
    with assms v show thesis by (intro refused [of e]) (simp_all add: Download_def)
  next
    case dest: (Inr dest)
    obtain fs1 pt where ct: "create_temp (En 0) fs (DirOf dest) ''.lan-commander-download-'' '''' = (fs1, pt)"
      by force
    show thesis
    proof (cases pt)
      case (Inl e)
      with assms v dest ct create_temp_err [of "En 0" fs "DirOf dest"] show thesis using refused
        by (auto simp: Download_def)
    next
      case (Inr part)
      with ct create_temp_ok have fs1: "fs1 = fmupd part (File []) fs" "fmlookup fs part = None" by blast+
      from assms v dest ct Inr fs1 rq obtain s x where
        run: "go_loop (download_round rq (the ctx) En agentID remotePath part timeout)
          \<lparr>dn_round = 0, dn_offset = 0, dn_total = -1, dn_written = 0, dn_fs = fmupd part (File []) fs, dn_remote = r\<rparr>
          = Some (s, x)"
        by (auto simp: Download_def split: option.splits)
      note res = download_run [OF run, unfolded dn_result_def]
      from res obtain c where c: "same_except {part} (fmupd part (File []) fs) (dn_fs s)"
        "fmlookup (dn_fs s) part = Some (File c)" "x = None \<Longrightarrow> verified_by rq agentID remotePath timeout c" by auto
      show thesis
      proof (cases x)
        case (Some e)
        have "res = Some e \<and> fs' = fst (remove (En (dn_round s)) (dn_fs s) part)"
          using assms unfolding Download_def by (simp add: v [unfolded rq] dest ct Inr fs1 rq run Some)
        with c(1,2) fs1(2) show thesis using failed by blast
      next
        case None
        obtain fs2 y where cm: "download_commit (En (dn_round s)) (dn_fs s) part dest = (fs2, y)" by force
        have eq: "(res, fs') = (case y of Some e \<Rightarrow> (Some e, fst (remove (En (dn_round s)) fs2 part)) | None \<Rightarrow> (None, fs2))"
          using assms unfolding Download_def by (simp add: v [unfolded rq] dest ct Inr fs1 rq run None cm split: option.splits) auto
        show thesis
        proof (cases y)
          case (Some e)
          with download_commit_cases [OF cm] eq c(1,2) fs1(2) show thesis using failed by auto
        next
          case y: None
          with download_commit_cases [OF cm] have "rename (En (dn_round s)) (dn_fs s) part dest = (fs2, None)" by simp
          with y eq c None fs1(2) rq conjunct1 [OF download_target_ok [OF dest]] show thesis
            using saved by auto
        qed
      qed
    qed
  qed
qed

section \<open>Both loops end\<close>

text \<open>
  A download ends when the agent does not advertise more than \<open>2 ^ 62\<close> bytes: every round that
  goes on has taken at least one byte. (Beyond \<open>2 ^ 63\<close> the offset would wrap around.)
\<close>

definition sizes_bounded :: "'r requester \<Rightarrow> string \<Rightarrow> string \<Rightarrow> int \<Rightarrow> bool" where
  "sizes_bounded requester agentID remotePath timeout \<longleftrightarrow>
     (\<forall>r off r1 m chunk. dn_request requester agentID remotePath timeout r off = (r1, m, None) \<longrightarrow>
        chunk_of m = Some chunk \<longrightarrow> fc_total_size chunk \<le> 2 ^ 62)"

lemma download_round_advances:
  assumes "sizes_bounded requester agentID remotePath timeout" "0 \<le> dn_offset s" "dn_offset s \<le> 2 ^ 62"
    "download_round requester ctx En agentID remotePath part timeout s = Inr s'"
  shows "dn_offset s < dn_offset s'" "dn_offset s' \<le> 2 ^ 62"
proof -
  have "dn_offset s < dn_offset s' \<and> dn_offset s' \<le> 2 ^ 62" using assms(4)
  proof (cases rule: download_round_cases)
    case (taken r1 m chunk fs1 s2)
    from assms(1) taken(1,2) have le: "fc_total_size chunk \<le> 2 ^ 62" unfolding sizes_bounded_def by blast
    have len: "int (length (fc_data chunk)) \<le> 64 * 1024"
      using taken(3) by (auto simp: download_check_def TransferChunkSize_def split: if_splits)
    then have sum: "add64 (dn_offset s) (int (length (fc_data chunk))) = dn_offset s + int (length (fc_data chunk))"
      using assms(2,3) by (intro add64_nonneg_id) simp_all
    have upd: "dn_offset s2 = dn_offset s + int (length (fc_data chunk))"
      "dn_total s2 = fc_total_size chunk"
      using taken(5) sum download_check_total [OF taken(3)] by simp_all
    have da: "download_after (En (dn_round s)) fs1 part (dn_offset s2) (dn_total s2) chunk = None"
      and s': "s' = s2\<lparr>dn_round := Suc (dn_round s)\<rparr>"
      using taken(6) by (auto split: option.splits)
    from da have "\<not> fc_final chunk" "dn_offset s2 < dn_total s2" by (auto simp: download_after_def split: if_splits)
    moreover have "fc_data chunk \<noteq> []"
      using taken(3) \<open>\<not> fc_final chunk\<close> by (auto simp: download_check_def split: if_splits)
    ultimately show ?thesis using s' upd le by simp
  qed auto
  then show "dn_offset s < dn_offset s'" "dn_offset s' \<le> 2 ^ 62" by simp_all
qed

lemma download_loop_ends:
  assumes "sizes_bounded requester agentID remotePath timeout" "0 \<le> dn_offset s" "dn_offset s \<le> 2 ^ 62"
  shows "\<exists>x. go_loop (download_round requester ctx En agentID remotePath part timeout) s = Some x"
proof -
  let ?I = "\<lambda>t :: 'a dnState. 0 \<le> dn_offset t \<and> dn_offset t \<le> 2 ^ 62"
  have "\<exists>x. go_loop (download_round requester ctx En agentID remotePath part timeout) s = Some x \<and> True"
  proof (rule go_loop_total [where I = ?I and m = "\<lambda>t. nat (2 ^ 62 - dn_offset t)"])
    fix t t'
    assume "?I t" "download_round requester ctx En agentID remotePath part timeout t = Inr t'"
    with download_round_advances [OF assms(1)]
    have "dn_offset t < dn_offset t'" "dn_offset t' \<le> 2 ^ 62" "?I t" by blast+
    then show "?I t' \<and> nat (2 ^ 62 - dn_offset t') < nat (2 ^ 62 - dn_offset t)" by auto
  qed (use assms in simp_all)
  then show ?thesis by simp
qed

lemma Download_ends:
  assumes "\<And>rq. requester = Some rq \<Longrightarrow> sizes_bounded rq agentID remotePath timeout"
  shows "\<exists>x. Download ctx requester En agentID remotePath localPath timeout r fs = Some x"
proof (cases "validateRequest ctx requester agentID remotePath localPath")
  case None
  from validate_none [OF this] obtain rq where rq: "requester = Some rq" by blast
  have "\<exists>x. go_loop (download_round rq (the ctx) En agentID remotePath part timeout)
      \<lparr>dn_round = 0, dn_offset = 0, dn_total = -1, dn_written = 0, dn_fs = fs1, dn_remote = r\<rparr> = Some x" for part fs1
    using assms rq by (intro download_loop_ends) simp_all
  then show ?thesis
    by (auto simp: Download_def rq split: option.splits sum.splits prod.splits) (metis not_Some_eq)+
qed (simp add: Download_def)

text \<open>An upload ends when its file does not grow while it is read.\<close>

lemma source_read_data:
  assumes "source_read E p c n = (data, None)"
  shows "data \<noteq> []" "prefix data (drop n c)" "int (length data) \<le> TransferChunkSize"
proof -
  let ?got = "take (nat TransferChunkSize) (drop n c)"
  have "?got \<noteq> []" "data = (if progress E p = 0 then ?got else take (progress E p) ?got)"
    using assms by (auto simp: source_read_def Let_def split: option.splits if_splits)
  then show "data \<noteq> []" "prefix data (drop n c)" "int (length data) \<le> TransferChunkSize"
    by (auto simp: TransferChunkSize_def intro: prefix_order.trans [OF take_is_prefix take_is_prefix] take_is_prefix)
qed

lemma upload_round_grows:
  assumes "upload_round requester ctx En agentID remotePath p timeout uuid tot (\<lambda>_. c) s = Inr s'"
  shows "length (up_hashed s) < length (up_hashed s') \<and> length (up_hashed s') \<le> length c"
proof -
  obtain data e where rd: "source_read (En (up_round s)) p c (length (up_hashed s)) = (data, e)" by force
  with assms have "e = None"
    by (auto simp: upload_round_def Let_def split: option.splits oserr.splits if_splits prod.splits)
  with rd assms have "up_hashed s' = up_hashed s @ data"
    by (auto simp: upload_round_def Let_def split: option.splits if_splits prod.splits)
  moreover have "data \<noteq> []" "length data \<le> length c - length (up_hashed s)"
    using source_read_data [of "En (up_round s)" p c "length (up_hashed s)" data] rd \<open>e = None\<close>
      prefix_length_le [of data "drop (length (up_hashed s)) c"] by auto
  ultimately show ?thesis by (cases data) auto
qed

lemma upload_loop_ends:
  "\<exists>x. go_loop (upload_round requester ctx En agentID remotePath p timeout uuid tot (\<lambda>_. c)) s = Some x"
proof -
  have "\<exists>x. go_loop (upload_round requester ctx En agentID remotePath p timeout uuid tot (\<lambda>_. c)) s = Some x \<and> True"
  proof (rule go_loop_total [where I = "\<lambda>_. True" and m = "\<lambda>t. length c - length (up_hashed t)"])
    fix t t'
    assume "upload_round requester ctx En agentID remotePath p timeout uuid tot (\<lambda>_. c) t = Inr t'"
    from upload_round_grows [OF this]
    show "True \<and> length c - length (up_hashed t') < length c - length (up_hashed t)" by auto
  qed simp_all
  then show ?thesis by simp
qed

lemma Upload_ends:
  "\<exists>x. Upload ctx requester En uuid (\<lambda>_ c. c) agentID localPath remotePath timeout r fs = Some x"
proof (cases "validateRequest ctx requester agentID localPath remotePath")
  case v: None
  show ?thesis
  proof (cases "upload_source (En 0) fs localPath")
    case (Inr c)
    obtain s e where "go_loop (upload_round (the requester) (the ctx) En agentID remotePath (os_path (En 0) localPath)
        timeout uuid (int (length c)) (\<lambda>_. c))
      \<lparr>up_round = 0, up_offset = 0, up_hashed = [], up_polls = 0, up_sent = False, up_remote = r\<rparr> = Some (s, e)"
      using upload_loop_ends by (metis prod.collapse)
    with v Inr show ?thesis by (simp add: Upload_def)
  qed (use v in \<open>simp add: Upload_def\<close>)
qed (simp add: Upload_def)

end
