(* ===== verification/TransferSpec.thy ===== *)
theory TransferSpec
  imports TransferFacts
begin

text \<open>
  What the transfer functions need of an agent, as two interfaces: one that takes in the chunks
  of a content in order, one that serves a content chunk by chunk. For every agent that keeps
  its interface, an undisturbed transfer succeeds and moves the content unchanged. The agent's
  own handlers are shown to keep both interfaces in the theory that links the two programs.
\<close>

text \<open>A local machine on which nothing fails and a context that is not cancelled.\<close>

definition undisturbed :: "ctx_polls \<Rightarrow> (nat \<Rightarrow> osenv) \<Rightarrow> bool" where
  "undisturbed ctx En \<longleftrightarrow> (\<forall>k. ctx k = None \<and> fault_free (En k))"

section \<open>Agents that take in an upload\<close>

text \<open>
  \<open>received n r\<close>: the agent's state \<open>r\<close> holds the first \<open>n\<close> bytes of the content (for 0:
  whatever it held before); \<open>stored r\<close>: it has committed the content.
\<close>

locale chunk_receiver =
  fixes requester :: "'r requester" and agentID remotePath uuid :: string and timeout :: int
    and content :: bytes and received :: "nat \<Rightarrow> 'r \<Rightarrow> bool" and stored :: "'r \<Rightarrow> bool"
  assumes content_size: "received n r \<Longrightarrow> int (length content) < 2 ^ 62"
    and chunk: "received n r \<Longrightarrow> data \<noteq> [] \<Longrightarrow> prefix data (drop n content) \<Longrightarrow> int (length data) \<le> TransferChunkSize
      \<Longrightarrow> sendUploadChunk requester None agentID (upload_chunk_payload remotePath uuid data (int n)
            (int (length content)) (take n content @ data)) timeout r = (r', e)
      \<Longrightarrow> e = None \<and> (if n + length data = length content then stored r' else received (n + length data) r')"
    and none: "received 0 r \<Longrightarrow> content = [] \<Longrightarrow> sendUploadChunk requester None agentID
            \<lparr>sf_path = remotePath, sf_data = [], sf_offset = 0, sf_total_size = 0, sf_final = True,
             sf_checksum = sha256_hex [], sf_transfer_id = uuid\<rparr> timeout r = (r', e)
      \<Longrightarrow> e = None \<and> stored r'"
begin

definition up_inv :: "'r upState \<Rightarrow> bool" where
  "up_inv s \<longleftrightarrow> (\<exists>n. n \<le> length content \<and> (n = length content \<longrightarrow> n = 0)
     \<and> up_hashed s = take n content \<and> up_offset s = int n \<and> received n (up_remote s))"

lemma round_keeps:
  assumes inv: "up_inv s" and q: "undisturbed ctx En"
    and round: "upload_round requester ctx En agentID remotePath p timeout uuid (int (length content)) (\<lambda>_. content) s = res"
  shows "case res of Inl (s', e) \<Rightarrow> e = None \<and> stored (up_remote s') | Inr s' \<Rightarrow> up_inv s'"
proof -
  from inv obtain n where n: "n \<le> length content" "n = length content \<Longrightarrow> n = 0"
    "up_hashed s = take n content" "up_offset s = int n" "received n (up_remote s)"
    unfolding up_inv_def by blast
  have ctx: "ctx k = None" and ff: "fault_free (En k)" for k using q by (auto simp: undisturbed_def)
  obtain data e where rd: "source_read (En (up_round s)) p content n = (data, e)" by force
  have hashed: "length (up_hashed s) = n" using n(1,3) by simp
  show ?thesis
  proof (cases "n = length content")
    case True
    with n(2) have nil: "content = []" "n = 0" by simp_all
    with rd ff have "data = []" "e = Some EOF" by (auto simp: source_read_def)
    moreover obtain r' x where sd: "sendUploadChunk requester None agentID
        \<lparr>sf_path = remotePath, sf_data = [], sf_offset = 0, sf_total_size = 0, sf_final = True,
         sf_checksum = sha256_hex [], sf_transfer_id = uuid\<rparr> timeout (up_remote s) = (r', x)" by force
    ultimately show ?thesis
      using round none [OF _ nil(1) sd] n(3,5) nil rd hashed by (auto simp: upload_round_def ctx)
  next
    case False
    with n(1) have lt: "n < length content" by simp
    with rd ff have "e = None" by (auto simp: source_read_def Let_def TransferChunkSize_def split: if_splits)
    note dat = source_read_data [OF rd [unfolded this]]
    have sum: "n + length data \<le> length content" using prefix_length_le [OF dat(2)] n(1) by simp
    then have add: "add64 (int n) (int (length data)) = int (n + length data)"
      using content_size [OF n(5)] by (subst add64_nonneg_id) simp_all
    have tk: "take n content @ data = take (n + length data) content"
      using dat(2) by (auto simp: prefix_def take_add)
    obtain r' x where sd: "sendUploadChunk requester None agentID (upload_chunk_payload remotePath uuid data (int n)
        (int (length content)) (take n content @ data)) timeout (up_remote s) = (r', x)" by force
    from chunk [OF n(5) dat sd] have x: "x = None"
      "if n + length data = length content then stored r' else received (n + length data) r'" by simp_all
    have fin: "sf_final (upload_chunk_payload remotePath uuid data (int n) (int (length content)) h)
        \<longleftrightarrow> n + length data = length content" for h
      by (simp add: upload_chunk_payload_def add Let_def del: of_nat_add)
    show ?thesis
    proof (cases "n + length data = length content")
      case True
      with rd \<open>e = None\<close> sd x lt show ?thesis
        unfolding round [symmetric] by (simp add: upload_round_def ctx n(3,4) min_absorb2 fin Let_def)
    next
      case False
      with rd \<open>e = None\<close> sd x lt have "res = Inr (s\<lparr>up_hashed := take n content @ data, up_sent := True,
          up_polls := up_polls s + 2, up_remote := r', up_offset := int (n + length data), up_round := Suc (up_round s)\<rparr>)"
        unfolding round [symmetric]
        by (simp add: upload_round_def ctx n(3,4) min_absorb2 fin add Let_def del: of_nat_add)
      with x False sum dat(1) tk show ?thesis unfolding up_inv_def by (auto intro!: exI [of _ "n + length data"])
    qed
  qed
qed

text \<open>The loop ends without an error and the agent has stored the content.\<close>

lemma loop_delivers:
  assumes "received 0 r" "undisturbed ctx En"
  shows "\<exists>s. go_loop (upload_round requester ctx En agentID remotePath p timeout uuid (int (length content)) (\<lambda>_. content))
      \<lparr>up_round = 0, up_offset = 0, up_hashed = [], up_polls = 0, up_sent = False, up_remote = r\<rparr> = Some (s, None)
    \<and> stored (up_remote s)"
proof -
  let ?body = "upload_round requester ctx En agentID remotePath p timeout uuid (int (length content)) (\<lambda>_. content)"
  let ?s = "\<lparr>up_round = 0, up_offset = 0, up_hashed = [], up_polls = 0, up_sent = False, up_remote = r\<rparr>"
  have "\<exists>x. go_loop ?body ?s = Some x \<and> (snd x = None \<and> stored (up_remote (fst x)))"
  proof (rule go_loop_total [where I = up_inv and m = "\<lambda>t. length content - length (up_hashed t)"])
    show "up_inv ?s" using assms(1) by (auto simp: up_inv_def intro!: exI [of _ 0])
  next
    fix t y assume "up_inv t" "?body t = Inl y"
    from round_keeps [OF this(1) assms(2) this(2)]
    show "snd y = None \<and> stored (up_remote (fst y))" by (auto split: prod.splits)
  next
    fix t t' assume "up_inv t" "?body t = Inr t'"
    with round_keeps [OF this(1) assms(2) this(2)] upload_round_grows [OF this(2)]
    show "up_inv t' \<and> length content - length (up_hashed t') < length content - length (up_hashed t)" by auto
  qed
  then show ?thesis by auto
qed

theorem upload_delivers:
  assumes "received 0 r" "undisturbed ctx En" "TrimSpace agentID \<noteq> []" "TrimSpace localPath \<noteq> []"
    "TrimSpace remotePath \<noteq> []" "fmlookup fs (os_path (En 0) localPath) = Some (File content)"
  shows "\<exists>r'. Upload (Some ctx) (Some requester) En uuid (\<lambda>_ c. c) agentID localPath remotePath timeout r fs
    = Some (r', None) \<and> stored r'"
proof -
  have "fault_free (En 0)" using assms(2) by (simp add: undisturbed_def)
  with assms(6) have "upload_source (En 0) fs localPath = Inr content"
    by (simp add: upload_source_def open_read_def)
  moreover have "validateRequest (Some ctx) (Some requester) agentID localPath remotePath = None"
    using assms(3-5) by (simp add: validateRequest_def)
  moreover from loop_delivers [OF assms(1,2), of "os_path (En 0) localPath"] obtain s where
    "go_loop (upload_round requester ctx En agentID remotePath (os_path (En 0) localPath) timeout uuid
       (int (length content)) (\<lambda>_. content))
      \<lparr>up_round = 0, up_offset = 0, up_hashed = [], up_polls = 0, up_sent = False, up_remote = r\<rparr> = Some (s, None)"
    "stored (up_remote s)" by blast
  ultimately show ?thesis by (simp add: Upload_def upload_cancel_def)
qed

end

section \<open>Agents that serve a download\<close>

text \<open>\<open>serving r\<close>: the agent in state \<open>r\<close> answers every request for a chunk from the content.\<close>

definition chunk_answers :: "bytes \<Rightarrow> nat \<Rightarrow> FileChunkPayload \<Rightarrow> bool" where
  "chunk_answers content n chunk \<longleftrightarrow> fc_offset chunk = int n \<and> fc_total_size chunk = int (length content)
     \<and> prefix (fc_data chunk) (drop n content) \<and> (fc_data chunk = [] \<longrightarrow> n = length content)
     \<and> int (length (fc_data chunk)) \<le> TransferChunkSize
     \<and> (fc_final chunk \<longleftrightarrow> n + length (fc_data chunk) = length content)
     \<and> (fc_final chunk \<longrightarrow> fc_checksum chunk = sha256_hex content)"

lemma chunk_answersD:
  assumes "chunk_answers content n chunk" "n \<le> length content"
  shows "n + length (fc_data chunk) \<le> length content"
    "take n content @ fc_data chunk = take (n + length (fc_data chunk)) content"
  using assms prefix_length_le [of "fc_data chunk" "drop n content"]
  by (auto simp: chunk_answers_def prefix_def take_add)

lemma chunk_answers_check:
  assumes ans: "chunk_answers content n chunk" and n: "n \<le> length content" and size: "int (length content) < 2 ^ 62"
    and tot: "tot = -1 \<or> tot = int (length content)"
  shows "download_check (int n) tot chunk = None" "download_total tot chunk = int (length content)"
    "add64 (int n) (int (length (fc_data chunk))) = int (n + length (fc_data chunk))"
proof -
  note le = chunk_answersD(1) [OF ans n]
  show add: "add64 (int n) (int (length (fc_data chunk))) = int (n + length (fc_data chunk))"
    using le size by (subst add64_nonneg_id) simp_all
  show dt: "download_total tot chunk = int (length content)"
    using ans tot by (auto simp: download_total_def chunk_answers_def)
  show "download_check (int n) tot chunk = None"
    using ans tot le unfolding download_check_def dt add by (auto simp: chunk_answers_def)
qed

locale chunk_source =
  fixes requester :: "'r requester" and agentID remotePath :: string and timeout :: int
    and content :: bytes and serving :: "'r \<Rightarrow> bool"
  assumes content_bound: "serving r \<Longrightarrow> int (length content) < 2 ^ 62"
    and serve: "serving r \<Longrightarrow> n < length content \<or> n = 0
      \<Longrightarrow> dn_request requester agentID remotePath timeout r (int n) = (r', m, e)
      \<Longrightarrow> e = None \<and> serving r' \<and> (\<exists>chunk. chunk_of m = Some chunk \<and> chunk_answers content n chunk)"
begin

definition dn_progress :: "path \<Rightarrow> 'r dnState \<Rightarrow> bool" where
  "dn_progress part s \<longleftrightarrow> (let n = dn_written s in (n < length content \<or> n = 0) \<and> n \<le> length content
     \<and> dn_offset s = int n \<and> fmlookup (dn_fs s) part = Some (File (take n content))
     \<and> (dn_total s = -1 \<or> dn_total s = int (length content)) \<and> serving (dn_remote s))"

lemma round_fetches:
  assumes inv: "dn_progress part s" and q: "undisturbed ctx En"
    and round: "download_round requester ctx En agentID remotePath part timeout s = res"
  shows "case res of Inl (s', e) \<Rightarrow> e = None \<and> fmlookup (dn_fs s') part = Some (File content) \<and> serving (dn_remote s')
    | Inr s' \<Rightarrow> dn_progress part s' \<and> dn_written s < dn_written s'"
proof -
  let ?n = "dn_written s"
  from inv have n: "?n < length content \<or> ?n = 0" "?n \<le> length content" "dn_offset s = int ?n"
    "fmlookup (dn_fs s) part = Some (File (take ?n content))"
    "dn_total s = -1 \<or> dn_total s = int (length content)" "serving (dn_remote s)"
    by (simp_all add: dn_progress_def Let_def)
  have ctx: "ctx k = None" and ff: "fault_free (En k)" for k using q by (auto simp: undisturbed_def)
  obtain r' m e where rq: "dn_request requester agentID remotePath timeout (dn_remote s) (int ?n) = (r', m, e)"
    by (metis prod.collapse)
  from serve [OF n(6,1) rq] obtain chunk where
    ans: "e = None" "serving r'" "chunk_of m = Some chunk" "chunk_answers content ?n chunk" by blast
  then have dec: "decodePayload decode_file_chunk m = Inr chunk" by (auto simp: chunk_of_def split: sum.splits)
  note chk = chunk_answers_check [OF ans(4) n(2) content_bound [OF n(6)] n(5)] and le = chunk_answersD [OF ans(4) n(2)]
  let ?d = "fc_data chunk"
  let ?fs = "fmupd part (File (take (?n + length ?d) content)) (dn_fs s)"
  have wr: "write_at (En (dn_round s)) (dn_fs s) part ?d ?n = (?fs, length ?d, None)"
    using splice_append [of "take ?n content" ?d] n(2,4) ff le(2) by (simp add: write_at_def min_absorb2)
  note unfolded = download_round_def dn_request_def [symmetric] ctx n(3) rq ans(1) dec chk wr
  show ?thesis
  proof (cases "fc_final chunk")
    case True
    then have "?n + length ?d = length content" "fc_checksum chunk = sha256_hex content"
      using ans(4) by (auto simp: chunk_answers_def)
    then have "download_after (En (dn_round s)) ?fs part (int (?n + length ?d)) (int (length content)) chunk = Some None"
      using True ff by (simp add: download_after_def verifyChecksum_def read_all_def)
    with ans(2) show ?thesis using \<open>?n + length ?d = length content\<close>
      unfolding round [symmetric] by (simp add: unfolded Let_def del: of_nat_add)
  next
    case False
    with ans(4) le(1) have lt: "?n + length ?d < length content" and ne: "?d \<noteq> []"
      by (auto simp: chunk_answers_def)
    then have "download_after (En (dn_round s)) ?fs part (int (?n + length ?d)) (int (length content)) chunk = None"
      using False by (simp add: download_after_def)
    then have "res = Inr (s\<lparr>dn_remote := r', dn_fs := ?fs, dn_total := int (length content),
        dn_written := ?n + length ?d, dn_offset := int (?n + length ?d), dn_round := Suc (dn_round s)\<rparr>)"
      unfolding round [symmetric] by (simp add: unfolded Let_def del: of_nat_add)
    with lt ne ans(2) show ?thesis by (simp add: dn_progress_def)
  qed
qed

lemma loop_fetches:
  assumes "serving r" "undisturbed ctx En" "fmlookup fs1 part = Some (File [])"
  shows "\<exists>s. go_loop (download_round requester ctx En agentID remotePath part timeout)
      \<lparr>dn_round = 0, dn_offset = 0, dn_total = -1, dn_written = 0, dn_fs = fs1, dn_remote = r\<rparr> = Some (s, None)
    \<and> fmlookup (dn_fs s) part = Some (File content) \<and> serving (dn_remote s)"
proof -
  let ?body = "download_round requester ctx En agentID remotePath part timeout"
  let ?s = "\<lparr>dn_round = 0, dn_offset = 0, dn_total = -1, dn_written = 0, dn_fs = fs1, dn_remote = r\<rparr>"
  have "\<exists>x. go_loop ?body ?s = Some x \<and> (snd x = None \<and> fmlookup (dn_fs (fst x)) part = Some (File content)
    \<and> serving (dn_remote (fst x)))"
  proof (rule go_loop_total [where I = "dn_progress part" and m = "\<lambda>t. length content - dn_written t"])
    show "dn_progress part ?s" using assms(1,3) by (simp add: dn_progress_def)
  next
    fix t y assume "dn_progress part t" "?body t = Inl y"
    from round_fetches [OF this(1) assms(2) this(2)]
    show "snd y = None \<and> fmlookup (dn_fs (fst y)) part = Some (File content) \<and> serving (dn_remote (fst y))"
      by (auto split: prod.splits)
  next
    fix t t' assume "dn_progress part t" "?body t = Inr t'"
    with round_fetches [OF this(1) assms(2) this(2)]
    show "dn_progress part t' \<and> length content - dn_written t' < length content - dn_written t"
      by (auto simp: dn_progress_def Let_def)
  qed
  then show ?thesis by auto
qed

theorem download_fetches:
  assumes "serving r" "undisturbed ctx En" "TrimSpace agentID \<noteq> []" "TrimSpace localPath \<noteq> []"
    "TrimSpace remotePath \<noteq> []" "AbsPath (cwd (En 0)) localPath = Inr dest"
    "fmlookup fs (DirOf dest) = Some Dir" "fmlookup fs dest \<noteq> Some Dir"
    "create_temp (En 0) fs (DirOf dest) ''.lan-commander-download-'' '''' = (fs1, Inr part)"
  shows "\<exists>r' fs'. Download (Some ctx) (Some requester) En agentID remotePath localPath timeout r fs
    = Some (r', fs', None) \<and> fmlookup fs' dest = Some (File content) \<and> serving r'"
proof -
  have ff: "fault_free (En k)" for k using assms(2) by (simp add: undisturbed_def)
  from create_temp_ok [OF assms(9)] have fs1: "fs1 = fmupd part (File []) fs" "fmlookup fs part = None" by simp_all
  have val: "validateRequest (Some ctx) (Some requester) agentID remotePath localPath = None"
    using assms(3-5) by (simp add: validateRequest_def)
  have tgt: "download_target (En 0) fs localPath = Inr dest"
    using assms(6,7) ff by (simp add: download_target_def stat_def)
  have lk: "fmlookup fs1 part = Some (File [])" by (simp add: fs1)
  from loop_fetches [OF assms(1,2) lk] obtain s where
    run: "go_loop (download_round requester ctx En agentID remotePath part timeout)
      \<lparr>dn_round = 0, dn_offset = 0, dn_total = -1, dn_written = 0, dn_fs = fs1, dn_remote = r\<rparr> = Some (s, None)"
    and s: "fmlookup (dn_fs s) part = Some (File content)" "serving (dn_remote s)" by blast
  have same: "same_except {part} fs1 (dn_fs s)"
    using download_run [OF run [unfolded fs1(1)]] by (simp add: dn_result_def fs1(1))
  have "DirOf dest \<noteq> part" using assms(7) fs1(2) by auto
  then have "fmlookup (dn_fs s) (DirOf dest) = Some Dir"
    using same assms(7) by (auto simp: same_except_def fs1(1))
  moreover have "fmlookup (dn_fs s) dest \<noteq> Some Dir"
    using same assms(8) s(1) by (cases "dest = part") (auto simp: same_except_def fs1(1))
  ultimately have "rename (En (dn_round s)) (dn_fs s) part dest = (fmupd dest (File content) (fmdrop part (dn_fs s)), None)"
    using ff s(1) by (auto simp: rename_def parent_err_def split: option.splits node.splits)
  then have "download_commit (En (dn_round s)) (dn_fs s) part dest
      = (fmupd dest (File content) (fmdrop part (dn_fs s)), None)"
    using ff by (simp add: download_commit_def)
  with val tgt assms(9) run s(2) show ?thesis by (simp add: Download_def)
qed

end

section \<open>Agents that do both\<close>

text \<open>What was uploaded is what is served: an upload followed by a download is the identity.\<close>

locale file_agent = chunk_receiver + chunk_source +
  assumes stored_serving: "stored r \<Longrightarrow> serving r"
begin

theorem round_trip:
  assumes "received 0 r" "undisturbed ctx En" "undisturbed ctx' En'"
    and names: "TrimSpace agentID \<noteq> []" "TrimSpace localPath \<noteq> []" "TrimSpace remotePath \<noteq> []" "TrimSpace copyPath \<noteq> []"
    and source: "fmlookup fs (os_path (En 0) localPath) = Some (File content)"
    and target: "AbsPath (cwd (En' 0)) copyPath = Inr dest" "fmlookup fs (DirOf dest) = Some Dir"
      "fmlookup fs dest \<noteq> Some Dir" "create_temp (En' 0) fs (DirOf dest) ''.lan-commander-download-'' '''' = (fs1, Inr part)"
  shows "\<exists>r1 r2 fs'. Upload (Some ctx) (Some requester) En uuid (\<lambda>_ c. c) agentID localPath remotePath timeout r fs = Some (r1, None)
    \<and> Download (Some ctx') (Some requester) En' agentID remotePath copyPath timeout r1 fs = Some (r2, fs', None)
    \<and> fmlookup fs' dest = Some (File content)"
proof -
  from upload_delivers [OF assms(1,2) names(1-3) source] obtain r1 where
    r1: "Upload (Some ctx) (Some requester) En uuid (\<lambda>_ c. c) agentID localPath remotePath timeout r fs = Some (r1, None)"
      "stored r1" by blast
  from download_fetches [OF stored_serving [OF r1(2)] assms(3) names(1,4,3) target] r1(1) show ?thesis by blast
qed

end

end
