(* ===== verification/AgentLink.thy ===== *)
theory AgentLink
  imports TransferSpec HandlerFacts FileFacts
begin

text \<open>
  The two programs joined: the agent's handlers, reached over one authenticated connection, are
  a requester for the controller's transfer functions. Both interfaces of
  \<^verbatim>\<open>TransferSpec\<close> are interpreted on them, so the end-to-end properties of upload
  and download hold for the two programs as they are modelled.
\<close>

section \<open>One request over a connection\<close>

text \<open>
  The write pump has emptied the queue when a request arrives; the controller waits for the
  answer that bears its identifier (\<^verbatim>\<open>Manager.SendRequest\<close>).
\<close>

definition drained :: "HState \<Rightarrow> HState" where
  "drained st = on_client (\<lambda>c. c\<lparr>cl_send := []\<rparr>) st"

definition agent_request :: "World \<Rightarrow> string \<Rightarrow> string \<Rightarrow> HState requester" where
  "agent_request w tok uid st agentID t payload timeout =
     (let msg = \<lparr>msg_id = uid, msg_type = t, msg_payload = payload, msg_time = w_now w, msg_error = no_text\<rparr>;
          st' = handleMessage w tok msg (drained st)
      in case find (\<lambda>m. msg_id m = uid) (cl_send (hs_client st')) of
           None \<Rightarrow> (st', None, Some (Sprintf ''request timed out after %v'' [GInt (if timeout \<le> 0 then 30 * 10 ^ 9 else timeout)]))
         | Some m \<Rightarrow> (st', Some m, if msg_error m \<noteq> no_text
             then Some (Sprintf ''agent error: %s'' [GErr (msg_error m)]) else None))"

lemma drained_simps [simp]:
  "hs_fs (drained st) = hs_fs st" "hs_log (drained st) = hs_log st" "hs_guard (drained st) = hs_guard st"
  "hs_client (drained st) = (hs_client st)\<lparr>cl_send := []\<rparr>"
  by (simp_all add: drained_def)

text \<open>A response sent on an open, drained connection is the answer.\<close>

lemma sendResponse_answers:
  assumes "hs_client st1 = (hs_client st)\<lparr>cl_send := []\<rparr>" "\<not> cl_closed (hs_client st)"
  shows "cl_send (hs_client (sendResponse w i t v st1)) = [message w i t v no_text]"
    "\<not> cl_closed (hs_client (sendResponse w i t v st1))"
  using assms by (simp_all add: sendMsg_def enqueue_def SendQueue_def)

lemma agent_request_response:
  assumes "handleMessage w tok \<lparr>msg_id = uid, msg_type = t, msg_payload = payload, msg_time = w_now w,
      msg_error = no_text\<rparr> (drained st) = sendResponse w uid rt v st1"
    and "hs_client st1 = (hs_client st)\<lparr>cl_send := []\<rparr>" "\<not> cl_closed (hs_client st)"
  shows "agent_request w tok uid st agentID t payload timeout
    = (sendResponse w uid rt v st1, Some (message w uid rt v no_text), None)"
  using sendResponse_answers [OF assms(2,3), of w uid rt v]
  by (simp add: agent_request_def assms(1) message_def)

section \<open>A steady audit log\<close>

text \<open>The log is off, or open on its file; then an event touches nothing but the log's files.\<close>

definition log_steady :: "fsys \<Rightarrow> AuditLogger option \<Rightarrow> bool" where
  "log_steady fs lo = (case lo of None \<Rightarrow> True
     | Some l \<Rightarrow> log_ok fs l \<and> lg_open l \<and> fmlookup fs (backup_path l) \<noteq> Some Dir \<and> lg_path l \<noteq> ''/'')"

lemma log_steady_place: "log_steady fs lo \<Longrightarrow> log_place lo"
  by (auto simp: log_steady_def log_place_def log_ok_def split: option.splits)

lemma log_steady_same:
  assumes "log_steady fs lo" "same_except A fs fs'" "A \<inter> log_paths lo = {}"
  shows "log_steady fs' lo"
proof (cases lo)
  case (Some l)
  with assms(3) have "lg_path l \<notin> A" "backup_path l \<notin> A" by (auto simp: log_paths_def)
  with assms(2) have "fmlookup fs' (lg_path l) = fmlookup fs (lg_path l)"
    "fmlookup fs' (backup_path l) = fmlookup fs (backup_path l)" by (auto dest: same_exceptD)
  with assms(1) Some show ?thesis by (simp add: log_steady_def log_ok_def)
qed (simp add: log_steady_def)

lemma Log_steady:
  assumes "fault_free E" "fs_wf fs" "log_steady fs lo" "Log E now fs lo e = (fs', lo')"
  shows "same_except (log_paths lo) fs fs'" "log_steady fs' lo'"
proof -
  have "same_except (log_paths lo) fs fs' \<and> log_steady fs' lo'"
  proof (cases lo)
    case None
    with assms(4) show ?thesis by (simp add: Log_def log_steady_def)
  next
    case (Some l)
    then have l: "log_ok fs l" "lg_open l" "fmlookup fs (backup_path l) \<noteq> Some Dir" "lg_path l \<noteq> ''/''"
      using assms(3) by (simp_all add: log_steady_def)
    note q = Log_quiet [OF assms(1,2) l(1-3), of now e]
    from Log_ok [OF l(1) assms(4) [unfolded Some]] obtain l' where
      l': "lo' = Some l'" "log_ok fs' l'" "lg_path l' = lg_path l" by blast
    show ?thesis
      using q assms(4) l' l(2-4) Some
      by (auto simp: same_except_def log_paths_def log_steady_def backup_path_def split: if_splits)
  qed
  then show "same_except (log_paths lo) fs fs'" "log_steady fs' lo'" by blast+
qed

lemma record_ev_steady:
  fixes a r :: string and d :: gotext
  assumes "fault_free (w_os w)" "fs_wf (hs_fs st)" "log_steady (hs_fs st) (hs_log st)"
  defines "st' \<equiv> record_ev w a r d st"
  shows "same_except (log_paths (hs_log st)) (hs_fs st) (hs_fs st')" "log_steady (hs_fs st') (hs_log st')"
    "fs_wf (hs_fs st')" "log_paths (hs_log st') = log_paths (hs_log st)"
proof -
  obtain e where e: "st' = audit_event w e st" by (simp add: record_ev_def st'_def)
  obtain fs l where l: "Log (w_os w) (w_now w) (hs_fs st) (hs_log st) e = (fs, l)" by force
  show "same_except (log_paths (hs_log st)) (hs_fs st) (hs_fs st')" "log_steady (hs_fs st') (hs_log st')"
    using Log_steady [OF assms(1-3) l] by (simp_all add: e audit_event_def l)
  show "fs_wf (hs_fs st')" "log_paths (hs_log st') = log_paths (hs_log st)"
    unfolding st'_def using assms(2) log_steady_place [OF assms(3)] by (simp_all add: record_ev_effect)
qed

section \<open>Payloads over the wire\<close>

text \<open>Numbers below \<open>2 ^ 53\<close> pass the interface value unchanged.\<close>

definition small :: "int \<Rightarrow> bool" where
  "small i \<longleftrightarrow> \<bar>i\<bar> < 2 ^ 53"

lemma small_round [simp]: "small i \<Longrightarrow> f64_round i = i"
  by (simp add: small_def f64_round_small)

lemma small_int64 [simp]: "small i \<Longrightarrow> int64_ok i"
  by (auto simp: small_def int64_ok_def)

lemma small_const [simp]: "small 0" "small TransferChunkSize"
  by (simp_all add: small_def TransferChunkSize_def)

lemma small_nat: "int n < 2 ^ 53 \<Longrightarrow> small (int n)" "m \<le> n \<Longrightarrow> int n < 2 ^ 53 \<Longrightarrow> small (int m)"
  by (simp_all add: small_def)

lemma via_send_file [simp]:
  "small (sf_offset r) \<Longrightarrow> small (sf_total_size r) \<Longrightarrow> via_interface (encode_send_file r) = encode_send_file r"
  by (simp add: encode_send_file_def omit_def)

lemma via_get_file [simp]:
  "small (gf_offset r) \<Longrightarrow> small (gf_chunk_size r) \<Longrightarrow> via_interface (encode_get_file r) = encode_get_file r"
  by (simp add: encode_get_file_def omit_def)

lemma via_file_chunk [simp]:
  "small (fc_offset r) \<Longrightarrow> small (fc_total_size r) \<Longrightarrow> via_interface (encode_file_chunk r) = encode_file_chunk r"
  by (simp add: encode_file_chunk_def omit_def)

lemma via_cancel_file [simp]: "via_interface (encode_cancel_file r) = encode_cancel_file r"
  by (simp add: encode_cancel_file_def)

text \<open>The acknowledgement the controller reads is the one the agent wrote.\<close>

lemma decode_file_ack_wire:
  assumes "small (sf_offset p)" "sf_transfer_id p \<noteq> []"
  shows "decode_file_ack (via_interface (file_ack p b))
    = Some \<lparr>fa_path = sf_path p, fa_offset = sf_offset p, fa_final = sf_final p, fa_committed = Some b\<rparr>"
  using assms by (simp add: file_ack_def decode_file_ack_def Unmarshal_def file_ack_field_def)

section \<open>The agent takes in a chunk\<close>

definition with_log :: "World \<Rightarrow> SendFilePayload \<Rightarrow> HState \<Rightarrow> HState" where
  "with_log w p st = (if sf_offset p = 0 \<or> sf_final p
     then record_ev w ''send_file'' ResultOK (Sprintf ''%s offset=%d final=%t committed=%t''
            [GStr (sf_path p), GInt (sf_offset p), GBool (sf_final p), GBool (sf_final p)]) st
     else st)"

lemma handleSendFile_ok:
  assumes "decode_send_file (via_interface (msg_payload msg)) = Some p" "sf_transfer_id p \<noteq> []"
    "WriteAtomicUploadChunk (w_os w) (hs_fs st) (sf_path p) (sf_transfer_id p) (sf_data p) (sf_offset p)
       (sf_total_size p) (sf_final p) (sf_checksum p) = (fs1, None)"
  shows "handleSendFile w msg st
    = sendResponse w (msg_id msg) MsgFileAck (file_ack p (sf_final p)) (with_log w p (st\<lparr>hs_fs := fs1\<rparr>))"
  using assms by (simp add: handleSendFile_def remarshal_def with_log_def Let_def)

lemma sendUploadChunk_agent:
  assumes "small (sf_offset p)" "small (sf_total_size p)" "sf_transfer_id p \<noteq> []"
    and "cl_authed (hs_client st)" "\<not> cl_closed (hs_client st)"
    and "WriteAtomicUploadChunk (w_os w) (hs_fs st) (sf_path p) (sf_transfer_id p) (sf_data p) (sf_offset p)
       (sf_total_size p) (sf_final p) (sf_checksum p) = (fs1, None)"
  shows "sendUploadChunk (agent_request w tok uid) None agentID p timeout st
    = (sendResponse w uid MsgFileAck (file_ack p (sf_final p)) (with_log w p ((drained st)\<lparr>hs_fs := fs1\<rparr>)), None)"
proof -
  let ?st1 = "with_log w p ((drained st)\<lparr>hs_fs := fs1\<rparr>)"
  let ?msg = "\<lparr>msg_id = uid, msg_type = MsgSendFile, msg_payload = encode_send_file p, msg_time = w_now w, msg_error = no_text\<rparr>"
  have "handleMessage w tok ?msg (drained st) = handleSendFile w ?msg (drained st)"
    using assms(4) by (simp add: handleMessage_def dispatch_def msg_types)
  also have "\<dots> = sendResponse w uid MsgFileAck (file_ack p (sf_final p)) ?st1"
    using assms by (subst handleSendFile_ok [where p = p]) simp_all
  finally have "agent_request w tok uid st agentID MsgSendFile (encode_send_file p) timeout
      = (sendResponse w uid MsgFileAck (file_ack p (sf_final p)) ?st1,
         Some (message w uid MsgFileAck (file_ack p (sf_final p)) no_text), None)"
    by (rule agent_request_response) (use assms(5) in \<open>simp_all add: with_log_def\<close>)
  then show ?thesis
    using decode_file_ack_wire [OF assms(1,3), of "sf_final p"]
    by (simp add: sendUploadChunk_def decodePayload_def message_def)
qed

section \<open>States of the agent during a transfer\<close>

definition connected :: "World \<Rightarrow> HState \<Rightarrow> bool" where
  "connected w st \<longleftrightarrow> cl_authed (hs_client st) \<and> \<not> cl_closed (hs_client st) \<and> fault_free (w_os w) \<and> env_ok (w_os w)
     \<and> fs_wf (hs_fs st) \<and> log_steady (hs_fs st) (hs_log st)"

definition agent_serves :: "World \<Rightarrow> string \<Rightarrow> bytes \<Rightarrow> HState \<Rightarrow> bool" where
  "agent_serves w path content st \<longleftrightarrow> connected w st \<and> int (length content) < 2 ^ 53
     \<and> (\<exists>p. safePath (w_os w) path = Inr p \<and> fmlookup (hs_fs st) p = Some (File content) \<and> p \<notin> log_paths (hs_log st))"

definition agent_receives :: "World \<Rightarrow> string \<Rightarrow> string \<Rightarrow> bytes \<Rightarrow> nat \<Rightarrow> HState \<Rightarrow> bool" where
  "agent_receives w path uuid content n st \<longleftrightarrow> connected w st \<and> int (length content) < 2 ^ 53
     \<and> transfer_id_err uuid = None
     \<and> (\<exists>p. safePath (w_os w) path = Inr p \<and> upload_site (hs_fs st) p (upload_temp p uuid)
          \<and> {p, DirOf p, upload_temp p uuid, upload_meta (upload_temp p uuid)} \<inter> log_paths (hs_log st) = {}
          \<and> (n = 0 \<or> pending_at (hs_fs st) (upload_temp p uuid) = Some (int (length content), take n content)))"

text \<open>After the chunk has been handled: what the file operations left, up to an event in the log.\<close>

lemma after_send:
  assumes "connected w st" "hs_fs st1 = fs1" "hs_log st1 = hs_log st" "hs_client st1 = (hs_client st)\<lparr>cl_send := []\<rparr>"
    "same_except A (hs_fs st) fs1" "fs_wf fs1" "A \<inter> log_paths (hs_log st) = {}"
    "st' = sendResponse w uid t v (with_log w p st1)"
  shows "connected w st'" "same_except (log_paths (hs_log st)) fs1 (hs_fs st')"
    "log_paths (hs_log st') = log_paths (hs_log st)"
proof -
  let ?st2 = "with_log w p st1"
  have steady: "log_steady fs1 (hs_log st)" "fault_free (w_os w)"
    using assms(1,5,7) by (auto simp: connected_def intro: log_steady_same)
  have 2: "same_except (log_paths (hs_log st)) fs1 (hs_fs ?st2) \<and> log_steady (hs_fs ?st2) (hs_log ?st2)
      \<and> fs_wf (hs_fs ?st2) \<and> log_paths (hs_log ?st2) = log_paths (hs_log st)"
    using steady assms(2,3,6) record_ev_steady [of w st1]
    by (simp add: with_log_def)
  have c: "hs_client ?st2 = (hs_client st)\<lparr>cl_send := []\<rparr>" using assms(4) by (simp add: with_log_def)
  have "\<not> cl_closed (hs_client st)" using assms(1) by (simp add: connected_def)
  note snd = sendResponse_answers(2) [OF c this]
  show "same_except (log_paths (hs_log st)) fs1 (hs_fs st')" "log_paths (hs_log st') = log_paths (hs_log st)"
    using 2 assms(8) by simp_all
  show "connected w st'"
    using 2 assms(1) snd [of w uid t v] c unfolding assms(8) connected_def by simp
qed

lemma digest_shown [simp]: "TrimSpace (sha256_hex c) \<noteq> []"
  using sha256_hex_nonempty [of c] by (simp add: TrimSpace_graphic)

text \<open>The specification's step on the next chunk of the content.\<close>

lemma spec_next_chunk:
  fixes content data :: bytes and n :: nat
  assumes "n = 0 \<or> st = Some (int (length content), take n content)" "n + length data \<le> length content"
    "take n content @ data = take (n + length data) content" "int (length data) \<le> DefaultChunkSize"
    "data \<noteq> [] \<or> content = []"
  shows "spec_upload st data (int n) (int (length content)) (n + length data = length content)
      (if n + length data = length content then sha256_hex content else [])
    = (if n + length data = length content then (None, Committed content)
       else (Some (int (length content), take (n + length data) content), Accepted))"
proof -
  have "spec_prior st (int n) (int (length content)) = Some (take n content)"
    using assms(1,2) by (auto simp: spec_prior_def)
  moreover have "chunk_fits (take n content) data (int (length content)) (n + length data = length content)"
    using assms(2,4,5) by (auto simp: chunk_fits_def)
  ultimately show ?thesis using assms(2,3) by (auto simp: spec_upload_def)
qed

lemma upload_site_after:
  assumes "upload_site fs p t" "same_except {t, upload_meta t} fs fs1" "pending_at fs1 t = Some (tot, c)"
    "int (length c) < 2 ^ 62"
  shows "upload_site fs1 p t"
  using upload_place_upd [OF conjunct1 [OF assms(1) [unfolded upload_site_def]] assms(2,3)]
    pending_content [OF assms(3)] assms(4) by (simp add: upload_site_def)

text \<open>Changes elsewhere leave a transfer's state alone.\<close>

lemma upload_state_same:
  assumes "same_except A fs fs1" "A \<inter> {p, DirOf p, t, upload_meta t} = {}"
  shows "pending_at fs1 t = pending_at fs t" "upload_site fs1 p t = upload_site fs p t"
    "fmlookup fs1 p = fmlookup fs p"
proof -
  have "fmlookup fs1 q = fmlookup fs q" if "q \<in> {p, DirOf p, t, upload_meta t}" for q
    using assms that by (auto dest: same_exceptD)
  then have q: "fmlookup fs1 p = fmlookup fs p" "fmlookup fs1 (DirOf p) = fmlookup fs (DirOf p)"
    "fmlookup fs1 t = fmlookup fs t" "fmlookup fs1 (upload_meta t) = fmlookup fs (upload_meta t)" by simp_all
  then show "pending_at fs1 t = pending_at fs t" "upload_site fs1 p t = upload_site fs p t"
    "fmlookup fs1 p = fmlookup fs p"
    by (simp_all add: pending_at_def upload_site_def upload_place_def content_at_def)
qed

section \<open>The handlers keep both interfaces\<close>

lemma transfer_id_nonempty: "transfer_id_err uuid = None \<Longrightarrow> uuid \<noteq> []"
  by (auto simp: transfer_id_err_def TrimSpace_def)

lemma agent_chunk:
  assumes rcv: "agent_receives w path uuid content n st"
    and data: "data \<noteq> [] \<or> content = []" "prefix data (drop n content)" "int (length data) \<le> TransferChunkSize" "n \<le> length content"
    and send: "sendUploadChunk (agent_request w tok uid) None agentID (upload_chunk_payload path uuid data (int n)
      (int (length content)) (take n content @ data)) timeout st = (st', e)"
  shows "e = None \<and> (if n + length data = length content then agent_serves w path content st'
    else agent_receives w path uuid content (n + length data) st')"
proof -
  let ?E = "w_os w" and ?fs = "hs_fs st" and ?fin = "n + length data = length content"
  let ?p = "upload_chunk_payload path uuid data (int n) (int (length content)) (take n content @ data)"
  from rcv obtain p where p: "safePath ?E path = Inr p" "upload_site ?fs p (upload_temp p uuid)"
      "{p, DirOf p, upload_temp p uuid, upload_meta (upload_temp p uuid)} \<inter> log_paths (hs_log st) = {}"
      "n = 0 \<or> pending_at ?fs (upload_temp p uuid) = Some (int (length content), take n content)"
    and size: "int (length content) < 2 ^ 53" and con: "connected w st" and tid: "transfer_id_err uuid = None"
    unfolding agent_receives_def by blast
  let ?t = "upload_temp p uuid"
  from con have ff: "fault_free ?E" and ok: "env_ok ?E" and wf: "fs_wf ?fs"
    and cl: "cl_authed (hs_client st)" "\<not> cl_closed (hs_client st)" by (simp_all add: connected_def)
  have le: "n + length data \<le> length content" using prefix_length_le [OF data(2)] data(4) by simp
  have tk: "take n content @ data = take (n + length data) content"
    using data(2) by (auto simp: prefix_def take_add)
  have small: "small (int n)" "small (int (length content))" using size data(4) by (simp_all add: small_def)
  have add: "add64 (int n) (int (length data)) = int (n + length data)"
    using le size by (subst add64_nonneg_id) simp_all
  have pf: "sf_path ?p = path" "sf_data ?p = data" "sf_offset ?p = int n" "sf_total_size ?p = int (length content)"
    "sf_final ?p = ?fin" "sf_checksum ?p = (if ?fin then sha256_hex content else [])" "sf_transfer_id ?p = uuid"
    using tk by (simp_all add: upload_chunk_payload_def add Let_def del: of_nat_add)
  obtain fs1 r where wr: "WriteAtomicUploadChunk ?E ?fs path uuid data (int n) (int (length content)) ?fin
      (if ?fin then sha256_hex content else []) = (fs1, r)" by force
  have "int (length data) \<le> DefaultChunkSize" using data(3) by (simp add: DefaultChunkSize_def TransferChunkSize_def)
  note sp = spec_next_chunk [OF p(4) le tk this data(1)]
  from upload_step_refines [OF wr ff ok p(1) tid p(2) small_int64 [OF small(2)]]
  have m: "step_matches ?fs fs1 p ?t r (if ?fin then (None, Committed content)
      else (Some (int (length content), take (n + length data) content), Accepted))" unfolding sp .
  then have r: "r = None" by (auto simp: step_matches_def outcome_ok_def split: if_splits)
  have sd: "st' = sendResponse w uid MsgFileAck (file_ack ?p (sf_final ?p)) (with_log w ?p ((drained st)\<lparr>hs_fs := fs1\<rparr>))"
    "e = None"
    using sendUploadChunk_agent [of ?p st w fs1 tok uid agentID timeout] small cl wr r send transfer_id_nonempty [OF tid]
    unfolding pf by simp_all
  let ?A = "insert p (upload_files ?E path uuid)"
  have A: "?A = {p, ?t, upload_meta ?t}" using p(1) by (simp add: upload_files_def)
  have fr: "same_except ?A ?fs fs1"
    using upload_frame_all [OF p(1), of uuid ?fs data "int n" "int (length content)" ?fin
        "if ?fin then sha256_hex content else []"] wr by simp
  have wf1: "fs_wf fs1" using WriteAtomicUploadChunk_wf [OF wr wf ok] .
  have "?A \<inter> log_paths (hs_log st) = {}" using p(3) by (auto simp: A)
  from after_send [OF con _ _ _ fr wf1 this sd(1)]
  have after: "connected w st'" "same_except (log_paths (hs_log st)) fs1 (hs_fs st')"
    "log_paths (hs_log st') = log_paths (hs_log st)" by simp_all
  have disj: "log_paths (hs_log st) \<inter> {p, DirOf p, ?t, upload_meta ?t} = {}" using p(3) by auto
  note st = upload_state_same [OF after(2) disj]
  show ?thesis
  proof (cases ?fin)
    case True
    with m have "fmlookup (hs_fs st') p = Some (File content)"
      by (simp add: step_matches_def target_after_def st(3))
    with True sd(2) after(1,3) size p(1,3) show ?thesis by (auto simp: agent_serves_def)
  next
    case False
    with m have pend: "pending_at fs1 ?t = Some (int (length content), take (n + length data) content)"
      by (simp add: step_matches_def)
    have "same_except {?t, upload_meta ?t} ?fs fs1"
      using upload_frame [OF wr] False p(1) by (simp add: upload_files_def)
    from upload_site_after [OF p(2) this pend] have "upload_site fs1 p ?t" using size by simp
    with pend False sd(2) after(1,3) size tid p(1,3) st show ?thesis by (auto simp: agent_receives_def)
  qed
qed

lemma agent_chunk_empty:
  assumes "agent_receives w path uuid [] 0 st"
    and "sendUploadChunk (agent_request w tok uid) None agentID \<lparr>sf_path = path, sf_data = [], sf_offset = 0,
      sf_total_size = 0, sf_final = True, sf_checksum = sha256_hex [], sf_transfer_id = uuid\<rparr> timeout st = (st', e)"
  shows "e = None \<and> agent_serves w path [] st'"
  using agent_chunk [OF assms(1), of "[]" tok uid agentID timeout st' e] assms(2)
  by (simp add: upload_chunk_payload_def TransferChunkSize_def add64_def)

lemma get_chunk_size_transfer [simp]: "get_chunk_size TransferChunkSize = TransferChunkSize"
  by (simp add: get_chunk_size_def TransferChunkSize_def MaxChunkSize_def)

lemma chunk_len_transfer: "chunk_len TransferChunkSize = 65536"
  by (simp add: chunk_len_def TransferChunkSize_def)

definition served_chunk :: "string \<Rightarrow> bytes \<Rightarrow> nat \<Rightarrow> FileChunkPayload" where
  "served_chunk path content n =
     (let data = take 65536 (drop n content); final = (n + length data \<ge> length content)
      in \<lparr>fc_path = path, fc_data = data, fc_offset = int n, fc_total_size = int (length content), fc_final = final,
          fc_checksum = (if final then sha256_hex content else [])\<rparr>)"

lemma served_chunk_answers:
  assumes "n < length content \<or> n = 0"
  shows "chunk_answers content n (served_chunk path content n)"
  using assms by (auto simp: chunk_answers_def served_chunk_def Let_def TransferChunkSize_def take_is_prefix)

lemma handleGetFile_ok:
  assumes "decode_get_file (via_interface (msg_payload msg)) = Some q"
    "ReadFileChunk (w_os w) (hs_fs st) (gf_path q) (gf_offset q) (get_chunk_size (gf_chunk_size q)) = (data, tot, None)"
    "st2 = (if gf_offset q = 0
       then record_ev w ''get_file'' ResultOK (Sprintf ''%s (%d bytes)'' [GStr (gf_path q), GInt tot]) st else st)"
    "FileSHA256 (w_os w) (hs_fs st2) (gf_path q) = Inr ck"
  shows "handleGetFile w msg st = sendResponse w (msg_id msg) MsgFileChunk (encode_file_chunk
      \<lparr>fc_path = gf_path q, fc_data = data, fc_offset = gf_offset q, fc_total_size = tot,
       fc_final = (add64 (gf_offset q) (int (length data)) \<ge> tot),
       fc_checksum = (if add64 (gf_offset q) (int (length data)) \<ge> tot then ck else [])\<rparr>) st2"
  using assms(1,2,4) unfolding assms(3) by (cases "gf_offset q = 0") (simp_all add: handleGetFile_def remarshal_def Let_def)

text \<open>The first chunk of a file is logged before the digest of the file is computed.\<close>

lemma handleGetFile_serves:
  assumes con: "connected w st" and p: "safePath (w_os w) path = Inr p" "fmlookup (hs_fs st) p = Some (File content)"
      "p \<notin> log_paths (hs_log st)" and size: "int (length content) < 2 ^ 53" and n: "n < length content \<or> n = 0"
    and msg: "decode_get_file (via_interface (msg_payload msg))
      = Some \<lparr>gf_path = path, gf_offset = int n, gf_chunk_size = TransferChunkSize\<rparr>"
    and drained: "hs_client st1 = (hs_client st)\<lparr>cl_send := []\<rparr>" "hs_fs st1 = hs_fs st" "hs_log st1 = hs_log st"
  shows "\<exists>st2. handleGetFile w msg st1 = sendResponse w (msg_id msg) MsgFileChunk (encode_file_chunk (served_chunk path content n)) st2
    \<and> hs_client st2 = (hs_client st)\<lparr>cl_send := []\<rparr> \<and> fs_wf (hs_fs st2) \<and> log_steady (hs_fs st2) (hs_log st2)
    \<and> log_paths (hs_log st2) = log_paths (hs_log st) \<and> fmlookup (hs_fs st2) p = Some (File content)"
proof -
  have ff: "fault_free (w_os w)" and ok: "env_ok (w_os w)" and wf: "fs_wf (hs_fs st1)"
    and ls: "log_steady (hs_fs st1) (hs_log st1)" using con by (simp_all add: connected_def drained)
  define d where "d = take 65536 (drop n content)"
  have rd: "ReadFileChunk (w_os w) (hs_fs st1) path (int n) TransferChunkSize = (d, int (length content), None)"
    using ReadFileChunk_quiet [OF ff p(1), of "hs_fs st1" content "int n" TransferChunkSize] p(2) n
    by (simp add: drained chunk_len_transfer d_def)
  define st2 where "st2 = (if n = 0 then record_ev w ''get_file'' ResultOK
      (Sprintf ''%s (%d bytes)'' [GStr path, GInt (int (length content))]) st1 else st1)"
  have st2: "hs_client st2 = (hs_client st)\<lparr>cl_send := []\<rparr>" "fs_wf (hs_fs st2)" "log_steady (hs_fs st2) (hs_log st2)"
      "log_paths (hs_log st2) = log_paths (hs_log st)"
    using record_ev_steady [OF ff wf ls] drained wf ls by (simp_all add: st2_def)
  have same: "same_except (log_paths (hs_log st)) (hs_fs st) (hs_fs st2)"
    using record_ev_steady(1) [OF ff wf ls] drained by (simp add: st2_def)
  have look: "fmlookup (hs_fs st2) p = Some (File content)" using same_exceptD [OF same p(3)] p(2) by simp
  have "clean_abs p" "dotdot_free p" using safePath_sound [OF ok p(1)] by simp_all
  then have sha: "FileSHA256 (w_os w) (hs_fs st2) path = Inr (sha256_hex content)"
    using ff p(1) look by (simp add: FileSHA256_def open_read_def read_all_def)
  have add: "add64 (int n) (int (length d)) = int (n + length d)"
    using size n by (subst add64_nonneg_id) (auto simp: d_def)
  let ?q = "\<lparr>gf_path = path, gf_offset = int n, gf_chunk_size = TransferChunkSize\<rparr>"
  have st2_eq: "st2 = (if gf_offset ?q = 0
      then record_ev w ''get_file'' ResultOK (Sprintf ''%s (%d bytes)'' [GStr (gf_path ?q), GInt (int (length content))]) st1
      else st1)" by (simp add: st2_def)
  have "handleGetFile w msg st1
      = sendResponse w (msg_id msg) MsgFileChunk (encode_file_chunk (served_chunk path content n)) st2"
    using handleGetFile_ok [OF msg _ st2_eq, of d "sha256_hex content"] rd sha
    by (simp add: add served_chunk_def Let_def d_def [symmetric])
  with st2 look show ?thesis by blast
qed

lemma agent_serve:
  assumes srv: "agent_serves w path content st" and n: "n < length content \<or> n = 0"
    and req: "dn_request (agent_request w tok uid) agentID path timeout st (int n) = (st', m, e)"
  shows "e = None \<and> agent_serves w path content st' \<and> (\<exists>chunk. chunk_of m = Some chunk \<and> chunk_answers content n chunk)"
proof -
  from srv obtain p where p: "safePath (w_os w) path = Inr p" "fmlookup (hs_fs st) p = Some (File content)"
      "p \<notin> log_paths (hs_log st)" and con: "connected w st" and size: "int (length content) < 2 ^ 53"
    unfolding agent_serves_def by blast
  let ?q = "\<lparr>gf_path = path, gf_offset = int n, gf_chunk_size = TransferChunkSize\<rparr>"
  let ?msg = "\<lparr>msg_id = uid, msg_type = MsgGetFile, msg_payload = encode_get_file ?q, msg_time = w_now w, msg_error = no_text\<rparr>"
  have small: "small (int n)" "small (int (length content))" using size n by (auto simp: small_def)
  then have dec: "decode_get_file (via_interface (msg_payload ?msg)) = Some ?q" by simp
  from handleGetFile_serves [OF con p size n dec, of "drained st"] obtain st2 where
    h: "handleGetFile w ?msg (drained st) = sendResponse w uid MsgFileChunk (encode_file_chunk (served_chunk path content n)) st2"
    and st2: "hs_client st2 = (hs_client st)\<lparr>cl_send := []\<rparr>" "fs_wf (hs_fs st2)" "log_steady (hs_fs st2) (hs_log st2)"
      "log_paths (hs_log st2) = log_paths (hs_log st)" "fmlookup (hs_fs st2) p = Some (File content)"
    by auto
  have "handleMessage w tok ?msg (drained st) = handleGetFile w ?msg (drained st)"
    using con by (simp add: handleMessage_def dispatch_def msg_types connected_def)
  then have "agent_request w tok uid st agentID MsgGetFile (encode_get_file ?q) timeout
      = (sendResponse w uid MsgFileChunk (encode_file_chunk (served_chunk path content n)) st2,
         Some (message w uid MsgFileChunk (encode_file_chunk (served_chunk path content n)) no_text), None)"
    unfolding h using st2(1) con by (intro agent_request_response) (simp_all add: connected_def)
  with req have r: "st' = sendResponse w uid MsgFileChunk (encode_file_chunk (served_chunk path content n)) st2"
    "m = Some (message w uid MsgFileChunk (encode_file_chunk (served_chunk path content n)) no_text)" "e = None"
    by (simp_all add: dn_request_def)
  have "small (fc_offset (served_chunk path content n))" "small (fc_total_size (served_chunk path content n))"
    using small by (simp_all add: served_chunk_def Let_def)
  then have "chunk_of m = Some (served_chunk path content n)"
    by (simp add: chunk_of_def decodePayload_def r(2) message_def)
  moreover have "connected w st'"
    using con st2 sendResponse_answers(2) [OF st2(1), of w uid] by (simp add: connected_def r(1))
  then have "agent_serves w path content st'"
    using size p st2 by (auto simp: agent_serves_def r(1))
  ultimately show ?thesis using r(3) served_chunk_answers [OF n] by blast
qed

text \<open>The agent, as one connection reaches it, is a file agent for every content.\<close>

interpretation agent: file_agent "agent_request w tok uid" agentID path uuid timeout content
  "agent_receives w path uuid content" "agent_serves w path content" "agent_serves w path content"
  for w tok uid agentID path uuid timeout content
proof unfold_locales
  fix n st assume "agent_receives w path uuid content n st"
  then show "int (length content) < 2 ^ 62" by (simp add: agent_receives_def)
next
  fix n st data st' e
  assume a: "agent_receives w path uuid content n st" "data \<noteq> []" "prefix data (drop n content)"
    "int (length data) \<le> TransferChunkSize"
    "sendUploadChunk (agent_request w tok uid) None agentID (upload_chunk_payload path uuid data (int n)
            (int (length content)) (take n content @ data)) timeout st = (st', e)"
  then have "n \<le> length content" by (cases "n \<le> length content") auto
  with a show "e = None \<and> (if n + length data = length content then agent_serves w path content st'
      else agent_receives w path uuid content (n + length data) st')"
    by (intro agent_chunk) auto
next
  fix st st' e
  assume "agent_receives w path uuid content 0 st" "content = []"
    "sendUploadChunk (agent_request w tok uid) None agentID
            \<lparr>sf_path = path, sf_data = [], sf_offset = 0, sf_total_size = 0, sf_final = True,
             sf_checksum = sha256_hex [], sf_transfer_id = uuid\<rparr> timeout st = (st', e)"
  then show "e = None \<and> agent_serves w path content st'" using agent_chunk_empty by blast
next
  fix st assume "agent_serves w path content st"
  then show "int (length content) < 2 ^ 62" by (simp add: agent_serves_def)
next
  fix st n st' m e
  assume "agent_serves w path content st" "n < length content \<or> n = 0"
    "dn_request (agent_request w tok uid) agentID path timeout st (int n) = (st', m, e)"
  then show "e = None \<and> agent_serves w path content st'
      \<and> (\<exists>chunk. chunk_of m = Some chunk \<and> chunk_answers content n chunk)" by (rule agent_serve)
qed

end
