(* ===== verification/TransferProps.thy ===== *)
theory TransferProps
  imports AgentLink AgentProps ServerProps
begin

text \<open>
  The properties of file transfer: what the controller may rely on against any agent, that its
  loops end, and that the two programs together move a file unchanged in both directions.
\<close>

section \<open>Concrete instances\<close>

text \<open>An agent with one authenticated connection over the tree \<open>demo_fs\<close>, and a quiet controller.\<close>

definition demo_client :: Client where
  "demo_client = (newClient ''id-1'' ''10.0.0.5:4000'')\<lparr>cl_authed := True\<rparr>"

definition demo_agent :: HState where
  "demo_agent = \<lparr>hs_fs = demo_fs, hs_guard = newIPGuard, hs_log = None, hs_client = demo_client\<rparr>"

abbreviation demo_request :: "HState requester" where
  "demo_request \<equiv> agent_request demo_world ''secret'' ''req-1''"

abbreviation no_cancel :: ctx_polls where "no_cancel \<equiv> \<lambda>_. None"
abbreviation quiet_rounds :: "nat \<Rightarrow> osenv" where "quiet_rounds \<equiv> \<lambda>_. quiet"

lemma demo_connected [simp]: "connected demo_world demo_agent"
  by (simp add: connected_def demo_agent_def demo_client_def newClient_def demo_world_def demo_wf log_steady_def)

lemma demo_receives: "agent_receives demo_world ''/d/g'' ''t1'' ''hello'' 0 demo_agent"
proof -
  have "safePath (w_os demo_world) ''/d/g'' = Inr ''/d/g''" by (simp add: demo_world_def demo_paths)
  moreover have "upload_site (hs_fs demo_agent) ''/d/g'' (upload_temp ''/d/g'' ''t1'')"
    using demo_site by (simp add: demo_agent_def)
  ultimately show ?thesis
    by (simp add: agent_receives_def demo_paths) (simp add: demo_agent_def log_paths_def)
qed

lemma demo_serves: "agent_serves demo_world ''/d/f'' ''hello'' demo_agent"
  by (simp add: agent_serves_def) (simp add: demo_agent_def demo_world_def demo_paths log_paths_def)

lemma quiet_undisturbed [simp]: "undisturbed no_cancel quiet_rounds"
  by (simp add: undisturbed_def)

lemma demo_names [simp]:
  "TrimSpace ''a1'' = ''a1''" "TrimSpace ''/d/f'' = ''/d/f''" "TrimSpace ''/d/g'' = ''/d/g''" "TrimSpace ''/d/h'' = ''/d/h''"
  by (simp_all add: TrimSpace_graphic graphic_def)

lemma demo_local:
  "os_path quiet ''/d/f'' = ''/d/f''" "AbsPath (cwd quiet) ''/d/h'' = Inr ''/d/h''" "DirOf ''/d/h'' = ''/d''"
  "JoinPath [''/d'', ''.lan-commander-download-1''] = ''/d/.lan-commander-download-1''"
  "DirOf ''/d/.lan-commander-download-1'' = ''/d''"
  by code_simp+

lemma demo_temp: "create_temp quiet demo_fs (DirOf ''/d/h'') ''.lan-commander-download-'' ''''
    = (fmupd ''/d/.lan-commander-download-1'' (File []) demo_fs, Inr ''/d/.lan-commander-download-1'')"
  by (simp add: create_temp_def demo_local parent_err_def quiet_def Let_def)

section \<open>The two programs together\<close>

text \<open>Round trip over both programs: a file uploaded by the controller to an authenticated
  agent and downloaded again, in whatever portions the source is read, gives a local file with
  exactly the bytes of the first one, and both transfers end without an error.\<close>

theorem transfer_roundtrip:
  assumes "agent_receives w remotePath uuid content 0 st" "undisturbed ctx En" "undisturbed ctx' En'"
    and "TrimSpace agentID \<noteq> []" "TrimSpace localPath \<noteq> []" "TrimSpace remotePath \<noteq> []" "TrimSpace copyPath \<noteq> []"
    and "fmlookup fs (os_path (En 0) localPath) = Some (File content)"
    and "AbsPath (cwd (En' 0)) copyPath = Inr dest" "fmlookup fs (DirOf dest) = Some Dir" "fmlookup fs dest \<noteq> Some Dir"
    and "create_temp (En' 0) fs (DirOf dest) ''.lan-commander-download-'' '''' = (fs1, Inr part)"
  shows "\<exists>st1 st2 fs'.
     Upload (Some ctx) (Some (agent_request w tok uid)) En uuid (\<lambda>_ c. c) agentID localPath remotePath timeout st fs
       = Some (st1, None)
   \<and> Download (Some ctx') (Some (agent_request w tok uid)) En' agentID remotePath copyPath timeout st1 fs
       = Some (st2, fs', None)
   \<and> fmlookup fs' dest = Some (File content)"
  using assms by (rule agent.round_trip)

lemma transfer_roundtrip_witness:
  "\<exists>st1 st2 fs'.
     Upload (Some no_cancel) (Some demo_request) quiet_rounds ''t1'' (\<lambda>_ c. c) ''a1'' ''/d/f'' ''/d/g'' 30 demo_agent demo_fs
       = Some (st1, None)
   \<and> Download (Some no_cancel) (Some demo_request) quiet_rounds ''a1'' ''/d/g'' ''/d/h'' 30 st1 demo_fs = Some (st2, fs', None)
   \<and> fmlookup fs' ''/d/h'' = Some (File ''hello'')"
  by (rule transfer_roundtrip [OF demo_receives quiet_undisturbed quiet_undisturbed _ _ _ _ _ demo_local(2) _ _ demo_temp])
    (simp_all add: demo_local)

text \<open>Upload end to end: against an authenticated agent with room for the upload, an undisturbed
  upload ends without an error, and afterwards the agent's file at the validated remote path holds
  exactly the local content.\<close>

theorem upload_end_to_end:
  assumes "agent_receives w remotePath uuid content 0 st" "undisturbed ctx En"
    and "TrimSpace agentID \<noteq> []" "TrimSpace localPath \<noteq> []" "TrimSpace remotePath \<noteq> []"
    and "fmlookup fs (os_path (En 0) localPath) = Some (File content)"
  shows "\<exists>st' p. Upload (Some ctx) (Some (agent_request w tok uid)) En uuid (\<lambda>_ c. c) agentID localPath remotePath timeout st fs
       = Some (st', None)
     \<and> safePath (w_os w) remotePath = Inr p \<and> fmlookup (hs_fs st') p = Some (File content)"
  using agent.upload_delivers [OF assms, of tok uid timeout] unfolding agent_serves_def by blast

lemma upload_end_to_end_witness:
  "\<exists>st' p. Upload (Some no_cancel) (Some demo_request) quiet_rounds ''t1'' (\<lambda>_ c. c) ''a1'' ''/d/f'' ''/d/g'' 30 demo_agent demo_fs
       = Some (st', None) \<and> safePath (w_os demo_world) ''/d/g'' = Inr p \<and> fmlookup (hs_fs st') p = Some (File ''hello'')"
  by (rule upload_end_to_end [OF demo_receives quiet_undisturbed]) (simp_all add: demo_local)

text \<open>Download end to end: a file the agent holds, of any size below 2^53 bytes, arrives at the
  local destination with exactly its bytes, and the transfer ends without an error.\<close>

theorem download_end_to_end:
  assumes "agent_serves w remotePath content st" "undisturbed ctx En"
    and "TrimSpace agentID \<noteq> []" "TrimSpace localPath \<noteq> []" "TrimSpace remotePath \<noteq> []"
    and "AbsPath (cwd (En 0)) localPath = Inr dest" "fmlookup fs (DirOf dest) = Some Dir" "fmlookup fs dest \<noteq> Some Dir"
    and "create_temp (En 0) fs (DirOf dest) ''.lan-commander-download-'' '''' = (fs1, Inr part)"
  shows "\<exists>st' fs'. Download (Some ctx) (Some (agent_request w tok uid)) En agentID remotePath localPath timeout st fs
       = Some (st', fs', None) \<and> fmlookup fs' dest = Some (File content)"
  using agent.download_fetches [OF assms, of tok uid timeout] by blast

lemma download_end_to_end_witness:
  "\<exists>st' fs'. Download (Some no_cancel) (Some demo_request) quiet_rounds ''a1'' ''/d/f'' ''/d/h'' 30 demo_agent demo_fs
       = Some (st', fs', None) \<and> fmlookup fs' ''/d/h'' = Some (File ''hello'')"
  by (rule download_end_to_end [OF demo_serves quiet_undisturbed _ _ _ demo_local(2) _ _ demo_temp])
    (simp_all add: demo_local)

section \<open>Against any agent\<close>

text \<open>(C4) A download is only accepted verified: whatever the agent answers and whatever fails locally,
  if Download returns without an error then the destination holds a content whose size and SHA-256
  digest are those of a final chunk the agent sent, and no other local file has changed.\<close>

theorem download_verified:
  assumes "Download ctx (Some rq) En agentID remotePath localPath timeout r fs = Some (r', fs', None)"
  shows "\<exists>dest c. AbsPath (cwd (En 0)) localPath = Inr dest \<and> fmlookup fs' dest = Some (File c)
     \<and> same_except {dest} fs fs'
     \<and> (\<exists>r0 off r1 m chunk. rq r0 agentID MsgGetFile (encode_get_file
            \<lparr>gf_path = remotePath, gf_offset = off, gf_chunk_size = TransferChunkSize\<rparr>) timeout = (r1, Some m, None)
          \<and> decode_file_chunk (via_interface (msg_payload m)) = Some chunk
          \<and> fc_final chunk \<and> fc_total_size chunk = wrap64 (int (length c))
          \<and> EqualFold (sha256_hex c) (fc_checksum chunk))"
  using assms
proof (cases rule: Download_cases)
  case (saved part fs2 c dest rq' k)
  from rename_ok [OF saved(5)] saved(7) have fs': "fs' = fmupd dest (File c) (fmdrop part fs2)" by auto
  have same: "same_except {dest} fs fs'" using saved(6,8) by (auto simp: fs' same_except_def)
  from saved(2,4) obtain r0 off r1 m chunk where
    v: "dn_request rq agentID remotePath timeout r0 off = (r1, m, None)" "chunk_of m = Some chunk" "fc_final chunk"
      "fc_total_size chunk = wrap64 (int (length c))" "EqualFold (sha256_hex c) (fc_checksum chunk)"
    unfolding verified_by_def by auto
  from v(2) obtain m' where m: "m = Some m'" "decode_file_chunk (via_interface (msg_payload m')) = Some chunk"
    by (auto simp: chunk_of_def decodePayload_def split: option.splits)
  have "fmlookup fs' dest = Some (File c)" by (simp add: fs')
  with saved(3) same show ?thesis
    using v(1,3-5) m unfolding dn_request_def by blast
qed auto

lemma download_verified_witness:
  "\<exists>fs' c. fmlookup fs' ''/d/h'' = Some (File c) \<and> same_except {''/d/h''} demo_fs fs'"
proof -
  obtain st' fs' where "Download (Some no_cancel) (Some demo_request) quiet_rounds ''a1'' ''/d/f'' ''/d/h'' 30 demo_agent demo_fs
      = Some (st', fs', None)"
    using agent.download_fetches [OF demo_serves quiet_undisturbed, where fs = demo_fs and agentID = "''a1''"
      and localPath = "''/d/h''" and tok = "''secret''" and uid = "''req-1''" and timeout = 30 and dest = "''/d/h''"] demo_temp
    by (auto simp: demo_local)
  from download_verified [OF this] show ?thesis by (auto simp: demo_local)
qed

text \<open>(C9) A failed download leaves nothing behind: when Download returns an error, and removing files
  works, every local path is as it was, whatever the agent answered and whatever else failed.\<close>

theorem download_failure_restores:
  assumes "Download ctx requester En agentID remotePath localPath timeout r fs = Some (r', fs', Some e)"
    and "\<forall>k p. fault (En k) SRemove p = None"
  shows "fmlookup fs' q = fmlookup fs q"
  using assms(1)
proof (cases rule: Download_cases)
  case (failed part fs2 c k e')
  with download_restored [OF failed(3-5), of "En k" q] assms(2) show ?thesis by simp
qed auto

lemma download_failure_restores_witness:
  "\<exists>r' fs' e. Download (Some no_cancel) (Some (\<lambda>r _ _ _ _. (r, None, None))) quiet_rounds ''a1'' ''/d/f'' ''/d/h'' 30 () demo_fs
       = Some (r', fs', Some e) \<and> fmlookup fs' ''/d/.lan-commander-download-1'' = None"
proof -
  let ?rq = "\<lambda>r _ _ _ _. (r, None, None)" and ?fs = "fmupd ''/d/.lan-commander-download-1'' (File []) demo_fs"
  have loop: "go_loop (download_round ?rq no_cancel quiet_rounds ''a1'' ''/d/f'' ''/d/.lan-commander-download-1'' 30)
      \<lparr>dn_round = 0, dn_offset = 0, dn_total = -1, dn_written = 0, dn_fs = ?fs, dn_remote = ()\<rparr>
    = Some (\<lparr>dn_round = 0, dn_offset = 0, dn_total = -1, dn_written = 0, dn_fs = ?fs, dn_remote = ()\<rparr>,
        Some (Sprintf ''invalid file chunk response: %w'' [GErr (lit ''empty response'')]))"
    by (rule go_loop_leave) (simp add: download_round_def decodePayload_def)
  have tgt: "download_target quiet demo_fs ''/d/h'' = Inr ''/d/h''"
    by (simp add: download_target_def demo_local stat_def quiet_def [symmetric])
  have "Download (Some no_cancel) (Some ?rq) quiet_rounds ''a1'' ''/d/f'' ''/d/h'' 30 () demo_fs
      = Some ((), fst (remove quiet ?fs ''/d/.lan-commander-download-1''),
          Some (Sprintf ''invalid file chunk response: %w'' [GErr (lit ''empty response'')]))"
    using loop tgt demo_temp by (simp add: Download_def validateRequest_def demo_local)
  from this download_failure_restores [OF this, of "''/d/.lan-commander-download-1''"] show ?thesis by simp
qed

section \<open>The loops end\<close>

text \<open>(C22) An upload always returns: for every agent, every context and every sequence of failures, when
  the source does not grow while it is read.\<close>

theorem upload_terminates:
  "\<exists>r' e. Upload ctx requester En uuid (\<lambda>_ c. c) agentID localPath remotePath timeout r fs = Some (r', e)"
  using Upload_ends [of ctx requester En uuid agentID localPath remotePath timeout r fs] by (metis prod.collapse)

text \<open>(C23) A download always returns, for every context and every sequence of failures, from an agent that
  does not advertise sizes beyond 2^62 bytes: every round that goes on takes in at least a byte.\<close>

theorem download_terminates:
  assumes "sizes_bounded rq agentID remotePath timeout"
  shows "\<exists>r' fs' e. Download ctx (Some rq) En agentID remotePath localPath timeout r fs = Some (r', fs', e)"
  using Download_ends [of "Some rq" agentID remotePath timeout ctx En localPath r fs] assms by (metis option.inject prod.collapse)

lemma download_terminates_witness:
  "\<exists>r' fs' e. Download (Some no_cancel) (Some (\<lambda>r _ _ _ _. (r, Some (message demo_world [] MsgFileChunk (encode_file_chunk
      \<lparr>fc_path = [], fc_data = ''x'', fc_offset = 0, fc_total_size = 7, fc_final = False, fc_checksum = []\<rparr>) no_text), None)))
    quiet_rounds ''a1'' ''/d/f'' ''/d/h'' 30 () demo_fs = Some (r', fs', e)"
  by (rule download_terminates)
    (auto simp: sizes_bounded_def dn_request_def chunk_of_def decodePayload_def message_def small_def int64_ok_def)

end
