(* ===== verification/AgentMain.thy ===== *)
theory AgentMain
  imports AgentServer
begin

text \<open>
  The agent's start-up (\<^verbatim>\<open>agent/cmd/lan-agent/main.go\<close>): where the authentication
  token comes from, which combinations of flags are refused, and the server the accepted flags
  start. Flag values are the record \<open>agentFlags\<close>; the value of an environment variable is an
  argument.
\<close>

section \<open>Flags\<close>

record agentFlags =
  af_port :: int
  af_host :: string
  af_name :: string
  af_discoveryEnabled :: bool
  af_tlsCert :: string
  af_tlsKey :: string
  af_authToken :: string
  af_authTokenFile :: string
  af_auditLog :: string
  af_noAuth :: bool
  af_uiMode :: bool
  af_managedByNotice :: string

definition defaultFlags :: agentFlags where
  "defaultFlags = \<lparr>af_port = 9474, af_host = ''0.0.0.0'', af_name = [], af_discoveryEnabled = True,
     af_tlsCert = [], af_tlsKey = [], af_authToken = [], af_authTokenFile = [], af_auditLog = [],
     af_noAuth = False, af_uiMode = False, af_managedByNotice = []\<rparr>"

definition authTokenEnv :: string where
  "authTokenEnv = ''LAN_COMMANDER_AUTH_TOKEN''"

definition maxTokenFileSize :: int where
  "maxTokenFileSize = 4096"

section \<open>The flag package\<close>

text \<open>
  \<^verbatim>\<open>flag.FlagSet.Parse\<close> with exit on error: \<open>None\<close> is the exit. A flag is written with
  one or two dashes, its value after an equals sign or in the next argument; a Boolean flag takes
  a value only after an equals sign. Parsing stops at the first argument that is no flag.
\<close>

definition ParseBool :: "string \<Rightarrow> bool option" where
  "ParseBool s = (if s \<in> {''1'', ''t'', ''T'', ''TRUE'', ''true'', ''True''} then Some True
     else if s \<in> {''0'', ''f'', ''F'', ''FALSE'', ''false'', ''False''} then Some False else None)"

text \<open>An integer flag: \<^verbatim>\<open>strconv.ParseInt(s, 0, 64)\<close>, with base prefixes and underscores.\<close>

definition digit_value :: "char \<Rightarrow> nat option" where
  "digit_value c = (let n = of_char (lower_char c) :: nat in
     if 48 \<le> n \<and> n \<le> 57 then Some (n - 48) else if 97 \<le> n \<and> n \<le> 122 then Some (n - 87) else None)"

fun parse_base :: "nat \<Rightarrow> nat \<Rightarrow> string \<Rightarrow> nat option" where
  "parse_base b acc [] = Some acc"
| "parse_base b acc (c # cs) = (if c = CHR ''_'' then parse_base b acc cs
     else case digit_value c of None \<Rightarrow> None
       | Some d \<Rightarrow> if d < b then parse_base b (acc * b + d) cs else None)"

definition base_prefix :: "string \<Rightarrow> nat \<times> string" where
  "base_prefix s = (case s of
       c # d # e # r \<Rightarrow> if c = CHR ''0'' \<and> lower_char d = CHR ''b'' then (2, e # r)
           else if c = CHR ''0'' \<and> lower_char d = CHR ''o'' then (8, e # r)
           else if c = CHR ''0'' \<and> lower_char d = CHR ''x'' then (16, e # r)
           else if c = CHR ''0'' then (8, d # e # r) else (10, s)
     | c # r \<Rightarrow> if c = CHR ''0'' then (8, r) else (10, s)
     | [] \<Rightarrow> (10, []))"

text \<open>An underscore stands between digits, the prefix counting as one; the state is the last symbol.\<close>

fun underscores_ok :: "bool \<Rightarrow> char \<Rightarrow> string \<Rightarrow> bool" where
  "underscores_ok hex i [] = (i \<noteq> CHR ''_'')"
| "underscores_ok hex i (c # cs) =
     (if is_digit c \<or> hex \<and> CHR ''a'' \<le> lower_char c \<and> lower_char c \<le> CHR ''f'' then underscores_ok hex (CHR ''0'') cs
      else if c = CHR ''_'' then i = CHR ''0'' \<and> underscores_ok hex (CHR ''_'') cs
      else i \<noteq> CHR ''_'' \<and> underscores_ok hex (CHR ''!'') cs)"

definition int_body_ok :: "string \<Rightarrow> bool" where
  "int_body_ok s = (case s of
       c # d # r \<Rightarrow> if c = CHR ''0'' \<and> lower_char d \<in> {CHR ''b'', CHR ''o'', CHR ''x''}
           then underscores_ok (lower_char d = CHR ''x'') (CHR ''0'') r else underscores_ok False (CHR ''^'') s
     | _ \<Rightarrow> underscores_ok False (CHR ''^'') s)"

definition flag_int :: "string \<Rightarrow> int option" where
  "flag_int s =
     (let neg = HasPrefix s ''-''; body = (if HasPrefix s ''-'' \<or> HasPrefix s ''+'' then drop 1 s else s)
      in if s = [] then None
         else case base_prefix body of (b, ds) \<Rightarrow>
           if body = [] then None
           else case parse_base b 0 ds of None \<Rightarrow> None
             | Some n \<Rightarrow> if CHR ''_'' \<in> set ds \<and> \<not> int_body_ok body then None
                 else if neg then (if int n \<le> 2 ^ 63 then Some (- int n) else None)
                 else (if int n < 2 ^ 63 then Some (int n) else None))"

datatype flag_kind = IntFlag "int \<Rightarrow> agentFlags \<Rightarrow> agentFlags" | StringFlag "string \<Rightarrow> agentFlags \<Rightarrow> agentFlags"
  | BoolFlag "bool \<Rightarrow> agentFlags \<Rightarrow> agentFlags"

definition agent_flag :: "string \<Rightarrow> flag_kind option" where
  "agent_flag n =
     (if n = ''port'' then Some (IntFlag (\<lambda>v f. f\<lparr>af_port := v\<rparr>))
      else if n = ''host'' then Some (StringFlag (\<lambda>v f. f\<lparr>af_host := v\<rparr>))
      else if n = ''name'' then Some (StringFlag (\<lambda>v f. f\<lparr>af_name := v\<rparr>))
      else if n = ''discovery'' then Some (BoolFlag (\<lambda>v f. f\<lparr>af_discoveryEnabled := v\<rparr>))
      else if n = ''tls-cert'' then Some (StringFlag (\<lambda>v f. f\<lparr>af_tlsCert := v\<rparr>))
      else if n = ''tls-key'' then Some (StringFlag (\<lambda>v f. f\<lparr>af_tlsKey := v\<rparr>))
      else if n = ''auth-token'' then Some (StringFlag (\<lambda>v f. f\<lparr>af_authToken := v\<rparr>))
      else if n = ''auth-token-file'' then Some (StringFlag (\<lambda>v f. f\<lparr>af_authTokenFile := v\<rparr>))
      else if n = ''audit-log'' then Some (StringFlag (\<lambda>v f. f\<lparr>af_auditLog := v\<rparr>))
      else if n = ''no-auth'' then Some (BoolFlag (\<lambda>v f. f\<lparr>af_noAuth := v\<rparr>))
      else if n = ''ui'' then Some (BoolFlag (\<lambda>v f. f\<lparr>af_uiMode := v\<rparr>))
      else if n = ''managed-by-notice'' then Some (StringFlag (\<lambda>v f. f\<lparr>af_managedByNotice := v\<rparr>))
      else None)"

definition set_flag :: "flag_kind \<Rightarrow> string \<Rightarrow> agentFlags \<Rightarrow> agentFlags option" where
  "set_flag k v f = (case k of IntFlag g \<Rightarrow> map_option (\<lambda>i. g i f) (flag_int v)
     | StringFlag g \<Rightarrow> Some (g v f) | BoolFlag g \<Rightarrow> map_option (\<lambda>b. g b f) (ParseBool v))"

fun is_bool_flag :: "flag_kind \<Rightarrow> bool" where
  "is_bool_flag (BoolFlag _) = True"
| "is_bool_flag _ = False"

text \<open>The name and the value of a flag argument; \<open>None\<close> is bad syntax.\<close>

definition flag_word :: "string \<Rightarrow> (string \<times> string option) option" where
  "flag_word s = (let n = (if HasPrefix s ''--'' then drop 2 s else drop 1 s) in
     if n = [] \<or> HasPrefix n ''-'' \<or> HasPrefix n ''='' then None
     else case IndexByte n (CHR ''='') of None \<Rightarrow> Some (n, None)
       | Some i \<Rightarrow> Some (take i n, Some (drop (i + 1) n)))"

fun parse_flags :: "agentFlags \<Rightarrow> string list \<Rightarrow> agentFlags option" where
  "parse_flags f [] = Some f"
| "parse_flags f (s # rest) =
     (if length s < 2 \<or> \<not> HasPrefix s ''-'' \<or> s = ''--'' then Some f
      else case flag_word s of None \<Rightarrow> None
        | Some (n, v) \<Rightarrow> (case agent_flag n of None \<Rightarrow> None
          | Some k \<Rightarrow>
            if is_bool_flag k
            then Option.bind (set_flag k (case v of None \<Rightarrow> ''true'' | Some x \<Rightarrow> x) f) (\<lambda>g. parse_flags g rest)
            else (case v of Some x \<Rightarrow> Option.bind (set_flag k x f) (\<lambda>g. parse_flags g rest)
              | None \<Rightarrow> (case rest of [] \<Rightarrow> None
                  | x # rest1 \<Rightarrow> Option.bind (set_flag k x f) (\<lambda>g. parse_flags g rest1)))))"

definition parseAgentFlags :: "string list \<Rightarrow> agentFlags option" where
  "parseAgentFlags args = parse_flags defaultFlags args"

text \<open>The service verb, if the first argument is one, and the arguments of the run.\<close>

definition serviceCmds :: "string list" where
  "serviceCmds = [''install'', ''uninstall'', ''start'', ''stop'', ''restart'']"

definition split_command :: "string list \<Rightarrow> string \<times> string list" where
  "split_command args = (case args of [] \<Rightarrow> ([], [])
     | a # r \<Rightarrow> if a \<in> set serviceCmds then (a, r) else ([], args))"

section \<open>The token\<close>

definition readTokenFile :: "osenv \<Rightarrow> fsys \<Rightarrow> string \<Rightarrow> string result" where
  "readTokenFile E fs path =
     (let p = os_path E path in
      case stat E fs p of Inl err \<Rightarrow> Inl (Sprintf ''--auth-token-file: %w'' [GOs err])
      | Inr info \<Rightarrow>
        if is_dir info \<or> node_size E p info > maxTokenFileSize
        then Inl (Sprintf ''--auth-token-file %q is not a small regular file'' [GStr path])
        else (case ReadFile E fs p of Inl err \<Rightarrow> Inl (Sprintf ''--auth-token-file: %w'' [GOs err])
          | Inr content \<Rightarrow>
            if TrimSpace content = [] then Inl (Sprintf ''--auth-token-file %q is empty'' [GStr path])
            else Inr (TrimSpace content)))"

definition resolveAuthToken :: "osenv \<Rightarrow> fsys \<Rightarrow> (string \<Rightarrow> string) \<Rightarrow> agentFlags \<Rightarrow> agentFlags \<times> goerr option" where
  "resolveAuthToken E fs getenv f =
     (let envToken = TrimSpace (getenv authTokenEnv) in
      if af_authTokenFile f \<noteq> [] then
        (if af_authToken f \<noteq> [] then (f, Some (lit ''--auth-token and --auth-token-file cannot be combined''))
         else if af_noAuth f then (f, Some (lit ''--no-auth cannot be combined with --auth-token-file''))
         else case readTokenFile E fs (af_authTokenFile f) of
             Inl err \<Rightarrow> (f, Some err)
           | Inr token \<Rightarrow> (f\<lparr>af_authToken := token\<rparr>, None))
      else if af_authToken f = [] \<and> envToken \<noteq> [] then
        (if af_noAuth f then (f, Some (Sprintf ''--no-auth cannot be combined with %s'' [GStr authTokenEnv]))
         else (f\<lparr>af_authToken := envToken\<rparr>, None))
      else (f, None))"

definition validateAgentFlags :: "osenv \<Rightarrow> fsys \<Rightarrow> (string \<Rightarrow> string) \<Rightarrow> agentFlags \<Rightarrow> agentFlags \<times> goerr option" where
  "validateAgentFlags E fs getenv f =
     (if (af_tlsCert f = []) \<noteq> (af_tlsKey f = [])
      then (f, Some (lit ''--tls-cert and --tls-key must be provided together''))
      else if af_noAuth f \<and> af_authToken f \<noteq> []
      then (f, Some (lit ''--no-auth cannot be combined with --auth-token''))
      else case resolveAuthToken E fs getenv f of
        (f1, Some err) \<Rightarrow> (f1, Some err)
      | (f1, None) \<Rightarrow>
        if af_noAuth f1 then (f1, None)
        else if af_authToken f1 = []
        then (f1, Some (lit ''authentication token is required: pass --auth-token-file <file> (or --auth-token <token>), or explicitly use --no-auth only on an isolated laboratory network''))
        else (f1, None))"

section \<open>The program\<close>

record program =
  pg_flags :: agentFlags
  pg_running :: bool
  pg_auditor :: "AuditLogger option"

text \<open>\<^verbatim>\<open>Start\<close> leaves the validated flags behind and starts \<^verbatim>\<open>run\<close> in the background.\<close>

definition program_Start :: "osenv \<Rightarrow> (string \<Rightarrow> string) \<Rightarrow> fsys \<Rightarrow> program \<Rightarrow> fsys \<times> program \<times> goerr option" where
  "program_Start E getenv fs p =
     (case validateAgentFlags E fs getenv (pg_flags p) of
        (f, Some err) \<Rightarrow> (fs, p\<lparr>pg_flags := f\<rparr>, Some err)
      | (f, None) \<Rightarrow> (case Open E fs (af_auditLog f) of
          (fs1, l, Some err) \<Rightarrow> (fs1, p\<lparr>pg_flags := f\<rparr>, Some err)
        | (fs1, l, None) \<Rightarrow> (fs1, p\<lparr>pg_flags := f, pg_running := True, pg_auditor := l\<rparr>, None)))"

definition program_Stop :: "program \<Rightarrow> program" where
  "program_Stop p = p\<lparr>pg_running := False\<rparr>"

text \<open>The name announced, the address listened on, and the server \<^verbatim>\<open>run\<close> starts.\<close>

definition agent_name :: "agentFlags \<Rightarrow> string option \<Rightarrow> string" where
  "agent_name f hostname = (if af_name f = [] then (case hostname of None \<Rightarrow> ''unknown'' | Some h \<Rightarrow> h) else af_name f)"

definition run_server :: "fsys \<Rightarrow> program \<Rightarrow> Server" where
  "run_server fs p = NewServer (af_authToken (pg_flags p)) fs (pg_auditor p)"

section \<open>What validation guarantees\<close>

lemma resolve_ok:
  assumes "resolveAuthToken E fs getenv f = (f', None)"
  shows "af_noAuth f' = af_noAuth f" "af_tlsCert f' = af_tlsCert f" "af_tlsKey f' = af_tlsKey f"
    "af_noAuth f \<Longrightarrow> af_authToken f' = af_authToken f"
  using assms by (auto simp: resolveAuthToken_def Let_def split: if_splits sum.splits)

lemma validate_ok:
  assumes "validateAgentFlags E fs getenv f = (f', None)"
  shows "(af_authToken f' = []) = af_noAuth f" "(af_tlsCert f' = []) = (af_tlsKey f' = [])"
    "af_noAuth f' = af_noAuth f"
proof -
  from assms obtain f1 where r: "resolveAuthToken E fs getenv f = (f1, None)" and "f' = f1"
    by (auto simp: validateAgentFlags_def split: if_splits prod.splits option.splits)
  with resolve_ok [OF r] assms
  show "(af_authToken f' = []) = af_noAuth f" "(af_tlsCert f' = []) = (af_tlsKey f' = [])" "af_noAuth f' = af_noAuth f"
    by (auto simp: validateAgentFlags_def split: if_splits)
qed

lemma Open_logger: "Open E fs path = (fs', l, None) \<Longrightarrow> (l = None) = (path = [])"
  by (auto simp: Open_def open_max_def split: if_splits prod.splits option.splits)

lemma program_Start_ok:
  assumes "program_Start E getenv fs p = (fs', p', None)"
  shows "validateAgentFlags E fs getenv (pg_flags p) = (pg_flags p', None)"
    "Open E fs (af_auditLog (pg_flags p')) = (fs', pg_auditor p', None)" "pg_running p'"
  using assms by (auto simp: program_Start_def split: prod.splits option.splits)

lemma program_Start_err:
  assumes "program_Start E getenv fs p = (fs', p', Some e)"
  shows "pg_running p' = pg_running p" "pg_auditor p' = pg_auditor p"
  using assms by (auto simp: program_Start_def split: prod.splits option.splits)

text \<open>(C30) Secure by default: when the agent starts, its server asks for a token unless the operator gave
  --no-auth, TLS is configured with both files or not at all, and an audit log that was asked for
  is in use; when it does not start, nothing runs.\<close>

theorem start_fails_closed:
  assumes "program_Start E getenv fs p = (fs', p', r)"
  shows "(r = None \<longrightarrow> pg_running p' \<and> (sv_token (run_server fs' p') = [] \<longleftrightarrow> af_noAuth (pg_flags p))
        \<and> (af_tlsCert (pg_flags p') = [] \<longleftrightarrow> af_tlsKey (pg_flags p') = [])
        \<and> (sv_log (run_server fs' p') = None \<longleftrightarrow> af_auditLog (pg_flags p') = []))
     \<and> (r \<noteq> None \<longrightarrow> pg_running p' = pg_running p)"
proof (cases r)
  case None
  note ok = program_Start_ok [OF assms [unfolded None]]
  show ?thesis
    using None ok(3) validate_ok [OF ok(1)] Open_logger [OF ok(2)] by (simp add: run_server_def NewServer_def)
next
  case (Some e)
  with program_Start_err [OF assms [unfolded Some]] show ?thesis by simp
qed

definition token_fs :: fsys where
  "token_fs = fmap_of_list [(''/'', Dir), (''/t'', File '' s3cret '')]"

lemma start_fails_closed_witness:
  "\<exists>fs' p'. program_Start quiet (\<lambda>_. []) token_fs
       \<lparr>pg_flags = defaultFlags\<lparr>af_authTokenFile := ''/t''\<rparr>, pg_running = False, pg_auditor = None\<rparr> = (fs', p', None)
     \<and> sv_token (run_server fs' p') \<noteq> []"
proof -
  let ?f = "defaultFlags\<lparr>af_authTokenFile := ''/t''\<rparr>"
  let ?p = "\<lparr>pg_flags = ?f, pg_running = False, pg_auditor = None\<rparr>"
  have "fmlookup token_fs ''/t'' = Some (File '' s3cret '')" by (simp add: token_fs_def fmlookup_of_list)
  moreover have "os_path quiet ''/t'' = ''/t''" "TrimSpace '' s3cret '' = ''s3cret''" by code_simp+
  ultimately have "readTokenFile quiet token_fs ''/t'' = Inr ''s3cret''"
    by (simp add: readTokenFile_def stat_def ReadFile_quiet maxTokenFileSize_def Let_def)
  then have "program_Start quiet (\<lambda>_. []) token_fs ?p
      = (token_fs, ?p\<lparr>pg_flags := ?f\<lparr>af_authToken := ''s3cret''\<rparr>, pg_running := True, pg_auditor := None\<rparr>, None)"
    by (simp add: program_Start_def validateAgentFlags_def resolveAuthToken_def defaultFlags_def Open_def open_max_def Let_def)
  with start_fails_closed [OF this] show ?thesis by (auto simp: defaultFlags_def)
qed

end
