(* ===== verification/Wol.thy ===== *)
theory Wol
  imports GoLib Sha256
begin

text \<open>
  Wake-on-LAN (\<^verbatim>\<open>control-center/backend/wol/wol.go\<close>): parsing a hardware address,
  building the magic packet, and sending it to one broadcast address or to those of all
  interfaces. The network is an argument: whether a socket can be opened to an address, how many
  bytes a write takes, and the interfaces of the machine.
\<close>

section \<open>Hardware addresses\<close>

type_synonym hwaddr = string

text \<open>\<^verbatim>\<open>strings.ReplaceAll\<close> of a one-character string by the empty one.\<close>

definition drop_char :: "char \<Rightarrow> string \<Rightarrow> string" where
  "drop_char c s = filter (\<lambda>d. d \<noteq> c) s"

fun pairs :: "string \<Rightarrow> string list" where
  "pairs (a # b # r) = [a, b] # pairs r"
| "pairs _ = []"

definition hex_value :: "char \<Rightarrow> nat option" where
  "hex_value c = (let n = (of_char c :: nat) in
     if 48 \<le> n \<and> n \<le> 57 then Some (n - 48) else if 97 \<le> n \<and> n \<le> 102 then Some (n - 87)
     else if 65 \<le> n \<and> n \<le> 70 then Some (n - 55) else None)"

fun hex_pair :: "string \<Rightarrow> char option" where
  "hex_pair [a, b] = (case (hex_value a, hex_value b) of (Some x, Some y) \<Rightarrow> Some (char_of (16 * x + y)) | _ \<Rightarrow> None)"
| "hex_pair _ = None"

fun hex_pairs :: "string list \<Rightarrow> string option" where
  "hex_pairs [] = Some []"
| "hex_pairs (p # ps) = (case (hex_pair p, hex_pairs ps) of (Some c, Some cs) \<Rightarrow> Some (c # cs) | _ \<Rightarrow> None)"

text \<open>
  \<^verbatim>\<open>net.ParseMAC\<close> of six two-character groups joined by colons: each group must be
  two hexadecimal digits.
\<close>

definition net_ParseMAC :: "string list \<Rightarrow> hwaddr result" where
  "net_ParseMAC parts = (case hex_pairs parts of
       Some mac \<Rightarrow> Inr mac
     | None \<Rightarrow> Inl (Sprintf ''address %s: invalid MAC address'' [GStr (Join parts '':'')]))"

definition ParseMAC :: "string \<Rightarrow> hwaddr result" where
  "ParseMAC macStr =
     (let s = drop_char (CHR ''.'') (drop_char (CHR '':'') (drop_char (CHR ''-'') macStr))
      in if length s \<noteq> 12
         then Inl (Sprintf ''MAC address must be 12 hex characters, got %d'' [GInt (int (length s))])
         else net_ParseMAC (pairs s))"

definition ValidateMAC :: "string \<Rightarrow> bool" where
  "ValidateMAC macStr = (case ParseMAC macStr of Inl _ \<Rightarrow> False | Inr _ \<Rightarrow> True)"

section \<open>The magic packet\<close>

text \<open>The packet is built in place: six bytes of 0xFF, then a copy of the address at each multiple of six.\<close>

definition copy_at :: "string \<Rightarrow> nat \<Rightarrow> string \<Rightarrow> string" where
  "copy_at packet off d = take off packet @ take (length packet - off) d @ drop (off + length d) packet"

fun copies :: "string \<Rightarrow> nat list \<Rightarrow> string \<Rightarrow> string" where
  "copies mac [] packet = packet"
| "copies mac (i # is) packet = copies mac is (copy_at packet (i * 6) mac)"

definition magic_packet :: "hwaddr \<Rightarrow> string" where
  "magic_packet mac =
     copies mac [1..<17] (copy_at (replicate 102 (CHR 0x00)) 0 (replicate 6 (CHR 0xFF)))"

section \<open>Sending\<close>

record udp =
  ud_dial :: "string \<Rightarrow> string \<Rightarrow> goerr option"
  ud_write :: "string \<Rightarrow> string \<Rightarrow> nat \<times> goerr option"

text \<open>A datagram that was handed to the network: destination, port and bytes.\<close>

type_synonym datagram = "string \<times> nat \<times> string"

definition Send :: "udp \<Rightarrow> string \<Rightarrow> string \<Rightarrow> string \<Rightarrow> datagram list \<times> goerr option" where
  "Send net localAddr macAddr broadcastIP =
     (case ParseMAC macAddr of
        Inl err \<Rightarrow> ([], Some (Sprintf ''invalid MAC address %q: %w'' [GStr macAddr, GErr err]))
      | Inr mac \<Rightarrow>
        let ip = (if broadcastIP = [] then ''255.255.255.255'' else broadcastIP); packet = magic_packet mac
        in case ud_dial net localAddr ip of
             Some err \<Rightarrow> ([], Some (Sprintf ''failed to dial UDP: %w'' [GErr err]))
           | None \<Rightarrow> (case ud_write net ip packet of
               (_, Some err) \<Rightarrow> ([], Some (Sprintf ''failed to send WOL packet: %w'' [GErr err]))
             | (n, None) \<Rightarrow> if n \<noteq> length packet
                 then ([(ip, 9, take n packet)], Some (Sprintf ''incomplete write: sent %d of %d bytes'' [GInt (int n), GInt (int (length packet))]))
                 else ([(ip, 9, packet)], None)))"

text \<open>An interface address is an IPv4 address with its mask, byte by byte, or something else.\<close>

datatype ifaddr = IPv4Net "8 word list" "8 word list" | OtherAddr

record iface =
  if_up :: bool
  if_loopback :: bool
  if_addrs :: "ifaddr list option"

unbundle bit_operations_syntax

definition broadcast_of :: "8 word list \<Rightarrow> 8 word list \<Rightarrow> 8 word list" where
  "broadcast_of ip msk = map2 (\<lambda>a m. a OR NOT m) ip msk"

definition ip_string :: "8 word list \<Rightarrow> string" where
  "ip_string ip = Join (map (\<lambda>b. digits10 (unat b)) ip) ''.''"

definition broadcasts :: "iface list \<Rightarrow> string list" where
  "broadcasts ifs = concat (map (\<lambda>i.
     if \<not> if_up i \<or> if_loopback i then []
     else case if_addrs i of None \<Rightarrow> []
       | Some as \<Rightarrow> List.map_filter (\<lambda>a. case a of OtherAddr \<Rightarrow> None
           | IPv4Net ip msk \<Rightarrow> if hd ip = 127 then None else Some (ip_string (broadcast_of ip msk))) as) ifs)"

fun send_each :: "udp \<Rightarrow> string \<Rightarrow> string \<Rightarrow> string list \<Rightarrow> datagram list \<times> goerr option \<Rightarrow> datagram list \<times> goerr option" where
  "send_each net localAddr macAddr [] (sent, lastErr) = (sent, lastErr)"
| "send_each net localAddr macAddr (b # bs) (sent, lastErr) =
     (case Send net localAddr macAddr b of
        (d, Some err) \<Rightarrow> send_each net localAddr macAddr bs (sent @ d, Some err)
      | (d, None) \<Rightarrow> send_each net localAddr macAddr bs (sent @ d, lastErr))"

definition SendToAll :: "udp \<Rightarrow> goerr + iface list \<Rightarrow> string \<Rightarrow> string \<Rightarrow> datagram list \<times> goerr option" where
  "SendToAll net interfaces localAddr macAddr = (case interfaces of
       Inl err \<Rightarrow> ([], Some (Sprintf ''failed to list interfaces: %w'' [GErr err]))
     | Inr ifs \<Rightarrow> send_each net localAddr macAddr (broadcasts ifs) ([], None))"

section \<open>Facts\<close>

lemma pairs_length: "even (length s) \<Longrightarrow> length (pairs s) = length s div 2"
  by (induction s rule: pairs.induct) auto

lemma hex_value_digit [simp]: "n < 16 \<Longrightarrow> hex_value (hex_digit n) = Some n"
  by (auto simp: hex_value_def hex_digit_def Let_def)

lemma hex_pairs_encode: "hex_pairs (pairs (hex_encode s)) = Some s"
proof (induction s)
  case Nil
  show ?case by (simp add: hex_encode_def)
next
  case (Cons c s)
  have "(of_char c :: nat) < 256" by simp
  then have "(of_char c :: nat) div 16 < 16" by (simp only: less_mult_imp_div_less)
  then have "hex_pair [hex_digit (of_char c div 16), hex_digit (of_char c mod 16)] = Some c"
    by simp
  with Cons show ?case by (simp add: hex_encode_def Let_def)
qed

lemma hex_pairs_length: "hex_pairs ps = Some s \<Longrightarrow> length s = length ps"
  by (induction ps arbitrary: s) (auto split: option.splits)

lemma ParseMAC_length: "ParseMAC s = Inr mac \<Longrightarrow> length mac = 6"
  by (auto simp: ParseMAC_def net_ParseMAC_def Let_def pairs_length dest!: hex_pairs_length split: if_splits option.splits)

lemma hex_digit_plain: "n < 16 \<Longrightarrow> hex_digit n \<notin> {CHR ''-'', CHR '':'', CHR ''.''}"
  using hex_value_digit [of n] by (auto simp: hex_value_def)

lemma hex_encode_plain: "c \<in> set (hex_encode s) \<Longrightarrow> c \<notin> {CHR ''-'', CHR '':'', CHR ''.''}"
proof (induction s)
  case (Cons d s)
  have "(of_char d :: nat) < 256" by simp
  then have "(of_char d :: nat) div 16 < 16" by (simp only: less_mult_imp_div_less)
  moreover have "(of_char d :: nat) mod 16 < 16" by simp
  ultimately show ?case using Cons hex_digit_plain by (auto simp: hex_encode_def Let_def)
qed (simp add: hex_encode_def)

lemma hex_encode_Cons: "hex_encode (c # s) = hex_encode [c] @ hex_encode s"
  by (simp add: hex_encode_def)

lemma drop_char_append [simp]: "drop_char c (a @ b) = drop_char c a @ drop_char c b"
  by (simp add: drop_char_def)

lemma drop_char_id: "c \<notin> set s \<Longrightarrow> drop_char c s = s"
  by (induction s) (auto simp: drop_char_def)

text \<open>Writing an address with any separator and removing the separators gives its digits.\<close>

definition strip_separators :: "string \<Rightarrow> string" where
  "strip_separators s = drop_char (CHR ''.'') (drop_char (CHR '':'') (drop_char (CHR ''-'') s))"

lemma strip_hex [simp]: "strip_separators (hex_encode s) = hex_encode s"
proof -
  have "c \<notin> set (hex_encode s)" if "c \<in> {CHR ''-'', CHR '':'', CHR ''.''}" for c
    using hex_encode_plain [of c s] that by blast
  then show ?thesis by (simp add: strip_separators_def drop_char_id)
qed

lemma strip_append [simp]: "strip_separators (a @ b) = strip_separators a @ strip_separators b"
  by (simp add: strip_separators_def)

lemma strip_separated:
  "strip_separators sep = [] \<Longrightarrow> strip_separators (Join (map (\<lambda>c. hex_encode [c]) mac) sep) = hex_encode mac"
proof (induction mac)
  case (Cons c mac)
  show ?case
  proof (cases mac)
    case Nil
    then show ?thesis by simp
  next
    case (Cons d ds)
    with Cons.IH [OF Cons.prems] Cons.prems show ?thesis
      by (simp add: hex_encode_Cons [of c "d # ds"])
  qed
qed (simp add: hex_encode_def strip_separators_def drop_char_def)

lemma magic_packet_layout:
  assumes "length mac = 6"
  shows "magic_packet mac = replicate 6 (CHR 0xFF) @ concat (replicate 16 mac)"
proof -
  obtain a b c d e f where "mac = [a, b, c, d, e, f]"
    using assms by (auto simp: length_Suc_conv numeral_eq_Suc)
  then show ?thesis by (simp add: magic_packet_def copy_at_def upt_rec numeral_eq_Suc)
qed

text \<open>Wake-on-LAN: a hardware address written with colons, dashes, dots or no separator is parsed back
  to the address, and whenever Send reports success for a string, the string is an address of six
  bytes and exactly one datagram has gone out, to port 9 of the broadcast address, holding six
  0xFF bytes followed by sixteen copies of the address.\<close>

theorem wol_round_trip:
  assumes "length mac = 6" "sep \<in> {[], '':'', ''-'', ''.''}"
  shows "ParseMAC (Join (map (\<lambda>c. hex_encode [c]) mac) sep) = Inr mac
    \<and> (\<forall>ds. Send net localAddr s ip = (ds, None) \<longrightarrow>
        (\<exists>m. ParseMAC s = Inr m \<and> length m = 6 \<and>
           ds = [(if ip = [] then ''255.255.255.255'' else ip, 9, replicate 6 (CHR 0xFF) @ concat (replicate 16 m))]))"
proof
  have "strip_separators sep = []" using assms(2) by (auto simp: strip_separators_def drop_char_def)
  then have "strip_separators (Join (map (\<lambda>c. hex_encode [c]) mac) sep) = hex_encode mac" by (rule strip_separated)
  then show "ParseMAC (Join (map (\<lambda>c. hex_encode [c]) mac) sep) = Inr mac"
    using assms(1) by (simp add: ParseMAC_def strip_separators_def net_ParseMAC_def hex_pairs_encode)
next
  show "\<forall>ds. Send net localAddr s ip = (ds, None) \<longrightarrow>
        (\<exists>m. ParseMAC s = Inr m \<and> length m = 6 \<and>
           ds = [(if ip = [] then ''255.255.255.255'' else ip, 9, replicate 6 (CHR 0xFF) @ concat (replicate 16 m))])"
  proof (cases "ParseMAC s")
    case (Inr m)
    note len = ParseMAC_length [OF Inr]
    from Inr len show ?thesis
      by (auto simp: Send_def Let_def magic_packet_layout [OF len] split: option.splits prod.splits if_splits)
  qed (simp add: Send_def)
qed

lemma wol_round_trip_witness:
  "ParseMAC ''01:02:03:0a:0b:ff'' = Inr [CHR 0x01, CHR 0x02, CHR 0x03, CHR 0x0A, CHR 0x0B, CHR 0xFF]"
proof -
  have "Join (map (\<lambda>c. hex_encode [c]) [CHR 0x01, CHR 0x02, CHR 0x03, CHR 0x0A, CHR 0x0B, CHR 0xFF]) '':''
      = ''01:02:03:0a:0b:ff''" by code_simp
  with wol_round_trip [of "[CHR 0x01, CHR 0x02, CHR 0x03, CHR 0x0A, CHR 0x0B, CHR 0xFF]" "'':''"] show ?thesis by simp
qed

end
