(* ===== verification/Session.thy ===== *)
theory Session
  imports GoPath Json
begin

text \<open>
  Saved sessions (\<^verbatim>\<open>control-center/backend/session/session.go\<close>) and the stores that
  protect their tokens (\<^verbatim>\<open>backend/securestore\<close>). The database is the value of the
  table \<open>sessions\<close>; each SQL statement of the source is a function on it, and any of them may fail:
  \<open>F\<close> gives the driver's error for a statement. The cryptography of the platform is an argument.
\<close>

section \<open>Token stores\<close>

record store =
  st_protect :: "string \<Rightarrow> string result"
  st_unprotect :: "string \<Rightarrow> string result"

definition ErrUnavailable :: goerr where
  "ErrUnavailable = lit ''secure token storage is unavailable on this platform''"

definition unavailableStore :: store where
  "unavailableStore = \<lparr>st_protect = (\<lambda>_. Inl ErrUnavailable), st_unprotect = (\<lambda>_. Inl ErrUnavailable)\<rparr>"

text \<open>The Windows store encodes what the system's protection calls return.\<close>

definition dpapi_Protect :: "(string \<Rightarrow> string result) \<Rightarrow> string \<Rightarrow> string result" where
  "dpapi_Protect crypt plaintext = (case crypt plaintext of
       Inl err \<Rightarrow> Inl (Sprintf ''DPAPI protect failed: %w'' [GErr err])
     | Inr blob \<Rightarrow> Inr (b64_encode blob))"

definition dpapi_Unprotect :: "(string \<Rightarrow> string result) \<Rightarrow> string \<Rightarrow> string result" where
  "dpapi_Unprotect uncrypt ciphertext = (case b64_decode ciphertext of
       None \<Rightarrow> Inl (Sprintf ''decode DPAPI token: %w'' [GErr (lit ''illegal base64 data'')])
     | Some encoded \<Rightarrow>
         if encoded = [] then Inl (lit ''decode DPAPI token: empty ciphertext'')
         else (case uncrypt encoded of
             Inl err \<Rightarrow> Inl (Sprintf ''DPAPI unprotect failed: %w'' [GErr err])
           | Inr plaintext \<Rightarrow> Inr plaintext))"

definition dpapiStore :: "(string \<Rightarrow> string result) \<Rightarrow> (string \<Rightarrow> string result) \<Rightarrow> store" where
  "dpapiStore crypt uncrypt = \<lparr>st_protect = dpapi_Protect crypt, st_unprotect = dpapi_Unprotect uncrypt\<rparr>"

section \<open>The table\<close>

record sessionRow =
  rw_id :: int
  rw_name :: string
  rw_host :: string
  rw_port :: int
  rw_auth_token :: string
  rw_protected :: string
  rw_tls :: int
  rw_ca_file :: string
  rw_server_name :: string
  rw_created :: int
  rw_last :: int

text \<open>
  \<open>db_seq\<close> is the counter of \<^verbatim>\<open>AUTOINCREMENT\<close>, \<open>db_gap\<close> how far an update through the conflict
  clause moves it (only its growth is documented), \<open>db_inserted\<close> the identifier of the
  connection's latest insertion, \<open>db_columns\<close> the columns the table has.
\<close>

record sessionDB =
  db_rows :: "sessionRow list"
  db_seq :: int
  db_gap :: nat
  db_inserted :: int
  db_columns :: "string list"

datatype stmt = DbOpen | DbCreate | DbPragma | DbAlter string | DbUpsert | DbLastId | DbDelete | DbSelect | DbScan | DbRows | DbRowsClose
  | DbClear int | DbMigrate int | DbTouch | DbAffected | DbClose

type_synonym dbfail = "stmt \<Rightarrow> goerr option"

definition base_columns :: "string list" where
  "base_columns = [''id'', ''name'', ''host'', ''port'', ''auth_token'', ''created_at'', ''last_connected'']"

definition additions :: "string list" where
  "additions = [''auth_token_protected'', ''tls_enabled'', ''ca_file'', ''server_name'']"

definition empty_db :: sessionDB where
  "empty_db = \<lparr>db_rows = [], db_seq = 0, db_gap = 0, db_inserted = 0, db_columns = base_columns\<rparr>"

text \<open>\<^verbatim>\<open>INSERT ... ON CONFLICT(host, port) DO UPDATE\<close>: the row's identifier and creation time stay.\<close>

definition same_endpoint :: "string \<Rightarrow> int \<Rightarrow> sessionRow \<Rightarrow> bool" where
  "same_endpoint h p r \<longleftrightarrow> rw_host r = h \<and> rw_port r = p"

definition sql_upsert :: "sessionRow \<Rightarrow> sessionDB \<Rightarrow> sessionDB" where
  "sql_upsert new db =
     (if \<exists>r \<in> set (db_rows db). same_endpoint (rw_host new) (rw_port new) r
      then db\<lparr>db_rows := map (\<lambda>r. if same_endpoint (rw_host new) (rw_port new) r
             then r\<lparr>rw_name := rw_name new, rw_auth_token := [], rw_protected := rw_protected new,
                    rw_tls := rw_tls new, rw_ca_file := rw_ca_file new, rw_server_name := rw_server_name new,
                    rw_last := rw_last new\<rparr>
             else r) (db_rows db), db_seq := db_seq db + int (db_gap db)\<rparr>
      else db\<lparr>db_rows := db_rows db @ [new\<lparr>rw_id := db_seq db + 1, rw_auth_token := []\<rparr>],
              db_seq := db_seq db + 1, db_inserted := db_seq db + 1\<rparr>)"

definition sql_delete :: "int \<Rightarrow> sessionDB \<Rightarrow> sessionDB \<times> nat" where
  "sql_delete i db = (db\<lparr>db_rows := filter (\<lambda>r. rw_id r \<noteq> i) (db_rows db)\<rparr>,
     length (filter (\<lambda>r. rw_id r = i) (db_rows db)))"

definition sql_update :: "int \<Rightarrow> (sessionRow \<Rightarrow> sessionRow) \<Rightarrow> sessionDB \<Rightarrow> sessionDB \<times> nat" where
  "sql_update i f db = (db\<lparr>db_rows := map (\<lambda>r. if rw_id r = i then f r else r) (db_rows db)\<rparr>,
     length (filter (\<lambda>r. rw_id r = i) (db_rows db)))"

text \<open>
  \<^verbatim>\<open>ORDER BY last_connected DESC\<close>. The column holds the text of a time and the model the time
  itself: they are ordered alike when all are written in one time zone. Rows of the same time, whose order SQL leaves open,
  keep that of the table.
\<close>

definition rows_by_last :: "sessionDB \<Rightarrow> sessionRow list" where
  "rows_by_last db = sort_key (\<lambda>r. - rw_last r) (db_rows db)"

section \<open>The manager\<close>

record Session =
  ss_id :: int
  ss_name :: string
  ss_host :: string
  ss_port :: int
  ss_token :: string
  ss_tls :: bool
  ss_ca_file :: string
  ss_server_name :: string
  ss_created :: int
  ss_last :: int

record sessionManager =
  sm_db :: "sessionDB option"
  sm_path :: string
  sm_store :: "store option"

definition NewManagerWithStore :: "store \<Rightarrow> store option \<Rightarrow> sessionManager" where
  "NewManagerWithStore dflt st = \<lparr>sm_db = None, sm_path = [],
     sm_store = Some (case st of None \<Rightarrow> dflt | Some s \<Rightarrow> s)\<rparr>"

definition SetStore :: "store \<Rightarrow> store option \<Rightarrow> sessionManager \<Rightarrow> sessionManager" where
  "SetStore dflt st m = m\<lparr>sm_store := Some (case st of None \<Rightarrow> dflt | Some s \<Rightarrow> s)\<rparr>"

fun add_columns :: "dbfail \<Rightarrow> string list \<Rightarrow> sessionDB \<Rightarrow> sessionDB \<times> goerr option" where
  "add_columns F [] db = (db, None)"
| "add_columns F (c # cs) db =
     (if c \<in> set (db_columns db) then add_columns F cs db
      else case F (DbAlter c) of Some err \<Rightarrow> (db, Some (Sprintf ''add %s: %w'' [GStr c, GErr err]))
        | None \<Rightarrow> add_columns F cs (db\<lparr>db_columns := db_columns db @ [c]\<rparr>))"

definition migrateSchema :: "dbfail \<Rightarrow> sessionDB \<Rightarrow> sessionDB \<times> goerr option" where
  "migrateSchema F db = (case F DbPragma of Some err \<Rightarrow> (db, Some err) | None \<Rightarrow> add_columns F additions db)"

text \<open>\<open>disk\<close> is what the database file held: nothing on the first run. The last inserted identifier belongs to the
  connection.\<close>

definition OpenSessions ::
  "dbfail \<Rightarrow> string option \<Rightarrow> string \<Rightarrow> (string \<Rightarrow> sessionDB option) \<Rightarrow> sessionManager \<Rightarrow> sessionManager \<times> goerr option" where
  "OpenSessions F exe dbDir disk m =
     (let dir = (if dbDir = [] then (case exe of None \<Rightarrow> ''.'' | Some e \<Rightarrow> DirOf e) else dbDir);
          path = JoinPath [dir, ''lan-commander.db''];
          m1 = m\<lparr>sm_path := path\<rparr>
      in case F DbOpen of Some err \<Rightarrow> (m1, Some (Sprintf ''failed to open session database: %w'' [GErr err]))
      | None \<Rightarrow>
        (case F DbCreate of
           Some err \<Rightarrow> (m1\<lparr>sm_db := None\<rparr>, Some (Sprintf ''failed to create sessions table: %w'' [GErr err]))
         | None \<Rightarrow>
           (case migrateSchema F (case disk path of None \<Rightarrow> empty_db | Some db \<Rightarrow> db\<lparr>db_inserted := 0\<rparr>) of
              (db, Some err) \<Rightarrow> (m1\<lparr>sm_db := None\<rparr>, Some (Sprintf ''failed to migrate sessions table: %w'' [GErr err]))
            | (db, None) \<Rightarrow> (m1\<lparr>sm_db := Some db\<rparr>, None))))"

text \<open>Closing keeps the pointer to the handle: each later statement fails, which is one of the failures \<open>F\<close> may choose.\<close>

definition CloseSessions :: "goerr option \<Rightarrow> sessionManager \<Rightarrow> sessionManager \<times> goerr option" where
  "CloseSessions err m = (m, if sm_db m = None then None else err)"

definition err_not_open :: goerr where "err_not_open = lit ''database not open''"

definition protect_token :: "sessionManager \<Rightarrow> string \<Rightarrow> string result" where
  "protect_token m token = (if token = [] then Inr [] else case sm_store m of
       None \<Rightarrow> Inl (Sprintf ''protect session token: %w'' [GErr ErrUnavailable])
     | Some st \<Rightarrow> (case st_protect st token of
         Inl err \<Rightarrow> Inl (Sprintf ''protect session token: %w'' [GErr err]) | Inr p \<Rightarrow> Inr p))"

definition session_row :: "Session \<Rightarrow> string \<Rightarrow> int \<Rightarrow> sessionRow" where
  "session_row s protected now = \<lparr>rw_id = 0, rw_name = ss_name s, rw_host = ss_host s, rw_port = ss_port s,
     rw_auth_token = [], rw_protected = protected, rw_tls = (if ss_tls s then 1 else 0),
     rw_ca_file = ss_ca_file s, rw_server_name = ss_server_name s,
     rw_created = (if ss_created s = 0 then now else ss_created s),
     rw_last = (if ss_last s = 0 then now else ss_last s)\<rparr>"

definition SaveSession :: "dbfail \<Rightarrow> int \<Rightarrow> Session \<Rightarrow> sessionManager \<Rightarrow> sessionManager \<times> int result" where
  "SaveSession F now s m =
     (case sm_db m of None \<Rightarrow> (m, Inl err_not_open)
      | Some db \<Rightarrow>
        (case protect_token m (ss_token s) of Inl err \<Rightarrow> (m, Inl err)
         | Inr protected \<Rightarrow>
           (case F DbUpsert of Some err \<Rightarrow> (m, Inl (Sprintf ''failed to save session: %w'' [GErr err]))
            | None \<Rightarrow>
              let db1 = sql_upsert (session_row s protected now) db; m1 = m\<lparr>sm_db := Some db1\<rparr>
              in case F DbLastId of
                   Some err \<Rightarrow> (m1, Inl (Sprintf ''failed to get last insert id: %w'' [GErr err]))
                 | None \<Rightarrow> (m1, Inr (db_inserted db1)))))"

definition DeleteSessionRow :: "dbfail \<Rightarrow> int \<Rightarrow> sessionManager \<Rightarrow> sessionManager \<times> goerr option" where
  "DeleteSessionRow F i m =
     (case sm_db m of None \<Rightarrow> (m, Some err_not_open)
      | Some db \<Rightarrow>
        (case F DbDelete of Some err \<Rightarrow> (m, Some (Sprintf ''failed to delete session %d: %w'' [GInt i, GErr err]))
         | None \<Rightarrow> (case sql_delete i db of (db1, n) \<Rightarrow>
             (m\<lparr>sm_db := Some db1\<rparr>,
              if (if F DbAffected = None then n else 0) = 0 then Some (Sprintf ''session %d not found'' [GInt i]) else None))))"

text \<open>Restoring a token; a token still in plain text is moved to the protected column.\<close>

definition restoreToken ::
  "dbfail \<Rightarrow> int \<Rightarrow> string \<Rightarrow> string \<Rightarrow> sessionManager \<Rightarrow> sessionManager \<times> string result" where
  "restoreToken F i plaintext protected m =
     (let update = (\<lambda>f. m\<lparr>sm_db := map_option (\<lambda>db. fst (sql_update i f db)) (sm_db m)\<rparr>) in
      if protected \<noteq> [] then
        (case sm_store m of None \<Rightarrow> (m, Inl (Sprintf ''restore session token: %w'' [GErr ErrUnavailable]))
         | Some st \<Rightarrow> (case st_unprotect st protected of
             Inl err \<Rightarrow> (m, Inl (Sprintf ''restore session token: %w'' [GErr err]))
           | Inr token \<Rightarrow>
             if plaintext \<noteq> [] then
               (case F (DbClear i) of
                  Some err \<Rightarrow> (m, Inl (Sprintf ''clear legacy session token: %w'' [GErr err]))
                | None \<Rightarrow> (update (\<lambda>r. r\<lparr>rw_auth_token := []\<rparr>), Inr token))
             else (m, Inr token)))
      else if plaintext = [] then (m, Inr [])
      else (case sm_store m of None \<Rightarrow> (m, Inl (Sprintf ''migrate session token: %w'' [GErr ErrUnavailable]))
         | Some st \<Rightarrow> (case st_protect st plaintext of
             Inl err \<Rightarrow> (m, Inl (Sprintf ''migrate session token: %w'' [GErr err]))
           | Inr p \<Rightarrow> (case F (DbMigrate i) of
               Some err \<Rightarrow> (m, Inl (Sprintf ''store migrated session token: %w'' [GErr err]))
             | None \<Rightarrow> (update (\<lambda>r. r\<lparr>rw_auth_token := [], rw_protected := p\<rparr>), Inr plaintext)))))"

definition row_session :: "sessionRow \<Rightarrow> string \<Rightarrow> Session" where
  "row_session r token = \<lparr>ss_id = rw_id r, ss_name = rw_name r, ss_host = rw_host r, ss_port = rw_port r,
     ss_token = token, ss_tls = (rw_tls r \<noteq> 0), ss_ca_file = rw_ca_file r, ss_server_name = rw_server_name r,
     ss_created = rw_created r, ss_last = rw_last r\<rparr>"

fun restore_rows :: "dbfail \<Rightarrow> sessionRow list \<Rightarrow> sessionManager \<Rightarrow> sessionManager \<times> Session list result" where
  "restore_rows F [] m = (m, Inr [])"
| "restore_rows F (r # rs) m =
     (case restoreToken F (rw_id r) (rw_auth_token r) (rw_protected r) m of
        (m1, Inl err) \<Rightarrow> (m1, Inl err)
      | (m1, Inr token) \<Rightarrow> (case restore_rows F rs m1 of
          (m2, Inl err) \<Rightarrow> (m2, Inl err)
        | (m2, Inr ss) \<Rightarrow> (m2, Inr (row_session r token # ss))))"

definition LoadAll :: "dbfail \<Rightarrow> sessionManager \<Rightarrow> sessionManager \<times> Session list result" where
  "LoadAll F m = (case sm_db m of None \<Rightarrow> (m, Inr [])
     | Some db \<Rightarrow> (case F DbSelect of Some err \<Rightarrow> (m, Inl (Sprintf ''failed to load sessions: %w'' [GErr err]))
       | None \<Rightarrow> (case (if db_rows db = [] then None else F DbScan) of
           Some err \<Rightarrow> (m, Inl (Sprintf ''failed to scan session row: %w'' [GErr err]))
         | None \<Rightarrow> (case F DbRows of Some err \<Rightarrow> (m, Inl err)
           | None \<Rightarrow> (case F DbRowsClose of
               Some err \<Rightarrow> (m, Inl (Sprintf ''failed to close session rows: %w'' [GErr err]))
             | None \<Rightarrow> restore_rows F (rows_by_last db) m)))))"

definition load_row :: "dbfail \<Rightarrow> sessionRow \<Rightarrow> sessionManager \<Rightarrow> sessionManager \<times> Session result" where
  "load_row F r m = (case restoreToken F (rw_id r) (rw_auth_token r) (rw_protected r) m of
       (m1, Inl err) \<Rightarrow> (m1, Inl err) | (m1, Inr token) \<Rightarrow> (m1, Inr (row_session r token)))"

definition LoadByHost :: "dbfail \<Rightarrow> string \<Rightarrow> int \<Rightarrow> sessionManager \<Rightarrow> sessionManager \<times> Session option result" where
  "LoadByHost F h p m = (case sm_db m of None \<Rightarrow> (m, Inl err_not_open)
     | Some db \<Rightarrow> (case F DbSelect of Some err \<Rightarrow> (m, Inl (Sprintf ''failed to load session by host: %w'' [GErr err]))
       | None \<Rightarrow> (case find (same_endpoint h p) (db_rows db) of None \<Rightarrow> (m, Inr None)
         | Some r \<Rightarrow> (case load_row F r m of (m1, Inl err) \<Rightarrow> (m1, Inl err) | (m1, Inr s) \<Rightarrow> (m1, Inr (Some s))))))"

definition LoadByID :: "dbfail \<Rightarrow> int \<Rightarrow> sessionManager \<Rightarrow> sessionManager \<times> Session result" where
  "LoadByID F i m = (case sm_db m of None \<Rightarrow> (m, Inl err_not_open)
     | Some db \<Rightarrow> (case F DbSelect of Some err \<Rightarrow> (m, Inl (Sprintf ''failed to load session %d: %w'' [GInt i, GErr err]))
       | None \<Rightarrow> (case find (\<lambda>r. rw_id r = i) (db_rows db) of
           None \<Rightarrow> (m, Inl (Sprintf ''session %d not found'' [GInt i]))
         | Some r \<Rightarrow> load_row F r m)))"

definition UpdateLastConnected :: "dbfail \<Rightarrow> int \<Rightarrow> int \<Rightarrow> sessionManager \<Rightarrow> sessionManager \<times> goerr option" where
  "UpdateLastConnected F now i m = (case sm_db m of None \<Rightarrow> (m, Some err_not_open)
     | Some db \<Rightarrow> (case F DbTouch of
         Some err \<Rightarrow> (m, Some (Sprintf ''failed to update last connected for session %d: %w'' [GInt i, GErr err]))
       | None \<Rightarrow> (case sql_update i (\<lambda>r. r\<lparr>rw_last := now\<rparr>) db of (db1, n) \<Rightarrow>
           (m\<lparr>sm_db := Some db1\<rparr>,
            case F DbAffected of Some err \<Rightarrow> Some (Sprintf ''failed to check session update: %w'' [GErr err])
            | None \<Rightarrow> if n = 0 then Some (Sprintf ''session %d not found'' [GInt i]) else None))))"

end
