(* ===== verification/SessionFacts.thy ===== *)
theory SessionFacts
  imports Session
begin

text \<open>
  Facts about the saved sessions. The contract of a token store is the locale
  \<open>token_store\<close>: what it protects it can restore. The invariant of the table,
  \<open>table_wf\<close>, is that identifiers and endpoints are unique; \<open>rows_from\<close> relates a
  later table to an earlier one: no operation writes a token in plain text.
\<close>

section \<open>The contract of a token store\<close>

locale token_store =
  fixes st :: store
  assumes protect_some: "st_protect st p = Inr c \<Longrightarrow> c \<noteq> []"
    and unprotect_protect: "st_protect st p = Inr c \<Longrightarrow> st_unprotect st c = Inr p"
begin

lemma restore_protected:
  assumes "sm_store m = Some st" "protect_token m t = Inr c"
  shows "restoreToken F i [] c m = (m, Inr t)"
proof (cases "t = []")
  case True
  with assms show ?thesis by (simp add: protect_token_def restoreToken_def)
next
  case False
  with assms have p: "st_protect st t = Inr c" by (auto simp: protect_token_def split: sum.splits)
  then show ?thesis using assms(1) protect_some [OF p] unprotect_protect [OF p]
    by (simp add: restoreToken_def)
qed

end

text \<open>Outside Windows nothing is protected, which keeps the contract.\<close>

interpretation other_os: token_store unavailableStore
  by unfold_locales (simp_all add: unavailableStore_def)

text \<open>On Windows the contract follows from that of the system's two calls.\<close>

definition crypt_inverse :: "(string \<Rightarrow> string result) \<Rightarrow> (string \<Rightarrow> string result) \<Rightarrow> bool" where
  "crypt_inverse crypt uncrypt \<longleftrightarrow> (\<forall>p b. crypt p = Inr b \<longrightarrow> b \<noteq> [] \<and> uncrypt b = Inr p)"

lemma b64_encode_nonempty [simp]: "b64_encode s = [] \<longleftrightarrow> s = []"
  by (cases s rule: b64_encode.cases) (simp_all add: Let_def)

lemma dpapi_token_store: "crypt_inverse crypt uncrypt \<Longrightarrow> token_store (dpapiStore crypt uncrypt)"
  by unfold_locales
    (auto simp: dpapiStore_def dpapi_Protect_def dpapi_Unprotect_def crypt_inverse_def split: sum.splits)

section \<open>The invariant of the table\<close>

definition endpoint :: "sessionRow \<Rightarrow> string \<times> int" where
  "endpoint r = (rw_host r, rw_port r)"

definition table_wf :: "sessionDB \<Rightarrow> bool" where
  "table_wf db \<longleftrightarrow> distinct (map endpoint (db_rows db)) \<and> distinct (map rw_id (db_rows db))
     \<and> (\<forall>r \<in> set (db_rows db). rw_id r \<le> db_seq db)"

definition plain_rows :: "sessionDB \<Rightarrow> (int \<times> string) set" where
  "plain_rows db = {(rw_id r, rw_auth_token r) |r. r \<in> set (db_rows db) \<and> rw_auth_token r \<noteq> []}"

lemma table_wf_empty [simp]: "table_wf empty_db"
  by (simp add: table_wf_def empty_db_def)

lemma same_endpoint_iff: "same_endpoint h p r \<longleftrightarrow> endpoint r = (h, p)"
  by (simp add: same_endpoint_def endpoint_def)

text \<open>An update in place that keeps identifier and endpoint of every row keeps the invariant.\<close>

lemma table_wf_map:
  assumes "table_wf db" "\<And>r. endpoint (f r) = endpoint r" "\<And>r. rw_id (f r) = rw_id r" "0 \<le> k"
  shows "table_wf (db\<lparr>db_rows := map f (db_rows db), db_seq := db_seq db + k\<rparr>)"
proof -
  have "map endpoint (map f (db_rows db)) = map endpoint (db_rows db)"
    "map rw_id (map f (db_rows db)) = map rw_id (db_rows db)" using assms(2,3) by simp_all
  moreover have "\<forall>r \<in> set (map f (db_rows db)). rw_id r \<le> db_seq db + k"
    using assms(1,3,4) by (auto simp: table_wf_def intro!: add_increasing2)
  ultimately show ?thesis using assms(1) by (simp only: table_wf_def sessionDB.simps sessionDB.select_convs
        sessionDB.update_convs) (simp del: map_map)
qed

lemma table_wf_update:
  assumes "table_wf db" "\<And>r. endpoint (f r) = endpoint r" "\<And>r. rw_id (f r) = rw_id r"
  shows "table_wf (fst (sql_update i f db))"
  using table_wf_map [OF assms(1), of "\<lambda>r. if rw_id r = i then f r else r" 0] assms(2,3)
  by (simp add: sql_update_def)

lemma table_wf_delete: "table_wf db \<Longrightarrow> table_wf (fst (sql_delete i db))"
  by (auto simp: table_wf_def sql_delete_def distinct_map_filter)

lemma table_wf_upsert: "table_wf db \<Longrightarrow> table_wf (sql_upsert new db)"
proof (cases "\<exists>r \<in> set (db_rows db). same_endpoint (rw_host new) (rw_port new) r")
  case True
  assume "table_wf db"
  with True show ?thesis unfolding sql_upsert_def if_P [OF True]
    by (intro table_wf_map) (auto simp: endpoint_def)
next
  case False
  assume wf: "table_wf db"
  have "endpoint (new\<lparr>rw_id := db_seq db + 1, rw_auth_token := []\<rparr>) \<notin> endpoint ` set (db_rows db)"
    using False by (force simp: same_endpoint_def endpoint_def)
  moreover have "db_seq db + 1 \<notin> rw_id ` set (db_rows db)" using wf by (force simp: table_wf_def)
  ultimately show ?thesis using wf unfolding sql_upsert_def if_not_P [OF False]
    by (force simp: table_wf_def)
qed

lemma plain_upsert: "plain_rows (sql_upsert new db) \<subseteq> plain_rows db"
  by (auto simp: plain_rows_def sql_upsert_def split: if_splits)

lemma plain_delete: "plain_rows (fst (sql_delete i db)) \<subseteq> plain_rows db"
  by (auto simp: plain_rows_def sql_delete_def)

lemma plain_update:
  assumes "\<And>r. rw_auth_token (f r) = [] \<or> rw_auth_token (f r) = rw_auth_token r" "\<And>r. rw_id (f r) = rw_id r"
  shows "plain_rows (fst (sql_update i f db)) \<subseteq> plain_rows db"
proof
  fix x assume "x \<in> plain_rows (fst (sql_update i f db))"
  then obtain r where r: "r \<in> set (db_rows db)" and x: "x = (rw_id r, rw_auth_token (if rw_id r = i then f r else r))"
    and ne: "rw_auth_token (if rw_id r = i then f r else r) \<noteq> []"
    using assms(2) by (auto simp: plain_rows_def sql_update_def split: if_splits)
  have "rw_auth_token (if rw_id r = i then f r else r) = rw_auth_token r"
    using assms(1) [of r] ne by (auto split: if_splits)
  with r x ne show "x \<in> plain_rows db" by (auto simp: plain_rows_def)
qed

section \<open>What an operation may do to the table\<close>

definition table_step :: "sessionDB option \<Rightarrow> sessionDB option \<Rightarrow> bool" where
  "table_step a b \<longleftrightarrow> (case a of None \<Rightarrow> b = None
     | Some d \<Rightarrow> (\<exists>e. b = Some e \<and> (table_wf d \<longrightarrow> table_wf e) \<and> plain_rows e \<subseteq> plain_rows d))"

lemma table_step_refl [simp]: "table_step a a"
  by (simp add: table_step_def split: option.splits)

lemma table_step_trans: "table_step a b \<Longrightarrow> table_step b c \<Longrightarrow> table_step a c"
  by (fastforce simp: table_step_def split: option.splits)

lemma table_step_Some [intro]:
  "(table_wf d \<Longrightarrow> table_wf e) \<Longrightarrow> plain_rows e \<subseteq> plain_rows d \<Longrightarrow> table_step (Some d) (Some e)"
  by (simp add: table_step_def)

lemma table_step_SaveSession: "table_step (sm_db m) (sm_db (fst (SaveSession F now s m)))"
  by (auto simp: SaveSession_def Let_def intro!: table_step_Some table_wf_upsert plain_upsert
      split: option.splits sum.splits)

lemma table_step_Delete: "table_step (sm_db m) (sm_db (fst (DeleteSessionRow F i m)))"
proof (cases "sm_db m")
  case (Some db)
  have "table_step (Some db) (Some (fst (sql_delete i db)))"
    by (intro table_step_Some table_wf_delete plain_delete)
  with Some show ?thesis by (auto simp: DeleteSessionRow_def split: option.splits prod.splits)
qed (simp add: DeleteSessionRow_def)

lemma table_step_update:
  assumes "\<And>r. endpoint (f r) = endpoint r" "\<And>r. rw_id (f r) = rw_id r"
    "\<And>r. rw_auth_token (f r) = [] \<or> rw_auth_token (f r) = rw_auth_token r"
  shows "table_step (Some db) (Some (fst (sql_update i f db)))"
  using assms by (intro table_step_Some table_wf_update plain_update) auto

lemma table_step_UpdateLast: "table_step (sm_db m) (sm_db (fst (UpdateLastConnected F now i m)))"
proof (cases "sm_db m")
  case (Some db)
  have "table_step (Some db) (Some (fst (sql_update i (\<lambda>r. r\<lparr>rw_last := now\<rparr>) db)))"
    by (intro table_step_update) (simp_all add: endpoint_def)
  with Some show ?thesis by (auto simp: UpdateLastConnected_def split: option.splits prod.splits)
qed (simp add: UpdateLastConnected_def)

lemma restoreToken_cases:
  obtains (same) "fst (restoreToken F i t p m) = m"
  | (cleared) q where "snd (restoreToken F i t p m) = Inr q"
      "fst (restoreToken F i t p m) = m\<lparr>sm_db := map_option (\<lambda>db. fst (sql_update i (\<lambda>r. r\<lparr>rw_auth_token := []\<rparr>) db)) (sm_db m)\<rparr>"
  | (migrated) c where "snd (restoreToken F i t p m) = Inr t"
      "fst (restoreToken F i t p m) =
        m\<lparr>sm_db := map_option (\<lambda>db. fst (sql_update i (\<lambda>r. r\<lparr>rw_auth_token := [], rw_protected := c\<rparr>) db)) (sm_db m)\<rparr>"
proof (cases "p = []")
  case True
  show thesis
  proof (cases "sm_store m")
    case None
    with True same show thesis by (simp add: restoreToken_def Let_def split: if_splits)
  next
    case (Some st)
    with True same migrated show thesis
      by (cases "t = []"; cases "st_protect st t"; cases "F (DbMigrate i)") (simp_all add: restoreToken_def Let_def)
  qed
next
  case False
  show thesis
  proof (cases "sm_store m")
    case None
    with False same show thesis by (simp add: restoreToken_def Let_def)
  next
    case (Some st)
    with False same cleared show thesis
      by (cases "t = []"; cases "st_unprotect st p"; cases "F (DbClear i)") (simp_all add: restoreToken_def Let_def)
  qed
qed

lemma table_step_restore: "table_step (sm_db m) (sm_db (fst (restoreToken F i t p m)))"
proof (cases rule: restoreToken_cases [of F i t p m])
  case same
  then show ?thesis by simp
next
  case (cleared q)
  have "table_step (Some db) (Some (fst (sql_update i (\<lambda>r. r\<lparr>rw_auth_token := []\<rparr>) db)))" for db
    by (intro table_step_update) (simp_all add: endpoint_def)
  with cleared show ?thesis by (cases "sm_db m") simp_all
next
  case (migrated c)
  have "table_step (Some db) (Some (fst (sql_update i (\<lambda>r. r\<lparr>rw_auth_token := [], rw_protected := c\<rparr>) db)))" for db
    by (intro table_step_update) (simp_all add: endpoint_def)
  with migrated show ?thesis by (cases "sm_db m") simp_all
qed

lemma table_step_restore_rows: "table_step (sm_db m) (sm_db (fst (restore_rows F rs m)))"
proof (induction rs arbitrary: m)
  case (Cons r rs)
  obtain m1 res where r: "restoreToken F (rw_id r) (rw_auth_token r) (rw_protected r) m = (m1, res)"
    by (cases "restoreToken F (rw_id r) (rw_auth_token r) (rw_protected r) m")
  have 1: "table_step (sm_db m) (sm_db m1)"
    using table_step_restore [of m F "rw_id r" "rw_auth_token r" "rw_protected r"] r by simp
  show ?case
  proof (cases res)
    case (Inl e)
    with r 1 show ?thesis by simp
  next
    case (Inr t)
    have "fst (restore_rows F (r # rs) m) = fst (restore_rows F rs m1)"
      using r Inr by (auto split: prod.splits sum.splits)
    with table_step_trans [OF 1 Cons.IH] show ?thesis by simp
  qed
qed simp

lemma table_step_LoadAll: "table_step (sm_db m) (sm_db (fst (LoadAll F m)))"
  using table_step_restore_rows [of m] by (auto simp: LoadAll_def split: option.splits)

lemma fst_load_row: "fst (load_row F r m) = fst (restoreToken F (rw_id r) (rw_auth_token r) (rw_protected r) m)"
  by (simp add: load_row_def split: prod.splits sum.splits)

lemma table_step_LoadByHost: "table_step (sm_db m) (sm_db (fst (LoadByHost F h p m)))"
proof -
  have "table_step (sm_db m) (sm_db (fst (load_row F r m)))" for r
    using table_step_restore by (simp add: fst_load_row)
  then have "load_row F r m = (m1, res) \<Longrightarrow> table_step (sm_db m) (sm_db m1)" for r m1 res
    by (metis fst_conv)
  then show ?thesis
    by (auto simp: LoadByHost_def split: option.splits prod.splits sum.splits)
qed

lemma table_step_LoadByID: "table_step (sm_db m) (sm_db (fst (LoadByID F i m)))"
  using table_step_restore [of m] by (auto simp: LoadByID_def fst_load_row split: option.splits)

lemmas table_steps = table_step_SaveSession table_step_Delete table_step_UpdateLast table_step_LoadAll
  table_step_LoadByHost table_step_LoadByID

section \<open>Loading what was stored\<close>

definition settle :: "sessionRow \<Rightarrow> string \<Rightarrow> sessionRow" where
  "settle r p = r\<lparr>rw_auth_token := [], rw_protected := p\<rparr>"

lemma settle_simps [simp]:
  "rw_id (settle r p) = rw_id r" "rw_auth_token (settle r p) = []" "rw_protected (settle r p) = p"
  "rw_last (settle r p) = rw_last r" "row_session (settle r p) t = row_session r t"
  "endpoint (settle r p) = endpoint r"
  by (simp_all add: settle_def row_session_def endpoint_def)

definition with_rows :: "sessionManager \<Rightarrow> sessionDB \<Rightarrow> (sessionRow \<Rightarrow> sessionRow) \<Rightarrow> sessionManager" where
  "with_rows m db f = m\<lparr>sm_db := Some (db\<lparr>db_rows := map f (db_rows db)\<rparr>)\<rparr>"

lemma with_rows_simps [simp]:
  "sm_db (with_rows m db f) = Some (db\<lparr>db_rows := map f (db_rows db)\<rparr>)" "sm_store (with_rows m db f) = sm_store m"
  "with_rows (with_rows m db f) (db\<lparr>db_rows := map f (db_rows db)\<rparr>) g = with_rows m db (g \<circ> f)"
  by (simp_all add: with_rows_def)

lemma with_rows_id: "sm_db m = Some db \<Longrightarrow> (\<And>r. r \<in> set (db_rows db) \<Longrightarrow> f r = r) \<Longrightarrow> with_rows m db f = m"
  by (simp add: with_rows_def map_idI)

lemma with_rows_cong: "(\<And>r. r \<in> set (db_rows db) \<Longrightarrow> f r = g r) \<Longrightarrow> with_rows m db f = with_rows m db g"
  by (simp add: with_rows_def cong: map_cong)

lemma sort_key_map_inv: "(\<And>x. k (f x) = k x) \<Longrightarrow> sort_key k (map f xs) = map f (sort_key k xs)"
proof (induction xs)
  case (Cons x xs)
  have "insort_key k (f x) (map f ys) = map f (insort_key k x ys)" for ys
    by (induction ys) (simp_all add: Cons.prems)
  with Cons show ?case by simp
qed simp

lemma set_rows_by_last [simp]: "set (rows_by_last db) = set (db_rows db)"
  by (simp add: rows_by_last_def)

lemma distinct_rows_by_last: "distinct (map rw_id (db_rows db)) \<Longrightarrow> distinct (map rw_id (rows_by_last db))"
  by (simp add: rows_by_last_def distinct_map)

context token_store
begin

text \<open>Restoring the token of one row settles that row and leaves the others.\<close>

lemma restore_settles:
  assumes st: "sm_store m = Some st" and db: "sm_db m = Some db" "distinct (map rw_id (db_rows db))"
    and r: "r \<in> set (db_rows db)"
    and res: "restoreToken F (rw_id r) (rw_auth_token r) (rw_protected r) m = (m1, Inr t)"
  shows "\<exists>p. m1 = with_rows m db (\<lambda>q. if q = r then settle r p else q)
     \<and> (\<forall>G n. sm_store n = Some st \<longrightarrow> restoreToken G (rw_id r) [] p n = (n, Inr t))"
proof -
  have uniq: "q \<in> set (db_rows db) \<Longrightarrow> rw_id q = rw_id r \<longleftrightarrow> q = r" for q
    using db(2) r by (auto simp: distinct_map inj_on_def)
  have upd: "m\<lparr>sm_db := map_option (\<lambda>db. fst (sql_update (rw_id r) f db)) (sm_db m)\<rparr> =
      with_rows m db (\<lambda>q. if q = r then f r else q)" for f
    using db(1) uniq by (simp add: sql_update_def with_rows_def cong: map_cong)
  show ?thesis
  proof (cases "rw_protected r = []")
    case True
    show ?thesis
    proof (cases "rw_auth_token r = []")
      case True
      with \<open>rw_protected r = []\<close> res have "m1 = m" "t = []" by (simp_all add: restoreToken_def)
      moreover have "settle r [] = r" using True \<open>rw_protected r = []\<close> by (simp add: settle_def)
      ultimately show ?thesis using db(1) with_rows_id [OF db(1)]
        by (intro exI [of _ "[]"]) (auto simp: restoreToken_def)
    next
      case False
      with \<open>rw_protected r = []\<close> res st obtain c where c: "st_protect st (rw_auth_token r) = Inr c"
        and m1: "m1 = m\<lparr>sm_db := map_option (\<lambda>db. fst (sql_update (rw_id r) (\<lambda>r. r\<lparr>rw_auth_token := [], rw_protected := c\<rparr>) db)) (sm_db m)\<rparr>"
        and t: "t = rw_auth_token r"
        by (auto simp: restoreToken_def Let_def split: sum.splits option.splits)
      have "m1 = with_rows m db (\<lambda>q. if q = r then settle r c else q)"
        unfolding m1 upd by (simp add: settle_def cong: if_cong)
      with protect_some [OF c] unprotect_protect [OF c] t show ?thesis
        by (intro exI [of _ c]) (simp add: restoreToken_def)
    qed
  next
    case False
    with res st have u: "st_unprotect st (rw_protected r) = Inr t"
      and m1: "m1 = (if rw_auth_token r \<noteq> [] then m\<lparr>sm_db := map_option (\<lambda>db. fst (sql_update (rw_id r) (\<lambda>r. r\<lparr>rw_auth_token := []\<rparr>) db)) (sm_db m)\<rparr> else m)"
      by (auto simp: restoreToken_def Let_def split: sum.splits option.splits if_splits)
    have "m1 = with_rows m db (\<lambda>q. if q = r then settle r (rw_protected r) else q)"
      using with_rows_id [OF db(1), of "\<lambda>q. if q = r then settle r (rw_protected r) else q"]
      unfolding m1 upd by (auto simp: settle_def cong: if_cong)
    with u False show ?thesis by (intro exI [of _ "rw_protected r"]) (simp add: restoreToken_def)
  qed
qed

lemma restore_rows_settles:
  assumes "sm_store m = Some st" "sm_db m = Some db" "distinct (map rw_id (db_rows db))"
    "set rs \<subseteq> set (db_rows db)" "distinct (map rw_id rs)" "restore_rows F rs m = (m1, Inr ss)"
  shows "\<exists>p t. m1 = with_rows m db (\<lambda>q. if q \<in> set rs then settle q (p q) else q)
     \<and> ss = map (\<lambda>r. row_session r (t r)) rs
     \<and> (\<forall>r \<in> set rs. \<forall>G n. sm_store n = Some st \<longrightarrow> restoreToken G (rw_id r) [] (p r) n = (n, Inr (t r)))"
  using assms
proof (induction rs arbitrary: m db ss)
  case Nil
  then show ?case using with_rows_id [of m db "\<lambda>q. q"] by auto
next
  case (Cons r rs)
  obtain m2 t0 ss2 where 1: "restoreToken F (rw_id r) (rw_auth_token r) (rw_protected r) m = (m2, Inr t0)"
    and 2: "restore_rows F rs m2 = (m1, Inr ss2)" and ss: "ss = row_session r t0 # ss2"
    using Cons.prems(6) by (auto split: prod.splits sum.splits)
  obtain p0 where m2: "m2 = with_rows m db (\<lambda>q. if q = r then settle r p0 else q)"
    and p0: "\<And>G n. sm_store n = Some st \<Longrightarrow> restoreToken G (rw_id r) [] p0 n = (n, Inr t0)"
    using restore_settles [OF Cons.prems(1-3) _ 1] Cons.prems(4) by auto
  define g where "g = (\<lambda>q. if q = r then settle r p0 else q)"
  define db2 where "db2 = db\<lparr>db_rows := map g (db_rows db)\<rparr>"
  have idg: "rw_id (g q) = rw_id q" for q by (simp add: g_def)
  then have map_ids: "map rw_id (map g (db_rows db)) = map rw_id (db_rows db)" by simp
  have notin: "r \<notin> set rs" "settle r p0 \<notin> set rs"
    using Cons.prems(5) by (auto simp: image_iff dest: bspec [where x = r])
  then have sub: "set rs \<subseteq> set (db_rows db2)"
    using Cons.prems(4) by (force simp: db2_def g_def)
  have m2': "m2 = with_rows m db g" by (simp add: m2 g_def)
  have "distinct (map rw_id (db_rows db2))" using Cons.prems(3) map_ids by (simp add: db2_def del: map_map)
  then obtain p t where m1: "m1 = with_rows m2 db2 (\<lambda>q. if q \<in> set rs then settle q (p q) else q)"
    and ss2: "ss2 = map (\<lambda>r. row_session r (t r)) rs"
    and pt: "\<And>r G n. r \<in> set rs \<Longrightarrow> sm_store n = Some st \<Longrightarrow> restoreToken G (rw_id r) [] (p r) n = (n, Inr (t r))"
    using Cons.IH [of m2 db2 ss2] Cons.prems(1,5) sub 2 unfolding m2' db2_def by (simp del: with_rows_simps(3)) blast
  have "m1 = with_rows m db ((\<lambda>q. if q \<in> set rs then settle q (p q) else q) \<circ> g)"
    by (simp add: m1 m2' db2_def)
  also have "\<dots> = with_rows m db (\<lambda>q. if q \<in> set (r # rs) then settle q ((p(r := p0)) q) else q)"
    using notin by (intro with_rows_cong) (auto simp: g_def)
  finally show ?case using notin p0 pt ss ss2
    by (intro exI [of _ "p(r := p0)"] exI [of _ "t(r := t0)"]) auto
qed

end

lemma find_unique: "x \<in> set xs \<Longrightarrow> P x \<Longrightarrow> (\<And>y. y \<in> set xs \<Longrightarrow> P y \<Longrightarrow> y = x) \<Longrightarrow> find P xs = Some x"
proof (induction xs)
  case (Cons z zs)
  show ?case
  proof (cases "P z")
    case True
    then have "z = x" by (intro Cons.prems(3)) simp_all
    with True show ?thesis by simp
  next
    case False
    with Cons.prems(1,2) have "x \<in> set zs" by auto
    then have "find P zs = Some x" by (intro Cons.IH Cons.prems) simp_all
    with False show ?thesis by simp
  qed
qed simp

lemma find_map: "(\<And>x. P (f x) = P x) \<Longrightarrow> find P (map f xs) = map_option f (find P xs)"
  by (induction xs) auto

lemma table_wf_unique:
  assumes "table_wf db" "r \<in> set (db_rows db)"
  shows "find (same_endpoint (rw_host r) (rw_port r)) (db_rows db) = Some r" "find (\<lambda>q. rw_id q = rw_id r) (db_rows db) = Some r"
  using assms by (auto simp: table_wf_def distinct_map inj_on_def same_endpoint_def endpoint_def intro!: find_unique)

text \<open>The row a session is in after it was saved, and the rows of the other endpoints.\<close>

lemma upsert_row:
  assumes "table_wf db"
  obtains i c where "new\<lparr>rw_id := i, rw_auth_token := [], rw_created := c\<rparr> \<in> set (db_rows (sql_upsert new db))"
    "find (same_endpoint (rw_host new) (rw_port new)) (db_rows db) = None \<longrightarrow>
      i = db_inserted (sql_upsert new db) \<and> c = rw_created new"
proof (cases "\<exists>r \<in> set (db_rows db). same_endpoint (rw_host new) (rw_port new) r")
  case True
  then obtain q where q: "q \<in> set (db_rows db)" and e: "same_endpoint (rw_host new) (rw_port new) q" by blast
  have "new\<lparr>rw_id := rw_id q, rw_auth_token := [], rw_created := rw_created q\<rparr> =
      q\<lparr>rw_name := rw_name new, rw_auth_token := [], rw_protected := rw_protected new,
        rw_tls := rw_tls new, rw_ca_file := rw_ca_file new, rw_server_name := rw_server_name new, rw_last := rw_last new\<rparr>"
    using e by (cases q; cases new) (simp add: same_endpoint_def)
  then have "new\<lparr>rw_id := rw_id q, rw_auth_token := [], rw_created := rw_created q\<rparr> \<in> set (db_rows (sql_upsert new db))"
    using q e unfolding sql_upsert_def if_P [OF True] by force
  moreover have "find (same_endpoint (rw_host new) (rw_port new)) (db_rows db) \<noteq> None"
    using q e by (auto simp: find_None_iff)
  ultimately show thesis by (metis that)
next
  case False
  show thesis
  proof (rule that [where i = "db_seq db + 1" and c = "rw_created new"])
    show "new\<lparr>rw_id := db_seq db + 1, rw_auth_token := [], rw_created := rw_created new\<rparr> \<in> set (db_rows (sql_upsert new db))"
      unfolding sql_upsert_def if_not_P [OF False] by simp
    show "find (same_endpoint (rw_host new) (rw_port new)) (db_rows db) = None \<longrightarrow>
        db_seq db + 1 = db_inserted (sql_upsert new db) \<and> rw_created new = rw_created new"
      unfolding sql_upsert_def if_not_P [OF False] by simp
  qed
qed

lemma upsert_other:
  assumes "(h, p) \<noteq> (rw_host new, rw_port new)"
  shows "find (same_endpoint h p) (db_rows (sql_upsert new db)) = find (same_endpoint h p) (db_rows db)"
proof -
  let ?f = "\<lambda>r. if same_endpoint (rw_host new) (rw_port new) r
       then r\<lparr>rw_name := rw_name new, rw_auth_token := [], rw_protected := rw_protected new,
              rw_tls := rw_tls new, rw_ca_file := rw_ca_file new, rw_server_name := rw_server_name new, rw_last := rw_last new\<rparr> else r"
  have "find (same_endpoint h p) (map ?f xs) = find (same_endpoint h p) xs" for xs
    using assms by (induction xs) (auto simp: same_endpoint_def)
  moreover have "find (same_endpoint h p) (xs @ [new\<lparr>rw_id := i, rw_auth_token := t\<rparr>]) = find (same_endpoint h p) xs" for xs i t
    using assms by (induction xs) (auto simp: same_endpoint_def)
  ultimately show ?thesis by (simp add: sql_upsert_def)
qed

lemma restoreToken_result: "sm_store m = sm_store n \<Longrightarrow> snd (restoreToken F i t p m) = snd (restoreToken F i t p n)"
  by (simp add: restoreToken_def Let_def split: option.splits sum.splits)

lemma protect_token_cong: "sm_store m = sm_store n \<Longrightarrow> protect_token m t = protect_token n t"
  by (simp add: protect_token_def)

lemma LoadAll_undisturbed: "\<forall>q. G q = None \<Longrightarrow> sm_db m = Some db \<Longrightarrow> LoadAll G m = restore_rows G (rows_by_last db) m"
  by (simp add: LoadAll_def)

lemma SaveSession_ok:
  assumes "SaveSession F now s m = (m1, Inr i)"
  obtains db c where "sm_db m = Some db" "protect_token m (ss_token s) = Inr c"
    "m1 = m\<lparr>sm_db := Some (sql_upsert (session_row s c now) db)\<rparr>" "i = db_inserted (sql_upsert (session_row s c now) db)"
  using assms by (auto simp: SaveSession_def Let_def split: option.splits sum.splits)

context token_store
begin

lemma load_settled:
  assumes "sm_store m = Some st" "sm_db m = Some db" "table_wf db" "r \<in> set (db_rows db)"
    "rw_auth_token r = []" "protect_token m t = Inr (rw_protected r)" "G DbSelect = None"
  shows "LoadByHost G (rw_host r) (rw_port r) m = (m, Inr (Some (row_session r t)))"
    "LoadByID G (rw_id r) m = (m, Inr (row_session r t))"
  using assms table_wf_unique [OF assms(3,4)] restore_protected [OF assms(1,6)]
  by (simp_all add: LoadByHost_def LoadByID_def load_row_def)

lemma save_load:
  assumes m: "sm_store m = Some st" "sm_db m = Some db" "table_wf db"
    and save: "SaveSession F now s m = (m1, Inr i)" and G: "G DbSelect = None"
  shows "\<exists>s'. LoadByHost G (ss_host s) (ss_port s) m1 = (m1, Inr (Some s'))
     \<and> LoadByID G (ss_id s') m1 = (m1, Inr s')
     \<and> s' = s\<lparr>ss_id := ss_id s', ss_created := ss_created s', ss_last := (if ss_last s = 0 then now else ss_last s)\<rparr>
     \<and> (find (same_endpoint (ss_host s) (ss_port s)) (db_rows db) = None \<longrightarrow>
          ss_id s' = i \<and> ss_created s' = (if ss_created s = 0 then now else ss_created s))"
proof -
  obtain c where c: "protect_token m (ss_token s) = Inr c"
    and m1: "m1 = m\<lparr>sm_db := Some (sql_upsert (session_row s c now) db)\<rparr>"
    and i: "i = db_inserted (sql_upsert (session_row s c now) db)"
    using SaveSession_ok [OF save] m(2) by auto
  define new where "new = session_row s c now"
  obtain k e where r: "new\<lparr>rw_id := k, rw_auth_token := [], rw_created := e\<rparr> \<in> set (db_rows (sql_upsert new db))"
      (is "?r \<in> _")
    and fresh: "find (same_endpoint (rw_host new) (rw_port new)) (db_rows db) = None \<Longrightarrow>
      k = db_inserted (sql_upsert new db) \<and> e = rw_created new"
    using upsert_row [OF m(3), of new] by blast
  have prot: "protect_token m1 (ss_token s) = Inr (rw_protected ?r)" 
    using c protect_token_cong [of m1 m] by (simp add: m1 new_def session_row_def)
  have fields: "rw_host new = ss_host s" "rw_port new = ss_port s" by (simp_all add: new_def session_row_def)
  have sess: "row_session ?r (ss_token s) = s\<lparr>ss_id := k, ss_created := e, ss_last := (if ss_last s = 0 then now else ss_last s)\<rparr>"
    by (cases s) (simp add: new_def session_row_def row_session_def)
  have l: "LoadByHost G (ss_host s) (ss_port s) m1 = (m1, Inr (Some (row_session ?r (ss_token s))))"
    "LoadByID G k m1 = (m1, Inr (row_session ?r (ss_token s)))"
    using load_settled [OF _ _ _ r, of m1 "ss_token s" G] m prot G
    by (simp_all add: m1 new_def session_row_def table_wf_upsert)
  show ?thesis using l fresh i unfolding sess fields
    by (intro exI [of _ "s\<lparr>ss_id := k, ss_created := e, ss_last := (if ss_last s = 0 then now else ss_last s)\<rparr>"])
      (simp add: new_def session_row_def)
qed

lemma load_all_settles:
  assumes m: "sm_store m = Some st" "sm_db m = Some db" "table_wf db" and L: "LoadAll F m = (m1, Inr ss)"
  shows "\<exists>db1. sm_db m1 = Some db1 \<and> plain_rows db1 = {} \<and> map ss_id ss = map rw_id (rows_by_last db)
     \<and> (\<forall>G. (\<forall>q. G q = None) \<longrightarrow> LoadAll G m1 = (m1, Inr ss))"
proof -
  have d: "distinct (map rw_id (db_rows db))" using m(3) by (simp add: table_wf_def)
  have "restore_rows F (rows_by_last db) m = (m1, Inr ss)"
    using L m(2) by (auto simp: LoadAll_def split: option.splits if_splits)
  then have "\<exists>p t. m1 = with_rows m db (\<lambda>q. if q \<in> set (rows_by_last db) then settle q (p q) else q)
     \<and> ss = map (\<lambda>r. row_session r (t r)) (rows_by_last db)
     \<and> (\<forall>r \<in> set (rows_by_last db). \<forall>G n. sm_store n = Some st \<longrightarrow> restoreToken G (rw_id r) [] (p r) n = (n, Inr (t r)))"
    by (intro restore_rows_settles [OF m(1,2) d _ distinct_rows_by_last [OF d]]) simp_all
  then obtain p t where m1: "m1 = with_rows m db (\<lambda>q. if q \<in> set (db_rows db) then settle q (p q) else q)"
    and ss: "ss = map (\<lambda>r. row_session r (t r)) (rows_by_last db)"
    and pt: "\<And>r G n. r \<in> set (db_rows db) \<Longrightarrow> sm_store n = Some st \<Longrightarrow> restoreToken G (rw_id r) [] (p r) n = (n, Inr (t r))"
    unfolding set_rows_by_last by blast
  let ?f = "\<lambda>q. settle q (p q)"
  have m1': "m1 = with_rows m db ?f" unfolding m1 by (rule with_rows_cong) simp
  have rows: "rows_by_last (db\<lparr>db_rows := map ?f (db_rows db)\<rparr>) = map ?f (rows_by_last db)"
    by (simp add: rows_by_last_def sort_key_map_inv)
  have again: "set rs \<subseteq> set (db_rows db) \<Longrightarrow> restore_rows G (map ?f rs) m1 = (m1, Inr (map (\<lambda>r. row_session r (t r)) rs))" for G rs
    using m(1) pt [where n = m1] by (induction rs) (simp_all add: m1')
  have "LoadAll G m1 = (m1, Inr ss)" if "\<forall>q. G q = None" for G
    using again [of "rows_by_last db" G, OF equalityD1 [OF set_rows_by_last]]
    unfolding ss m1' by (subst LoadAll_undisturbed [OF that]) (simp, simp only: rows)
  moreover have "plain_rows (db\<lparr>db_rows := map ?f (db_rows db)\<rparr>) = {}" by (auto simp: plain_rows_def)
  ultimately show ?thesis by (auto simp: m1' ss row_session_def comp_def)
qed

end

end
