(* ===== verification/SessionProps.thy ===== *)
theory SessionProps
  imports SessionFacts
begin

text \<open>
  The properties of the saved sessions: a saved session is loaded back with its token, the
  table keeps unique endpoints through any sequence of operations and failures and never
  gains a token in plain text, and a complete load leaves no such token.
\<close>

section \<open>Sequences of operations\<close>

datatype session_call = CallSave int Session | CallDelete int | CallLoadAll | CallByHost string int
  | CallByID int | CallTouch int int

fun call_session :: "dbfail \<times> session_call \<Rightarrow> sessionManager \<Rightarrow> sessionManager" where
  "call_session (F, CallSave now s) m = fst (SaveSession F now s m)"
| "call_session (F, CallDelete i) m = fst (DeleteSessionRow F i m)"
| "call_session (F, CallLoadAll) m = fst (LoadAll F m)"
| "call_session (F, CallByHost h p) m = fst (LoadByHost F h p m)"
| "call_session (F, CallByID i) m = fst (LoadByID F i m)"
| "call_session (F, CallTouch now i) m = fst (UpdateLastConnected F now i m)"

lemma table_step_call: "table_step (sm_db m) (sm_db (call_session c m))"
  by (cases c rule: call_session.cases [of "(c, m)" for c]) (simp_all add: table_steps)

lemma table_step_calls: "table_step (sm_db m) (sm_db (fold call_session cs m))"
proof (induction cs arbitrary: m)
  case (Cons c cs)
  show ?case using table_step_trans [OF table_step_call Cons.IH] by simp
qed simp

lemma add_columns_rows: "db_rows (fst (add_columns F cs db)) = db_rows db \<and> db_seq (fst (add_columns F cs db)) = db_seq db"
  by (induction F cs db rule: add_columns.induct) (auto split: option.splits)

lemma add_columns_undisturbed: "snd (add_columns (\<lambda>_. None) cs db) = None"
  by (induction cs arbitrary: db) simp_all

lemma OpenSessions_rows:
  assumes "OpenSessions F exe dir disk m = (m1, None)"
  obtains db where "sm_db m1 = Some db"
    "db_rows db = db_rows (case disk (sm_path m1) of None \<Rightarrow> empty_db | Some d \<Rightarrow> d)"
    "db_seq db = db_seq (case disk (sm_path m1) of None \<Rightarrow> empty_db | Some d \<Rightarrow> d)"
proof -
  define held where "held = (case disk (sm_path m1) of None \<Rightarrow> empty_db | Some d \<Rightarrow> d\<lparr>db_inserted := 0\<rparr>)"
  have "\<exists>db. migrateSchema F held = (db, None) \<and> sm_db m1 = Some db"
    unfolding held_def using assms by (auto simp: OpenSessions_def Let_def split: option.splits prod.splits)
  then obtain db where db: "sm_db m1 = Some db" and "migrateSchema F held = (db, None)" by blast
  then have "add_columns F additions held = (db, None)" by (simp add: migrateSchema_def split: option.splits)
  with add_columns_rows [of F additions held] that db show thesis by (simp add: held_def split: option.splits)
qed

text \<open>(C31) A saved session comes back: after \<^verbatim>\<open>Save\<close> returned, loading by host and port, and
  then by the identifier found there, gives the session that was saved, its restored token included; the time of its
  first creation stays when the endpoint was known, and a new endpoint is found under the identifier
  \<^verbatim>\<open>Save\<close> returned. Sessions of other endpoints load as before.\<close>
theorem session_save_load:
  assumes "token_store st" "sm_store m = Some st" "sm_db m = Some db" "table_wf db"
    and "SaveSession F now s m = (m1, Inr i)" "G DbSelect = None"
  shows "(\<exists>s'. LoadByHost G (ss_host s) (ss_port s) m1 = (m1, Inr (Some s'))
       \<and> LoadByID G (ss_id s') m1 = (m1, Inr s')
       \<and> s' = s\<lparr>ss_id := ss_id s', ss_created := ss_created s', ss_last := (if ss_last s = 0 then now else ss_last s)\<rparr>
       \<and> (find (same_endpoint (ss_host s) (ss_port s)) (db_rows db) = None \<longrightarrow>
            ss_id s' = i \<and> ss_created s' = (if ss_created s = 0 then now else ss_created s)))
     \<and> (\<forall>h p. (h, p) \<noteq> (ss_host s, ss_port s) \<longrightarrow> snd (LoadByHost G h p m1) = snd (LoadByHost G h p m))"
proof (intro conjI allI impI)
  show "\<exists>s'. LoadByHost G (ss_host s) (ss_port s) m1 = (m1, Inr (Some s'))
       \<and> LoadByID G (ss_id s') m1 = (m1, Inr s')
       \<and> s' = s\<lparr>ss_id := ss_id s', ss_created := ss_created s', ss_last := (if ss_last s = 0 then now else ss_last s)\<rparr>
       \<and> (find (same_endpoint (ss_host s) (ss_port s)) (db_rows db) = None \<longrightarrow>
            ss_id s' = i \<and> ss_created s' = (if ss_created s = 0 then now else ss_created s))"
    using assms by (intro token_store.save_load)
next
  fix h p assume o: "(h, p) \<noteq> (ss_host s, ss_port s)"
  obtain c where m1: "m1 = m\<lparr>sm_db := Some (sql_upsert (session_row s c now) db)\<rparr>"
    using SaveSession_ok [OF assms(5)] assms(3) by auto
  have "find (same_endpoint h p) (db_rows (sql_upsert (session_row s c now) db)) = find (same_endpoint h p) (db_rows db)"
    using o by (intro upsert_other) (simp add: session_row_def)
  then show "snd (LoadByHost G h p m1) = snd (LoadByHost G h p m)"
    using restoreToken_result [of m1 m G] assms(3)
    by (auto simp: LoadByHost_def load_row_def m1 split: option.splits prod.splits sum.splits) (metis snd_conv sum.inject sum.distinct)+
qed

text \<open>(C32) Through every sequence of operations and every pattern of driver failures the opened
  table keeps one row per endpoint and unique identifiers, and no row ever
  gains a token in plain text: what is in plain text was so in the file that was opened.\<close>
theorem sessions_keep_table:
  assumes "OpenSessions F exe dir disk m0 = (m, None)"
    and "\<And>d. disk (sm_path m) = Some d \<Longrightarrow> table_wf d"
  shows "\<exists>db. sm_db (fold call_session calls m) = Some db \<and> table_wf db
     \<and> plain_rows db \<subseteq> (case disk (sm_path m) of None \<Rightarrow> {} | Some d \<Rightarrow> plain_rows d)"
proof -
  obtain db where db: "sm_db m = Some db"
    and rows: "db_rows db = db_rows (case disk (sm_path m) of None \<Rightarrow> empty_db | Some d \<Rightarrow> d)"
      "db_seq db = db_seq (case disk (sm_path m) of None \<Rightarrow> empty_db | Some d \<Rightarrow> d)"
    by (rule OpenSessions_rows [OF assms(1)])
  have "table_wf (case disk (sm_path m) of None \<Rightarrow> empty_db | Some d \<Rightarrow> d)"
    using assms(2) by (simp split: option.splits)
  with rows have "table_wf db" by (simp add: table_wf_def)
  moreover have "plain_rows db \<subseteq> (case disk (sm_path m) of None \<Rightarrow> {} | Some d \<Rightarrow> plain_rows d)"
    using rows by (auto simp: plain_rows_def empty_db_def split: option.splits)
  moreover have "table_step (Some db) (sm_db (fold call_session calls m))"
    using table_step_calls [of m calls] db by simp
  ultimately show ?thesis by (auto simp: table_step_def)
qed

text \<open>(C33) A load of all sessions that succeeds returns every saved session and leaves no token
  in plain text in the database; loading again returns the same sessions, tokens included, and
  changes nothing. Where the platform protects nothing, a token is refused and the table left as it was.\<close>
theorem tokens_protected_at_rest:
  assumes "token_store st" "sm_store m = Some st" "sm_db m = Some db" "table_wf db"
    and "LoadAll F m = (m1, Inr ss)"
  shows "(\<exists>db1. sm_db m1 = Some db1 \<and> plain_rows db1 = {} \<and> map ss_id ss = map rw_id (rows_by_last db)
       \<and> (\<forall>G. (\<forall>q. G q = None) \<longrightarrow> LoadAll G m1 = (m1, Inr ss)))
     \<and> (st = unavailableStore \<and> ss_token s \<noteq> [] \<longrightarrow>
         SaveSession F now s m = (m, Inl (Sprintf ''protect session token: %w'' [GErr ErrUnavailable])))"
  using token_store.load_all_settles [OF assms] assms(2,3)
  by (auto simp: SaveSession_def protect_token_def unavailableStore_def)

section \<open>Concrete sessions\<close>

definition demo_crypt :: "string \<Rightarrow> string result" where "demo_crypt s = Inr (CHR ''k'' # rev s)"
definition demo_uncrypt :: "string \<Rightarrow> string result" where "demo_uncrypt s = Inr (rev (drop 1 s))"

definition demo_store :: store where "demo_store = dpapiStore demo_crypt demo_uncrypt"

lemma demo_token_store: "token_store demo_store"
  unfolding demo_store_def by (rule dpapi_token_store) (simp add: crypt_inverse_def demo_crypt_def demo_uncrypt_def)

definition old_row :: sessionRow where
  "old_row = \<lparr>rw_id = 4, rw_name = ''lab'', rw_host = ''10.0.0.7'', rw_port = 9473, rw_auth_token = ''secret'', rw_protected = [],
     rw_tls = 1, rw_ca_file = ''ca.pem'', rw_server_name = [], rw_created = 100, rw_last = 200\<rparr>"

definition old_db :: sessionDB where
  "old_db = \<lparr>db_rows = [old_row], db_seq = 4, db_gap = 0, db_inserted = 0, db_columns = base_columns @ additions\<rparr>"

definition demo_manager :: sessionManager where
  "demo_manager = \<lparr>sm_db = Some old_db, sm_path = ''./lan-commander.db'', sm_store = Some demo_store\<rparr>"

definition demo_session :: Session where
  "demo_session = \<lparr>ss_id = 0, ss_name = ''desk'', ss_host = ''10.0.0.9'', ss_port = 9473, ss_token = ''token'',
     ss_tls = True, ss_ca_file = [], ss_server_name = ''desk.lan'', ss_created = 0, ss_last = 0\<rparr>"

lemma old_db_wf: "table_wf old_db"
  by (simp add: table_wf_def old_db_def old_row_def)

lemma demo_save: "\<exists>m1 i. SaveSession (\<lambda>_. None) 300 demo_session demo_manager = (m1, Inr i)"
  by (simp add: SaveSession_def demo_manager_def demo_session_def protect_token_def demo_store_def dpapiStore_def
      dpapi_Protect_def demo_crypt_def Let_def)

theorem session_save_load_witness:
  "\<exists>m1 s'. fst (SaveSession (\<lambda>_. None) 300 demo_session demo_manager) = m1
     \<and> LoadByHost (\<lambda>_. None) ''10.0.0.9'' 9473 m1 = (m1, Inr (Some s')) \<and> ss_token s' = ''token'' \<and> ss_name s' = ''desk''"
proof -
  obtain m1 i where s: "SaveSession (\<lambda>_. None) 300 demo_session demo_manager = (m1, Inr i)" using demo_save by blast
  have m: "sm_store demo_manager = Some demo_store" "sm_db demo_manager = Some old_db" by (simp_all add: demo_manager_def)
  obtain s' where l: "LoadByHost (\<lambda>_. None) (ss_host demo_session) (ss_port demo_session) m1 = (m1, Inr (Some s'))"
    and s': "s' = demo_session\<lparr>ss_id := ss_id s', ss_created := ss_created s',
       ss_last := (if ss_last demo_session = 0 then 300 else ss_last demo_session)\<rparr>"
    using session_save_load [OF demo_token_store m old_db_wf s, of "\<lambda>_. None"] by blast
  have "ss_token s' = ss_token demo_session" "ss_name s' = ss_name demo_session"
    using arg_cong [OF s', of ss_token] arg_cong [OF s', of ss_name] by simp_all
  then show ?thesis using s l by (intro exI [of _ m1] exI [of _ s']) (simp add: demo_session_def)
qed

theorem sessions_keep_table_witness:
  "\<exists>db. sm_db (fold call_session [(\<lambda>_. None, CallSave 5 demo_session), (\<lambda>_. None, CallLoadAll)]
       (fst (OpenSessions (\<lambda>_. None) None [] (\<lambda>_. None) (NewManagerWithStore demo_store None)))) = Some db \<and> table_wf db"
proof -
  obtain m where m: "OpenSessions (\<lambda>_. None) None [] (\<lambda>_. None) (NewManagerWithStore demo_store None) = (m, None)"
    using add_columns_undisturbed [of additions empty_db]
    by (cases "add_columns (\<lambda>_. None) additions empty_db") (simp add: OpenSessions_def Let_def migrateSchema_def)
  show ?thesis using sessions_keep_table [OF m, of "[(\<lambda>_. None, CallSave 5 demo_session), (\<lambda>_. None, CallLoadAll)]"] m
    by auto
qed

theorem tokens_protected_at_rest_witness:
  "\<exists>m1 ss db1. LoadAll (\<lambda>_. None) demo_manager = (m1, Inr ss) \<and> sm_db m1 = Some db1 \<and> plain_rows old_db \<noteq> {} \<and> plain_rows db1 = {}"
proof -
  obtain m1 ss where L: "LoadAll (\<lambda>_. None) demo_manager = (m1, Inr ss)"
    by (simp add: LoadAll_def demo_manager_def old_db_def rows_by_last_def old_row_def restoreToken_def demo_store_def
        dpapiStore_def dpapi_Protect_def demo_crypt_def)
  have m: "sm_store demo_manager = Some demo_store" "sm_db demo_manager = Some old_db" by (simp_all add: demo_manager_def)
  have "plain_rows old_db \<noteq> {}" by (auto simp: plain_rows_def old_db_def old_row_def)
  with L show ?thesis
    using tokens_protected_at_rest [OF demo_token_store m old_db_wf L] by blast
qed

end
