(* ===== verification/Scripting.thy ===== *)
theory Scripting
  imports OsModel
begin

text \<open>
  The script engine of the control center (\<^verbatim>\<open>control-center/backend/scripting/engine.go\<close>): scripts are kept in
  memory and as one JSON file each below \<open>en_base\<close>, and a script runs line by line. How a script is
  written as JSON and read back, and the template package, are arguments.
\<close>

section \<open>Scripts and the engine\<close>

record Script =
  sc_name :: string
  sc_content :: string
  sc_created :: int
  sc_updated :: int

record Engine =
  en_scripts :: "(string, Script) fmap"
  en_base :: path

text \<open>\<^verbatim>\<open>encoding/json\<close> on a script: the indented text, and reading any text as a script.\<close>

record codec =
  marshal :: "Script \<Rightarrow> bytes result"
  unmarshal :: "bytes \<Rightarrow> Script result"

definition err_script_name :: "string \<Rightarrow> goerr" where
  "err_script_name name = Sprintf ''invalid script name %q: names must be a single filename'' [GStr name]"

definition validateScriptName :: "string \<Rightarrow> goerr option" where
  "validateScriptName name =
     (if TrimSpace name = [] then Some (lit ''script name cannot be empty'')
      else if name = ''.'' \<or> name = ''..'' \<or> ContainsAny name [CHR ''/'', CHR 0x5C, CHR 0x5C] \<or> IsAbs name
      then Some (err_script_name name)
      else if Base name \<noteq> name then Some (err_script_name name)
      else None)"

definition script_dir :: "osenv \<Rightarrow> Engine \<Rightarrow> path" where
  "script_dir E e = os_path E (en_base e)"

definition script_path :: "osenv \<Rightarrow> Engine \<Rightarrow> string \<Rightarrow> path" where
  "script_path E e name = os_path E (JoinPath [en_base e, name @ ''.json''])"

section \<open>Loading\<close>

definition load_entry :: "codec \<Rightarrow> osenv \<Rightarrow> fsys \<Rightarrow> path \<Rightarrow> Script option" where
  "load_entry J E fs q =
     (if fmlookup fs q = Some Dir \<or> \<not> HasSuffix (Base q) ''.json'' then None
      else case ReadFile E fs q of Inl err \<Rightarrow> None
      | Inr data \<Rightarrow> (case unmarshal J data of Inl err \<Rightarrow> None
        | Inr script \<Rightarrow> if validateScriptName (sc_name script) \<noteq> None then None else Some script))"

fun load_entries :: "codec \<Rightarrow> osenv \<Rightarrow> fsys \<Rightarrow> path list \<Rightarrow> (string, Script) fmap \<Rightarrow> (string, Script) fmap" where
  "load_entries J E fs [] scripts = scripts"
| "load_entries J E fs (q # qs) scripts =
     (case load_entry J E fs q of None \<Rightarrow> load_entries J E fs qs scripts
      | Some script \<Rightarrow> load_entries J E fs qs (fmupd (sc_name script) script scripts))"

definition loadFromDisk :: "codec \<Rightarrow> osenv \<Rightarrow> fsys \<Rightarrow> Engine \<Rightarrow> fsys \<times> Engine \<times> goerr option" where
  "loadFromDisk J E fs e =
     (case MkdirAll E fs (script_dir E e) of
        (fs1, Some err) \<Rightarrow> (fs1, e, Some (Sprintf ''cannot create scripts directory: %w'' [GOs err]))
      | (fs1, None) \<Rightarrow> (case read_dir E fs1 (script_dir E e) of
          Inl err \<Rightarrow> (fs1, e, Some (Sprintf ''%w'' [GOs err]))
        | Inr entries \<Rightarrow> (fs1, e\<lparr>en_scripts := load_entries J E fs1 entries (en_scripts e)\<rparr>, None)))"

text \<open>A failing load is logged and leaves the engine without scripts.\<close>

definition NewEngineWithPath :: "codec \<Rightarrow> osenv \<Rightarrow> fsys \<Rightarrow> path \<Rightarrow> fsys \<times> Engine" where
  "NewEngineWithPath J E fs path =
     (case loadFromDisk J E fs \<lparr>en_scripts = fmempty, en_base = path\<rparr> of (fs1, e, _) \<Rightarrow> (fs1, e))"

definition NewEngine :: "codec \<Rightarrow> osenv \<Rightarrow> fsys \<Rightarrow> fsys \<times> Engine" where
  "NewEngine J E fs = NewEngineWithPath J E fs ''scripts''"

section \<open>Saving and deleting\<close>

text \<open>The temporary file is removed on every way out; after the rename it is gone already.\<close>

definition write_script :: "osenv \<Rightarrow> fsys \<Rightarrow> path \<Rightarrow> path \<Rightarrow> bytes \<Rightarrow> fsys \<times> goerr option" where
  "write_script E fs tempPath path data =
     (case fault E SChmod tempPath of
        Some err \<Rightarrow> (fs, Some (Sprintf ''failed to set script file permissions: %w'' [GOs err]))
      | None \<Rightarrow> (case write_at E fs tempPath data 0 of
          (fs1, _, Some err) \<Rightarrow> (fs1, Some (Sprintf ''failed to write script file: %w'' [GOs err]))
        | (fs1, _, None) \<Rightarrow> (case fault E SClose tempPath of
            Some err \<Rightarrow> (fs1, Some (Sprintf ''failed to close script file: %w'' [GOs err]))
          | None \<Rightarrow> (case rename E fs1 tempPath path of
              (fs2, Some err) \<Rightarrow> (fs2, Some (Sprintf ''failed to write script file: %w'' [GOs err]))
            | (fs2, None) \<Rightarrow> (fs2, None)))))"

definition saveToDisk :: "codec \<Rightarrow> osenv \<Rightarrow> fsys \<Rightarrow> Engine \<Rightarrow> string \<Rightarrow> fsys \<times> goerr option" where
  "saveToDisk J E fs e name =
     (case validateScriptName name of Some err \<Rightarrow> (fs, Some err) | None \<Rightarrow>
      (case MkdirAll E fs (script_dir E e) of (fs1, Some err) \<Rightarrow> (fs1, Some (Sprintf ''%w'' [GOs err]))
       | (fs1, None) \<Rightarrow>
       (case fmlookup (en_scripts e) name of
          None \<Rightarrow> (fs1, Some (Sprintf ''script %q not found in memory'' [GStr name]))
        | Some script \<Rightarrow> (case marshal J script of
            Inl err \<Rightarrow> (fs1, Some (Sprintf ''failed to marshal script: %w'' [GErr err]))
          | Inr data \<Rightarrow>
            (case create_temp E fs1 (script_dir E e) ''.script-'' ''.tmp'' of
               (fs2, Inl err) \<Rightarrow> (fs2, Some (Sprintf ''failed to create temporary script file: %w'' [GOs err]))
             | (fs2, Inr tempPath) \<Rightarrow>
                 (case write_script E fs2 tempPath (script_path E e name) data of
                    (fs3, r) \<Rightarrow> (fst (remove E fs3 tempPath), r)))))))"

definition put_script :: "int \<Rightarrow> string \<Rightarrow> string \<Rightarrow> Engine \<Rightarrow> Engine" where
  "put_script now name content e = e\<lparr>en_scripts := fmupd name
     (case fmlookup (en_scripts e) name of
        Some existing \<Rightarrow> existing\<lparr>sc_content := content, sc_updated := now\<rparr>
      | None \<Rightarrow> \<lparr>sc_name = name, sc_content = content, sc_created = now, sc_updated = now\<rparr>) (en_scripts e)\<rparr>"

definition SaveScript :: "codec \<Rightarrow> osenv \<Rightarrow> int \<Rightarrow> string \<Rightarrow> string \<Rightarrow> fsys \<times> Engine \<Rightarrow> (fsys \<times> Engine) \<times> goerr option" where
  "SaveScript J E now name content st = (case st of (fs, e) \<Rightarrow>
     (case validateScriptName name of Some err \<Rightarrow> (st, Some err) | None \<Rightarrow>
      if TrimSpace content = [] then (st, Some (lit ''script content cannot be empty''))
      else let e1 = put_script now name content e in
        (case saveToDisk J E fs e1 name of
           (fs1, Some err) \<Rightarrow> ((fs1, e1), Some (Sprintf ''failed to save script to disk: %w'' [GErr err]))
         | (fs1, None) \<Rightarrow> ((fs1, e1), None))))"

definition GetScript :: "string \<Rightarrow> Engine \<Rightarrow> Script result" where
  "GetScript name e = (case validateScriptName name of Some err \<Rightarrow> Inl err
     | None \<Rightarrow> (case fmlookup (en_scripts e) name of
         None \<Rightarrow> Inl (Sprintf ''script %q not found'' [GStr name]) | Some script \<Rightarrow> Inr script))"

text \<open>\<^verbatim>\<open>List\<close>: all scripts; the order in which Go walks a map is not fixed.\<close>

definition ListScripts :: "Engine \<Rightarrow> Script fset" where
  "ListScripts e = fmran (en_scripts e)"

definition DeleteScript :: "osenv \<Rightarrow> string \<Rightarrow> fsys \<times> Engine \<Rightarrow> (fsys \<times> Engine) \<times> goerr option" where
  "DeleteScript E name st = (case st of (fs, e) \<Rightarrow>
     (case validateScriptName name of Some err \<Rightarrow> (st, Some err) | None \<Rightarrow>
      if fmlookup (en_scripts e) name = None then (st, Some (Sprintf ''script %q not found'' [GStr name]))
      else let e1 = e\<lparr>en_scripts := fmdrop name (en_scripts e)\<rparr> in
        (case remove E fs (script_path E e name) of
           (fs1, None) \<Rightarrow> ((fs1, e1), None)
         | (fs1, Some err) \<Rightarrow> if err = ENOENT then ((fs1, e1), None)
             else ((fs1, e1), Some (Sprintf ''failed to delete script file: %w'' [GOs err])))))"

section \<open>Running a script\<close>

record ExecutionResult =
  er_line :: int
  er_command :: string
  er_stdout :: string
  er_stderr :: gotext
  er_exit :: int
  er_duration :: int

record ScriptResult =
  sr_name :: string
  sr_agent :: string
  sr_results :: "ExecutionResult list"
  sr_total :: int
  sr_success :: int
  sr_failed :: int

text \<open>The template package with the three functions of the source: parse, then execute on the variables.\<close>

record 't templates =
  tm_parse :: "string \<Rightarrow> 't result"
  tm_execute :: "'t \<Rightarrow> (string \<times> string) list \<Rightarrow> string result"

definition processVariables :: "'t templates \<Rightarrow> string \<Rightarrow> (string \<times> string) list option \<Rightarrow> string result" where
  "processVariables T command vars = (case vars of None \<Rightarrow> Inr command
     | Some vs \<Rightarrow> (case tm_parse T command of
         Inl err \<Rightarrow> Inl (Sprintf ''failed to parse command template: %w'' [GErr err])
       | Inr tmpl \<Rightarrow> (case tm_execute T tmpl vs of
           Inl err \<Rightarrow> Inl (Sprintf ''failed to execute command template: %w'' [GErr err])
         | Inr text \<Rightarrow> Inr text)))"

definition skipped :: "string \<Rightarrow> bool" where
  "skipped line \<longleftrightarrow> line = [] \<or> HasPrefix line ''#'' \<or> HasPrefix line ''//''"

definition failed_line :: "int \<Rightarrow> string \<Rightarrow> gotext \<Rightarrow> ExecutionResult" where
  "failed_line n command stderr = \<lparr>er_line = n, er_command = command, er_stdout = [], er_stderr = stderr,
     er_exit = 1, er_duration = 0\<rparr>"

type_synonym 's command_executor = "'s \<Rightarrow> string \<Rightarrow> 's \<times> ExecutionResult result"

definition run_line :: "'t templates \<Rightarrow> (string \<times> string) list option \<Rightarrow> 's command_executor \<Rightarrow> int \<Rightarrow> string \<Rightarrow> 's \<Rightarrow> 's \<times> ExecutionResult" where
  "run_line T vars executor n line s =
     (case processVariables T line vars of
        Inl err \<Rightarrow> (s, failed_line n line (Sprintf ''variable processing error: %v'' [GErr err]))
      | Inr processedCommand \<Rightarrow> (case executor s processedCommand of
          (s1, Inl err) \<Rightarrow> (s1, failed_line n processedCommand err)
        | (s1, Inr r) \<Rightarrow> (s1, r\<lparr>er_line := n, er_command := processedCommand\<rparr>)))"

definition add_result :: "ExecutionResult \<Rightarrow> ScriptResult \<Rightarrow> ScriptResult" where
  "add_result r res = (let res1 = res\<lparr>sr_results := sr_results res @ [r]\<rparr>
     in if er_exit r = 0 then res1\<lparr>sr_success := sr_success res1 + 1\<rparr> else res1\<lparr>sr_failed := sr_failed res1 + 1\<rparr>)"

fun run_lines :: "'t templates \<Rightarrow> (string \<times> string) list option \<Rightarrow> 's command_executor \<Rightarrow> int \<Rightarrow> string list
    \<Rightarrow> 's \<Rightarrow> ScriptResult \<Rightarrow> 's \<times> ScriptResult" where
  "run_lines T vars executor i [] s res = (s, res)"
| "run_lines T vars executor i (l # ls) s res =
     (let line = TrimSpace l in
      if skipped line then run_lines T vars executor (i + 1) ls s res
      else case run_line T vars executor (i + 1) line s of
        (s1, r) \<Rightarrow> run_lines T vars executor (i + 1) ls s1 (add_result r res))"

definition script_lines :: "string \<Rightarrow> string list" where
  "script_lines content = SplitChar (TrimSpace content) (CHR 0x0A)"

definition ExecuteScript :: "'t templates \<Rightarrow> Script option \<Rightarrow> (string \<times> string) list option \<Rightarrow> 's command_executor option
    \<Rightarrow> 's \<Rightarrow> 's \<times> ScriptResult result" where
  "ExecuteScript T script vars executor s =
     (case script of None \<Rightarrow> (s, Inl (lit ''script cannot be nil'')) | Some sc \<Rightarrow>
      (case executor of None \<Rightarrow> (s, Inl (lit ''command executor cannot be nil'')) | Some ex \<Rightarrow>
       let lines = script_lines (sc_content sc) in
       (case run_lines T vars ex 0 lines s
           \<lparr>sr_name = sc_name sc, sr_agent = [], sr_results = [], sr_total = int (length lines), sr_success = 0, sr_failed = 0\<rparr> of
          (s1, res) \<Rightarrow> (s1, Inr res))))"

end
