(* ===== verification/ScriptFacts.thy ===== *)
theory ScriptFacts
  imports Scripting OsFacts
begin

text \<open>
  Facts about the script engine: a valid script name is one path element, so every file the engine
  touches lies directly in its directory; running a script is running its executable lines in
  order; and, as long as each script lies in the file of its name, memory and directory agree.
\<close>

section \<open>Where a script is stored\<close>

lemma os_path_clean [simp]: "list_all good_elem es \<Longrightarrow> os_path E (path_of es) = path_of es"
  by (simp add: os_path_def AbsPath_def)

lemma Base_path_of [simp]: "good_elem x \<Longrightarrow> Base (path_of (es @ [x])) = x"
proof -
  assume g: "good_elem x"
  then have ns: "\<forall>c \<in> set (rev x). c \<noteq> CHR ''/''" and ne: "rev x \<noteq> []" by (auto simp: good_elem_def)
  obtain pre where p: "path_of (es @ [x]) = pre @ CHR ''/'' # x"
    using that [of "if es = [] then [] else path_of es"] path_of_snoc [of es x] by (cases "es = []") simp_all
  have dw: "dropWhile is_slash (rev x @ ys) = rev x @ ys" for ys
    using ns ne by (cases "rev x") simp_all
  have "takeWhile (\<lambda>c. \<not> is_slash c) (rev x @ CHR ''/'' # rev pre) = rev x"
    using ns by (simp add: takeWhile_append2 takeWhile_tail)
  with dw [of "CHR ''/'' # rev pre"] show ?thesis by (simp add: Base_def p Let_def)
qed

lemma valid_name:
  assumes "validateScriptName n = None"
  shows "CHR ''/'' \<notin> set n" "good_elem (n @ ''.json'')"
proof -
  show s: "CHR ''/'' \<notin> set n"
    using assms by (auto simp: validateScriptName_def ContainsAny_iff split: if_splits)
  have "n \<noteq> []" using assms by (auto simp: validateScriptName_def TrimSpace_def split: if_splits)
  with s show "good_elem (n @ ''.json'')" by (simp add: good_elem_def)
qed

definition placed :: "string list \<Rightarrow> Engine \<Rightarrow> bool" where
  "placed es e \<longleftrightarrow> list_all good_elem es \<and> en_base e = path_of es"

abbreviation script_file :: "string list \<Rightarrow> string \<Rightarrow> path" where
  "script_file es n \<equiv> path_of (es @ [n @ ''.json''])"

definition temp_name :: "osenv \<Rightarrow> string" where
  "temp_name E = ''.script-'' @ rand_suffix E @ ''.tmp''"

definition plain_suffix :: "osenv \<Rightarrow> bool" where
  "plain_suffix E \<longleftrightarrow> CHR ''/'' \<notin> set (rand_suffix E)"

lemma good_temp: "plain_suffix E \<Longrightarrow> good_elem (temp_name E)"
  by (simp add: temp_name_def good_elem_def plain_suffix_def)

lemma temp_not_json: "temp_name E \<noteq> n @ ''.json''" "\<not> HasSuffix (temp_name E) ''.json''"
proof -
  show 1: "temp_name E \<noteq> n @ ''.json''" for n
  proof
    assume "temp_name E = n @ ''.json''"
    then have "last (temp_name E) = last (n @ ''.json'')" by simp
    then show False by (simp add: temp_name_def)
  qed
  then show "\<not> HasSuffix (temp_name E) ''.json''"
    unfolding HasSuffix_def by (metis append_take_drop_id)
qed

lemma json_suffix [simp]: "HasSuffix (n @ ''.json'') ''.json''"
  by (simp add: HasSuffix_def)

lemma script_paths:
  assumes "placed es e"
  shows "script_dir E e = path_of es" "validateScriptName n = None \<Longrightarrow> script_path E e n = script_file es n"
  using assms valid_name(2) [of n] by (simp_all add: placed_def script_dir_def script_path_def)

lemma create_script_temp:
  assumes "list_all good_elem es" "plain_suffix E" "create_temp E fs (path_of es) ''.script-'' ''.tmp'' = (fs1, Inr p)"
  shows "p = path_of (es @ [temp_name E])" "fs1 = fmupd p (File []) fs" "fmlookup fs p = None"
  using assms good_temp [OF assms(2)] create_temp_ok [OF assms(3)]
  by (auto simp: create_temp_def temp_name_def Let_def split: option.splits if_splits)

section \<open>Saving and deleting in the tree\<close>

lemma write_script_frame: "same_except {t, p} fs (fst (write_script E fs t p d))"
proof -
  obtain fs1 n r where w: "write_at E fs t d 0 = (fs1, n, r)" by (metis prod.collapse)
  have 1: "same_except {t, p} fs fs1" using write_at_frame [of t "{t, p}" fs E d 0] w by simp
  have 2: "same_except {t, p} fs1 (fst (rename E fs1 t p))" by (rule rename_frame) simp_all
  from same_except_trans [OF 1 2] 1 w show ?thesis
    by (auto simp: write_script_def split: option.splits prod.splits)
qed

lemma write_script_ok:
  assumes "write_script E fs t p d = (fs', None)" "fmlookup fs t = Some (File [])" "t \<noteq> p"
  shows "fs' = fmupd p (File d) (fmdrop t fs)" "fmlookup fs p \<noteq> Some Dir"
proof -
  from assms(1) obtain fs1 n where w: "write_at E fs t d 0 = (fs1, n, None)" and r: "rename E fs1 t p = (fs', None)"
    by (auto simp: write_script_def split: option.splits prod.splits)
  have "fs1 = fmupd t (File d) fs" using write_at_ok [OF w] assms(2) by auto
  with rename_ok [OF r] assms(3) show "fs' = fmupd p (File d) (fmdrop t fs)" "fmlookup fs p \<noteq> Some Dir"
    by (auto intro: fmap_ext)
qed

lemma saveToDisk_frame:
  assumes "placed es e" "plain_suffix E"
  shows "keeps_files {script_file es n, path_of (es @ [temp_name E])} fs (fst (saveToDisk J E fs e n))"
proof (cases "validateScriptName n")
  case None
  note dir = script_paths [OF assms(1)]
  obtain fs1 r1 where m: "MkdirAll E fs (path_of es) = (fs1, r1)" by force
  have 1: "keeps_files A fs fs1" for A using mkdirs_keeps [of A fs E "[]" "elems (path_of es)"] m by (simp add: MkdirAll_def)
  show ?thesis
  proof (cases "r1 = None \<and> (\<exists>s data fs2 t. fmlookup (en_scripts e) n = Some s \<and> marshal J s = Inr data
      \<and> create_temp E fs1 (path_of es) ''.script-'' ''.tmp'' = (fs2, Inr t))")
    case False
    with 1 m dir None create_temp_err [of E fs1 "path_of es" "''.script-''" "''.tmp''"] show ?thesis
      by (fastforce simp: saveToDisk_def split: option.splits prod.splits sum.splits)
  next
    case True
    then obtain s data fs2 t where x: "r1 = None" "fmlookup (en_scripts e) n = Some s" "marshal J s = Inr data"
      and c: "create_temp E fs1 (path_of es) ''.script-'' ''.tmp'' = (fs2, Inr t)" by blast
    have t: "t = path_of (es @ [temp_name E])" "fs2 = fmupd t (File []) fs1"
      using create_script_temp [OF _ assms(2) c] assms(1) by (simp_all add: placed_def)
    let ?A = "{script_file es n, t}"
    obtain fs3 r3 where w: "write_script E fs2 t (script_file es n) data = (fs3, r3)" by force
    have "same_except ?A fs1 fs2" using t(2) by auto
    also have "same_except ?A fs2 fs3" using write_script_frame [of t "script_file es n" fs2 E data] w
      by (auto intro: same_except_mono)
    also have "same_except ?A fs3 (fst (remove E fs3 t))" by (rule remove_frame) simp
    finally have "keeps_files ?A fs (fst (remove E fs3 t))" by (intro keeps_files_trans [OF 1] keeps_files_same) auto
    with m dir None x c w t(1) show ?thesis by (simp add: saveToDisk_def)
  qed
qed (simp add: saveToDisk_def)

lemma saveToDisk_ok:
  assumes "placed es e" "plain_suffix E" "fs_wf fs" "saveToDisk J E fs e n = (fs', None)"
  obtains s data where "validateScriptName n = None" "fmlookup (en_scripts e) n = Some s" "marshal J s = Inr data"
    "fmlookup fs' (script_file es n) = Some (File data)" "fs_wf fs'" "fmlookup fs' (path_of es) = Some Dir"
    "fmlookup fs' (path_of (es @ [temp_name E])) = None"
    "keeps_files {script_file es n, path_of (es @ [temp_name E])} fs fs'"
proof -
  note dir = script_paths [OF assms(1)]
  have g: "list_all good_elem es" using assms(1) by (simp add: placed_def)
  have v: "validateScriptName n = None" using assms(4) by (simp add: saveToDisk_def split: option.splits)
  from assms(4) v dir obtain fs1 s data fs2 t fs3 where
    m: "MkdirAll E fs (path_of es) = (fs1, None)" and s: "fmlookup (en_scripts e) n = Some s" "marshal J s = Inr data"
    and c: "create_temp E fs1 (path_of es) ''.script-'' ''.tmp'' = (fs2, Inr t)"
    and w: "write_script E fs2 t (script_file es n) data = (fs3, None)" and f: "fs' = fst (remove E fs3 t)"
    by (auto simp: saveToDisk_def split: option.splits prod.splits sum.splits)
  have t: "t = path_of (es @ [temp_name E])" "fs2 = fmupd t (File []) fs1" "fmlookup fs1 t = None"
    using create_script_temp [OF g assms(2) c] by simp_all
  have gt: "list_all good_elem (es @ [temp_name E])" and gn: "list_all good_elem (es @ [n @ ''.json''])"
    using g good_temp [OF assms(2)] valid_name(2) [OF v] by simp_all
  have ne: "t \<noteq> script_file es n" unfolding t(1)
    using temp_not_json(1) [of E n] path_of_inject [OF gt gn] by simp
  have fs3: "fs3 = fmupd (script_file es n) (File data) (fmdrop t fs2)" using write_script_ok(1) [OF w _ ne] t(2) by simp
  have fs3': "fs3 = fmupd (script_file es n) (File data) fs1" unfolding fs3 t(2) using t(3) by (auto intro!: fmap_ext)
  have gone: "fmlookup fs3 t = None" using ne by (simp add: fs3)
  have f': "fs' = fs3" using gone unfolding f by (auto simp: remove_def split: option.splits)
  have wf1: "fs_wf fs1" using MkdirAll_wf [OF assms(3), of "path_of es" E] g m by simp
  have "create_temp E fs1 (path_of es) ''.script-'' ''.tmp'' = (fs2, Inr t)" by (rule c)
  then have d1: "fmlookup fs1 (path_of es) = Some Dir"
    using g good_temp [OF assms(2)] t(3)
    by (auto simp: create_temp_def parent_err_def temp_name_def Let_def split: option.splits node.splits if_splits)
  have nd: "fmlookup fs1 (script_file es n) \<noteq> Some Dir"
    using write_script_ok(2) [OF w _ ne] ne t(2) by simp
  have np: "path_of es \<noteq> script_file es n" using path_of_inject [OF g gn] by simp
  show thesis
  proof (rule that [OF v s])
    show "fmlookup fs' (script_file es n) = Some (File data)" by (simp add: f' fs3')
    show "fs_wf fs'" unfolding f' fs3'
      using wf1 nd d1 gn g valid_name(2) [OF v] by (intro fs_wf_upd_file clean_abs_path_of) simp_all
    show "fmlookup fs' (path_of es) = Some Dir" using d1 np by (simp add: f' fs3')
    show "fmlookup fs' (path_of (es @ [temp_name E])) = None" using gone t(1) by (simp add: f')
    show "keeps_files {script_file es n, path_of (es @ [temp_name E])} fs fs'"
      using saveToDisk_frame [OF assms(1,2), of n fs J] assms(4) by simp
  qed
qed

section \<open>Loading a directory\<close>

lemma load_entries_none:
  "(\<And>q s. q \<in> set qs \<Longrightarrow> load_entry J E fs q = Some s \<Longrightarrow> sc_name s \<noteq> n) \<Longrightarrow>
     fmlookup (load_entries J E fs qs m) n = fmlookup m n"
proof (induction qs arbitrary: m)
  case (Cons q qs)
  then show ?case by (cases "load_entry J E fs q") fastforce+
qed simp

lemma load_entries_some:
  assumes "q \<in> set qs" "load_entry J E fs q = Some s" "sc_name s = n"
    and "\<And>q' s'. q' \<in> set qs \<Longrightarrow> load_entry J E fs q' = Some s' \<Longrightarrow> sc_name s' = n \<Longrightarrow> q' = q"
  shows "fmlookup (load_entries J E fs qs m) n = Some s"
  using assms(1,4)
proof (induction qs arbitrary: m)
  case (Cons a qs)
  show ?case
  proof (cases "q \<in> set qs")
    case True
    with Cons.IH Cons.prems(2) show ?thesis by (cases "load_entry J E fs a") simp_all
  next
    case False
    with Cons.prems(1) have "a = q" by simp
    moreover from False Cons.prems(2) have "fmlookup (load_entries J E fs qs m') n = fmlookup m' n" for m'
      by (intro load_entries_none) auto
    ultimately show ?thesis using assms(2,3) by simp
  qed
qed simp

text \<open>Each script lies in the file of its name.\<close>

definition tidy :: "codec \<Rightarrow> string list \<Rightarrow> fsys \<Rightarrow> bool" where
  "tidy J es fs \<longleftrightarrow> (\<forall>x data s. good_elem x \<longrightarrow> fmlookup fs (path_of (es @ [x])) = Some (File data) \<longrightarrow>
     HasSuffix x ''.json'' \<longrightarrow> unmarshal J data = Inr s \<longrightarrow> validateScriptName (sc_name s) = None \<longrightarrow> x = sc_name s @ ''.json'')"

definition on_disk :: "codec \<Rightarrow> string list \<Rightarrow> fsys \<Rightarrow> string \<Rightarrow> Script option" where
  "on_disk J es fs n = (if validateScriptName n \<noteq> None then None else
     case fmlookup fs (script_file es n) of Some (File data) \<Rightarrow>
       (case unmarshal J data of Inr s \<Rightarrow> if sc_name s = n then Some s else None | Inl _ \<Rightarrow> None)
     | _ \<Rightarrow> None)"

definition stored :: "codec \<Rightarrow> string list \<Rightarrow> fsys \<times> Engine \<Rightarrow> bool" where
  "stored J es st \<longleftrightarrow> (case st of (fs, e) \<Rightarrow> placed es e \<and> fs_wf fs \<and> fmlookup fs (path_of es) = Some Dir
     \<and> tidy J es fs \<and> fmlookup (en_scripts e) = on_disk J es fs)"

lemma child_elem:
  assumes "fs_wf fs" "list_all good_elem es" "q |\<in>| children fs (path_of es)"
  obtains x where "good_elem x" "q = path_of (es @ [x])"
proof -
  from assms(3) have q: "DirOf q = path_of es" "q \<noteq> path_of es" "q |\<in>| fmdom fs" by (auto simp: children_def)
  with assms(1) have "clean_abs q" by (auto simp: fs_wf_def)
  then obtain qs where qs: "list_all good_elem qs" "q = path_of qs" by (auto simp: clean_abs_iff)
  show thesis
  proof (cases qs rule: rev_cases)
    case Nil
    with q(1,2) qs show thesis by (simp add: DirOf_root)
  next
    case (snoc ys y)
    with qs have g: "list_all good_elem ys" "good_elem y" by simp_all
    with q(1) snoc qs have "path_of ys = path_of es" by simp
    with g(1) assms(2) have "ys = es" by (simp add: path_of_inject)
    with g snoc qs show thesis by (intro that) simp_all
  qed
qed

lemma load_entry_quiet:
  assumes "fault_free E" "list_all good_elem es" "good_elem x"
  shows "load_entry J E fs (path_of (es @ [x])) = Some s \<longleftrightarrow>
    HasSuffix x ''.json'' \<and> (\<exists>data. fmlookup fs (path_of (es @ [x])) = Some (File data) \<and> unmarshal J data = Inr s)
    \<and> validateScriptName (sc_name s) = None"
  using assms by (auto simp: load_entry_def ReadFile_quiet split: option.splits node.splits sum.splits if_splits)

lemma tidyD:
  "tidy J es fs \<Longrightarrow> good_elem x \<Longrightarrow> fmlookup fs (path_of (es @ [x])) = Some (File data) \<Longrightarrow> HasSuffix x ''.json'' \<Longrightarrow>
     unmarshal J data = Inr s \<Longrightarrow> validateScriptName (sc_name s) = None \<Longrightarrow> x = sc_name s @ ''.json''"
  unfolding tidy_def by blast

lemma loaded_entry:
  assumes E: "fault_free E" and g: "list_all good_elem es" and wf: "fs_wf fs" and t: "tidy J es fs"
    and q: "q |\<in>| children fs (path_of es)" and s: "load_entry J E fs q = Some s"
  shows "q = script_file es (sc_name s)" "on_disk J es fs (sc_name s) = Some s"
proof -
  obtain x where x: "good_elem x" "q = path_of (es @ [x])" by (rule child_elem [OF wf g q])
  from s have l: "HasSuffix x ''.json''"
    "\<exists>data. fmlookup fs (path_of (es @ [x])) = Some (File data) \<and> unmarshal J data = Inr s"
    "validateScriptName (sc_name s) = None"
    unfolding x(2) load_entry_quiet [OF E g x(1)] by simp_all
  from l(2) obtain data where data: "fmlookup fs (path_of (es @ [x])) = Some (File data)" "unmarshal J data = Inr s" by blast
  have "x = sc_name s @ ''.json''" by (rule tidyD [OF t x(1) data(1) l(1) data(2) l(3)])
  with l(3) x(2) data show "q = script_file es (sc_name s)" "on_disk J es fs (sc_name s) = Some s"
    by (simp_all add: on_disk_def)
qed

lemma on_disk_entry:
  assumes E: "fault_free E" and g: "list_all good_elem es" and s: "on_disk J es fs n = Some s"
  shows "load_entry J E fs (script_file es n) = Some s" "script_file es n |\<in>| children fs (path_of es)"
proof -
  from s obtain data where v: "validateScriptName n = None" and f: "fmlookup fs (script_file es n) = Some (File data)"
    and u: "unmarshal J data = Inr s" and nm: "sc_name s = n"
    by (auto simp: on_disk_def split: if_splits option.splits node.splits sum.splits)
  show "load_entry J E fs (script_file es n) = Some s"
    using f u v nm by (simp add: load_entry_quiet [OF E g valid_name(2) [OF v]])
  have "list_all good_elem (es @ [n @ ''.json''])" using g valid_name(2) [OF v] by simp
  with g have "script_file es n \<noteq> path_of es" by (simp add: path_of_inject)
  moreover have "script_file es n |\<in>| fmdom fs" using f by (rule fmdomI)
  ultimately show "script_file es n |\<in>| children fs (path_of es)"
    using g valid_name(2) [OF v] by (simp add: children_def)
qed

lemma load_directory:
  assumes E: "fault_free E" and g: "list_all good_elem es" and wf: "fs_wf fs"
    and d: "fmlookup fs (path_of es) = Some Dir" and t: "tidy J es fs"
  shows "\<exists>e. NewEngineWithPath J E fs (path_of es) = (fs, e) \<and> stored J es (fs, e)"
proof -
  define qs where "qs = sort_key Base (sorted_list_of_fset (children fs (path_of es)))"
  define m where "m = load_entries J E fs qs fmempty"
  have qs: "q \<in> set qs \<longleftrightarrow> q |\<in>| children fs (path_of es)" for q by (simp add: qs_def)
  have mk: "MkdirAll E fs (path_of es) = (fs, None)"
    using g fs_wf_ancestors [OF wf g d] by (intro MkdirAll_exists) simp_all
  have rd: "read_dir E fs (path_of es) = Inr qs" using E d by (simp add: read_dir_def qs_def)
  have new: "NewEngineWithPath J E fs (path_of es) = (fs, \<lparr>en_scripts = m, en_base = path_of es\<rparr>)"
    using g mk rd by (simp add: NewEngineWithPath_def loadFromDisk_def script_dir_def m_def)
  have only: "q = script_file es (sc_name s)" "on_disk J es fs (sc_name s) = Some s"
    if "q \<in> set qs" "load_entry J E fs q = Some s" for q s
    using loaded_entry [OF E g wf t _ that(2)] that(1) by (simp_all add: qs)
  have "fmlookup m n = on_disk J es fs n" for n
  proof (cases "on_disk J es fs n")
    case None
    have "fmlookup m n = fmlookup fmempty n" unfolding m_def
    proof (rule load_entries_none)
      fix q s assume "q \<in> set qs" "load_entry J E fs q = Some s"
      from only(2) [OF this] None show "sc_name s \<noteq> n" by auto
    qed
    with None show ?thesis by simp
  next
    case (Some s)
    note ent = on_disk_entry [OF E g Some]
    have "fmlookup m n = Some s" unfolding m_def
    proof (rule load_entries_some)
      show "script_file es n \<in> set qs" using ent(2) by (simp add: qs)
      show "load_entry J E fs (script_file es n) = Some s" by (rule ent(1))
      show "sc_name s = n" using Some by (auto simp: on_disk_def split: if_splits option.splits node.splits sum.splits)
      fix q' s' assume "q' \<in> set qs" "load_entry J E fs q' = Some s'" "sc_name s' = n"
      with only(1) [of q' s'] show "q' = script_file es n" by simp
    qed
    with Some show ?thesis by simp
  qed
  then have "fmlookup m = on_disk J es fs" by (rule ext)
  with g wf d t have "stored J es (fs, \<lparr>en_scripts = m, en_base = path_of es\<rparr>)"
    by (simp add: stored_def placed_def)
  with new show ?thesis by blast
qed

section \<open>Saving and deleting keep memory and directory in step\<close>

definition codec_ok :: "codec \<Rightarrow> (string \<Rightarrow> bool) \<Rightarrow> bool" where
  "codec_ok J V \<longleftrightarrow> (\<forall>s b. V (sc_name s) \<and> V (sc_content s) \<and> marshal J s = Inr b \<longrightarrow> unmarshal J b = Inr s)"

lemma on_disk_name: "on_disk J es fs n = Some s \<Longrightarrow> sc_name s = n"
  by (auto simp: on_disk_def split: if_splits option.splits node.splits sum.splits)

lemma on_disk_cong:
  assumes "fmlookup fs' (script_file es n) = fmlookup fs (script_file es n) \<or>
     fmlookup fs (script_file es n) = None \<and> fmlookup fs' (script_file es n) = Some Dir"
  shows "on_disk J es fs' n = on_disk J es fs n"
  using assms by (auto simp: on_disk_def)

lemma stored_save:
  assumes S: "stored J es (fs, e)" and J: "codec_ok J V" "V n" "V content" and E: "plain_suffix E"
    and save: "SaveScript J E now n content (fs, e) = ((fs', e'), None)"
  shows "stored J es (fs', e')"
proof -
  define e1 where "e1 = put_script now n content e"
  from save have v: "validateScriptName n = None" and e': "e' = e1" and d: "saveToDisk J E fs e1 n = (fs', None)"
    by (auto simp: SaveScript_def e1_def Let_def split: option.splits if_splits prod.splits)
  from S have p: "placed es e" and wf: "fs_wf fs" and t: "tidy J es fs" and mem: "fmlookup (en_scripts e) = on_disk J es fs"
    by (simp_all add: stored_def)
  have g: "list_all good_elem es" using p by (simp add: placed_def)
  have p1: "placed es e1" using p by (simp add: placed_def e1_def put_script_def)
  obtain s data where s: "fmlookup (en_scripts e1) n = Some s" and m: "marshal J s = Inr data"
    and f: "fmlookup fs' (script_file es n) = Some (File data)" "fs_wf fs'" "fmlookup fs' (path_of es) = Some Dir"
    and tmp: "fmlookup fs' (path_of (es @ [temp_name E])) = None"
    and k: "keeps_files {script_file es n, path_of (es @ [temp_name E])} fs fs'"
    by (rule saveToDisk_ok [OF p1 E wf d]) blast
  have sc: "sc_name s = n" "sc_content s = content"
    using s mem on_disk_name [of J es fs n] by (auto simp: e1_def put_script_def split: option.splits)
  with J m have u: "unmarshal J data = Inr s" by (simp add: codec_ok_def)
  have gn: "list_all good_elem (es @ [n @ ''.json''])" using g valid_name(2) [OF v] by simp
  have other: "fmlookup fs (path_of (es @ [x])) = Some (File c)"
    if x: "x \<noteq> n @ ''.json''" "good_elem x" and l: "fmlookup fs' (path_of (es @ [x])) = Some (File c)" for x c
  proof -
    have "path_of (es @ [x]) \<noteq> script_file es n" using path_of_inject [of "es @ [x]", OF _ gn] g x by simp
    moreover have "path_of (es @ [x]) \<noteq> path_of (es @ [temp_name E])" using l tmp by auto
    ultimately show ?thesis using k l unfolding keeps_files_def
      by (metis insertE node.distinct(1) option.inject singletonD)
  qed
  have "tidy J es fs'" unfolding tidy_def
  proof (intro allI impI)
    fix x c r
    assume x: "good_elem x" "fmlookup fs' (path_of (es @ [x])) = Some (File c)" "HasSuffix x ''.json''"
      "unmarshal J c = Inr r" "validateScriptName (sc_name r) = None"
    show "x = sc_name r @ ''.json''"
    proof (cases "x = n @ ''.json''")
      case True
      with x(2) f(1) have "c = data" by simp
      with x(4) u sc True show ?thesis by simp
    next
      case False
      with other [OF False x(1,2)] x t show ?thesis unfolding tidy_def by blast
    qed
  qed
  moreover have "fmlookup (en_scripts e1) k = on_disk J es fs' k" for k
  proof (cases "k = n")
    case True
    with f(1) u sc v s show ?thesis by (simp add: on_disk_def)
  next
    case False
    show ?thesis
    proof (cases "validateScriptName k = None")
      case True
      have gk: "list_all good_elem (es @ [k @ ''.json''])" using g valid_name(2) [OF True] by simp
      have "script_file es k \<noteq> script_file es n" using path_of_inject [OF gk gn] False by simp
      moreover have "script_file es k \<noteq> path_of (es @ [temp_name E])"
        using path_of_inject [OF gk, of "es @ [temp_name E]"] g good_temp [OF E] temp_not_json(1) [of E k] by auto
      ultimately have "on_disk J es fs' k = on_disk J es fs k"
        using k by (intro on_disk_cong) (auto simp: keeps_files_def)
      with False mem show ?thesis by (simp add: e1_def put_script_def)
    next
      case False
      with mem \<open>k \<noteq> n\<close> show ?thesis by (simp add: e1_def put_script_def on_disk_def)
    qed
  qed
  ultimately show ?thesis using p1 f e' by (auto simp: stored_def)
qed

lemma stored_delete:
  assumes S: "stored J es (fs, e)" and E: "fault E SRemove (script_file es n) \<noteq> Some ENOENT"
    and del: "DeleteScript E n (fs, e) = ((fs', e'), None)"
  shows "stored J es (fs', e')"
proof -
  from S have p: "placed es e" and wf: "fs_wf fs" and d: "fmlookup fs (path_of es) = Some Dir" and t: "tidy J es fs"
    and mem: "fmlookup (en_scripts e) = on_disk J es fs"
    by (simp_all add: stored_def)
  have g: "list_all good_elem es" using p by (simp add: placed_def)
  from del have v: "validateScriptName n = None" and old: "fmlookup (en_scripts e) n \<noteq> None"
    by (auto simp: DeleteScript_def split: option.splits if_splits)
  have gn: "list_all good_elem (es @ [n @ ''.json''])" using g valid_name(2) [OF v] by simp
  obtain c where c: "fmlookup fs (script_file es n) = Some (File c)"
    using old mem by (auto simp: on_disk_def split: if_splits option.splits node.splits)
  have e': "e' = e\<lparr>en_scripts := fmdrop n (en_scripts e)\<rparr>" and fs': "fs' = fmdrop (script_file es n) fs"
    using del v old c E script_paths(2) [OF p v]
    by (auto simp: DeleteScript_def remove_def Let_def split: option.splits prod.splits if_splits)
  have wf': "fs_wf fs'" unfolding fs' by (rule fs_wf_drop_file [OF wf c])
  have d': "fmlookup fs' (path_of es) = Some Dir" using d path_of_inject [OF g gn] by (simp add: fs')
  have t': "tidy J es fs'" using t unfolding tidy_def fs' by (auto split: if_splits)
  have "fmlookup (en_scripts e') k = on_disk J es fs' k" for k
  proof (cases "k = n")
    case True
    then show ?thesis by (simp add: e' fs' on_disk_def)
  next
    case False
    show ?thesis
    proof (cases "validateScriptName k = None")
      case True
      have "list_all good_elem (es @ [k @ ''.json''])" using g valid_name(2) [OF True] by simp
      then have "script_file es k \<noteq> script_file es n" using path_of_inject [OF _ gn, of "es @ [k @ ''.json'']"] False by simp
      then have "on_disk J es fs' k = on_disk J es fs k" by (intro on_disk_cong) (simp add: fs')
      with False mem show ?thesis by (simp add: e')
    qed (simp add: e' mem on_disk_def False)
  qed
  with p wf' d' t' show ?thesis by (auto simp: stored_def placed_def e')
qed

end
