(* ===== verification/ScriptProps.thy ===== *)
theory ScriptProps
  imports ScriptFacts
begin

text \<open>
  The properties of the script engine: what running a script does, which files the engine
  can touch, and that saved scripts are the scripts a new engine finds.
\<close>

section \<open>Running a script, as a reference\<close>

text \<open>The executable lines with their numbers, and running them one after the other.\<close>

definition todo :: "int \<Rightarrow> string list \<Rightarrow> (int \<times> string) list" where
  "todo i ls = filter (\<lambda>(n, l). \<not> skipped l) (zip [i + 1..i + int (length ls)] (map TrimSpace ls))"

fun run_all :: "'t templates \<Rightarrow> (string \<times> string) list option \<Rightarrow> 's command_executor \<Rightarrow> (int \<times> string) list
    \<Rightarrow> 's \<Rightarrow> 's \<times> ExecutionResult list" where
  "run_all T vars executor [] s = (s, [])"
| "run_all T vars executor ((n, l) # ts) s =
     (case run_line T vars executor n l s of (s1, r) \<Rightarrow>
       (case run_all T vars executor ts s1 of (s2, rs) \<Rightarrow> (s2, r # rs)))"

lemma todo_Cons: "todo i (l # ls) = (if skipped (TrimSpace l) then [] else [(i + 1, TrimSpace l)]) @ todo (i + 1) ls"
proof -
  have "[i + 1..i + int (length (l # ls))] = (i + 1) # [i + 1 + 1..i + 1 + int (length ls)]"
    by (subst upto_rec1) (simp_all add: algebra_simps)
  then show ?thesis by (simp add: todo_def)
qed

lemma todo_Nil [simp]: "todo i [] = []"
  by (simp add: todo_def)

lemma add_results:
  "fold add_result rs res = res\<lparr>sr_results := sr_results res @ rs,
     sr_success := sr_success res + int (length (filter (\<lambda>r. er_exit r = 0) rs)),
     sr_failed := sr_failed res + int (length (filter (\<lambda>r. er_exit r \<noteq> 0) rs))\<rparr>"
  by (induction rs arbitrary: res) (simp_all add: add_result_def Let_def)

lemma run_lines_run_all:
  "run_lines T vars ex i ls s res =
     (fst (run_all T vars ex (todo i ls) s), fold add_result (snd (run_all T vars ex (todo i ls) s)) res)"
proof (induction ls arbitrary: i s res)
  case (Cons l ls)
  show ?case
  proof (cases "skipped (TrimSpace l)")
    case True
    with Cons show ?thesis by (simp add: todo_Cons)
  next
    case False
    with Cons show ?thesis by (simp add: todo_Cons Let_def split: prod.splits)
  qed
qed simp

lemma run_all_lines: "map er_line (snd (run_all T vars ex ts s)) = map fst ts"
proof (induction ts arbitrary: s)
  case (Cons t ts)
  obtain n l where t: "t = (n, l)" by (cases t)
  obtain s1 r where r: "run_line T vars ex n l s = (s1, r)" by force
  then have "er_line r = n"
    by (auto simp: run_line_def failed_line_def split: sum.splits prod.splits)
  with Cons.IH [of s1] r show ?case by (cases "run_all T vars ex ts s1") (simp add: t)
qed simp

text \<open>(C35) Running a script is running its executable lines in order, each exactly once: the lines of the trimmed
  content that are neither empty nor comments, trimmed and numbered from 1. The results carry those line
  numbers, the successes are the results with exit code 0, the failures are all the others, and a
  failing line does not stop the script.\<close>
theorem script_execution:
  "let ls = script_lines (sc_content sc); ts = todo 0 ls; (s', rs) = run_all T vars ex ts s
   in ExecuteScript T (Some sc) vars (Some ex) s =
        (s', Inr \<lparr>sr_name = sc_name sc, sr_agent = [], sr_results = rs, sr_total = int (length ls),
           sr_success = int (length (filter (\<lambda>r. er_exit r = 0) rs)),
           sr_failed = int (length (filter (\<lambda>r. er_exit r \<noteq> 0) rs))\<rparr>)
      \<and> map er_line rs = map fst ts"
  by (simp add: ExecuteScript_def run_lines_run_all add_results run_all_lines Let_def case_prod_beta)

section \<open>Sequences of operations\<close>

inductive script_ops :: "codec \<Rightarrow> (string \<Rightarrow> bool) \<Rightarrow> string list \<Rightarrow> fsys \<times> Engine \<Rightarrow> fsys \<times> Engine \<Rightarrow> bool"
  for J :: codec and V :: "string \<Rightarrow> bool" and es :: "string list" where
  start: "script_ops J V es st st"
| saved: "script_ops J V es st st1 \<Longrightarrow> plain_suffix E \<Longrightarrow> V name \<Longrightarrow> V content \<Longrightarrow>
     SaveScript J E now name content st1 = (st2, None) \<Longrightarrow> script_ops J V es st st2"
| deleted: "script_ops J V es st st1 \<Longrightarrow> fault E SRemove (script_file es name) \<noteq> Some ENOENT \<Longrightarrow>
     DeleteScript E name st1 = (st2, None) \<Longrightarrow> script_ops J V es st st2"

inductive_cases script_opsE: "script_ops J V es st st'"

lemma stored_ops:
  assumes "script_ops J V es st st'" "stored J es st" "codec_ok J V"
  shows "stored J es st'"
  using assms
proof (induction rule: script_ops.induct)
  case (saved st st1 E name content now st2)
  obtain fs1 e1 fs2 e2 where st: "st1 = (fs1, e1)" "st2 = (fs2, e2)" by (metis prod.collapse)
  show ?case
    using stored_save [OF saved.IH [OF saved.prems, unfolded st] saved.prems(2) saved.hyps(3,4,2) saved.hyps(5) [unfolded st]]
    by (simp add: st)
next
  case (deleted st st1 E name st2)
  obtain fs1 e1 fs2 e2 where st: "st1 = (fs1, e1)" "st2 = (fs2, e2)" by (metis prod.collapse)
  show ?case
    using stored_delete [OF deleted.IH [OF deleted.prems, unfolded st] deleted.hyps(2) deleted.hyps(3) [unfolded st]]
    by (simp add: st)
qed

lemma load_placed:
  "NewEngineWithPath J E fs p = (fs', e) \<Longrightarrow> en_base e = p"
  by (auto simp: NewEngineWithPath_def loadFromDisk_def split: prod.splits option.splits sum.splits)

text \<open>(C36) Scripts survive a restart: from a directory in which every script lies in the file of its name, and through any
  saves and deletions that reported success, the memory of the engine is exactly what the directory
  holds, and an engine started afresh there has the same scripts and leaves the tree alone.\<close>
theorem scripts_survive_restart:
  assumes "list_all good_elem es" "fs_wf fs0" "fmlookup fs0 (path_of es) = Some Dir" "tidy J es fs0" "codec_ok J V"
    and "fault_free E0" "fault_free E1"
    and "script_ops J V es (NewEngineWithPath J E0 fs0 (path_of es)) (fs, e)"
  shows "fmlookup (en_scripts e) = on_disk J es fs \<and> NewEngineWithPath J E1 fs (path_of es) = (fs, e)"
proof -
  obtain e0 where "NewEngineWithPath J E0 fs0 (path_of es) = (fs0, e0)" "stored J es (fs0, e0)"
    using load_directory [OF assms(6,1-4)] by blast
  with assms(5,8) have st: "stored J es (fs, e)" by (metis stored_ops)
  then have s: "fs_wf fs" "fmlookup fs (path_of es) = Some Dir" "tidy J es fs"
    "fmlookup (en_scripts e) = on_disk J es fs" "en_base e = path_of es"
    by (simp_all add: stored_def placed_def)
  obtain e1 where e1: "NewEngineWithPath J E1 fs (path_of es) = (fs, e1)" "stored J es (fs, e1)"
    using load_directory [OF assms(7,1) s(1-3)] by blast
  then have "fmlookup (en_scripts e1) = fmlookup (en_scripts e)" "en_base e1 = en_base e"
    using s by (simp_all add: stored_def placed_def)
  then have "e1 = e" by (cases e; cases e1) (simp add: fmlookup_inject)
  with e1 s show ?thesis by simp
qed

text \<open>Whatever name and content a caller gives and whatever fails, saving and deleting a script change
  no file but that of the script and the temporary file, and then the script's file lies directly inside the
  engine's directory; at most missing directories appear, and an invalid name changes nothing.\<close>
theorem script_files_confined:
  assumes "list_all good_elem es" "en_base e = path_of es" "plain_suffix E"
  shows "keeps_files {script_file es name, path_of (es @ [temp_name E])} fs
         (fst (fst (SaveScript J E now name content (fs, e))))
     \<and> keeps_files {script_file es name} fs (fst (fst (DeleteScript E name (fs, e))))
     \<and> (fst (fst (SaveScript J E now name content (fs, e))) = fs \<and> fst (fst (DeleteScript E name (fs, e))) = fs
        \<or> DirOf (script_file es name) = path_of es)"
proof (intro conjI)
  have p: "placed es e" "placed es (put_script now name content e)"
    using assms(1,2) by (simp_all add: placed_def put_script_def)
  show "keeps_files {script_file es name, path_of (es @ [temp_name E])} fs
         (fst (fst (SaveScript J E now name content (fs, e))))"
    using saveToDisk_frame [OF p(2) assms(3), of name fs J]
    by (auto simp: SaveScript_def Let_def split: option.splits prod.splits)
  show "keeps_files {script_file es name} fs (fst (fst (DeleteScript E name (fs, e))))"
  proof (cases "validateScriptName name")
    case None
    obtain fs1 r where r: "remove E fs (script_file es name) = (fs1, r)" by force
    have "same_except {script_file es name} fs fs1"
      using remove_frame [of "script_file es name" "{script_file es name}" fs E] r by simp
    then have "keeps_files {script_file es name} fs fs1" by (rule keeps_files_same) simp
    with r None script_paths(2) [OF p(1) None] show ?thesis
      by (auto simp: DeleteScript_def Let_def split: option.splits)
  qed (simp add: DeleteScript_def)
  show "fst (fst (SaveScript J E now name content (fs, e))) = fs \<and> fst (fst (DeleteScript E name (fs, e))) = fs
        \<or> DirOf (script_file es name) = path_of es"
    using valid_name(2) [of name] assms(1)
    by (cases "validateScriptName name") (simp_all add: SaveScript_def DeleteScript_def)
qed

section \<open>Concrete scripts\<close>

text \<open>A codec for the witnesses: name and content separated by a line feed, times left out.\<close>

definition demo_codec :: codec where
  "demo_codec = \<lparr>marshal = (\<lambda>s. if sc_created s = 0 \<and> sc_updated s = 0 then Inr (sc_name s @ CHR 0x0A # sc_content s) else Inl (lit ''time'')),
     unmarshal = (\<lambda>b. case IndexByte b (CHR 0x0A) of None \<Rightarrow> Inl (lit ''syntax'')
        | Some i \<Rightarrow> Inr \<lparr>sc_name = take i b, sc_content = drop (i + 1) b, sc_created = 0, sc_updated = 0\<rparr>)\<rparr>"

definition demo_text :: "string \<Rightarrow> bool" where
  "demo_text s \<longleftrightarrow> CHR 0x0A \<notin> set s"

definition demo_fs :: fsys where
  "demo_fs = fmap_of_list [(''/'', Dir), (''/s'', Dir), (''/s/up.json'', File (''up'' @ CHR 0x0A # ''uptime''))]"

lemma IndexByte_append: "c \<notin> set a \<Longrightarrow> IndexByte (a @ c # b) c = Some (length a)"
proof -
  assume "c \<notin> set a"
  then have "takeWhile (\<lambda>d. d \<noteq> c) a = a" by (auto simp: takeWhile_eq_all_conv)
  then show ?thesis by (simp add: IndexByte_def takeWhile_append Let_def)
qed

lemma demo_codec_ok: "codec_ok demo_codec demo_text"
  by (auto simp: codec_ok_def demo_codec_def demo_text_def IndexByte_append split: if_splits)

lemma demo_good: "list_all good_elem [''s'']"
  by (simp add: good_elem_def)

lemma demo_script_lookup:
  "fmlookup demo_fs (path_of []) = Some Dir" "fmlookup demo_fs (path_of [''s'']) = Some Dir"
  "fmlookup demo_fs (path_of [''s'', ''up.json'']) = Some (File (''up'' @ CHR 0x0A # ''uptime''))"
  by (simp_all add: demo_fs_def path_of_def fmlookup_of_list)

lemma demo_fs_dom: "fmlookup demo_fs p = Some n \<Longrightarrow> p \<in> {path_of [], path_of [''s''], path_of [''s'', ''up.json'']}"
  by (auto simp: demo_fs_def path_of_def fmlookup_of_list split: if_splits)

lemma demo_fs_wf: "fs_wf demo_fs"
proof -
  have g: "good_elem ''s''" "good_elem ''up.json''" by (simp_all add: good_elem_def)
  have d: "DirOf (path_of []) = path_of []" "DirOf (path_of [''s'']) = path_of []"
    "DirOf (path_of [''s'', ''up.json'']) = path_of [''s'']"
    using g DirOf_path_of [of "[]" "''s''"] DirOf_path_of [of "[''s'']" "''up.json''"] by (simp_all add: DirOf_root)
  have "clean_abs p \<and> fmlookup demo_fs (DirOf p) = Some Dir" if "fmlookup demo_fs p = Some n" for p n
    using demo_fs_dom [OF that] g d demo_script_lookup by (auto intro!: clean_abs_path_of)
  moreover have "fmlookup demo_fs ''/'' = Some Dir" using demo_script_lookup(1) by (simp add: path_of_def)
  ultimately show ?thesis unfolding fs_wf_iff by blast
qed

lemma demo_tidy: "tidy demo_codec [''s''] demo_fs"
  unfolding tidy_def
proof (intro allI impI)
  fix x data s
  assume g: "good_elem x" and l: "fmlookup demo_fs (path_of ([''s''] @ [x])) = Some (File data)"
    and u: "unmarshal demo_codec data = Inr s"
  have gs: "list_all good_elem [''s'', x]" "list_all good_elem [''s'', ''up.json'']" "list_all good_elem [''s'']"
    "list_all good_elem []" using g by (simp_all add: good_elem_def)
  from demo_fs_dom [OF l] have "x = ''up.json''"
    using path_of_inject [OF gs(1,2)] path_of_inject [OF gs(1,3)] path_of_inject [OF gs(1,4)] by auto
  with l demo_script_lookup(3) have "data = ''up'' @ CHR 0x0A # ''uptime''" by simp
  with u have "sc_name s = ''up''"
    using IndexByte_append [of "CHR 0x0A" "''up''" "''uptime''"] by (auto simp: demo_codec_def)
  with \<open>x = ''up.json''\<close> show "x = sc_name s @ ''.json''" by simp
qed

lemma demo_delete:
  assumes "stored demo_codec [''s''] (demo_fs, e)"
  shows "\<exists>st. DeleteScript quiet ''up'' (demo_fs, e) = (st, None)"
proof -
  have v: "validateScriptName ''up'' = None" by code_simp
  have "on_disk demo_codec [''s''] demo_fs ''up'' \<noteq> None"
    using v demo_script_lookup(3) IndexByte_append [of "CHR 0x0A" "''up''" "''uptime''"] by (simp add: on_disk_def demo_codec_def)
  moreover have "script_path quiet e ''up'' = script_file [''s''] ''up''"
    using assms v by (intro script_paths) (auto simp: stored_def)
  ultimately show ?thesis using assms v demo_script_lookup(3) by (auto simp: DeleteScript_def stored_def remove_def)
qed

lemma scripts_survive_restart_witness:
  "\<exists>fs e. script_ops demo_codec demo_text [''s''] (NewEngineWithPath demo_codec quiet demo_fs (path_of [''s''])) (fs, e)
     \<and> fmlookup (en_scripts e) ''up'' = None \<and> NewEngineWithPath demo_codec quiet fs (path_of [''s'']) = (fs, e)"
proof -
  obtain e0 where e0: "NewEngineWithPath demo_codec quiet demo_fs (path_of [''s'']) = (demo_fs, e0)"
    and st: "stored demo_codec [''s''] (demo_fs, e0)"
    using load_directory [OF fault_free_quiet demo_good demo_fs_wf demo_script_lookup(2) demo_tidy] by blast
  obtain fs e where d: "DeleteScript quiet ''up'' (demo_fs, e0) = ((fs, e), None)"
    using demo_delete [OF st] by force
  have ops: "script_ops demo_codec demo_text [''s''] (NewEngineWithPath demo_codec quiet demo_fs (path_of [''s''])) (fs, e)"
    unfolding e0 by (rule script_ops.deleted [OF script_ops.start _ d]) simp
  have "fmlookup (en_scripts e) ''up'' = None"
    using d by (auto simp: DeleteScript_def Let_def split: option.splits if_splits prod.splits)
  with ops show ?thesis
    using scripts_survive_restart [OF demo_good demo_fs_wf demo_script_lookup(2) demo_tidy demo_codec_ok
        fault_free_quiet fault_free_quiet ops] by blast
qed

lemma script_files_confined_witness:
  "keeps_files {path_of ([''s''] @ [''../up'' @ ''.json''])} demo_fs
     (fst (fst (DeleteScript quiet ''../up'' (demo_fs, \<lparr>en_scripts = fmempty, en_base = path_of [''s'']\<rparr>))))"
proof -
  let ?e = "\<lparr>en_scripts = fmempty, en_base = path_of [''s'']\<rparr>"
  have "plain_suffix quiet" by (simp add: plain_suffix_def quiet_def)
  then show ?thesis using script_files_confined [OF demo_good, of ?e quiet "''../up''" demo_fs] by simp
qed

end
