(* ===== verification/CCAudit.thy ===== *)
theory CCAudit
  imports Prelude
begin

text \<open>
  The audit log of the control center (\<^verbatim>\<open>control-center/backend/audit/audit.go\<close>): a ring of the
  latest entries in memory and, when a database is open, one row per entry. As for the sessions, the
  database is the value of its table, the SQL statements are functions on it, and \<open>F\<close> gives the
  driver's error for each of them.
\<close>

section \<open>Entries and the logger\<close>

definition StatusSuccess :: string where "StatusSuccess = ''success''"
definition StatusError :: string where "StatusError = ''error''"
definition StatusWarning :: string where "StatusWarning = ''warning''"
definition defaultCapacity :: int where "defaultCapacity = 1000"

record Entry =
  ent_id :: int
  ent_time :: int
  ent_action :: string
  ent_agent :: string
  ent_user :: string
  ent_details :: string
  ent_status :: string

record auditDB =
  adb_rows :: "Entry list"
  adb_seq :: int

record LoggerCC =
  cc_entries :: "Entry list"
  cc_capacity :: int
  cc_nextID :: int
  cc_db :: "auditDB option"
  cc_dbEnabled :: bool

datatype auditStmt = AuClose | AuOpen | AuCreate | AuMax | AuInsert | AuLastId | AuQuery | AuScan | AuRows | AuDelete

type_synonym auditfail = "auditStmt \<Rightarrow> goerr option"

definition NewLogger :: LoggerCC where
  "NewLogger = \<lparr>cc_entries = [], cc_capacity = defaultCapacity, cc_nextID = 1, cc_db = None, cc_dbEnabled = False\<rparr>"

definition NewLoggerWithCapacity :: "int \<Rightarrow> LoggerCC" where
  "NewLoggerWithCapacity capacity =
     \<lparr>cc_entries = [], cc_capacity = (if capacity \<le> 0 then defaultCapacity else capacity), cc_nextID = 1,
      cc_db = None, cc_dbEnabled = False\<rparr>"

section \<open>The table\<close>

definition empty_audit :: auditDB where
  "empty_audit = \<lparr>adb_rows = [], adb_seq = 0\<rparr>"

text \<open>\<^verbatim>\<open>COALESCE(MAX(id), 0) + 1\<close>.\<close>

definition sql_next_id :: "auditDB \<Rightarrow> int" where
  "sql_next_id db = (case adb_rows db of [] \<Rightarrow> 1 | r # rs \<Rightarrow> fold (\<lambda>r m. max (ent_id r) m) rs (ent_id r) + 1)"

definition sql_insert :: "Entry \<Rightarrow> auditDB \<Rightarrow> auditDB" where
  "sql_insert entry db = \<lparr>adb_rows = adb_rows db @ [entry\<lparr>ent_id := adb_seq db + 1\<rparr>], adb_seq = adb_seq db + 1\<rparr>"

text \<open>\<^verbatim>\<open>ORDER BY id DESC LIMIT n\<close>.\<close>

definition sql_recent :: "int \<Rightarrow> auditDB \<Rightarrow> Entry list" where
  "sql_recent n db = take (nat n) (sort_key (\<lambda>r. - ent_id r) (adb_rows db))"

section \<open>Operations\<close>

text \<open>\<open>disk\<close> is what the database file holds, nothing when it does not exist.\<close>

definition OpenDB :: "auditfail \<Rightarrow> (string \<Rightarrow> auditDB option) \<Rightarrow> string \<Rightarrow> LoggerCC \<Rightarrow> LoggerCC \<times> goerr option" where
  "OpenDB F disk dbPath l =
     (let path = (if dbPath = [] then ''audit.db'' else dbPath) in
      case (if cc_db l = None then None else F AuClose) of
        Some err \<Rightarrow> (l, Some (Sprintf ''failed to close existing audit database: %w'' [GErr err]))
      | None \<Rightarrow>
        let l1 = (if cc_db l = None then l else l\<lparr>cc_db := None, cc_dbEnabled := False\<rparr>) in
        (case F AuOpen of Some err \<Rightarrow> (l1, Some (Sprintf ''failed to open audit database: %w'' [GErr err]))
         | None \<Rightarrow>
           (case F AuCreate of
              Some err \<Rightarrow> (l1\<lparr>cc_db := None, cc_dbEnabled := False\<rparr>, Some (Sprintf ''failed to create audit_log table: %w'' [GErr err]))
            | None \<Rightarrow>
              let db = (case disk path of None \<Rightarrow> empty_audit | Some d \<Rightarrow> d) in
              (case F AuMax of
                 Some err \<Rightarrow> (l1\<lparr>cc_db := None\<rparr>, Some (Sprintf ''failed to initialize audit log ID: %w'' [GErr err]))
               | None \<Rightarrow> (l1\<lparr>cc_db := Some db,
                    cc_nextID := (if sql_next_id db < 1 then 1 else sql_next_id db), cc_dbEnabled := True\<rparr>, None)))))"

definition CloseCC :: "auditfail \<Rightarrow> LoggerCC \<Rightarrow> LoggerCC \<times> goerr option" where
  "CloseCC F l = (if cc_db l = None then (l, None) else (l\<lparr>cc_db := None, cc_dbEnabled := False\<rparr>, F AuClose))"

definition persist :: "auditfail \<Rightarrow> Entry \<Rightarrow> LoggerCC \<Rightarrow> LoggerCC \<times> Entry" where
  "persist F entry l = (case (if cc_dbEnabled l then cc_db l else None) of None \<Rightarrow> (l, entry)
     | Some db \<Rightarrow> (case F AuInsert of Some err \<Rightarrow> (l, entry)
       | None \<Rightarrow>
         let l1 = l\<lparr>cc_db := Some (sql_insert entry db)\<rparr>; i = adb_seq db + 1 in
         (case F AuLastId of Some err \<Rightarrow> (l1, entry)
          | None \<Rightarrow> if i > 0
              then ((if cc_nextID l1 \<le> i then l1\<lparr>cc_nextID := add64 i 1\<rparr> else l1), entry\<lparr>ent_id := i\<rparr>)
              else (l1, entry))))"

definition ring_add :: "int \<Rightarrow> 'a list \<Rightarrow> 'a \<Rightarrow> 'a list" where
  "ring_add capacity entries e = (if int (length entries) \<ge> capacity then tl entries @ [e] else entries @ [e])"

definition LogCC :: "auditfail \<Rightarrow> int \<Rightarrow> string \<Rightarrow> string \<Rightarrow> string \<Rightarrow> string \<Rightarrow> string \<Rightarrow> LoggerCC \<Rightarrow> LoggerCC" where
  "LogCC F now action agentID user details status l =
     (let entry0 = \<lparr>ent_id = cc_nextID l, ent_time = now, ent_action = action, ent_agent = agentID, ent_user = user,
            ent_details = details, ent_status = (if status = [] then StatusSuccess else status)\<rparr>
      in case persist F entry0 (l\<lparr>cc_nextID := add64 (cc_nextID l) 1\<rparr>) of
        (l1, entry) \<Rightarrow> l1\<lparr>cc_entries := ring_add (cc_capacity l1) (cc_entries l1) entry\<rparr>)"

definition getRecentFromDB :: "auditfail \<Rightarrow> int \<Rightarrow> auditDB \<Rightarrow> Entry list result" where
  "getRecentFromDB F limit db = (case F AuQuery of Some err \<Rightarrow> Inl err
     | None \<Rightarrow> (case (if sql_recent limit db = [] then None else F AuScan) of Some err \<Rightarrow> Inl err
       | None \<Rightarrow> (case F AuRows of Some err \<Rightarrow> Inl err | None \<Rightarrow> Inr (rev (sql_recent limit db)))))"

definition getRecentFromMemory :: "int \<Rightarrow> LoggerCC \<Rightarrow> Entry list" where
  "getRecentFromMemory limit0 l =
     (let limit = (if limit0 > cc_capacity l then cc_capacity l else limit0);
          start = int (length (cc_entries l)) - limit
      in if cc_entries l = [] then [] else drop (nat (if start < 0 then 0 else start)) (cc_entries l))"

definition GetRecent :: "auditfail \<Rightarrow> int \<Rightarrow> LoggerCC \<Rightarrow> Entry list" where
  "GetRecent F limit0 l =
     (let limit1 = (if limit0 \<le> 0 then cc_capacity l else limit0);
          limit = (if limit1 > cc_capacity l then cc_capacity l else limit1)
      in case (if cc_dbEnabled l then cc_db l else None) of
           None \<Rightarrow> getRecentFromMemory limit l
         | Some db \<Rightarrow> (case getRecentFromDB F limit db of Inr entries \<Rightarrow> entries
             | Inl err \<Rightarrow> getRecentFromMemory limit l))"

definition ClearCC :: "auditfail \<Rightarrow> LoggerCC \<Rightarrow> LoggerCC" where
  "ClearCC F l = (let l1 = (case (if cc_dbEnabled l then cc_db l else None) of
        Some db \<Rightarrow> (if F AuDelete = None then l\<lparr>cc_db := Some (db\<lparr>adb_rows := []\<rparr>)\<rparr> else l) | None \<Rightarrow> l)
     in l1\<lparr>cc_entries := []\<rparr>)"

section \<open>The window of the latest entries\<close>

definition last_n :: "nat \<Rightarrow> 'a list \<Rightarrow> 'a list" where
  "last_n n xs = drop (length xs - n) xs"

lemma last_n_all [simp]: "length xs \<le> n \<Longrightarrow> last_n n xs = xs"
  by (simp add: last_n_def)

lemma length_last_n [simp]: "length (last_n n xs) = min n (length xs)"
  by (simp add: last_n_def)

lemma last_n_last_n: "m \<le> n \<Longrightarrow> last_n m (last_n n xs) = last_n m xs"
  by (cases "n \<le> length xs") (auto simp: last_n_def)

lemma last_n_rev: "rev (take n xs) = last_n n (rev xs)"
  by (simp add: last_n_def rev_take)

text \<open>Adding to the window of a history is the window of the longer history.\<close>

lemma ring_add_window:
  assumes "0 < capacity"
  shows "ring_add capacity (last_n (nat capacity) h) e = last_n (nat capacity) (h @ [e])"
proof (cases "length h < nat capacity")
  case True
  then have "\<not> capacity \<le> int (length h)" by linarith
  with True show ?thesis by (simp add: ring_add_def)
next
  case False
  with assms have "Suc (length h) - nat capacity = Suc (length h - nat capacity)" by simp
  with False assms show ?thesis by (simp add: ring_add_def last_n_def tl_drop drop_Suc)
qed

definition ids_increasing :: "auditDB \<Rightarrow> bool" where
  "ids_increasing db \<longleftrightarrow> sorted_wrt (<) (map ent_id (adb_rows db)) \<and> (\<forall>r \<in> set (adb_rows db). ent_id r \<le> adb_seq db)
     \<and> 0 \<le> adb_seq db"

lemma ids_increasing_insert: "ids_increasing db \<Longrightarrow> ids_increasing (sql_insert e db)"
  by (force simp: ids_increasing_def sql_insert_def sorted_wrt_append)

lemma sql_recent_rev:
  assumes "ids_increasing db"
  shows "rev (sql_recent n db) = last_n (nat n) (adb_rows db)"
proof -
  have "sorted_wrt (\<lambda>x y. ent_id x < ent_id y) (adb_rows db)"
    using assms by (simp add: ids_increasing_def sorted_wrt_map)
  then have "sorted_wrt (\<lambda>x y. ent_id y < ent_id x) (rev (adb_rows db))" by (simp add: sorted_wrt_rev)
  then have s: "sorted (map (\<lambda>r. - ent_id r) (rev (adb_rows db)))"
    unfolding sorted_wrt_map by (rule sorted_wrt_mono_rel [rotated]) simp
  have d: "distinct (map (\<lambda>r. - ent_id r) (adb_rows db))"
  proof -
    have "distinct (map ent_id (adb_rows db))" using assms by (simp add: ids_increasing_def strict_sorted_iff)
    then show ?thesis by (auto simp: distinct_map inj_on_def)
  qed
  have "sort_key (\<lambda>r. - ent_id r) (adb_rows db) = rev (adb_rows db)"
    using s d by (intro map_sorted_distinct_set_unique [where f = "\<lambda>r. - ent_id r"]) (auto simp: distinct_map inj_on_def)
  then show ?thesis by (simp add: sql_recent_def last_n_rev)
qed

section \<open>Sequences of entries\<close>

record log_call =
  lc_fail :: auditfail
  lc_now :: int
  lc_action :: string
  lc_agent :: string
  lc_user :: string
  lc_details :: string
  lc_status :: string

definition log_one :: "log_call \<Rightarrow> LoggerCC \<Rightarrow> LoggerCC" where
  "log_one c = LogCC (lc_fail c) (lc_now c) (lc_action c) (lc_agent c) (lc_user c) (lc_details c) (lc_status c)"

definition call_fields :: "log_call \<Rightarrow> int \<times> string \<times> string \<times> string \<times> string \<times> string" where
  "call_fields c = (lc_now c, lc_action c, lc_agent c, lc_user c, lc_details c,
     if lc_status c = [] then StatusSuccess else lc_status c)"

definition entry_fields :: "Entry \<Rightarrow> int \<times> string \<times> string \<times> string \<times> string \<times> string" where
  "entry_fields e = (ent_time e, ent_action e, ent_agent e, ent_user e, ent_details e, ent_status e)"

lemma log_one_effect:
  obtains e where "entry_fields e = call_fields c"
    "cc_entries (log_one c l) = ring_add (cc_capacity l) (cc_entries l) e"
    "cc_capacity (log_one c l) = cc_capacity l" "cc_dbEnabled (log_one c l) = cc_dbEnabled l"
    "cc_db l = None \<Longrightarrow> cc_db (log_one c l) = None"
    "\<And>db. cc_dbEnabled l \<Longrightarrow> cc_db l = Some db \<Longrightarrow> ids_increasing db \<Longrightarrow> lc_fail c = (\<lambda>_. None) \<Longrightarrow>
       cc_db (log_one c l) = Some (sql_insert e db) \<and> adb_rows (sql_insert e db) = adb_rows db @ [e]"
proof -
  define e0 where "e0 = \<lparr>ent_id = cc_nextID l, ent_time = lc_now c, ent_action = lc_action c, ent_agent = lc_agent c,
      ent_user = lc_user c, ent_details = lc_details c,
      ent_status = (if lc_status c = [] then StatusSuccess else lc_status c)\<rparr>"
  define l0 where "l0 = l\<lparr>cc_nextID := add64 (cc_nextID l) 1\<rparr>"
  obtain l1 e where p: "persist (lc_fail c) e0 l0 = (l1, e)" by force
  have log: "log_one c l = l1\<lparr>cc_entries := ring_add (cc_capacity l1) (cc_entries l1) e\<rparr>"
    using p by (simp add: log_one_def LogCC_def e0_def l0_def)
  have keep: "cc_entries l1 = cc_entries l" "cc_capacity l1 = cc_capacity l" "cc_dbEnabled l1 = cc_dbEnabled l"
    "cc_db l = None \<Longrightarrow> cc_db l1 = None" "entry_fields e = entry_fields e0"
    using p by (auto simp: persist_def l0_def Let_def entry_fields_def split: option.splits if_splits)
  have db: "cc_db l1 = Some (sql_insert e db) \<and> adb_rows (sql_insert e db) = adb_rows db @ [e]"
    if "cc_dbEnabled l" "cc_db l = Some db" "ids_increasing db" "lc_fail c = (\<lambda>_. None)" for db
    using p that by (auto simp: persist_def l0_def Let_def sql_insert_def ids_increasing_def split: if_splits)
  show thesis
    using keep db by (intro that [of e]) (simp_all add: log e0_def entry_fields_def call_fields_def)
qed

lemma log_one_ring:
  obtains e where "entry_fields e = call_fields c"
    "cc_entries (log_one c l) = ring_add (cc_capacity l) (cc_entries l) e"
    "cc_capacity (log_one c l) = cc_capacity l" "cc_dbEnabled (log_one c l) = cc_dbEnabled l"
    "cc_db l = None \<longrightarrow> cc_db (log_one c l) = None"
  by (rule log_one_effect [of c l]) (rule that, assumption+, rule impI)

text \<open>The entries as they were recorded, in order.\<close>

fun recorded :: "log_call list \<Rightarrow> LoggerCC \<Rightarrow> Entry list" where
  "recorded [] l = []"
| "recorded (c # cs) l = last (cc_entries (log_one c l)) # recorded cs (log_one c l)"

lemma last_ring_add [simp]: "last (ring_add n xs e) = e"
  by (simp add: ring_add_def)

lemma recorded_ring:
  assumes "0 < cc_capacity l" "cc_entries l = last_n (nat (cc_capacity l)) h"
  shows "cc_entries (fold log_one cs l) = last_n (nat (cc_capacity l)) (h @ recorded cs l)
    \<and> cc_capacity (fold log_one cs l) = cc_capacity l \<and> cc_dbEnabled (fold log_one cs l) = cc_dbEnabled l
    \<and> (cc_db l = None \<longrightarrow> cc_db (fold log_one cs l) = None)
    \<and> map entry_fields (recorded cs l) = map call_fields cs"
  using assms
proof (induction cs arbitrary: l h)
  case (Cons c cs)
  obtain e where e: "entry_fields e = call_fields c" "cc_entries (log_one c l) = ring_add (cc_capacity l) (cc_entries l) e"
    "cc_capacity (log_one c l) = cc_capacity l" "cc_dbEnabled (log_one c l) = cc_dbEnabled l"
    "cc_db l = None \<longrightarrow> cc_db (log_one c l) = None"
    by (rule log_one_ring)
  have "cc_entries (log_one c l) = last_n (nat (cc_capacity (log_one c l))) (h @ [e])"
    using e Cons.prems ring_add_window [OF Cons.prems(1), of h e] by simp
  with Cons.IH [of "log_one c l" "h @ [e]"] Cons.prems e show ?case by simp
qed simp

lemma recorded_rows:
  assumes "cc_dbEnabled l" "cc_db l = Some db" "ids_increasing db" "\<forall>c \<in> set cs. lc_fail c = (\<lambda>_. None)"
  shows "\<exists>db'. cc_db (fold log_one cs l) = Some db' \<and> ids_increasing db' \<and> adb_rows db' = adb_rows db @ recorded cs l"
  using assms
proof (induction cs arbitrary: l db)
  case (Cons c cs)
  obtain e where e: "cc_entries (log_one c l) = ring_add (cc_capacity l) (cc_entries l) e"
    "cc_dbEnabled (log_one c l) = cc_dbEnabled l"
    and d: "cc_db (log_one c l) = Some (sql_insert e db)" "adb_rows (sql_insert e db) = adb_rows db @ [e]"
    using log_one_effect [of c l] Cons.prems by (metis list.set_intros(1))
  obtain db' where db': "cc_db (fold log_one cs (log_one c l)) = Some db'" "ids_increasing db'"
    "adb_rows db' = adb_rows (sql_insert e db) @ recorded cs (log_one c l)"
    using Cons.IH [OF _ d(1) ids_increasing_insert [OF Cons.prems(3)]] Cons.prems(1,4) e(2) by auto
  with e(1) d(2) show ?case by simp
qed simp

lemma recent_memory:
  assumes "0 \<le> n" "n \<le> cap" "cc_entries l = last_n (nat cap) h" "cc_capacity l = cap"
  shows "getRecentFromMemory n l = last_n (nat n) h"
proof -
  let ?e = "cc_entries l"
  have k: "nat (if int (length ?e) - n < 0 then 0 else int (length ?e) - n) = length ?e - nat n"
    using assms(1) by (auto simp: nat_diff_distrib')
  have "getRecentFromMemory n l = drop (length ?e - nat n) ?e"
    using assms(2,4) k by (cases "?e = []") (simp_all add: getRecentFromMemory_def Let_def)
  also have "\<dots> = last_n (nat n) (last_n (nat cap) h)" by (simp only: last_n_def [of "nat n", symmetric] assms(3))
  also have "\<dots> = last_n (nat n) h" using assms(1,2) by (intro last_n_last_n) simp
  finally show ?thesis .
qed

lemma GetRecent_limit:
  "GetRecent F limit l =
     (let n = (if limit \<le> 0 \<or> cc_capacity l < limit then cc_capacity l else limit)
      in case (if cc_dbEnabled l then cc_db l else None) of None \<Rightarrow> getRecentFromMemory n l
         | Some db \<Rightarrow> (case getRecentFromDB F n db of Inr entries \<Rightarrow> entries | Inl err \<Rightarrow> getRecentFromMemory n l))"
  by (simp add: GetRecent_def)

text \<open>(C38) The log shows the latest entries: after any calls of \<^verbatim>\<open>Log\<close>, whatever the database did, every call
  left one entry with its fields and the ring holds exactly the latest of all entries up to its
  capacity. Without a database \<^verbatim>\<open>GetRecent\<close> returns the latest of them, at most as many as asked for and as fit the
  ring; with a database that works every call added one row, and the latest rows are returned, oldest first.\<close>
theorem cc_audit_recent:
  fixes l :: LoggerCC and calls :: "log_call list"
  assumes "0 < cc_capacity l" "cc_entries l = last_n (nat (cc_capacity l)) h"
  shows "let l' = fold log_one calls l; new = recorded calls l; cap = cc_capacity l;
           n = nat (if limit \<le> 0 \<or> cap < limit then cap else limit)
     in map entry_fields new = map call_fields calls \<and> cc_entries l' = last_n (nat cap) (h @ new)
      \<and> (cc_db l = None \<longrightarrow> GetRecent F limit l' = last_n n (h @ new))
      \<and> (\<forall>db. cc_dbEnabled l \<and> cc_db l = Some db \<and> ids_increasing db \<and> (\<forall>c \<in> set calls. lc_fail c = (\<lambda>_. None))
          \<longrightarrow> (\<exists>db'. cc_db l' = Some db' \<and> ids_increasing db' \<and> adb_rows db' = adb_rows db @ new)
            \<and> GetRecent (\<lambda>_. None) limit l' = last_n n (adb_rows db @ new))"
proof -
  let ?l = "fold log_one calls l" and ?new = "recorded calls l" and ?cap = "cc_capacity l"
  define n where "n = (if limit \<le> 0 \<or> ?cap < limit then ?cap else limit)"
  note ring = recorded_ring [OF assms, of calls]
  have n: "0 \<le> n" "n \<le> ?cap" using assms(1) by (simp_all add: n_def)
  have cap: "cc_capacity ?l = ?cap" using ring by simp
  have mem: "getRecentFromMemory n ?l = last_n (nat n) (h @ ?new)"
    using recent_memory [where n = n and l = ?l and cap = ?cap and h = "h @ ?new"] n ring by simp
  have none: "GetRecent F limit ?l = last_n (nat n) (h @ ?new)" if "cc_db l = None"
  proof -
    have "cc_db ?l = None" using that ring by simp
    then show ?thesis unfolding GetRecent_limit [of F limit ?l] Let_def cap n_def [symmetric] by (simp add: mem)
  qed
  have db: "(\<exists>db'. cc_db ?l = Some db' \<and> ids_increasing db' \<and> adb_rows db' = adb_rows db @ ?new)
      \<and> GetRecent (\<lambda>_. None) limit ?l = last_n (nat n) (adb_rows db @ ?new)"
    if d: "cc_dbEnabled l" "cc_db l = Some db" "ids_increasing db" "\<forall>c \<in> set calls. lc_fail c = (\<lambda>_. None)" for db
  proof -
    obtain db' where db': "cc_db ?l = Some db'" "ids_increasing db'" "adb_rows db' = adb_rows db @ ?new"
      using recorded_rows [OF d] by blast
    have "cc_dbEnabled ?l" using d(1) ring by simp
    then have "GetRecent (\<lambda>_. None) limit ?l = last_n (nat n) (adb_rows db')"
      unfolding GetRecent_limit [of "\<lambda>_. None" limit ?l] Let_def cap n_def [symmetric]
      using db'(1) sql_recent_rev [OF db'(2), of n] by (simp add: getRecentFromDB_def)
    with db' show ?thesis by simp
  qed
  show ?thesis unfolding Let_def n_def [symmetric]
  proof (intro conjI allI impI)
    show "map entry_fields ?new = map call_fields calls" "cc_entries ?l = last_n (nat ?cap) (h @ ?new)" using ring by simp_all
    show "cc_db l = None \<Longrightarrow> GetRecent F limit ?l = last_n (nat n) (h @ ?new)" by (rule none)
  qed (use db in blast)+
qed

definition demo_call :: "string \<Rightarrow> log_call" where
  "demo_call a = \<lparr>lc_fail = (\<lambda>_. None), lc_now = 7, lc_action = a, lc_agent = [], lc_user = ''admin'', lc_details = [], lc_status = []\<rparr>"

lemma cc_audit_recent_witness:
  "map ent_action (GetRecent (\<lambda>_. None) 2 (fold log_one [demo_call ''a'', demo_call ''b'', demo_call ''c'']
     (fst (OpenDB (\<lambda>_. None) (\<lambda>_. None) [] (NewLoggerWithCapacity 2))))) = [''b'', ''c'']"
proof -
  define l where "l = fst (OpenDB (\<lambda>_. None) (\<lambda>_. None) [] (NewLoggerWithCapacity 2))"
  let ?cs = "[demo_call ''a'', demo_call ''b'', demo_call ''c'']"
  have l: "cc_capacity l = 2" "cc_entries l = []" "cc_dbEnabled l" "cc_db l = Some empty_audit"
    by (simp_all add: l_def OpenDB_def NewLoggerWithCapacity_def)
  have ok: "ids_increasing empty_audit" "\<forall>c \<in> set ?cs. lc_fail c = (\<lambda>_. None)"
    by (simp_all add: ids_increasing_def empty_audit_def demo_call_def)
  have w: "0 < cc_capacity l" "cc_entries l = last_n (nat (cc_capacity l)) []" using l by simp_all
  note r = cc_audit_recent [OF w, where limit = 2 and F = "\<lambda>_. None" and calls = ?cs, unfolded Let_def]
  have f: "map entry_fields (recorded ?cs l) = map call_fields ?cs" by (rule r [THEN conjunct1])
  have "GetRecent (\<lambda>_. None) 2 (fold log_one ?cs l) = last_n (nat (if (2 :: int) \<le> 0 \<or> cc_capacity l < 2 then cc_capacity l else 2))
      (adb_rows empty_audit @ recorded ?cs l)"
    using r [THEN conjunct2, THEN conjunct2, THEN conjunct2, rule_format, of empty_audit] l(3,4) ok by blast
  then have "GetRecent (\<lambda>_. None) 2 (fold log_one ?cs l) = last_n 2 (recorded ?cs l)"
    by (simp only: l empty_audit_def auditDB.select_convs append_Nil) simp
  moreover have "map ent_action (recorded ?cs l) = [''a'', ''b'', ''c'']"
    using arg_cong [OF f, of "map (\<lambda>x. fst (snd x))"]
    by (simp add: entry_fields_def call_fields_def demo_call_def comp_def del: recorded.simps)
  moreover have "length (recorded ?cs l) = 3" using arg_cong [OF f, of length] by (simp del: recorded.simps)
  ultimately show ?thesis unfolding l_def [symmetric] by (simp add: last_n_def drop_map [symmetric] del: recorded.simps fold_simps)
qed

end
