(* ===== verification/AgentStatus.thy ===== *)
theory AgentStatus
  imports Monitor
begin

text \<open>
  What the control center reads from an agent's status messages
  (\<^verbatim>\<open>control-center/backend/protocol/types.go\<close>): the payloads the agent encodes in
  \<^verbatim>\<open>Monitor\<close>, decoded into the controller's structs, which have the same fields. A
  floating-point number is kept as its text.
\<close>

section \<open>Field decoders\<close>

fun dec_nat :: "nat \<Rightarrow> json \<Rightarrow> nat option" where
  "dec_nat old (JNum i) = (if 0 \<le> i \<and> i < 2 ^ 64 then Some (nat i) else None)"
| "dec_nat old JNull = Some old"
| "dec_nat old _ = None"

fun dec_frac :: "string \<Rightarrow> json \<Rightarrow> string option" where
  "dec_frac old (JFrac s) = Some s"
| "dec_frac old (JNum i) = Some (FormatInt i)"
| "dec_frac old JNull = Some old"
| "dec_frac old _ = None"

fun dec_struct :: "(string \<Rightarrow> json \<Rightarrow> 'r \<Rightarrow> 'r option) \<Rightarrow> 'r \<Rightarrow> json \<Rightarrow> 'r option" where
  "dec_struct step old (JObj kvs) = decode_fields step kvs old"
| "dec_struct step old JNull = Some old"
| "dec_struct step old _ = None"

definition cpu_field :: "string \<Rightarrow> json \<Rightarrow> CPUInfo \<Rightarrow> CPUInfo option" where
  "cpu_field k v r =
     (if key_is k ''percent'' then map_option (\<lambda>x. r\<lparr>ci_percent := x\<rparr>) (dec_frac (ci_percent r) v)
      else if key_is k ''cores'' then map_option (\<lambda>x. r\<lparr>ci_cores := x\<rparr>) (dec_int (ci_cores r) v)
      else if key_is k ''model'' then map_option (\<lambda>x. r\<lparr>ci_model := x\<rparr>) (dec_string (ci_model r) v)
      else Some r)"

definition memory_field :: "string \<Rightarrow> json \<Rightarrow> MemoryInfo \<Rightarrow> MemoryInfo option" where
  "memory_field k v r =
     (if key_is k ''total'' then map_option (\<lambda>x. r\<lparr>mi_total := x\<rparr>) (dec_nat (mi_total r) v)
      else if key_is k ''used'' then map_option (\<lambda>x. r\<lparr>mi_used := x\<rparr>) (dec_nat (mi_used r) v)
      else if key_is k ''free'' then map_option (\<lambda>x. r\<lparr>mi_free := x\<rparr>) (dec_nat (mi_free r) v)
      else if key_is k ''percent'' then map_option (\<lambda>x. r\<lparr>mi_percent := x\<rparr>) (dec_frac (mi_percent r) v)
      else Some r)"

definition disk_field :: "string \<Rightarrow> json \<Rightarrow> DiskInfo \<Rightarrow> DiskInfo option" where
  "disk_field k v r =
     (if key_is k ''mount'' then map_option (\<lambda>x. r\<lparr>di_mount := x\<rparr>) (dec_string (di_mount r) v)
      else if key_is k ''fs_type'' then map_option (\<lambda>x. r\<lparr>di_fs_type := x\<rparr>) (dec_string (di_fs_type r) v)
      else if key_is k ''total'' then map_option (\<lambda>x. r\<lparr>di_total := x\<rparr>) (dec_nat (di_total r) v)
      else if key_is k ''used'' then map_option (\<lambda>x. r\<lparr>di_used := x\<rparr>) (dec_nat (di_used r) v)
      else if key_is k ''free'' then map_option (\<lambda>x. r\<lparr>di_free := x\<rparr>) (dec_nat (di_free r) v)
      else if key_is k ''percent'' then map_option (\<lambda>x. r\<lparr>di_percent := x\<rparr>) (dec_frac (di_percent r) v)
      else Some r)"

definition net_field :: "string \<Rightarrow> json \<Rightarrow> NetInfo \<Rightarrow> NetInfo option" where
  "net_field k v r =
     (if key_is k ''ip'' then map_option (\<lambda>x. r\<lparr>ni_ip := x\<rparr>) (dec_string (ni_ip r) v)
      else if key_is k ''mac'' then map_option (\<lambda>x. r\<lparr>ni_mac := x\<rparr>) (dec_string (ni_mac r) v)
      else if key_is k ''hostname'' then map_option (\<lambda>x. r\<lparr>ni_hostname := x\<rparr>) (dec_string (ni_hostname r) v)
      else Some r)"

definition zero_cpu :: CPUInfo where "zero_cpu = \<lparr>ci_percent = ''0'', ci_cores = 0, ci_model = []\<rparr>"
definition zero_memory :: MemoryInfo where "zero_memory = \<lparr>mi_total = 0, mi_used = 0, mi_free = 0, mi_percent = ''0''\<rparr>"
definition zero_disk :: DiskInfo where
  "zero_disk = \<lparr>di_mount = [], di_fs_type = [], di_total = 0, di_used = 0, di_free = 0, di_percent = ''0''\<rparr>"
definition zero_net :: NetInfo where "zero_net = \<lparr>ni_ip = [], ni_mac = [], ni_hostname = []\<rparr>"

fun dec_disks :: "DiskInfo list \<Rightarrow> json \<Rightarrow> DiskInfo list option" where
  "dec_disks old (JArr vs) = dec_list (dec_struct disk_field zero_disk) vs"
| "dec_disks old JNull = Some []"
| "dec_disks old _ = None"

definition system_info_field :: "string \<Rightarrow> json \<Rightarrow> SystemInfoPayload \<Rightarrow> SystemInfoPayload option" where
  "system_info_field k v r =
     (if key_is k ''hostname'' then map_option (\<lambda>x. r\<lparr>si_hostname := x\<rparr>) (dec_string (si_hostname r) v)
      else if key_is k ''os'' then map_option (\<lambda>x. r\<lparr>si_os := x\<rparr>) (dec_string (si_os r) v)
      else if key_is k ''platform'' then map_option (\<lambda>x. r\<lparr>si_platform := x\<rparr>) (dec_string (si_platform r) v)
      else if key_is k ''arch'' then map_option (\<lambda>x. r\<lparr>si_arch := x\<rparr>) (dec_string (si_arch r) v)
      else if key_is k ''cpu'' then map_option (\<lambda>x. r\<lparr>si_cpu := x\<rparr>) (dec_struct cpu_field (si_cpu r) v)
      else if key_is k ''memory'' then map_option (\<lambda>x. r\<lparr>si_memory := x\<rparr>) (dec_struct memory_field (si_memory r) v)
      else if key_is k ''disks'' then map_option (\<lambda>x. r\<lparr>si_disks := x\<rparr>) (dec_disks (si_disks r) v)
      else if key_is k ''uptime'' then map_option (\<lambda>x. r\<lparr>si_uptime := x\<rparr>) (dec_nat (si_uptime r) v)
      else if key_is k ''net'' then map_option (\<lambda>x. r\<lparr>si_net := x\<rparr>) (dec_struct net_field (si_net r) v)
      else if key_is k ''agent_version'' then map_option (\<lambda>x. r\<lparr>si_agent_version := x\<rparr>) (dec_string (si_agent_version r) v)
      else Some r)"

definition zero_system_info :: SystemInfoPayload where
  "zero_system_info = \<lparr>si_hostname = [], si_os = [], si_platform = [], si_arch = [], si_cpu = zero_cpu,
     si_memory = zero_memory, si_disks = [], si_uptime = 0, si_net = zero_net, si_agent_version = []\<rparr>"

definition decode_system_info :: "json \<Rightarrow> SystemInfoPayload option" where
  "decode_system_info = Unmarshal system_info_field zero_system_info"

definition agent_info_field :: "string \<Rightarrow> json \<Rightarrow> AgentInfoPayload \<Rightarrow> AgentInfoPayload option" where
  "agent_info_field k v r =
     (if key_is k ''hostname'' then map_option (\<lambda>x. r\<lparr>ai_hostname := x\<rparr>) (dec_string (ai_hostname r) v)
      else if key_is k ''os'' then map_option (\<lambda>x. r\<lparr>ai_os := x\<rparr>) (dec_string (ai_os r) v)
      else if key_is k ''arch'' then map_option (\<lambda>x. r\<lparr>ai_arch := x\<rparr>) (dec_string (ai_arch r) v)
      else if key_is k ''agent_version'' then map_option (\<lambda>x. r\<lparr>ai_agent_version := x\<rparr>) (dec_string (ai_agent_version r) v)
      else if key_is k ''port'' then map_option (\<lambda>x. r\<lparr>ai_port := x\<rparr>) (dec_int (ai_port r) v)
      else if key_is k ''authenticated'' then map_option (\<lambda>x. r\<lparr>ai_authenticated := x\<rparr>) (dec_bool (ai_authenticated r) v)
      else Some r)"

definition decode_agent_info :: "json \<Rightarrow> AgentInfoPayload option" where
  "decode_agent_info = Unmarshal agent_info_field
     \<lparr>ai_hostname = [], ai_os = [], ai_arch = [], ai_agent_version = [], ai_port = 0, ai_authenticated = False\<rparr>"

section \<open>What the agent reports is what the controller reads\<close>

definition exact :: "int \<Rightarrow> bool" where
  "exact i \<longleftrightarrow> \<bar>i\<bar> < 2 ^ 53"

lemma exact_round [simp]: "exact i \<Longrightarrow> f64_round i = i"
  by (simp add: exact_def f64_round_small)

lemma exact_ranges: "exact i \<Longrightarrow> int64_ok i" "exact (int n) \<Longrightarrow> int n < 2 ^ 64"
  by (auto simp: exact_def int64_ok_def)

definition exact_disk :: "DiskInfo \<Rightarrow> bool" where
  "exact_disk d \<longleftrightarrow> exact (int (di_total d)) \<and> exact (int (di_used d)) \<and> exact (int (di_free d))"

definition exact_info :: "SystemInfoPayload \<Rightarrow> bool" where
  "exact_info i \<longleftrightarrow> exact (ci_cores (si_cpu i)) \<and> exact (int (mi_total (si_memory i))) \<and> exact (int (mi_used (si_memory i)))
     \<and> exact (int (mi_free (si_memory i))) \<and> exact (int (si_uptime i)) \<and> list_all exact_disk (si_disks i)"

lemma key_is_self [simp]: "key_is k k"
  by (simp add: key_is_def)

lemma decode_disk:
  "exact_disk d \<Longrightarrow> dec_struct disk_field zero_disk (via_interface (encode_disk d)) = Some d"
  using exact_ranges(2)
  by (cases d) (simp add: encode_disk_def exact_disk_def disk_field_def key_is_def ToLower_def lower_char_def zero_disk_def)

lemma decode_disks:
  "list_all exact_disk ds \<Longrightarrow> dec_list (dec_struct disk_field zero_disk) (map (via_interface \<circ> encode_disk) ds) = Some ds"
  by (induction ds) (simp_all add: decode_disk)

text \<open>The shown keys, folded.\<close>

lemmas status_keys = key_is_def ToLower_def lower_char_def

lemma decode_system_fields:
  assumes "dec_struct cpu_field zero_cpu c = Some cpu" "dec_struct memory_field zero_memory m = Some mem"
    "dec_disks [] d = Some ds" "dec_struct net_field zero_net n = Some net" "int up < 2 ^ 64"
  shows "decode_system_info (JObj [(''hostname'', JStr h), (''os'', JStr osn), (''platform'', JStr pf), (''arch'', JStr ar),
     (''cpu'', c), (''memory'', m), (''disks'', d), (''uptime'', JNum (int up)), (''net'', n), (''agent_version'', JStr v)])
   = Some \<lparr>si_hostname = h, si_os = osn, si_platform = pf, si_arch = ar, si_cpu = cpu, si_memory = mem, si_disks = ds,
       si_uptime = up, si_net = net, si_agent_version = v\<rparr>"
  using assms by (simp add: decode_system_info_def Unmarshal_def zero_system_info_def system_info_field_def status_keys)

lemma decode_cpu:
  "exact (ci_cores cpu) \<Longrightarrow> dec_struct cpu_field zero_cpu (via_interface (JObj [(''percent'', JFrac (ci_percent cpu)),
     (''cores'', JNum (ci_cores cpu)), (''model'', JStr (ci_model cpu))])) = Some cpu"
  using exact_ranges(1) by (cases cpu) (simp add: zero_cpu_def cpu_field_def status_keys)

lemma decode_memory:
  "exact (int (mi_total mem)) \<Longrightarrow> exact (int (mi_used mem)) \<Longrightarrow> exact (int (mi_free mem)) \<Longrightarrow>
   dec_struct memory_field zero_memory (via_interface (JObj [(''total'', JNum (int (mi_total mem))), (''used'', JNum (int (mi_used mem))),
     (''free'', JNum (int (mi_free mem))), (''percent'', JFrac (mi_percent mem))])) = Some mem"
  using exact_ranges(2) by (cases mem) (simp add: zero_memory_def memory_field_def status_keys)

lemma decode_net:
  "dec_struct net_field zero_net (via_interface (JObj [(''ip'', JStr (ni_ip net)), (''mac'', JStr (ni_mac net)),
     (''hostname'', JStr (ni_hostname net))])) = Some net"
  by (cases net) (simp add: zero_net_def net_field_def status_keys)

text \<open>The status of an agent arrives as it was reported: whatever system information and
  greeting the agent encodes, the controller decodes the same values after the transport, as long
  as the numbers are below \<open>2 ^ 53\<close>.\<close>
theorem status_roundtrip:
  assumes "exact_info i" "exact (ai_port a)"
  shows "decode_system_info (via_interface (encode_system_info i)) = Some i
     \<and> decode_agent_info (via_interface (encode_agent_info a)) = Some a"
proof
  note e = assms(1) [unfolded exact_info_def]
  have disks: "dec_disks [] (via_interface (JArr (map encode_disk (si_disks i)))) = Some (si_disks i)"
    using decode_disks [of "si_disks i"] e by (simp add: comp_def)
  have up: "int (si_uptime i) < 2 ^ 64" "f64_round (int (si_uptime i)) = int (si_uptime i)"
    using e exact_ranges(2) [of "si_uptime i"] by simp_all
  have via: "via_interface (encode_system_info i) =
      (JObj [(''hostname'', JStr (si_hostname i)), (''os'', JStr (si_os i)), (''platform'', JStr (si_platform i)),
      (''arch'', JStr (si_arch i)),
      (''cpu'', via_interface (JObj [(''percent'', JFrac (ci_percent (si_cpu i))), (''cores'', JNum (ci_cores (si_cpu i))),
         (''model'', JStr (ci_model (si_cpu i)))])),
      (''memory'', via_interface (JObj [(''total'', JNum (int (mi_total (si_memory i)))), (''used'', JNum (int (mi_used (si_memory i)))),
         (''free'', JNum (int (mi_free (si_memory i)))), (''percent'', JFrac (mi_percent (si_memory i)))])),
      (''disks'', via_interface (JArr (map encode_disk (si_disks i)))), (''uptime'', JNum (int (si_uptime i))),
      (''net'', via_interface (JObj [(''ip'', JStr (ni_ip (si_net i))), (''mac'', JStr (ni_mac (si_net i))),
         (''hostname'', JStr (ni_hostname (si_net i)))])), (''agent_version'', JStr (si_agent_version i))])"
    by (simp add: encode_system_info_def up(2))
  show "decode_system_info (via_interface (encode_system_info i)) = Some i" unfolding via
    using e by (subst decode_system_fields [OF decode_cpu decode_memory disks decode_net up(1)]) simp_all
  show "decode_agent_info (via_interface (encode_agent_info a)) = Some a"
    using assms(2) exact_ranges(1) [OF assms(2)]
    by (cases a) (simp add: encode_agent_info_def decode_agent_info_def Unmarshal_def agent_info_field_def status_keys)
qed

lemma status_roundtrip_witness:
  "decode_system_info (via_interface (encode_system_info (zero_system_info\<lparr>si_uptime := 3600, si_disks := [zero_disk]\<rparr>)))
     = Some (zero_system_info\<lparr>si_uptime := 3600, si_disks := [zero_disk]\<rparr>)"
proof -
  let ?i = "zero_system_info\<lparr>si_uptime := 3600, si_disks := [zero_disk]\<rparr>"
  let ?a = "\<lparr>ai_hostname = ''pc'', ai_os = ''linux'', ai_arch = ''amd64'', ai_agent_version = ''1.1.0'', ai_port = 0, ai_authenticated = True\<rparr>"
  have "exact_info ?i" "exact (ai_port ?a)"
    by (simp_all add: exact_info_def exact_def exact_disk_def zero_system_info_def zero_cpu_def zero_memory_def zero_disk_def)
  from status_roundtrip [OF this] show ?thesis by blast
qed

end
