(* ===== verification/ClientMgr.thy ===== *)
theory ClientMgr
  imports AgentStatus GoLoop
begin

text \<open>
  The connection manager of the control center
  (\<^verbatim>\<open>control-center/backend/client/client.go\<close>): connections to agents with their socket
  generations, the read pump, reconnection, and requests that wait for the answer with their
  identifier. Connections and generations are pointers in the source, so they are numbered here
  and never removed; a goroutine keeps the numbers it was started with.
\<close>

section \<open>Connection options\<close>

text \<open>Durations in nanoseconds; the sizes and times of the network packages do not enter the model.\<close>

definition writeTimeout :: int where "writeTimeout = 10 * 10 ^ 9"
definition readTimeoutCC :: int where "readTimeoutCC = 60 * 10 ^ 9"
definition handshakeTimeout :: int where "handshakeTimeout = 10 * 10 ^ 9"
definition heartbeatInterval :: int where "heartbeatInterval = 30 * 10 ^ 9"
definition reconnectDelay :: int where "reconnectDelay = 5 * 10 ^ 9"
definition maxMessageSizeCC :: int where "maxMessageSizeCC = 10 * 1024 * 1024"
definition maxReconnectRetries :: nat where "maxReconnectRetries = 5"

record ConnectOptions =
  co_AuthToken :: string
  co_TLS :: bool
  co_UseTLS :: bool
  co_CAFile :: string
  co_ServerName :: string

definition tlsEnabled :: "ConnectOptions \<Rightarrow> bool" where
  "tlsEnabled o1 \<longleftrightarrow> co_TLS o1 \<or> co_UseTLS o1"

definition sameConnectOptions :: "ConnectOptions \<Rightarrow> ConnectOptions \<Rightarrow> bool" where
  "sameConnectOptions a b \<longleftrightarrow> (length (co_AuthToken a) = length (co_AuthToken b) \<and> co_AuthToken a = co_AuthToken b)
     \<and> tlsEnabled a = tlsEnabled b \<and> co_CAFile a = co_CAFile b \<and> co_ServerName a = co_ServerName b"

text \<open>Scheme, host and path of the address.\<close>

definition websocketURL :: "string \<Rightarrow> int \<Rightarrow> ConnectOptions \<Rightarrow> string \<times> string \<times> string" where
  "websocketURL host port options =
     (if tlsEnabled options then ''wss'' else ''ws'', host @ '':'' @ FormatInt port, ''/ws'')"

text \<open>
  The TLS configuration of the dialer, or none. \<open>pool\<close> is the system's certificate pool,
  \<open>pem\<close> what the certificate package finds in a PEM file.
\<close>

record 'cert tlsConfig =
  tc_RootCAs :: "'cert list"
  tc_ServerName :: string

definition dialerForHost ::
  "osenv \<Rightarrow> fsys \<Rightarrow> goerr + 'cert list \<Rightarrow> (bytes \<Rightarrow> 'cert list) \<Rightarrow> string \<Rightarrow> ConnectOptions \<Rightarrow> 'cert tlsConfig option result" where
  "dialerForHost E fs pool pem host options =
     (if \<not> tlsEnabled options then
        (if co_CAFile options \<noteq> [] \<or> co_ServerName options \<noteq> []
         then Inl (lit ''CAFile and ServerName require TLS'') else Inr None)
      else (case pool of Inl err \<Rightarrow> Inl (Sprintf ''load system certificate pool: %w'' [GErr err])
      | Inr roots \<Rightarrow>
        let name = (if co_ServerName options = [] then host else co_ServerName options) in
        if co_CAFile options = [] then Inr (Some \<lparr>tc_RootCAs = roots, tc_ServerName = name\<rparr>)
        else (case ReadFile E fs (os_path E (co_CAFile options)) of
            Inl err \<Rightarrow> Inl (Sprintf ''read CA file %q: %w'' [GStr (co_CAFile options), GOs err])
          | Inr caPEM \<Rightarrow>
            if pem caPEM = [] then Inl (Sprintf ''CA file %q contains no certificates'' [GStr (co_CAFile options)])
            else Inr (Some \<lparr>tc_RootCAs = roots @ pem caPEM, tc_ServerName = name\<rparr>))))"

section \<open>The handshake\<close>

text \<open>
  A freshly dialed connection: reading a message may fail (also by the deadline), so may writing one.
\<close>

record 'c wire =
  wr_read :: "'c \<Rightarrow> 'c \<times> Message result"
  wr_write :: "'c \<Rightarrow> Message \<Rightarrow> 'c \<times> goerr option"
  wr_deadline :: "goerr option"

definition ErrAuthRequired :: goerr where
  "ErrAuthRequired = lit ''agent requires an authentication token''"

definition auth_message :: "int \<Rightarrow> string \<Rightarrow> Message" where
  "auth_message now authToken = \<lparr>msg_id = [], msg_type = MsgAuth,
     msg_payload = encode_auth \<lparr>au_token = authToken, au_username = []\<rparr>, msg_time = now, msg_error = no_text\<rparr>"

definition auth_reply :: "'c wire \<Rightarrow> 'c \<Rightarrow> ('c \<times> goerr option) + 'c" where
  "auth_reply W c = (case wr_read W c of
       (c1, Inl err) \<Rightarrow> Inl (c1, Some (Sprintf ''no response to credentials: %w'' [GErr err]))
     | (c1, Inr response) \<Rightarrow>
       if msg_type response = MsgAuthOk then Inl (c1, None)
       else if msg_type response = MsgError then
         Inl (c1, Some (Sprintf ''authentication failed: %s''
           [GErr (if msg_error response = no_text then lit ''token rejected'' else msg_error response)]))
       else if msg_type response = MsgAgentInfo then Inr c1
       else Inl (c1, Some (Sprintf ''unexpected response %q to credentials'' [GStr (msg_type response)])))"

text \<open>No value when the agent never stops sending greetings before the deadline.\<close>

definition handshake :: "'c wire \<Rightarrow> int \<Rightarrow> string \<Rightarrow> 'c \<Rightarrow> ('c \<times> goerr option) option" where
  "handshake W now authToken c =
     (case wr_deadline W of Some err \<Rightarrow> Some (c, Some (Sprintf ''cannot set handshake deadline: %w'' [GErr err]))
      | None \<Rightarrow> (case wr_read W c of
          (c1, Inl err) \<Rightarrow> Some (c1, Some (Sprintf ''no greeting received: %w'' [GErr err]))
        | (c1, Inr greeting) \<Rightarrow>
          if msg_type greeting = MsgAgentInfo then Some (c1, None)
          else if msg_type greeting = MsgAuthRequired then
            (if authToken = [] then Some (c1, Some ErrAuthRequired)
             else (case wr_write W c1 (auth_message now authToken) of
                 (c2, Some err) \<Rightarrow> Some (c2, Some (Sprintf ''cannot send credentials: %w'' [GErr err]))
               | (c2, None) \<Rightarrow> go_loop (auth_reply W) c2))
          else Some (c1, Some (Sprintf ''unexpected greeting %q'' [GStr (msg_type greeting)]))))"

section \<open>State\<close>

record AgentInfo =
  ag_ID :: string
  ag_Host :: string
  ag_Port :: int
  ag_AuthToken :: string
  ag_Name :: string
  ag_OS :: string
  ag_Arch :: string
  ag_Connected :: bool
  ag_LastSeen :: int
  ag_SystemInfo :: "SystemInfoPayload option"

text \<open>
  The read pump of a generation reads, has left its loop, or has run its deferred function; its heartbeat
  goroutine runs as long as \<open>gn_beating\<close> holds.
\<close>

datatype pumpState = PumpReading | PumpLeaving | PumpEnded

record connectionGeneration =
  gn_owner :: nat
  gn_connClosed :: bool
  gn_done :: bool
  gn_pump :: pumpState
  gn_beating :: bool

record AgentConnection =
  ac_info :: AgentInfo
  ac_options :: ConnectOptions
  ac_generation :: nat
  ac_closed :: bool
  ac_cancelled :: bool

text \<open>A reconnecting goroutine: started, waiting for its timer, or dialing.\<close>

datatype stage = Starting | Waiting | Dialing

record reconnection =
  rc_owner :: nat
  rc_failed :: nat
  rc_attempt :: nat
  rc_stage :: stage

text \<open>
  \<open>mg_seen\<close> lists the calls of the message callback, \<open>mg_sent\<close> what was written to which generation;
  \<open>mg_closing\<close> tells that \<^verbatim>\<open>CloseAll\<close> has begun, \<open>mg_cancelled\<close> that it has ended the manager's context.
\<close>

record ManagerCC =
  mg_conns :: "AgentConnection list"
  mg_gens :: "connectionGeneration list"
  mg_agents :: "(string, nat) fmap"
  mg_cancelled :: bool
  mg_reconnects :: "reconnection list"
  mg_pending :: "(string, Message option) fmap"
  mg_seen :: "(string \<times> Message) list"
  mg_sent :: "(nat \<times> Message) list"
  mg_closing :: bool

definition NewManager :: ManagerCC where
  "NewManager = \<lparr>mg_conns = [], mg_gens = [], mg_agents = fmempty, mg_cancelled = False, mg_reconnects = [],
     mg_pending = fmempty, mg_seen = [], mg_sent = [], mg_closing = False\<rparr>"

abbreviation conn_of :: "ManagerCC \<Rightarrow> nat \<Rightarrow> AgentConnection" where
  "conn_of m i \<equiv> mg_conns m ! i"

abbreviation gen_of :: "ManagerCC \<Rightarrow> nat \<Rightarrow> connectionGeneration" where
  "gen_of m g \<equiv> mg_gens m ! g"

definition on_conn :: "nat \<Rightarrow> (AgentConnection \<Rightarrow> AgentConnection) \<Rightarrow> ManagerCC \<Rightarrow> ManagerCC" where
  "on_conn i f m = m\<lparr>mg_conns := (mg_conns m)[i := f (mg_conns m ! i)]\<rparr>"

definition on_gen :: "nat \<Rightarrow> (connectionGeneration \<Rightarrow> connectionGeneration) \<Rightarrow> ManagerCC \<Rightarrow> ManagerCC" where
  "on_gen g f m = m\<lparr>mg_gens := (mg_gens m)[g := f (mg_gens m ! g)]\<rparr>"

definition on_info :: "(AgentInfo \<Rightarrow> AgentInfo) \<Rightarrow> AgentConnection \<Rightarrow> AgentConnection" where
  "on_info f ac = ac\<lparr>ac_info := f (ac_info ac)\<rparr>"

text \<open>The context of a connection ends with its own cancelation or with the manager's.\<close>

definition ctx_done :: "ManagerCC \<Rightarrow> nat \<Rightarrow> bool" where
  "ctx_done m i \<longleftrightarrow> ac_cancelled (conn_of m i) \<or> mg_cancelled m"

section \<open>Operations on a connection\<close>

definition newConnectionGeneration :: "nat \<Rightarrow> connectionGeneration" where
  "newConnectionGeneration owner = \<lparr>gn_owner = owner, gn_connClosed = False, gn_done = False, gn_pump = PumpReading,
     gn_beating = True\<rparr>"

text \<open>Each of the two happens once, whoever does it first.\<close>

definition finish :: "connectionGeneration \<Rightarrow> connectionGeneration" where
  "finish gn = gn\<lparr>gn_done := True\<rparr>"

definition closeConn :: "connectionGeneration \<Rightarrow> connectionGeneration" where
  "closeConn gn = gn\<lparr>gn_connClosed := True\<rparr>"

lemma finish_simps [simp]:
  "gn_owner (finish gn) = gn_owner gn" "gn_connClosed (finish gn) = gn_connClosed gn" "gn_done (finish gn)" "gn_pump (finish gn) = gn_pump gn"
  "gn_owner (closeConn gn) = gn_owner gn" "gn_connClosed (closeConn gn)" "gn_done (closeConn gn) = gn_done gn"
  "gn_pump (closeConn gn) = gn_pump gn" "gn_beating (finish gn) = gn_beating gn" "gn_beating (closeConn gn) = gn_beating gn"
  by (simp_all add: finish_def closeConn_def)

text \<open>A snapshot copies the information, the list of disks included; an absent one is all zero.\<close>

definition cloneSystemInfo :: "SystemInfoPayload option \<Rightarrow> SystemInfoPayload option" where
  "cloneSystemInfo info = (case info of None \<Rightarrow> None | Some i \<Rightarrow> Some (i\<lparr>si_disks := [] @ si_disks i\<rparr>))"

definition cloneAgentInfo :: "AgentInfo option \<Rightarrow> AgentInfo" where
  "cloneAgentInfo info = (case info of
       None \<Rightarrow> \<lparr>ag_ID = [], ag_Host = [], ag_Port = 0, ag_AuthToken = [], ag_Name = [], ag_OS = [], ag_Arch = [],
                ag_Connected = False, ag_LastSeen = 0, ag_SystemInfo = None\<rparr>
     | Some a \<Rightarrow> a\<lparr>ag_SystemInfo := cloneSystemInfo (ag_SystemInfo a)\<rparr>)"

definition snapshot :: "AgentConnection \<Rightarrow> AgentInfo" where
  "snapshot ac = cloneAgentInfo (Some (ac_info ac))"

lemma snapshot [simp]: "snapshot ac = ac_info ac"
  by (cases "ac_info ac") (simp add: snapshot_def cloneAgentInfo_def cloneSystemInfo_def split: option.splits)

definition conn_id :: "AgentConnection \<Rightarrow> string" where
  "conn_id ac = ag_ID (ac_info ac)"

definition connectionDetails :: "AgentConnection \<Rightarrow> string \<times> string \<times> int \<times> ConnectOptions" where
  "connectionDetails ac = (ag_ID (ac_info ac), ag_Host (ac_info ac), ag_Port (ac_info ac), ac_options ac)"

definition currentGeneration :: "AgentConnection \<Rightarrow> nat option" where
  "currentGeneration ac = (if ac_closed ac \<or> \<not> ag_Connected (ac_info ac) then None else Some (ac_generation ac))"

text \<open>The generation in place before, and whether the new one was installed.\<close>

definition installGeneration :: "int \<Rightarrow> nat \<Rightarrow> ManagerCC \<Rightarrow> ManagerCC \<times> nat option" where
  "installGeneration now i m =
     (if ac_closed (conn_of m i) \<or> ctx_done m i then (m, None)
      else (let g = length (mg_gens m); old = ac_generation (conn_of m i);
                m1 = m\<lparr>mg_gens := mg_gens m @ [newConnectionGeneration i]\<rparr>
            in (on_conn i (\<lambda>ac. (on_info (\<lambda>a. a\<lparr>ag_Connected := True, ag_LastSeen := now\<rparr>) ac)\<lparr>ac_generation := g\<rparr>) m1, Some old)))"

definition markDisconnected :: "nat \<Rightarrow> nat \<Rightarrow> ManagerCC \<Rightarrow> ManagerCC" where
  "markDisconnected i g m = on_conn i (\<lambda>ac. if ac_generation ac = g then on_info (\<lambda>a. a\<lparr>ag_Connected := False\<rparr>) ac else ac) m"

definition updateLastSeen :: "int \<Rightarrow> nat \<Rightarrow> AgentConnection \<Rightarrow> AgentConnection" where
  "updateLastSeen now g ac = (if ac_generation ac = g then on_info (\<lambda>a. a\<lparr>ag_LastSeen := now\<rparr>) ac else ac)"

definition take_names :: "string \<Rightarrow> string \<Rightarrow> string \<Rightarrow> AgentInfo \<Rightarrow> AgentInfo" where
  "take_names host os arch a = a\<lparr>ag_Name := (if host \<noteq> [] then host else ag_Name a),
     ag_OS := (if os \<noteq> [] then os else ag_OS a), ag_Arch := (if arch \<noteq> [] then arch else ag_Arch a)\<rparr>"

definition updateAgentInfo :: "nat \<Rightarrow> AgentInfoPayload \<Rightarrow> AgentConnection \<Rightarrow> AgentConnection" where
  "updateAgentInfo g info ac = (if ac_generation ac \<noteq> g \<or> ac_closed ac then ac
     else on_info (take_names (ai_hostname info) (ai_os info) (ai_arch info)) ac)"

definition updateSystemInfo :: "nat \<Rightarrow> SystemInfoPayload \<Rightarrow> AgentConnection \<Rightarrow> AgentConnection" where
  "updateSystemInfo g info ac = (if ac_generation ac \<noteq> g \<or> ac_closed ac then ac
     else on_info (\<lambda>a. take_names (si_hostname info) (si_os info) (si_arch info) (a\<lparr>ag_SystemInfo := Some info\<rparr>)) ac)"

definition shouldReconnect :: "ManagerCC \<Rightarrow> nat \<Rightarrow> nat \<Rightarrow> bool" where
  "shouldReconnect m i g \<longleftrightarrow> ac_generation (conn_of m i) = g \<and> \<not> ac_closed (conn_of m i) \<and> \<not> ctx_done m i"

text \<open>
  Closing a generation writes a close frame, whose failure is ignored, and closes the socket. Who waits for the
  end of its read pump does so for the time given at most: \<open>ended\<close> is when the pump ends, if it does.
\<close>

definition closeGeneration :: "nat \<Rightarrow> ManagerCC \<Rightarrow> ManagerCC" where
  "closeGeneration g m = on_gen g closeConn m"

definition waitForGeneration :: "int option \<Rightarrow> int \<Rightarrow> int" where
  "waitForGeneration ended timeout = (case ended of None \<Rightarrow> timeout | Some t \<Rightarrow> min t timeout)"

definition conn_stop :: "nat \<Rightarrow> ManagerCC \<Rightarrow> ManagerCC" where
  "conn_stop i m = on_conn i (\<lambda>ac. (on_info (\<lambda>a. a\<lparr>ag_Connected := False\<rparr>) ac)\<lparr>ac_closed := True, ac_cancelled := True\<rparr>) m"

text \<open>Stopping a connection, and \<^verbatim>\<open>closeGeneration\<close> on the generation that \<^verbatim>\<open>stop\<close> returns.\<close>

definition stopConn :: "nat \<Rightarrow> ManagerCC \<Rightarrow> ManagerCC" where
  "stopConn i m = closeGeneration (ac_generation (conn_of m i)) (conn_stop i m)"

section \<open>Connecting\<close>

definition err_other_options :: "string \<Rightarrow> int \<Rightarrow> goerr" where
  "err_other_options host port =
     Sprintf ''agent at %s:%d is already connected with different TLS or authentication options'' [GStr host, GInt port]"

text \<open>The first connected agent of an endpoint, in the order \<open>ids\<close> in which Go walks the map.\<close>

definition existing_agent :: "string list \<Rightarrow> ManagerCC \<Rightarrow> string \<Rightarrow> int \<Rightarrow> nat option" where
  "existing_agent ids m host port =
     Option.bind (find (\<lambda>k. case fmlookup (mg_agents m) k of None \<Rightarrow> False
       | Some i \<Rightarrow> (let a = ac_info (conn_of m i) in ag_Host a = host \<and> ag_Port a = port \<and> ag_Connected a)) ids)
       (fmlookup (mg_agents m))"

definition reuse_existing :: "ManagerCC \<Rightarrow> nat \<Rightarrow> string \<Rightarrow> int \<Rightarrow> ConnectOptions \<Rightarrow> string result" where
  "reuse_existing m i host port options =
     (if \<not> sameConnectOptions (ac_options (conn_of m i)) options then Inl (err_other_options host port)
      else Inr (ag_ID (ac_info (conn_of m i))))"

definition new_info :: "string \<Rightarrow> string \<Rightarrow> int \<Rightarrow> ConnectOptions \<Rightarrow> int \<Rightarrow> AgentInfo" where
  "new_info agentID host port options now = \<lparr>ag_ID = agentID, ag_Host = host, ag_Port = port,
     ag_AuthToken = co_AuthToken options, ag_Name = [], ag_OS = [], ag_Arch = [], ag_Connected = True,
     ag_LastSeen = now, ag_SystemInfo = None\<rparr>"

text \<open>What happens under the lock once the handshake is complete.\<close>

definition connect_commit :: "string list \<Rightarrow> string \<Rightarrow> int \<Rightarrow> ConnectOptions \<Rightarrow> string \<Rightarrow> int \<Rightarrow> ManagerCC \<Rightarrow> ManagerCC \<times> string result" where
  "connect_commit ids host port options agentID now m =
     (case existing_agent ids m host port of Some i \<Rightarrow> (m, reuse_existing m i host port options)
      | None \<Rightarrow>
        if mg_cancelled m then (m, Inl (lit ''manager is shutting down''))
        else (m\<lparr>mg_conns := mg_conns m @ [\<lparr>ac_info = new_info agentID host port options now, ac_options = options,
                  ac_generation = length (mg_gens m), ac_closed = False, ac_cancelled = False\<rparr>],
                mg_gens := mg_gens m @ [newConnectionGeneration (length (mg_conns m))],
                mg_agents := fmupd agentID (length (mg_conns m)) (mg_agents m)\<rparr>, Inr agentID))"

text \<open>
  The whole call. \<open>dialer\<close>, \<open>dialed\<close> and \<open>greeted\<close> are the results of configuring the dialer, of
  dialing and of the handshake; other goroutines may change the manager from \<open>m0\<close> to \<open>m1\<close> meanwhile.
\<close>

definition ConnectWithOptions ::
  "'d result \<Rightarrow> goerr option \<Rightarrow> goerr option \<Rightarrow> string list \<Rightarrow> string list \<Rightarrow> string \<Rightarrow> int \<Rightarrow> ConnectOptions \<Rightarrow> string \<Rightarrow> int
    \<Rightarrow> ManagerCC \<Rightarrow> ManagerCC \<Rightarrow> ManagerCC \<times> string result" where
  "ConnectWithOptions dialer dialed greeted ids0 ids1 host port options agentID now m0 m1 =
     (case existing_agent ids0 m0 host port of Some i \<Rightarrow> (m0, reuse_existing m0 i host port options)
      | None \<Rightarrow>
     (case dialer of
        Inl err \<Rightarrow> (m1, Inl (Sprintf ''failed to configure connection to agent at %s:%d: %w'' [GStr host, GInt port, GErr err]))
      | Inr _ \<Rightarrow>
     (case dialed of
        Some err \<Rightarrow> (m1, Inl (Sprintf ''failed to connect to agent at %s:%d: %w'' [GStr host, GInt port, GErr err]))
      | None \<Rightarrow>
     (case greeted of Some err \<Rightarrow> (m1, Inl (Sprintf ''agent at %s:%d: %w'' [GStr host, GInt port, GErr err]))
      | None \<Rightarrow> connect_commit ids1 host port options agentID now m1))))"

text \<open>The wrapper for a plain connection with a token.\<close>

definition Connect ::
  "'d result \<Rightarrow> goerr option \<Rightarrow> goerr option \<Rightarrow> string list \<Rightarrow> string list \<Rightarrow> string \<Rightarrow> int \<Rightarrow> string \<Rightarrow> string \<Rightarrow> int
    \<Rightarrow> ManagerCC \<Rightarrow> ManagerCC \<Rightarrow> ManagerCC \<times> string result" where
  "Connect dialer dialed greeted ids0 ids1 host port authToken =
     ConnectWithOptions dialer dialed greeted ids0 ids1 host port
       \<lparr>co_AuthToken = authToken, co_TLS = False, co_UseTLS = False, co_CAFile = [], co_ServerName = []\<rparr>"

section \<open>Sending\<close>

text \<open>
  \<open>write_err\<close> is the error of setting the deadline of the socket or of writing to it, if any; a write to a socket that was
  closed fails.
\<close>

definition err_net_closed :: goerr where "err_net_closed = lit ''use of closed network connection''"

definition writeJSON :: "goerr option \<Rightarrow> nat \<Rightarrow> Message \<Rightarrow> ManagerCC \<Rightarrow> ManagerCC \<times> goerr option" where
  "writeJSON write_err g msg m = (case write_err of Some err \<Rightarrow> (m, Some err)
     | None \<Rightarrow> if gn_connClosed (gen_of m g) then (m, Some err_net_closed)
         else (m\<lparr>mg_sent := mg_sent m @ [(g, msg)]\<rparr>, None))"

declare writeJSON_def [simp]

definition SendMessage :: "goerr option \<Rightarrow> string \<Rightarrow> Message \<Rightarrow> ManagerCC \<Rightarrow> ManagerCC \<times> goerr option" where
  "SendMessage write_err agentID msg m =
     (case fmlookup (mg_agents m) agentID of
        None \<Rightarrow> (m, Some (Sprintf ''agent %s not found'' [GStr agentID]))
      | Some i \<Rightarrow> (case currentGeneration (conn_of m i) of
          None \<Rightarrow> (m, Some (Sprintf ''agent %s is not connected'' [GStr agentID]))
        | Some g \<Rightarrow> writeJSON write_err g msg m))"

definition request_message :: "string \<Rightarrow> string \<Rightarrow> json \<Rightarrow> int \<Rightarrow> Message" where
  "request_message msgID msgType payload now =
     \<lparr>msg_id = msgID, msg_type = msgType, msg_payload = payload, msg_time = now, msg_error = no_text\<rparr>"

text \<open>A request registers its channel and sends; a failing send takes the channel away again.\<close>

definition request_begin :: "goerr option \<Rightarrow> string \<Rightarrow> string \<Rightarrow> string \<Rightarrow> json \<Rightarrow> int \<Rightarrow> ManagerCC \<Rightarrow> ManagerCC \<times> goerr option" where
  "request_begin write_err msgID agentID msgType payload now m =
     (case SendMessage write_err agentID (request_message msgID msgType payload now)
         (m\<lparr>mg_pending := fmupd msgID None (mg_pending m)\<rparr>) of
        (m1, Some err) \<Rightarrow> (m1\<lparr>mg_pending := fmdrop msgID (mg_pending m1)\<rparr>, Some (Sprintf ''failed to send message: %w'' [GErr err]))
      | (m1, None) \<Rightarrow> (m1, None))"

text \<open>Then it waits for the first of three events.\<close>

datatype wake = Answered Message | TimedOut | ShuttingDown

definition request_end :: "int \<Rightarrow> string \<Rightarrow> wake \<Rightarrow> ManagerCC \<Rightarrow> ManagerCC \<times> Message option \<times> goerr option" where
  "request_end timeout msgID w m =
     (m\<lparr>mg_pending := fmdrop msgID (mg_pending m)\<rparr>,
      case w of
        Answered response \<Rightarrow> (Some response, if msg_error response \<noteq> no_text
            then Some (Sprintf ''agent error: %s'' [GErr (msg_error response)]) else None)
      | TimedOut \<Rightarrow> (None, Some (Sprintf ''request timed out after %v'' [GInt (if timeout \<le> 0 then 30 * 10 ^ 9 else timeout)]))
      | ShuttingDown \<Rightarrow> (None, Some (lit ''manager is shutting down'')))"

text \<open>\<^verbatim>\<open>SendAndParse\<close> on the result of the request, with the decoder of the target.\<close>

definition parse_response :: "(json \<Rightarrow> 'a option) \<Rightarrow> Message option \<times> goerr option \<Rightarrow> 'a result" where
  "parse_response decode r = (case r of (_, Some err) \<Rightarrow> Inl err
     | (None, None) \<Rightarrow> Inl (lit ''nil response'')
     | (Some response, None) \<Rightarrow> (case decode (via_interface (msg_payload response)) of
         None \<Rightarrow> Inl (lit ''failed to unmarshal response payload'') | Some x \<Rightarrow> Inr x))"

section \<open>The read pump\<close>

definition apply_status :: "nat \<Rightarrow> nat \<Rightarrow> Message \<Rightarrow> ManagerCC \<Rightarrow> ManagerCC" where
  "apply_status i g msg m =
     (if msg_type msg = MsgAgentInfo then
        (case decode_agent_info (via_interface (msg_payload msg)) of None \<Rightarrow> m
         | Some info \<Rightarrow> on_conn i (updateAgentInfo g info) m)
      else if msg_type msg = MsgSystemUpdate then
        (case decode_system_info (via_interface (msg_payload msg)) of None \<Rightarrow> m
         | Some info \<Rightarrow> on_conn i (updateSystemInfo g info) m)
      else m)"

text \<open>A message for a pending request goes to its channel, which holds one; any other to the callback.\<close>

definition deliver :: "nat \<Rightarrow> Message \<Rightarrow> ManagerCC \<Rightarrow> ManagerCC" where
  "deliver i msg m =
     (case (if msg_id msg = [] then None else fmlookup (mg_pending m) (msg_id msg)) of
        Some None \<Rightarrow> m\<lparr>mg_pending := fmupd (msg_id msg) (Some msg) (mg_pending m)\<rparr>
      | Some (Some _) \<Rightarrow> m
      | None \<Rightarrow> m\<lparr>mg_seen := mg_seen m @ [(ag_ID (ac_info (conn_of m i)), msg)]\<rparr>)"

definition pump_message :: "int \<Rightarrow> nat \<Rightarrow> Message option \<Rightarrow> ManagerCC \<Rightarrow> ManagerCC" where
  "pump_message now g parsed m =
     (let i = gn_owner (gen_of m g); m1 = on_conn i (updateLastSeen now g) m
      in case parsed of None \<Rightarrow> m1 | Some msg \<Rightarrow> deliver i msg (apply_status i g msg m1))"

text \<open>A failing read starts a reconnection, unless the connection is not this generation's any more.\<close>

definition pump_failed :: "nat \<Rightarrow> ManagerCC \<Rightarrow> ManagerCC" where
  "pump_failed g m =
     (let i = gn_owner (gen_of m g); m1 = on_gen g (\<lambda>gn. gn\<lparr>gn_pump := PumpLeaving\<rparr>) m
      in if shouldReconnect m i g
         then m1\<lparr>mg_reconnects := mg_reconnects m @ [\<lparr>rc_owner = i, rc_failed = g, rc_attempt = 0, rc_stage = Starting\<rparr>]\<rparr>
         else m1)"

text \<open>The deferred function.\<close>

definition pump_exit :: "nat \<Rightarrow> ManagerCC \<Rightarrow> ManagerCC" where
  "pump_exit g m = on_gen g (\<lambda>gn. (finish (closeConn gn))\<lparr>gn_pump := PumpEnded\<rparr>)
     (markDisconnected (gn_owner (gen_of m g)) g m)"

section \<open>The heartbeat\<close>

definition keepalive_message :: "int \<Rightarrow> Message" where
  "keepalive_message now =
     \<lparr>msg_id = [], msg_type = MsgKeepAlive, msg_payload = JNull, msg_time = now, msg_error = no_text\<rparr>"

text \<open>One tick of a generation's ticker; a failing write ends the goroutine.\<close>

definition heartbeat :: "goerr option \<Rightarrow> int \<Rightarrow> nat \<Rightarrow> ManagerCC \<Rightarrow> ManagerCC" where
  "heartbeat write_err now g m =
     (case writeJSON write_err g (keepalive_message now) m of
        (m1, None) \<Rightarrow> m1 | (m1, Some err) \<Rightarrow> on_gen g (\<lambda>gn. gn\<lparr>gn_beating := False\<rparr>) m1)"

text \<open>The goroutine also ends with its generation, with the connection and with the manager.\<close>

definition beat_ends :: "nat \<Rightarrow> ManagerCC \<Rightarrow> bool" where
  "beat_ends g m \<longleftrightarrow> gn_done (gen_of m g) \<or> ctx_done m (gn_owner (gen_of m g))"

section \<open>Reconnecting\<close>

definition end_reconnect :: "reconnection \<Rightarrow> ManagerCC \<Rightarrow> ManagerCC" where
  "end_reconnect r m = m\<lparr>mg_reconnects := remove1 r (mg_reconnects m)\<rparr>"

definition set_reconnect :: "reconnection \<Rightarrow> reconnection \<Rightarrow> ManagerCC \<Rightarrow> ManagerCC" where
  "set_reconnect r r' m = m\<lparr>mg_reconnects := remove1 r (mg_reconnects m) @ [r']\<rparr>"

definition reconnect_start :: "reconnection \<Rightarrow> ManagerCC \<Rightarrow> ManagerCC" where
  "reconnect_start r m = (if shouldReconnect m (rc_owner r) (rc_failed r)
     then set_reconnect r (r\<lparr>rc_stage := Waiting\<rparr>) m else end_reconnect r m)"

text \<open>The timer has fired; \<open>valid\<close> tells whether the dialer could be configured.\<close>

definition reconnect_wake :: "bool \<Rightarrow> reconnection \<Rightarrow> ManagerCC \<Rightarrow> ManagerCC" where
  "reconnect_wake valid r m = (if shouldReconnect m (rc_owner r) (rc_failed r) \<and> valid
     then set_reconnect r (r\<lparr>rc_stage := Dialing\<rparr>) m else end_reconnect r m)"

definition reconnect_failed :: "reconnection \<Rightarrow> ManagerCC \<Rightarrow> ManagerCC" where
  "reconnect_failed r m =
     (if Suc (rc_attempt r) < maxReconnectRetries
      then set_reconnect r (r\<lparr>rc_attempt := Suc (rc_attempt r), rc_stage := Waiting\<rparr>) m
      else markDisconnected (rc_owner r) (rc_failed r) (end_reconnect r m))"

definition reconnect_done :: "int \<Rightarrow> reconnection \<Rightarrow> ManagerCC \<Rightarrow> ManagerCC" where
  "reconnect_done now r m =
     (case installGeneration now (rc_owner r) (end_reconnect r m) of
        (m1, None) \<Rightarrow> m1
      | (m1, Some old) \<Rightarrow> on_gen old closeConn m1)"

section \<open>Disconnecting and queries\<close>

text \<open>What \<^verbatim>\<open>Disconnect\<close> does under the lock of the map.\<close>

definition disconnect_begin :: "string \<Rightarrow> ManagerCC \<Rightarrow> ManagerCC \<times> nat result" where
  "disconnect_begin agentID m = (case fmlookup (mg_agents m) agentID of
       None \<Rightarrow> (m, Inl (Sprintf ''agent %s not found'' [GStr agentID]))
     | Some i \<Rightarrow> (m\<lparr>mg_agents := fmdrop agentID (mg_agents m)\<rparr>, Inr i))"

definition Disconnect :: "string \<Rightarrow> ManagerCC \<Rightarrow> ManagerCC \<times> goerr option" where
  "Disconnect agentID m = (case disconnect_begin agentID m of
       (m1, Inl err) \<Rightarrow> (m1, Some err) | (m1, Inr i) \<Rightarrow> (stopConn i m1, None))"

lemma Disconnect_eq:
  "Disconnect agentID m = (case fmlookup (mg_agents m) agentID of
       None \<Rightarrow> (m, Some (Sprintf ''agent %s not found'' [GStr agentID]))
     | Some i \<Rightarrow> (stopConn i (m\<lparr>mg_agents := fmdrop agentID (mg_agents m)\<rparr>), None))"
  by (simp add: Disconnect_def disconnect_begin_def split: option.split)

text \<open>\<^verbatim>\<open>CloseAll\<close> empties the map, ends the context, drops the waiting requests, and stops each connection.\<close>

definition close_begin :: "ManagerCC \<Rightarrow> ManagerCC" where
  "close_begin m = m\<lparr>mg_agents := fmempty, mg_closing := True\<rparr>"

definition globalCancel :: "ManagerCC \<Rightarrow> ManagerCC" where
  "globalCancel m = m\<lparr>mg_cancelled := True\<rparr>"

definition clear_pending :: "ManagerCC \<Rightarrow> ManagerCC" where
  "clear_pending m = m\<lparr>mg_pending := fmempty\<rparr>"

definition CloseAll :: "string list \<Rightarrow> ManagerCC \<Rightarrow> ManagerCC" where
  "CloseAll ids m = fold (\<lambda>k. case fmlookup (mg_agents m) k of None \<Rightarrow> id | Some i \<Rightarrow> stopConn i) ids
     (clear_pending (globalCancel (close_begin m)))"

lemma CloseAll_eq:
  "CloseAll ids m = fold (\<lambda>k. case fmlookup (mg_agents m) k of None \<Rightarrow> id | Some i \<Rightarrow> stopConn i) ids
     (m\<lparr>mg_agents := fmempty, mg_closing := True, mg_cancelled := True, mg_pending := fmempty\<rparr>)"
  by (simp add: CloseAll_def close_begin_def globalCancel_def clear_pending_def)

definition GetAgent :: "string \<Rightarrow> ManagerCC \<Rightarrow> AgentInfo option" where
  "GetAgent agentID m = map_option (\<lambda>i. snapshot (conn_of m i)) (fmlookup (mg_agents m) agentID)"

definition ListAgents :: "ManagerCC \<Rightarrow> (string, AgentInfo) fmap" where
  "ListAgents m = fmmap (\<lambda>i. snapshot (conn_of m i)) (mg_agents m)"

definition ConnectedCount :: "ManagerCC \<Rightarrow> nat" where
  "ConnectedCount m = fcard (ffilter (\<lambda>k. case fmlookup (mg_agents m) k of None \<Rightarrow> False
     | Some i \<Rightarrow> ag_Connected (snapshot (conn_of m i))) (fmdom (mg_agents m)))"

section \<open>Steps\<close>

text \<open>
  What one goroutine does between two points where another may run. A generation's pump is
  created reading and with a heartbeat, a reconnection starting. \<open>pump_stopped\<close> is the pump noticing a canceled context;
  \<open>written\<close> is a sender that looked its generation up before. \<^verbatim>\<open>Disconnect\<close> and \<^verbatim>\<open>CloseAll\<close>
  are several steps: a connection taken out of the map is stopped, and then the generation \<^verbatim>\<open>stop\<close> returned is closed.
\<close>

inductive mgr_step :: "ManagerCC \<Rightarrow> ManagerCC \<Rightarrow> bool" where
  connected: "agentID |\<notin>| fmdom (mg_agents m) \<Longrightarrow> agentID \<notin> set (map (\<lambda>ac. ag_ID (ac_info ac)) (mg_conns m)) \<Longrightarrow>
     connect_commit ids host port options agentID now m = (m1, r) \<Longrightarrow> mgr_step m m1"
| requested: "msgID |\<notin>| fmdom (mg_pending m) \<Longrightarrow>
     request_begin write_err msgID agentID msgType payload now m = (m1, r) \<Longrightarrow> mgr_step m m1"
| answered: "fmlookup (mg_pending m) msgID = Some (Some response) \<Longrightarrow>
     mgr_step m (fst (request_end timeout msgID (Answered response) m))"
| gave_up: "w = TimedOut \<or> w = ShuttingDown \<and> mg_cancelled m \<Longrightarrow> mgr_step m (fst (request_end timeout msgID w m))"
| sent: "SendMessage write_err agentID msg m = (m1, r) \<Longrightarrow> mgr_step m m1"
| written: "g < length (mg_gens m) \<Longrightarrow> mgr_step m (fst (writeJSON write_err g msg m))"
| beat: "g < length (mg_gens m) \<Longrightarrow> gn_beating (gen_of m g) \<Longrightarrow> mgr_step m (heartbeat write_err now g m)"
| beat_stopped: "g < length (mg_gens m) \<Longrightarrow> gn_beating (gen_of m g) \<Longrightarrow> beat_ends g m \<Longrightarrow>
     mgr_step m (on_gen g (\<lambda>gn. gn\<lparr>gn_beating := False\<rparr>) m)"
| received: "g < length (mg_gens m) \<Longrightarrow> gn_pump (gen_of m g) = PumpReading \<Longrightarrow> mgr_step m (pump_message now g parsed m)"
| read_failed: "g < length (mg_gens m) \<Longrightarrow> gn_pump (gen_of m g) = PumpReading \<Longrightarrow> mgr_step m (pump_failed g m)"
| pump_stopped: "g < length (mg_gens m) \<Longrightarrow> gn_pump (gen_of m g) = PumpReading \<Longrightarrow> ctx_done m (gn_owner (gen_of m g)) \<Longrightarrow>
     mgr_step m (on_gen g (\<lambda>gn. gn\<lparr>gn_pump := PumpLeaving\<rparr>) m)"
| pump_ended: "g < length (mg_gens m) \<Longrightarrow> gn_pump (gen_of m g) = PumpLeaving \<Longrightarrow> mgr_step m (pump_exit g m)"
| rc_started: "r \<in> set (mg_reconnects m) \<Longrightarrow> rc_stage r = Starting \<Longrightarrow> mgr_step m (reconnect_start r m)"
| rc_woken: "r \<in> set (mg_reconnects m) \<Longrightarrow> rc_stage r = Waiting \<Longrightarrow> mgr_step m (reconnect_wake valid r m)"
| rc_stopped: "r \<in> set (mg_reconnects m) \<Longrightarrow> rc_stage r = Waiting \<Longrightarrow> ctx_done m (rc_owner r) \<Longrightarrow>
     mgr_step m (end_reconnect r m)"
| rc_dial_failed: "r \<in> set (mg_reconnects m) \<Longrightarrow> rc_stage r = Dialing \<Longrightarrow> mgr_step m (reconnect_failed r m)"
| rc_dialed: "r \<in> set (mg_reconnects m) \<Longrightarrow> rc_stage r = Dialing \<Longrightarrow> mgr_step m (reconnect_done now r m)"
| disconnecting: "disconnect_begin agentID m = (m1, Inr i) \<Longrightarrow> mgr_step m m1"
| stopped: "i < length (mg_conns m) \<Longrightarrow> i \<notin> fmran' (mg_agents m) \<Longrightarrow> mgr_step m (conn_stop i m)"
| gen_closed: "i < length (mg_conns m) \<Longrightarrow> ac_closed (conn_of m i) \<Longrightarrow>
     mgr_step m (closeGeneration (ac_generation (conn_of m i)) m)"
| closing: "mgr_step m (close_begin m)"
| cancelled: "mg_closing m \<Longrightarrow> mgr_step m (globalCancel m)"
| cleared: "mg_cancelled m \<Longrightarrow> mgr_step m (clear_pending m)"

inductive mgr_reach :: "ManagerCC \<Rightarrow> ManagerCC \<Rightarrow> bool" where
  mr_start: "mgr_reach m m"
| mr_step: "mgr_reach m m1 \<Longrightarrow> mgr_step m1 m2 \<Longrightarrow> mgr_reach m m2"

inductive_cases mgr_stepE: "mgr_step m m'"

end
