(* ===== verification/HandshakeLink.thy ===== *)
theory HandshakeLink
  imports ClientMgr AgentServer HandlerFacts
begin

text \<open>
  The two programs joined at the start of a connection: the controller's handshake reads what the
  agent's greeting and its authentication handler have queued, and its credentials are handled
  by the agent.
\<close>

text \<open>
  The socket between them. Reading an empty queue ends with the deadline; the agent's read pump
  completes a message before it handles it; a closed client takes no more.
\<close>

definition err_deadline :: goerr where "err_deadline = lit ''i/o timeout''"

definition err_socket :: goerr where "err_socket = lit ''websocket: close sent''"

definition agent_wire :: "World \<Rightarrow> string \<Rightarrow> string \<Rightarrow> HState wire" where
  "agent_wire w tok uuid =
     \<lparr>wr_read = (\<lambda>st. case cl_send (hs_client st) of
         [] \<Rightarrow> (st, Inl err_deadline)
       | m # rest \<Rightarrow> (on_client (\<lambda>c. c\<lparr>cl_send := rest\<rparr>) st, Inr m)),
      wr_write = (\<lambda>st msg. if cl_closed (hs_client st) then (st, Some err_socket)
        else (handleMessage w tok (with_defaults w uuid msg) st, None)),
      wr_deadline = None\<rparr>"

text \<open>The agent right after it has greeted a new connection.\<close>

definition greeted_state :: "World \<Rightarrow> Server \<Rightarrow> string \<Rightarrow> string \<Rightarrow> HState" where
  "greeted_state w s uuid remote = hstate s (cn_client (greet w s (newConn uuid remote)))"

lemma greeted_open:
  assumes "sv_token s = []"
  shows "\<exists>m. cl_send (hs_client (greeted_state w s uuid remote)) = [m] \<and> msg_type m = MsgAgentInfo"
    "cl_authed (hs_client (greeted_state w s uuid remote))"
  using assms
  by (simp_all add: greeted_state_def hstate_def greet_def newConn_def newClient_def sendAgentInfo_def Let_def
      sendMsg_def enqueue_def SendQueue_def message_def)

lemma greeted_asks:
  assumes "sv_token s \<noteq> []"
  shows "cl_send (hs_client (greeted_state w s uuid remote))
      = [message w [] MsgAuthRequired (JObj [(''message'', JStr ''authentication required'')]) no_text]"
    "\<not> cl_authed (hs_client (greeted_state w s uuid remote))" "\<not> cl_closed (hs_client (greeted_state w s uuid remote))"
    "cl_attempts (hs_client (greeted_state w s uuid remote)) = 0"
  using assms
  by (simp_all add: greeted_state_def hstate_def greet_def newConn_def newClient_def sendMsg_def enqueue_def SendQueue_def)

text \<open>The agent's answer to credentials on an open connection whose queue is empty.\<close>

lemma auth_answer:
  fixes w :: World and st :: HState
  assumes "\<not> cl_closed (hs_client st)" "cl_send (hs_client st) = []" "cl_attempts (hs_client st) = 0" "tok \<noteq> []"
    "decode_auth (via_interface (msg_payload msg)) = Some \<lparr>au_token = token, au_username = []\<rparr>" "msg_type msg = MsgAuth"
  defines "st' \<equiv> handleMessage w tok msg st"
  shows "\<exists>m rest. cl_send (hs_client st') = m # rest \<and> cl_authed (hs_client st') = (token = tok \<or> cl_authed (hs_client st))
    \<and> (if token = tok then msg_type m = MsgAuthOk
       else msg_type m = MsgError \<and> msg_error m = lit ''invalid authentication token'')
    \<and> hs_guard st' = (if token = tok then succeed else fail (w_now w)) (hs_guard st) (cl_ip (hs_client st))"
  using assms
  by (simp add: handleMessage_def handleAuth_def remarshal_def Let_def sendAgentInfo_def sendMsg_def enqueue_def
      SendQueue_def MaxAuthAttempts_def message_def closeClient_def on_client_def)

lemma via_auth [simp]: "via_interface (encode_auth r) = encode_auth r"
  by (simp add: encode_auth_def omit_def)

text \<open>The controller's side, after a greeting that asks for credentials.\<close>

lemma handshake_asked:
  fixes st :: HState
  assumes "cl_send (hs_client st) = [greeting]" "msg_type greeting = MsgAuthRequired" "\<not> cl_closed (hs_client st)"
  shows "handshake (agent_wire w tok uuid) now token st =
    (let st1 = on_client (\<lambda>c. c\<lparr>cl_send := []\<rparr>) st
     in if token = [] then Some (st1, Some ErrAuthRequired)
        else go_loop (auth_reply (agent_wire w tok uuid))
               (handleMessage w tok (with_defaults w uuid (auth_message now token)) st1))"
  using assms by (simp add: handshake_def agent_wire_def msg_types on_client_def)

lemma auth_reply_first:
  assumes "cl_send (hs_client st) = m # rest" "msg_type m = MsgAuthOk \<or> msg_type m = MsgError"
  shows "go_loop (auth_reply (agent_wire w tok uuid)) st =
    Some (on_client (\<lambda>c. c\<lparr>cl_send := rest\<rparr>) st, if msg_type m = MsgAuthOk then None
      else Some (Sprintf ''authentication failed: %s''
        [GErr (if msg_error m = no_text then lit ''token rejected'' else msg_error m)]))"
  by (rule go_loop_leave) (use assms in \<open>auto simp: auth_reply_def agent_wire_def msg_types\<close>)

text \<open>Credentials for an agent that asks for them.\<close>

definition asked_state :: "World \<Rightarrow> Server \<Rightarrow> string \<Rightarrow> string \<Rightarrow> HState" where
  "asked_state w s uuid remote = on_client (\<lambda>c. c\<lparr>cl_send := []\<rparr>) (greeted_state w s uuid remote)"

lemma asked_state_facts:
  assumes "sv_token s \<noteq> []"
  shows "\<not> cl_closed (hs_client (asked_state w s uuid remote))" "cl_send (hs_client (asked_state w s uuid remote)) = []"
    "cl_attempts (hs_client (asked_state w s uuid remote)) = 0" "\<not> cl_authed (hs_client (asked_state w s uuid remote))"
    "hs_guard (asked_state w s uuid remote) = sv_guard s" "cl_ip (hs_client (asked_state w s uuid remote)) = remoteIP remote"
    "hs_fs (asked_state w s uuid remote) = sv_fs s" "hs_log (asked_state w s uuid remote) = sv_log s"
  using greeted_asks [OF assms, of w uuid remote]
  by (simp_all add: asked_state_def on_client_def greeted_state_def hstate_def greet_def newConn_def newClient_def sendMsg_def
      enqueue_def SendQueue_def)

lemma handshake_credentials:
  fixes w :: World and remote uuid uuid' :: string and now :: int
  assumes "sv_token s \<noteq> []" "token \<noteq> []"
  defines "st1 \<equiv> handleMessage w (sv_token s) (with_defaults w uuid' (auth_message now token)) (asked_state w s uuid remote)"
  shows "\<exists>rest. handshake (agent_wire w (sv_token s) uuid') now token (greeted_state w s uuid remote)
      = Some (on_client (\<lambda>c. c\<lparr>cl_send := rest\<rparr>) st1, if token = sv_token s then None
        else Some (Sprintf ''authentication failed: %s'' [GErr (lit ''invalid authentication token'')]))"
    "cl_authed (hs_client st1) = (token = sv_token s)"
    "hs_guard st1 = (if token = sv_token s then succeed else fail (w_now w)) (sv_guard s) (remoteIP remote)"
proof -
  let ?msg = "with_defaults w uuid' (auth_message now token)"
  note g = greeted_asks [OF assms(1), of w uuid remote] and st = asked_state_facts [OF assms(1), of w uuid remote]
  have h: "handshake (agent_wire w (sv_token s) uuid') now token (greeted_state w s uuid remote) =
      go_loop (auth_reply (agent_wire w (sv_token s) uuid')) st1"
    unfolding st1_def asked_state_def
    by (subst handshake_asked [OF g(1) _ g(3)]) (simp_all add: message_def assms(2))
  have "decode_auth (via_interface (msg_payload ?msg)) = Some \<lparr>au_token = token, au_username = []\<rparr>" "msg_type ?msg = MsgAuth"
    by (simp_all add: with_defaults_def auth_message_def)
  note ans = auth_answer [OF st(1-3) assms(1) this, of w, folded st1_def]
  from ans obtain m rest where a:
    "cl_send (hs_client st1) = m # rest" "cl_authed (hs_client st1) = (token = sv_token s)"
    "if token = sv_token s then msg_type m = MsgAuthOk
       else msg_type m = MsgError \<and> msg_error m = lit ''invalid authentication token''"
    "hs_guard st1 = (if token = sv_token s then succeed else fail (w_now w)) (sv_guard s) (remoteIP remote)"
    unfolding st(5,6) using st(4) by blast
  have "msg_type m = MsgAuthOk \<or> msg_type m = MsgError" using a(3) by (auto split: if_splits)
  note r = auth_reply_first [OF a(1) this, where w = w and tok = "sv_token s" and uuid = uuid']
  show "\<exists>rest. handshake (agent_wire w (sv_token s) uuid') now token (greeted_state w s uuid remote)
      = Some (on_client (\<lambda>c. c\<lparr>cl_send := rest\<rparr>) st1, if token = sv_token s then None
        else Some (Sprintf ''authentication failed: %s'' [GErr (lit ''invalid authentication token'')]))"
    unfolding h r using a(3) by (intro exI [where x = rest], cases "token = sv_token s") (simp_all add: msg_types)
  show "cl_authed (hs_client st1) = (token = sv_token s)"
    "hs_guard st1 = (if token = sv_token s then succeed else fail (w_now w)) (sv_guard s) (remoteIP remote)" by (rule a)+
qed

lemma handshake_open:
  assumes "sv_token s = []"
  shows "handshake (agent_wire w (sv_token s) uuid') now token (greeted_state w s uuid remote)
    = Some (on_client (\<lambda>c. c\<lparr>cl_send := []\<rparr>) (greeted_state w s uuid remote), None)"
proof -
  obtain m where "cl_send (hs_client (greeted_state w s uuid remote)) = [m]" "msg_type m = MsgAgentInfo"
    using greeted_open(1) [OF assms] by blast
  then show ?thesis by (simp add: handshake_def agent_wire_def)
qed

text \<open>(C10) The two programs agree on who may talk: for every machine, every state of the agent's server and every pair
  of tokens (valid UTF-8, as all text that JSON carries), the controller's handshake with the agent that has just greeted it ends; it succeeds exactly
  when the agent marks the connection as authenticated, that is when the agent requires no token or the
  controller has the agent's. Otherwise the controller learns that a token is required, or that the one it has
  is invalid, and then the agent's guard has counted one failure for its address.\<close>
theorem handshake_with_agent:
  "\<exists>st' err. handshake (agent_wire w (sv_token s) uuid') now token (greeted_state w s uuid remote) = Some (st', err)
     \<and> cl_authed (hs_client st') = (sv_token s = [] \<or> token = sv_token s)
     \<and> err = (if sv_token s = [] \<or> token = sv_token s then None
          else if token = [] then Some ErrAuthRequired
          else Some (Sprintf ''authentication failed: %s'' [GErr (lit ''invalid authentication token'')]))
     \<and> hs_guard st' = (if sv_token s = [] \<or> token = [] then sv_guard s
          else (if token = sv_token s then succeed else fail (w_now w)) (sv_guard s) (remoteIP remote))"
proof (cases "sv_token s = [] \<or> token = []")
  case True
  show ?thesis
  proof (cases "sv_token s = []")
    case True
    have "hs_guard (greeted_state w s uuid remote) = sv_guard s" by (simp add: greeted_state_def hstate_def)
    then show ?thesis using handshake_open [OF True] greeted_open(2) [OF True] True by (simp add: on_client_def)
  next
    case False
    note g = greeted_asks [OF False, of w uuid remote]
    have "handshake (agent_wire w (sv_token s) uuid') now token (greeted_state w s uuid remote)
        = Some (asked_state w s uuid remote, Some ErrAuthRequired)"
      using True False by (subst handshake_asked [OF g(1) _ g(3)]) (simp_all add: message_def asked_state_def)
    with asked_state_facts [OF False] True False show ?thesis by simp
  qed
next
  case False
  then show ?thesis
    using handshake_credentials [of s token w uuid' now uuid remote] by (auto simp: on_client_def)
qed

end
