(* ===== verification/ClientFacts.thy ===== *)
theory ClientFacts
  imports ClientMgr
begin

text \<open>
  The invariant of the connection manager, \<open>mgr_ok\<close>, kept by every step: a connected agent has a
  reader, only the current generation of a connection reads, and at most one goroutine reconnects
  it, for the generation that failed.
\<close>

section \<open>The invariant\<close>

definition conn_ok :: "ManagerCC \<Rightarrow> nat \<Rightarrow> bool" where
  "conn_ok m i \<longleftrightarrow> (let ac = conn_of m i; g = ac_generation ac in g < length (mg_gens m) \<and> gn_owner (gen_of m g) = i
     \<and> (ag_Connected (ac_info ac) \<longrightarrow> \<not> ac_closed ac \<and> gn_pump (gen_of m g) \<noteq> PumpEnded))"

definition gen_ok :: "ManagerCC \<Rightarrow> nat \<Rightarrow> bool" where
  "gen_ok m g \<longleftrightarrow> (let gn = gen_of m g in gn_owner gn < length (mg_conns m)
     \<and> (gn_pump gn = PumpReading \<longrightarrow> ac_generation (conn_of m (gn_owner gn)) = g)
     \<and> (gn_done gn \<longleftrightarrow> gn_pump gn = PumpEnded))"

definition rc_ok :: "ManagerCC \<Rightarrow> reconnection \<Rightarrow> bool" where
  "rc_ok m r \<longleftrightarrow> rc_owner r < length (mg_conns m) \<and> rc_attempt r < maxReconnectRetries
     \<and> ac_generation (conn_of m (rc_owner r)) = rc_failed r \<and> gn_pump (gen_of m (rc_failed r)) \<noteq> PumpReading"

definition agent_ok :: "ManagerCC \<Rightarrow> string \<Rightarrow> nat \<Rightarrow> bool" where
  "agent_ok m k i \<longleftrightarrow> i < length (mg_conns m) \<and> ag_ID (ac_info (conn_of m i)) = k \<and> \<not> ac_closed (conn_of m i)"

definition mgr_ok :: "ManagerCC \<Rightarrow> bool" where
  "mgr_ok m \<longleftrightarrow> (\<forall>i < length (mg_conns m). conn_ok m i) \<and> (\<forall>g < length (mg_gens m). gen_ok m g)
     \<and> (\<forall>r \<in> set (mg_reconnects m). rc_ok m r) \<and> distinct (map rc_owner (mg_reconnects m))
     \<and> (\<forall>k i. fmlookup (mg_agents m) k = Some i \<longrightarrow> agent_ok m k i)"

lemmas mgr_oks = conn_ok_def gen_ok_def rc_ok_def agent_ok_def Let_def

lemma mgr_ok_new [simp]: "mgr_ok NewManager"
  by (simp add: mgr_ok_def NewManager_def)

lemma on_conn_simps [simp]:
  "length (mg_conns (on_conn i f m)) = length (mg_conns m)" "mg_gens (on_conn i f m) = mg_gens m"
  "mg_agents (on_conn i f m) = mg_agents m" "mg_reconnects (on_conn i f m) = mg_reconnects m"
  "mg_cancelled (on_conn i f m) = mg_cancelled m" "mg_pending (on_conn i f m) = mg_pending m"
  "mg_seen (on_conn i f m) = mg_seen m" "mg_sent (on_conn i f m) = mg_sent m" "mg_closing (on_conn i f m) = mg_closing m"
  "j < length (mg_conns m) \<Longrightarrow> conn_of (on_conn i f m) j = (if j = i then f (conn_of m j) else conn_of m j)"
  by (simp_all add: on_conn_def nth_list_update)

lemma on_gen_simps [simp]:
  "length (mg_gens (on_gen g f m)) = length (mg_gens m)" "mg_conns (on_gen g f m) = mg_conns m"
  "mg_agents (on_gen g f m) = mg_agents m" "mg_reconnects (on_gen g f m) = mg_reconnects m"
  "mg_cancelled (on_gen g f m) = mg_cancelled m" "mg_pending (on_gen g f m) = mg_pending m"
  "mg_seen (on_gen g f m) = mg_seen m" "mg_sent (on_gen g f m) = mg_sent m" "mg_closing (on_gen g f m) = mg_closing m"
  "h < length (mg_gens m) \<Longrightarrow> gen_of (on_gen g f m) h = (if h = g then f (gen_of m h) else gen_of m h)"
  by (simp_all add: on_gen_def nth_list_update)

lemma on_info_simps [simp]:
  "ac_generation (on_info f ac) = ac_generation ac" "ac_closed (on_info f ac) = ac_closed ac"
  "ac_cancelled (on_info f ac) = ac_cancelled ac" "ac_options (on_info f ac) = ac_options ac"
  "ac_info (on_info f ac) = f (ac_info ac)"
  by (simp_all add: on_info_def)

lemma mgr_okD:
  assumes "mgr_ok m"
  shows "i < length (mg_conns m) \<Longrightarrow> ac_generation (conn_of m i) < length (mg_gens m)"
    "i < length (mg_conns m) \<Longrightarrow> gn_owner (gen_of m (ac_generation (conn_of m i))) = i"
    "i < length (mg_conns m) \<Longrightarrow> ag_Connected (ac_info (conn_of m i)) \<Longrightarrow> \<not> ac_closed (conn_of m i)
       \<and> gn_pump (gen_of m (ac_generation (conn_of m i))) \<noteq> PumpEnded"
    "g < length (mg_gens m) \<Longrightarrow> gn_owner (gen_of m g) < length (mg_conns m)"
    "g < length (mg_gens m) \<Longrightarrow> gn_pump (gen_of m g) = PumpReading \<Longrightarrow> ac_generation (conn_of m (gn_owner (gen_of m g))) = g"
    "r \<in> set (mg_reconnects m) \<Longrightarrow> rc_owner r < length (mg_conns m)"
    "r \<in> set (mg_reconnects m) \<Longrightarrow> ac_generation (conn_of m (rc_owner r)) = rc_failed r"
    "r \<in> set (mg_reconnects m) \<Longrightarrow> gn_pump (gen_of m (rc_failed r)) \<noteq> PumpReading"
    "fmlookup (mg_agents m) k = Some i \<Longrightarrow> i < length (mg_conns m)"
    "fmlookup (mg_agents m) k = Some i \<Longrightarrow> \<not> ac_closed (conn_of m i)"
    "fmlookup (mg_agents m) k = Some i \<Longrightarrow> ag_ID (ac_info (conn_of m i)) = k"
  using assms by (simp_all add: mgr_ok_def mgr_oks)

section \<open>Changes that keep it\<close>

text \<open>A change of one connection that keeps its identity and connects nothing.\<close>

lemma mgr_ok_on_conn:
  assumes "mgr_ok m" "\<And>ac. ac_generation (f ac) = ac_generation ac" "\<And>ac. ac_closed (f ac) = ac_closed ac"
    "\<And>ac. ag_ID (ac_info (f ac)) = ag_ID (ac_info ac)" "\<And>ac. ag_Connected (ac_info (f ac)) \<Longrightarrow> ag_Connected (ac_info ac)"
  shows "mgr_ok (on_conn i f m)"
proof -
  have "conn_ok (on_conn i f m) j" if "j < length (mg_conns m)" for j
    using assms that by (auto simp: mgr_ok_def mgr_oks)
  moreover have "gen_ok (on_conn i f m) g" if "g < length (mg_gens m)" for g
    using assms that by (auto simp: mgr_ok_def mgr_oks)
  moreover have "rc_ok (on_conn i f m) r" if "r \<in> set (mg_reconnects m)" for r
    using assms that by (auto simp: mgr_ok_def mgr_oks)
  moreover have "agent_ok (on_conn i f m) k j" if "fmlookup (mg_agents m) k = Some j" for k j
    using assms that by (auto simp: mgr_ok_def mgr_oks)
  ultimately show ?thesis using assms(1) by (simp add: mgr_ok_def)
qed

text \<open>A change of one generation; a pump that ends is not that of a connected agent.\<close>

lemma mgr_ok_on_gen:
  assumes "mgr_ok m" "\<And>gn. gn_owner (f gn) = gn_owner gn"
    and "g < length (mg_gens m) \<Longrightarrow> gn_pump (f (gen_of m g)) = PumpReading \<Longrightarrow> gn_pump (gen_of m g) = PumpReading"
    and "g < length (mg_gens m) \<Longrightarrow> gn_done (f (gen_of m g)) \<longleftrightarrow> gn_pump (f (gen_of m g)) = PumpEnded"
    and "\<And>i. g < length (mg_gens m) \<Longrightarrow> gn_pump (f (gen_of m g)) = PumpEnded \<Longrightarrow> gn_pump (gen_of m g) \<noteq> PumpEnded \<Longrightarrow>
      i < length (mg_conns m) \<Longrightarrow> ac_generation (conn_of m i) = g \<Longrightarrow> \<not> ag_Connected (ac_info (conn_of m i))"
  shows "mgr_ok (on_gen g f m)"
proof -
  have "conn_ok (on_gen g f m) i" if i: "i < length (mg_conns m)" for i
    using mgr_okD(1-3) [OF assms(1) i] assms(2) assms(5) [OF _ _ _ i]
    by (cases "ac_generation (conn_of m i) = g") (auto simp: mgr_oks)
  moreover have "gen_ok (on_gen g f m) h" if h: "h < length (mg_gens m)" for h
  proof (cases "h = g")
    case True
    with mgr_okD(4,5) [OF assms(1) h] assms(2,3,4) h show ?thesis by (auto simp: mgr_oks)
  next
    case False
    with assms(1) h show ?thesis by (auto simp: mgr_ok_def mgr_oks)
  qed
  moreover have "rc_ok (on_gen g f m) r" if r: "r \<in> set (mg_reconnects m)" for r
  proof -
    have "rc_failed r < length (mg_gens m)" using mgr_okD(1,6,7) [OF assms(1)] r by metis
    with assms(1) r assms(3) show ?thesis by (auto simp: mgr_ok_def mgr_oks)
  qed
  ultimately show ?thesis using assms(1) by (simp add: mgr_ok_def agent_ok_def)
qed

text \<open>Goroutines that end or go on, and data that the invariant does not mention.\<close>

lemma distinct_map_remove1: "distinct (map f xs) \<Longrightarrow> distinct (map f (remove1 x xs))"
  by (auto simp: distinct_map distinct_remove1 dest: inj_on_subset [OF _ set_remove1_subset])

lemma mgr_ok_end [simp]: "mgr_ok m \<Longrightarrow> mgr_ok (end_reconnect r m)"
  using set_remove1_subset [of r "mg_reconnects m"]
  by (auto simp: mgr_ok_def mgr_oks end_reconnect_def distinct_map_remove1)

lemma mgr_ok_set:
  assumes "mgr_ok m" "r \<in> set (mg_reconnects m)" "rc_owner r' = rc_owner r" "rc_failed r' = rc_failed r"
    "rc_attempt r' < maxReconnectRetries"
  shows "mgr_ok (set_reconnect r r' m)"
proof -
  have d: "distinct (map rc_owner (mg_reconnects m))" using assms(1) by (simp add: mgr_ok_def)
  have "rc_owner r \<notin> rc_owner ` set (remove1 r (mg_reconnects m))"
    using d assms(2) by (auto simp: distinct_map inj_on_def)
  with d assms have "distinct (map rc_owner (mg_reconnects (set_reconnect r r' m)))"
    by (simp add: set_reconnect_def distinct_map_remove1)
  moreover have "rc_ok (set_reconnect r r' m) q" if "q \<in> set (mg_reconnects (set_reconnect r r' m))" for q
    using that assms set_remove1_subset [of r "mg_reconnects m"]
    by (auto simp: mgr_ok_def mgr_oks set_reconnect_def)
  ultimately show ?thesis using assms(1) by (simp add: mgr_ok_def conn_ok_def gen_ok_def agent_ok_def set_reconnect_def)
qed

lemma mgr_ok_data [simp]:
  "mgr_ok m \<Longrightarrow> mgr_ok (m\<lparr>mg_pending := p\<rparr>)" "mgr_ok m \<Longrightarrow> mgr_ok (m\<lparr>mg_seen := x\<rparr>)" "mgr_ok m \<Longrightarrow> mgr_ok (m\<lparr>mg_sent := y\<rparr>)"
  by (simp_all add: mgr_ok_def mgr_oks)

lemma mgr_ok_mark [simp]: "mgr_ok m \<Longrightarrow> mgr_ok (markDisconnected i g m)"
  unfolding markDisconnected_def by (rule mgr_ok_on_conn) (auto split: if_splits)

lemma mgr_ok_closeConn [simp]: "mgr_ok m \<Longrightarrow> mgr_ok (on_gen g closeConn m)"
  by (rule mgr_ok_on_gen) (auto simp: mgr_ok_def gen_ok_def Let_def)

lemma mgr_ok_beat [simp]: "mgr_ok m \<Longrightarrow> mgr_ok (on_gen g (\<lambda>gn. gn\<lparr>gn_beating := b\<rparr>) m)"
  by (rule mgr_ok_on_gen) (auto simp: mgr_ok_def gen_ok_def Let_def)

lemma mgr_ok_write: "mgr_ok m \<Longrightarrow> writeJSON we g msg m = (m1, r) \<Longrightarrow> mgr_ok m1"
  by (auto split: option.splits if_splits)

lemma mgr_ok_heartbeat: "mgr_ok m \<Longrightarrow> mgr_ok (heartbeat we now g m)"
  by (simp add: heartbeat_def split: option.split)

section \<open>The operations keep it\<close>

definition keeps_identity :: "(AgentConnection \<Rightarrow> AgentConnection) \<Rightarrow> bool" where
  "keeps_identity f \<longleftrightarrow> (\<forall>ac. ac_generation (f ac) = ac_generation ac \<and> ac_closed (f ac) = ac_closed ac
     \<and> ac_cancelled (f ac) = ac_cancelled ac \<and> ac_options (f ac) = ac_options ac
     \<and> ag_ID (ac_info (f ac)) = ag_ID (ac_info ac) \<and> ag_Host (ac_info (f ac)) = ag_Host (ac_info ac)
     \<and> ag_Port (ac_info (f ac)) = ag_Port (ac_info ac) \<and> ag_Connected (ac_info (f ac)) = ag_Connected (ac_info ac))"

lemma keeps_updates [simp]:
  "keeps_identity (updateLastSeen now g)" "keeps_identity (updateAgentInfo g a)" "keeps_identity (updateSystemInfo g s)"
  by (simp_all add: keeps_identity_def updateLastSeen_def updateAgentInfo_def updateSystemInfo_def take_names_def)

lemma mgr_ok_keeps [simp]: "keeps_identity f \<Longrightarrow> mgr_ok m \<Longrightarrow> mgr_ok (on_conn i f m)"
  by (rule mgr_ok_on_conn) (simp_all add: keeps_identity_def)

lemma mgr_ok_status: "mgr_ok m \<Longrightarrow> mgr_ok (apply_status i g msg m)"
  by (simp add: apply_status_def split: option.splits)

lemma mgr_ok_deliver: "mgr_ok m \<Longrightarrow> mgr_ok (deliver i msg m)"
  by (auto simp: deliver_def split: option.splits)

lemma mgr_ok_pump_message: "mgr_ok m \<Longrightarrow> mgr_ok (pump_message now g parsed m)"
  by (simp add: pump_message_def Let_def mgr_ok_deliver mgr_ok_status split: option.splits)

lemma mgr_ok_leaving:
  assumes "mgr_ok m" "gn_pump (gen_of m g) = PumpReading"
  shows "mgr_ok (on_gen g (\<lambda>gn. gn\<lparr>gn_pump := PumpLeaving\<rparr>) m)"
proof (cases "g < length (mg_gens m)")
  case True
  with assms have "\<not> gn_done (gen_of m g)" by (auto simp: mgr_ok_def gen_ok_def Let_def)
  with assms show ?thesis by (intro mgr_ok_on_gen) simp_all
next
  case False
  then have "on_gen g (\<lambda>gn. gn\<lparr>gn_pump := PumpLeaving\<rparr>) m = m" by (simp add: on_gen_def list_update_beyond)
  with assms(1) show ?thesis by simp
qed

lemma mgr_ok_pump_failed:
  assumes "mgr_ok m" "g < length (mg_gens m)" "gn_pump (gen_of m g) = PumpReading"
  shows "mgr_ok (pump_failed g m)"
proof -
  let ?i = "gn_owner (gen_of m g)"
  let ?m1 = "on_gen g (\<lambda>gn. gn\<lparr>gn_pump := PumpLeaving\<rparr>) m"
  let ?r = "\<lparr>rc_owner = ?i, rc_failed = g, rc_attempt = 0, rc_stage = Starting\<rparr>"
  have 1: "mgr_ok ?m1" by (rule mgr_ok_leaving [OF assms(1,3)])
  have i: "?i < length (mg_conns m)" "ac_generation (conn_of m ?i) = g"
    using mgr_okD(4,5) [OF assms(1,2)] assms(3) by simp_all
  have "rc_owner q \<noteq> ?i" if "q \<in> set (mg_reconnects m)" for q
    using mgr_okD(7,8) [OF assms(1) that] i(2) assms(3) by auto
  then have "?i \<notin> rc_owner ` set (mg_reconnects m)" by (metis imageE)
  with 1 i assms(2) have "mgr_ok (?m1\<lparr>mg_reconnects := mg_reconnects m @ [?r]\<rparr>)"
    by (auto simp: mgr_ok_def mgr_oks maxReconnectRetries_def)
  with 1 show ?thesis by (simp add: pump_failed_def Let_def)
qed

lemma mgr_ok_pump_exit:
  assumes "mgr_ok m" "g < length (mg_gens m)"
  shows "mgr_ok (pump_exit g m)"
  unfolding pump_exit_def
proof (rule mgr_ok_on_gen)
  show "mgr_ok (markDisconnected (gn_owner (gen_of m g)) g m)" using assms(1) by simp
  fix i assume i: "i < length (mg_conns (markDisconnected (gn_owner (gen_of m g)) g m))"
    and c: "ac_generation (conn_of (markDisconnected (gn_owner (gen_of m g)) g m) i) = g"
  have il: "i < length (mg_conns m)" using i by (simp add: markDisconnected_def)
  then have cg: "ac_generation (conn_of m i) = g" using c by (auto simp: markDisconnected_def split: if_splits)
  with mgr_okD(2) [OF assms(1) il] have "gn_owner (gen_of m g) = i" by simp
  with il cg show "\<not> ag_Connected (ac_info (conn_of (markDisconnected (gn_owner (gen_of m g)) g m) i))"
    by (simp add: markDisconnected_def)
qed simp_all

lemma rc_attempt_less: "mgr_ok m \<Longrightarrow> r \<in> set (mg_reconnects m) \<Longrightarrow> rc_attempt r < maxReconnectRetries"
  by (simp add: mgr_ok_def rc_ok_def)

lemma mgr_ok_reconnect_start: "mgr_ok m \<Longrightarrow> r \<in> set (mg_reconnects m) \<Longrightarrow> mgr_ok (reconnect_start r m)"
  by (simp add: reconnect_start_def mgr_ok_set rc_attempt_less)

lemma mgr_ok_reconnect_wake: "mgr_ok m \<Longrightarrow> r \<in> set (mg_reconnects m) \<Longrightarrow> mgr_ok (reconnect_wake valid r m)"
  by (simp add: reconnect_wake_def mgr_ok_set rc_attempt_less)

lemma mgr_ok_reconnect_failed: "mgr_ok m \<Longrightarrow> r \<in> set (mg_reconnects m) \<Longrightarrow> mgr_ok (reconnect_failed r m)"
  by (simp add: reconnect_failed_def mgr_ok_set)

text \<open>A new generation goes to a connection that nobody reads and nobody else reconnects.\<close>

lemma mgr_ok_install:
  assumes "mgr_ok m" "i < length (mg_conns m)" "installGeneration now i m = (m1, old)"
    and "gn_pump (gen_of m (ac_generation (conn_of m i))) \<noteq> PumpReading" "i \<notin> rc_owner ` set (mg_reconnects m)"
  shows "mgr_ok m1"
proof (cases "ac_closed (conn_of m i) \<or> ctx_done m i")
  case True
  with assms show ?thesis by (simp add: installGeneration_def)
next
  case False
  let ?G = "mg_gens m @ [newConnectionGeneration i]" and ?n = "length (mg_gens m)"
  have m1: "m1 = on_conn i (\<lambda>ac. (on_info (\<lambda>a. a\<lparr>ag_Connected := True, ag_LastSeen := now\<rparr>) ac)\<lparr>ac_generation := ?n\<rparr>) (m\<lparr>mg_gens := ?G\<rparr>)"
    using assms(3) False by (simp add: installGeneration_def Let_def)
  have cur: "j < length (mg_conns m) \<Longrightarrow> ac_generation (conn_of m j) < ?n" for j using mgr_okD(1) [OF assms(1)] .
  have "conn_ok m1 j" if j: "j < length (mg_conns m)" for j
    using mgr_okD(1-3) [OF assms(1) j] j False
    by (cases "j = i") (auto simp: m1 mgr_oks nth_append newConnectionGeneration_def)
  moreover have "gen_ok m1 g" if "g < Suc ?n" for g
  proof (cases "g = ?n")
    case True
    with assms(2) show ?thesis by (simp add: m1 mgr_oks newConnectionGeneration_def)
  next
    case g: False
    with that have gl: "g < ?n" by simp
    have "gn_pump (gen_of m g) = PumpReading \<Longrightarrow> gn_owner (gen_of m g) \<noteq> i"
      using mgr_okD(5) [OF assms(1) gl] assms(4) by auto
    with assms(1) gl show ?thesis by (auto simp: m1 mgr_ok_def mgr_oks nth_append)
  qed
  moreover have "rc_ok m1 r" if r: "r \<in> set (mg_reconnects m)" for r
  proof -
    have "rc_owner r \<noteq> i" using assms(5) r by auto
    moreover have "rc_failed r < ?n" using mgr_okD(6,7) [OF assms(1) r] cur by metis
    ultimately show ?thesis using assms(1) r by (auto simp: m1 mgr_ok_def mgr_oks nth_append)
  qed
  moreover have "agent_ok m1 k j" if "fmlookup (mg_agents m) k = Some j" for k j
    using mgr_okD(9-11) [OF assms(1) that] by (auto simp: m1 agent_ok_def)
  ultimately show ?thesis using assms(1) by (simp add: mgr_ok_def m1)
qed

lemma reconnect_alone:
  assumes "mgr_ok m" "r \<in> set (mg_reconnects m)"
  shows "rc_owner r \<notin> rc_owner ` set (mg_reconnects (end_reconnect r m))"
  using assms by (auto simp: mgr_ok_def end_reconnect_def distinct_map inj_on_def)

lemma end_reconnect_simps [simp]:
  "mg_conns (end_reconnect r m) = mg_conns m" "mg_gens (end_reconnect r m) = mg_gens m"
  "mg_agents (end_reconnect r m) = mg_agents m" "mg_cancelled (end_reconnect r m) = mg_cancelled m"
  "ctx_done (end_reconnect r m) i = ctx_done m i"
  by (simp_all add: end_reconnect_def ctx_done_def)

lemma mgr_ok_reconnect_done:
  assumes "mgr_ok m" "r \<in> set (mg_reconnects m)"
  shows "mgr_ok (reconnect_done now r m)"
proof -
  obtain m1 old where i: "installGeneration now (rc_owner r) (end_reconnect r m) = (m1, old)" by force
  have "mgr_ok m1"
    using mgr_okD(6-8) [OF assms] reconnect_alone [OF assms] by (intro mgr_ok_install [OF _ _ i]) (simp_all add: assms(1))
  with i show ?thesis by (auto simp: reconnect_done_def split: option.splits)
qed

lemma mgr_ok_commit:
  assumes "mgr_ok m" "connect_commit ids host port options k now m = (m1, r)" "k |\<notin>| fmdom (mg_agents m)"
  shows "mgr_ok m1"
proof (cases "existing_agent ids m host port = None \<and> \<not> mg_cancelled m")
  case False
  with assms(1,2) show ?thesis by (auto simp: connect_commit_def split: option.splits)
next
  case True
  let ?c = "\<lparr>ac_info = new_info k host port options now, ac_options = options, ac_generation = length (mg_gens m),
     ac_closed = False, ac_cancelled = False\<rparr>"
  have m1: "m1 = m\<lparr>mg_conns := mg_conns m @ [?c], mg_gens := mg_gens m @ [newConnectionGeneration (length (mg_conns m))],
      mg_agents := fmupd k (length (mg_conns m)) (mg_agents m)\<rparr>"
    using True assms(2) by (simp add: connect_commit_def)
  have cur: "j < length (mg_conns m) \<Longrightarrow> ac_generation (conn_of m j) < length (mg_gens m)" for j using mgr_okD(1) [OF assms(1)] .
  have "conn_ok m1 j" if "j < Suc (length (mg_conns m))" for j
    using that mgr_okD(1-3) [OF assms(1), of j]
    by (cases "j = length (mg_conns m)") (auto simp: m1 mgr_oks nth_append newConnectionGeneration_def)
  moreover have "gen_ok m1 g" if "g < Suc (length (mg_gens m))" for g
  proof (cases "g = length (mg_gens m)")
    case False
    with that have "g < length (mg_gens m)" by simp
    moreover from this have "gen_ok m g" using assms(1) by (simp add: mgr_ok_def)
    ultimately show ?thesis by (auto simp: m1 gen_ok_def nth_append Let_def)
  qed (simp add: m1 gen_ok_def newConnectionGeneration_def)
  moreover have "rc_ok m1 q" if q: "q \<in> set (mg_reconnects m)" for q
  proof -
    have "rc_failed q < length (mg_gens m)" using mgr_okD(6,7) [OF assms(1) q] cur by metis
    with assms(1) q show ?thesis by (auto simp: m1 mgr_ok_def mgr_oks nth_append)
  qed
  moreover have "agent_ok m1 a j" if "fmlookup (mg_agents m1) a = Some j" for a j
    using that mgr_okD(9-11) [OF assms(1), of a j] by (auto simp: m1 agent_ok_def nth_append new_info_def split: if_splits)
  ultimately show ?thesis using assms(1) by (simp add: mgr_ok_def m1)
qed

lemma mgr_ok_SendMessage: "mgr_ok m \<Longrightarrow> SendMessage we k msg m = (m1, r) \<Longrightarrow> mgr_ok m1"
  by (auto simp: SendMessage_def split: option.splits if_splits)

lemma mgr_ok_request_begin:
  assumes "mgr_ok m" "request_begin we msgID k t payload now m = (m1, r)"
  shows "mgr_ok m1"
proof -
  obtain m2 r2 where s: "SendMessage we k (request_message msgID t payload now) (m\<lparr>mg_pending := fmupd msgID None (mg_pending m)\<rparr>) = (m2, r2)"
    by force
  have "mgr_ok m2" using mgr_ok_SendMessage [OF _ s] assms(1) by simp
  with assms(2) s show ?thesis by (auto simp: request_begin_def split: option.splits)
qed

lemma stopConn_conns:
  "j < length (mg_conns m) \<Longrightarrow> conn_of (stopConn i m) j =
     (if j = i then (on_info (\<lambda>a. a\<lparr>ag_Connected := False\<rparr>) (conn_of m i))\<lparr>ac_closed := True, ac_cancelled := True\<rparr> else conn_of m j)"
  "length (mg_conns (stopConn i m)) = length (mg_conns m)" "mg_agents (stopConn i m) = mg_agents m"
  "mg_reconnects (stopConn i m) = mg_reconnects m" "length (mg_gens (stopConn i m)) = length (mg_gens m)"
  "mg_cancelled (stopConn i m) = mg_cancelled m" "mg_pending (stopConn i m) = mg_pending m"
  "g < length (mg_gens m) \<Longrightarrow> gn_pump (gen_of (stopConn i m) g) = gn_pump (gen_of m g)
     \<and> gn_owner (gen_of (stopConn i m) g) = gn_owner (gen_of m g)"
  by (simp_all add: stopConn_def conn_stop_def closeGeneration_def)

lemma mgr_ok_conn_stop:
  assumes "mgr_ok m" "i \<notin> fmran' (mg_agents m)"
  shows "mgr_ok (conn_stop i m)"
proof -
  let ?f = "\<lambda>ac. (on_info (\<lambda>a. a\<lparr>ag_Connected := False\<rparr>) ac)\<lparr>ac_closed := True, ac_cancelled := True\<rparr>"
  have "conn_ok (on_conn i ?f m) j" if "j < length (mg_conns m)" for j
    using assms(1) that by (auto simp: mgr_ok_def mgr_oks)
  moreover have "gen_ok (on_conn i ?f m) g" if "g < length (mg_gens m)" for g
    using assms(1) that by (auto simp: mgr_ok_def mgr_oks)
  moreover have "rc_ok (on_conn i ?f m) r" if "r \<in> set (mg_reconnects m)" for r
    using assms(1) that by (auto simp: mgr_ok_def mgr_oks)
  moreover have "agent_ok (on_conn i ?f m) k j" if "fmlookup (mg_agents m) k = Some j" for k j
  proof -
    have "j \<noteq> i" using assms(2) that by (auto intro: fmran'I)
    with assms(1) that show ?thesis by (auto simp: mgr_ok_def mgr_oks)
  qed
  ultimately show ?thesis using assms(1) by (simp add: mgr_ok_def conn_stop_def)
qed

lemma mgr_ok_closeGeneration [simp]: "mgr_ok m \<Longrightarrow> mgr_ok (closeGeneration g m)"
  by (simp add: closeGeneration_def)

lemma mgr_ok_stop: "mgr_ok m \<Longrightarrow> i \<notin> fmran' (mg_agents m) \<Longrightarrow> mgr_ok (stopConn i m)"
  by (simp add: stopConn_def mgr_ok_conn_stop)

lemma mgr_ok_agents_drop:
  "mgr_ok m \<Longrightarrow> mgr_ok (m\<lparr>mg_agents := fmdrop k (mg_agents m)\<rparr>)"
  "mgr_ok m \<Longrightarrow> mgr_ok (close_begin m)" "mgr_ok m \<Longrightarrow> mgr_ok (globalCancel m)" "mgr_ok m \<Longrightarrow> mgr_ok (clear_pending m)"
  by (auto simp: mgr_ok_def mgr_oks close_begin_def globalCancel_def clear_pending_def)

lemma mgr_ok_disconnect_begin: "mgr_ok m \<Longrightarrow> disconnect_begin k m = (m1, r) \<Longrightarrow> mgr_ok m1"
  by (auto simp: disconnect_begin_def mgr_ok_agents_drop split: option.splits)

text \<open>A connection that was taken out of the map is not listed under another name.\<close>

lemma disconnect_begin_unlisted:
  assumes "mgr_ok m" "disconnect_begin k m = (m1, Inr i)"
  shows "i < length (mg_conns m1) \<and> i \<notin> fmran' (mg_agents m1) \<and> mg_conns m1 = mg_conns m"
proof -
  have k: "fmlookup (mg_agents m) k = Some i" and m1: "m1 = m\<lparr>mg_agents := fmdrop k (mg_agents m)\<rparr>"
    using assms(2) by (auto simp: disconnect_begin_def split: option.splits)
  have "i \<notin> fmran' (fmdrop k (mg_agents m))"
  proof
    assume "i \<in> fmran' (fmdrop k (mg_agents m))"
    then obtain a where "a \<noteq> k" "fmlookup (mg_agents m) a = Some i" by (auto elim!: fmran'E split: if_splits)
    with mgr_okD(11) [OF assms(1)] k show False by metis
  qed
  with m1 mgr_okD(9) [OF assms(1) k] show ?thesis by simp
qed

lemma mgr_ok_Disconnect:
  assumes "mgr_ok m" "Disconnect k m = (m1, None)"
  shows "mgr_ok m1"
proof -
  obtain m2 i where b: "disconnect_begin k m = (m2, Inr i)" and m1: "m1 = stopConn i m2"
    using assms(2) by (auto simp: Disconnect_def split: prod.splits sum.splits)
  from mgr_ok_disconnect_begin [OF assms(1) b] disconnect_begin_unlisted [OF assms(1) b] show ?thesis
    unfolding m1 by (simp add: mgr_ok_stop)
qed

lemma stop_all:
  "mgr_ok m \<Longrightarrow> mg_agents m = fmempty \<Longrightarrow>
     mgr_ok (fold (\<lambda>k. case fmlookup A k of None \<Rightarrow> id | Some i \<Rightarrow> stopConn i) ids m)"
proof (induction ids arbitrary: m)
  case (Cons k ids)
  show ?case
  proof (cases "fmlookup A k")
    case None
    with Cons show ?thesis by simp
  next
    case (Some i)
    have "mgr_ok (stopConn i m)" using Cons.prems by (intro mgr_ok_stop) (simp_all add: fmran'_def)
    with Cons Some show ?thesis by (simp add: stopConn_conns)
  qed
qed simp

lemma mgr_ok_CloseAll: "mgr_ok m \<Longrightarrow> mgr_ok (CloseAll ids m)"
  unfolding CloseAll_def
  by (intro stop_all mgr_ok_agents_drop) (simp_all add: close_begin_def globalCancel_def clear_pending_def)

lemma mgr_ok_step: "mgr_step m m' \<Longrightarrow> mgr_ok m \<Longrightarrow> mgr_ok m'"
proof (induction rule: mgr_step.induct)
  case (connected agentID m ids host port options now m1 r)
  show ?case by (rule mgr_ok_commit [OF connected.prems connected.hyps(3,1)])
next
  case (requested msgID m write_err agentID msgType payload now m1 r)
  show ?case by (rule mgr_ok_request_begin [OF requested.prems requested.hyps(2)])
next
  case (sent write_err agentID msg m m1 r)
  show ?case by (rule mgr_ok_SendMessage [OF sent.prems sent.hyps])
next
  case (written g m write_err msg)
  then show ?case by (metis mgr_ok_write prod.collapse)
next
  case (received g m now parsed)
  show ?case by (rule mgr_ok_pump_message [OF received.prems])
next
  case (read_failed g m)
  show ?case by (rule mgr_ok_pump_failed [OF read_failed.prems read_failed.hyps])
next
  case (pump_stopped g m)
  show ?case by (rule mgr_ok_leaving [OF pump_stopped.prems pump_stopped.hyps(2)])
next
  case (pump_ended g m)
  show ?case by (rule mgr_ok_pump_exit [OF pump_ended.prems pump_ended.hyps(1)])
next
  case (rc_started r m)
  show ?case by (rule mgr_ok_reconnect_start [OF rc_started.prems rc_started.hyps(1)])
next
  case (rc_woken r m valid)
  show ?case by (rule mgr_ok_reconnect_wake [OF rc_woken.prems rc_woken.hyps(1)])
next
  case (rc_dial_failed r m)
  show ?case by (rule mgr_ok_reconnect_failed [OF rc_dial_failed.prems rc_dial_failed.hyps(1)])
next
  case (rc_dialed r m now)
  show ?case by (rule mgr_ok_reconnect_done [OF rc_dialed.prems rc_dialed.hyps(1)])
next
  case (disconnecting agentID m m1 i)
  show ?case by (rule mgr_ok_disconnect_begin [OF disconnecting.prems disconnecting.hyps])
next
  case (stopped i m)
  show ?case by (rule mgr_ok_conn_stop [OF stopped.prems stopped.hyps(2)])
qed (simp_all add: request_end_def mgr_ok_heartbeat mgr_ok_agents_drop split: option.splits)

lemma mgr_ok_reach: "mgr_reach m m' \<Longrightarrow> mgr_ok m \<Longrightarrow> mgr_ok m'"
  by (induction rule: mgr_reach.induct) (auto intro: mgr_ok_step)

end
