(* ===== verification/ClientHistory.thy ===== *)
theory ClientHistory
  imports ClientFacts
begin

text \<open>
  What no step of the connection manager takes back: a shutdown goes on, connections and generations keep their place, their
  names and their owners, what is closed stays closed, a closed connection gets no new generation, a name that was
  used is not listed again, and nothing is written to a closed socket. A generation that is not the current one of
  its connection is closed.
\<close>

section \<open>The order of states\<close>

definition used_names :: "ManagerCC \<Rightarrow> string set" where
  "used_names m = (\<lambda>ac. ag_ID (ac_info ac)) ` set (mg_conns m)"

definition keeps_conns :: "ManagerCC \<Rightarrow> ManagerCC \<Rightarrow> bool" where
  "keeps_conns m m' \<longleftrightarrow> length (mg_conns m) \<le> length (mg_conns m')
     \<and> (\<forall>i < length (mg_conns m). ag_ID (ac_info (conn_of m' i)) = ag_ID (ac_info (conn_of m i))
          \<and> (ac_closed (conn_of m i) \<longrightarrow> ac_closed (conn_of m' i) \<and> ac_generation (conn_of m' i) = ac_generation (conn_of m i)))"

definition keeps_gens :: "ManagerCC \<Rightarrow> ManagerCC \<Rightarrow> bool" where
  "keeps_gens m m' \<longleftrightarrow> length (mg_gens m) \<le> length (mg_gens m')
     \<and> (\<forall>g < length (mg_gens m). gn_owner (gen_of m' g) = gn_owner (gen_of m g)
          \<and> (gn_connClosed (gen_of m g) \<longrightarrow> gn_connClosed (gen_of m' g)))
     \<and> (\<forall>g. length (mg_gens m) \<le> g \<and> g < length (mg_gens m') \<and> gn_owner (gen_of m' g) < length (mg_conns m)
          \<longrightarrow> \<not> ac_closed (conn_of m (gn_owner (gen_of m' g))))"

definition keeps_names :: "ManagerCC \<Rightarrow> ManagerCC \<Rightarrow> bool" where
  "keeps_names m m' \<longleftrightarrow> (\<forall>k j. fmlookup (mg_agents m') k = Some j \<longrightarrow> fmlookup (mg_agents m) k = Some j \<or> k \<notin> used_names m)"

definition keeps_sent :: "ManagerCC \<Rightarrow> ManagerCC \<Rightarrow> bool" where
  "keeps_sent m m' \<longleftrightarrow> (\<exists>ys. mg_sent m' = mg_sent m @ ys
     \<and> (\<forall>y \<in> set ys. fst y < length (mg_gens m) \<longrightarrow> \<not> gn_connClosed (gen_of m (fst y))))"

definition keeps_flags :: "ManagerCC \<Rightarrow> ManagerCC \<Rightarrow> bool" where
  "keeps_flags m m' \<longleftrightarrow> (mg_closing m \<longrightarrow> mg_closing m') \<and> (mg_cancelled m \<longrightarrow> mg_cancelled m')"

definition advances :: "ManagerCC \<Rightarrow> ManagerCC \<Rightarrow> bool" where
  "advances m m' \<longleftrightarrow> keeps_conns m m' \<and> keeps_gens m m' \<and> keeps_names m m' \<and> keeps_sent m m' \<and> keeps_flags m m'"

lemmas advances_defs = advances_def keeps_conns_def keeps_gens_def keeps_names_def keeps_sent_def keeps_flags_def

lemma advances_refl [simp]: "advances m m"
  by (auto simp: advances_defs)

lemma names_mono:
  assumes c: "keeps_conns m m'"
  shows "used_names m \<subseteq> used_names m'"
proof
  fix k assume "k \<in> used_names m"
  then obtain i where i: "i < length (mg_conns m)" "k = ag_ID (ac_info (conn_of m i))" by (auto simp: used_names_def in_set_conv_nth)
  with c have "k = ag_ID (ac_info (conn_of m' i))" "i < length (mg_conns m')" by (auto simp: keeps_conns_def)
  then show "k \<in> used_names m'" by (auto simp: used_names_def)
qed

lemma advances_trans:
  assumes "advances m1 m2" "advances m2 m3"
  shows "advances m1 m3"
proof -
  have c: "keeps_conns m1 m2" "keeps_conns m2 m3" and g: "keeps_gens m1 m2" "keeps_gens m2 m3"
    and n: "keeps_names m1 m2" "keeps_names m2 m3" and s: "keeps_sent m1 m2" "keeps_sent m2 m3"
    using assms by (simp_all add: advances_def)
  have "keeps_conns m1 m3" using c by (auto simp: keeps_conns_def)
  moreover have "keeps_gens m1 m3"
    unfolding keeps_gens_def
  proof (intro conjI allI impI)
    show "length (mg_gens m1) \<le> length (mg_gens m3)" using g by (simp add: keeps_gens_def)
    fix h
    show "gn_connClosed (gen_of m3 h)"
      if "h < length (mg_gens m1)" "gn_connClosed (gen_of m1 h)" using g that by (auto simp: keeps_gens_def)
    show "gn_owner (gen_of m3 h) = gn_owner (gen_of m1 h)" if "h < length (mg_gens m1)" using g that by (auto simp: keeps_gens_def)
    assume h: "length (mg_gens m1) \<le> h \<and> h < length (mg_gens m3) \<and> gn_owner (gen_of m3 h) < length (mg_conns m1)"
    show "\<not> ac_closed (conn_of m1 (gn_owner (gen_of m3 h)))"
    proof (cases "h < length (mg_gens m2)")
      case True
      with h g show ?thesis by (auto simp: keeps_gens_def)
    next
      case False
      with h g(2) c(1) have "\<not> ac_closed (conn_of m2 (gn_owner (gen_of m3 h)))" by (auto simp: keeps_gens_def keeps_conns_def)
      with h c(1) show ?thesis by (auto simp: keeps_conns_def)
    qed
  qed
  moreover have "keeps_names m1 m3" using n names_mono [OF c(1)] unfolding keeps_names_def by blast
  moreover have "keeps_sent m1 m3"
  proof -
    obtain ys zs where y: "mg_sent m2 = mg_sent m1 @ ys" "\<forall>y \<in> set ys. fst y < length (mg_gens m1) \<longrightarrow> \<not> gn_connClosed (gen_of m1 (fst y))"
      and z: "mg_sent m3 = mg_sent m2 @ zs" "\<forall>y \<in> set zs. fst y < length (mg_gens m2) \<longrightarrow> \<not> gn_connClosed (gen_of m2 (fst y))"
      using s unfolding keeps_sent_def by blast
    have "\<not> gn_connClosed (gen_of m1 (fst y))" if "y \<in> set zs" "fst y < length (mg_gens m1)" for y
      using z(2) that g(1) unfolding keeps_gens_def by (meson order_less_le_trans)
    with y z show ?thesis unfolding keeps_sent_def by (intro exI [where x = "ys @ zs"]) auto
  qed
  moreover have "keeps_flags m1 m3" using assms by (simp add: advances_def keeps_flags_def)
  ultimately show ?thesis by (simp add: advances_def)
qed

section \<open>The operations\<close>

lemma advances_on_conn:
  assumes "\<And>ac. ag_ID (ac_info (f ac)) = ag_ID (ac_info ac)" "\<And>ac. ac_generation (f ac) = ac_generation ac"
    "\<And>ac. ac_closed ac \<Longrightarrow> ac_closed (f ac)"
  shows "advances m (on_conn i f m)"
  using assms by (auto simp: advances_defs)

lemma advances_on_gen:
  assumes "\<And>gn. gn_owner (f gn) = gn_owner gn" "\<And>gn. gn_connClosed gn \<Longrightarrow> gn_connClosed (f gn)"
  shows "advances m (on_gen g f m)"
  using assms by (auto simp: advances_defs)

lemma advances_data:
  assumes "mg_conns m' = mg_conns m" "mg_gens m' = mg_gens m" "mg_sent m' = mg_sent m"
    "mg_closing m \<Longrightarrow> mg_closing m'" "mg_cancelled m \<Longrightarrow> mg_cancelled m'"
    "\<And>k j. fmlookup (mg_agents m') k = Some j \<Longrightarrow> fmlookup (mg_agents m) k = Some j"
  shows "advances m m'"
  using assms by (auto simp: advances_defs)

lemma advances_write: "writeJSON we g msg m = (m1, r) \<Longrightarrow> advances m m1"
  by (auto simp: advances_defs split: option.splits if_splits)

lemma advances_keeps [simp]: "keeps_identity f \<Longrightarrow> advances m (on_conn i f m)"
  by (rule advances_on_conn) (simp_all add: keeps_identity_def)

lemma advances_fields [simp]:
  "advances m (m\<lparr>mg_pending := p\<rparr>)" "advances m (m\<lparr>mg_seen := x\<rparr>)" "advances m (m\<lparr>mg_reconnects := rs\<rparr>)"
  "advances m (end_reconnect r m)" "advances m (set_reconnect r r' m)" "advances m (close_begin m)"
  "advances m (globalCancel m)" "advances m (clear_pending m)"
  by (rule advances_data; simp add: end_reconnect_def set_reconnect_def close_begin_def globalCancel_def clear_pending_def)+

lemma advances_send: "SendMessage we k msg m = (m1, r) \<Longrightarrow> advances m m1"
  unfolding SendMessage_def by (auto simp del: writeJSON_def intro: advances_write split: option.splits)

lemma advances_mark [simp]: "advances m (markDisconnected i g m)"
  unfolding markDisconnected_def by (rule advances_on_conn) auto

lemma advances_request:
  assumes "request_begin we u k t p now m = (m1, r)"
  shows "advances m m1"
proof -
  let ?m = "m\<lparr>mg_pending := fmupd u None (mg_pending m)\<rparr>"
  obtain m2 e where s: "SendMessage we k (request_message u t p now) ?m = (m2, e)" by force
  have "advances m m2" by (rule advances_trans [OF _ advances_send [OF s]]) simp
  moreover have "m1 = (if e = None then m2 else m2\<lparr>mg_pending := fmdrop u (mg_pending m2)\<rparr>)"
    using assms s by (auto simp: request_begin_def split: option.splits)
  ultimately show ?thesis by (auto intro: advances_trans)
qed

lemma advances_commit:
  assumes "connect_commit ids host port options k now m = (m1, r)" "k \<notin> used_names m"
  shows "advances m m1"
proof (cases "existing_agent ids m host port = None \<and> \<not> mg_cancelled m")
  case False
  with assms(1) show ?thesis by (auto simp: connect_commit_def split: option.splits)
next
  case True
  with assms show ?thesis
    by (auto simp: connect_commit_def advances_defs nth_append
        newConnectionGeneration_def split: if_splits)
qed

text \<open>A new generation is only installed on an open connection.\<close>

lemma advances_install: "installGeneration now i m = (m1, r) \<Longrightarrow> advances m m1"
  by (cases "i < length (mg_conns m)") (auto simp: installGeneration_def Let_def advances_defs nth_append
      newConnectionGeneration_def on_conn_def nth_list_update split: if_splits)

lemma advances_done: "advances m (reconnect_done now r m)"
proof -
  obtain m1 old where i: "installGeneration now (rc_owner r) (end_reconnect r m) = (m1, old)" by force
  have "advances m m1" by (rule advances_trans [OF _ advances_install [OF i]]) simp
  moreover have "advances m1 (on_gen g closeConn m1)" for g by (rule advances_on_gen) simp_all
  ultimately show ?thesis using i by (auto simp: reconnect_done_def intro: advances_trans split: option.splits)
qed

lemma advances_status [simp]: "advances m (apply_status i g msg m)"
  by (simp add: apply_status_def split: option.splits)

lemma advances_deliver [simp]: "advances m (deliver i msg m)"
  by (simp add: deliver_def split: option.splits)

lemma advances_pump [simp]: "advances m (pump_message now g parsed m)"
proof -
  let ?i = "gn_owner (gen_of m g)" and ?m1 = "on_conn (gn_owner (gen_of m g)) (updateLastSeen now g) m"
  have "advances m (deliver ?i msg (apply_status ?i g msg ?m1))" for msg
    by (rule advances_trans [OF advances_keeps advances_trans [OF advances_status advances_deliver]]) simp
  then show ?thesis by (simp add: pump_message_def Let_def split: option.splits)
qed

lemma advances_pump_failed: "advances m (pump_failed g m)"
proof -
  have 1: "advances m (on_gen g (\<lambda>gn. gn\<lparr>gn_pump := PumpLeaving\<rparr>) m)" by (rule advances_on_gen) simp_all
  then show ?thesis unfolding pump_failed_def Let_def by (auto intro: advances_trans [OF 1])
qed

lemma advances_pump_exit: "advances m (pump_exit g m)"
  unfolding pump_exit_def by (rule advances_trans [OF advances_mark]) (rule advances_on_gen; simp)

lemma advances_heartbeat: "advances m (heartbeat we now g m)"
proof -
  obtain m1 r where w: "writeJSON we g (keepalive_message now) m = (m1, r)" by force
  have "advances m1 (on_gen g (\<lambda>gn. gn\<lparr>gn_beating := False\<rparr>) m1)" by (rule advances_on_gen) simp_all
  with advances_write [OF w] w show ?thesis
    by (auto simp del: writeJSON_def simp: heartbeat_def intro: advances_trans split: option.splits)
qed

lemma advances_stop [simp]: "advances m (conn_stop i m)"
  unfolding conn_stop_def by (rule advances_on_conn) simp_all

lemma advances_closeGeneration [simp]: "advances m (closeGeneration g m)"
  unfolding closeGeneration_def by (rule advances_on_gen) simp_all

lemma advances_step: "mgr_step m m' \<Longrightarrow> advances m m'"
proof (induction rule: mgr_step.induct)
  case (connected agentID m ids host port options now m1 r)
  then show ?case using advances_commit by (simp add: used_names_def)
next
  case (written g m we msg)
  show ?case by (rule advances_write [OF prod.collapse [symmetric]])
next
  case (disconnecting agentID m m1 i)
  then show ?case by (auto simp: disconnect_begin_def intro!: advances_data split: option.splits if_splits)
next
  case (rc_dial_failed r m)
  show ?case by (auto simp: reconnect_failed_def intro: advances_trans [OF _ advances_mark])
next
  case (pump_stopped g m)
  show ?case by (rule advances_on_gen) simp_all
next
  case (beat_stopped g m)
  show ?case by (rule advances_on_gen) simp_all
qed (simp_all add: request_end_def reconnect_start_def reconnect_wake_def advances_request advances_send advances_heartbeat
    advances_pump_failed advances_pump_exit advances_done)

lemma advances_reach: "mgr_reach m m' \<Longrightarrow> advances m m'"
  by (induction rule: mgr_reach.induct) (auto intro: advances_trans advances_step)

section \<open>Superseded generations\<close>

definition superseded_closed :: "ManagerCC \<Rightarrow> bool" where
  "superseded_closed m \<longleftrightarrow> (\<forall>g < length (mg_gens m). gn_owner (gen_of m g) < length (mg_conns m)
     \<and> (g \<noteq> ac_generation (conn_of m (gn_owner (gen_of m g))) \<longrightarrow> gn_connClosed (gen_of m g)))"

lemma superseded_new [simp]: "superseded_closed NewManager"
  by (simp add: superseded_closed_def NewManager_def)

lemma superseded_on_conn:
  "superseded_closed m \<Longrightarrow> (\<And>ac. ac_generation (f ac) = ac_generation ac) \<Longrightarrow> superseded_closed (on_conn i f m)"
  by (auto simp: superseded_closed_def)

lemma superseded_on_gen:
  "superseded_closed m \<Longrightarrow> (\<And>gn. gn_owner (f gn) = gn_owner gn) \<Longrightarrow> (\<And>gn. gn_connClosed gn \<Longrightarrow> gn_connClosed (f gn))
     \<Longrightarrow> superseded_closed (on_gen g f m)"
  by (auto simp: superseded_closed_def)

lemma superseded_cong: "mg_conns m' = mg_conns m \<Longrightarrow> mg_gens m' = mg_gens m \<Longrightarrow> superseded_closed m' = superseded_closed m"
  by (simp add: superseded_closed_def)

lemma superseded_fields [simp]:
  "superseded_closed (m\<lparr>mg_pending := p\<rparr>) = superseded_closed m" "superseded_closed (m\<lparr>mg_seen := x\<rparr>) = superseded_closed m"
  "superseded_closed (m\<lparr>mg_sent := y\<rparr>) = superseded_closed m" "superseded_closed (m\<lparr>mg_reconnects := rs\<rparr>) = superseded_closed m"
  "superseded_closed (m\<lparr>mg_agents := as\<rparr>) = superseded_closed m"
  "superseded_closed (end_reconnect r m) = superseded_closed m" "superseded_closed (set_reconnect r r' m) = superseded_closed m"
  "superseded_closed (close_begin m) = superseded_closed m" "superseded_closed (globalCancel m) = superseded_closed m"
  "superseded_closed (clear_pending m) = superseded_closed m"
  by (rule superseded_cong; simp add: set_reconnect_def close_begin_def globalCancel_def clear_pending_def)+

lemma superseded_keeps [simp]: "keeps_identity f \<Longrightarrow> superseded_closed m \<Longrightarrow> superseded_closed (on_conn i f m)"
  by (erule superseded_on_conn) (simp add: keeps_identity_def)

lemma superseded_mark: "superseded_closed m \<Longrightarrow> superseded_closed (markDisconnected i g m)"
  unfolding markDisconnected_def by (erule superseded_on_conn) simp

lemma superseded_pump: "superseded_closed m \<Longrightarrow> superseded_closed (pump_message now g parsed m)"
  by (simp add: pump_message_def Let_def deliver_def apply_status_def split: option.splits)

lemma superseded_send: "SendMessage we k msg m = (m1, r) \<Longrightarrow> superseded_closed m1 = superseded_closed m"
  by (auto simp: SendMessage_def split: option.splits if_splits)

lemma superseded_request:
  assumes "request_begin we u k t p now m = (m1, r)"
  shows "superseded_closed m1 = superseded_closed m"
proof -
  obtain m2 e where s: "SendMessage we k (request_message u t p now) (m\<lparr>mg_pending := fmupd u None (mg_pending m)\<rparr>) = (m2, e)"
    by force
  with assms superseded_send [OF s] show ?thesis by (auto simp: request_begin_def split: option.splits)
qed

lemma superseded_commit: "superseded_closed m \<Longrightarrow> connect_commit ids host port options k now m = (m1, r) \<Longrightarrow> superseded_closed m1"
  by (auto simp: connect_commit_def superseded_closed_def nth_append newConnectionGeneration_def less_Suc_eq split: option.splits if_splits)

lemma superseded_done:
  assumes "superseded_closed m" "rc_owner r < length (mg_conns m)" "ac_generation (conn_of m (rc_owner r)) < length (mg_gens m)"
  shows "superseded_closed (reconnect_done now r m)"
  using assms
  by (auto simp: reconnect_done_def installGeneration_def Let_def superseded_closed_def nth_append newConnectionGeneration_def less_Suc_eq)

lemma superseded_step:
  assumes "mgr_step m m'" "mgr_ok m" "superseded_closed m"
  shows "superseded_closed m'"
  using assms
proof (induction rule: mgr_step.induct)
  case (connected agentID m ids host port options now m1 r)
  show ?case by (rule superseded_commit [OF connected.prems(2) connected.hyps(3)])
next
  case (requested msgID m we agentID msgType payload now m1 r)
  then show ?case by (simp add: superseded_request)
next
  case (sent we agentID msg m m1 r)
  then show ?case by (simp add: superseded_send)
next
  case (beat g m we now)
  then show ?case by (auto simp: heartbeat_def intro!: superseded_on_gen split: option.splits)
next
  case (read_failed g m)
  then show ?case by (auto simp: pump_failed_def Let_def intro!: superseded_on_gen)
next
  case (pump_ended g m)
  then show ?case unfolding pump_exit_def by (intro superseded_on_gen superseded_mark) simp_all
next
  case (rc_dial_failed r m)
  then show ?case by (simp add: reconnect_failed_def superseded_mark)
next
  case (rc_dialed r m now)
  then show ?case by (intro superseded_done) (simp_all add: mgr_okD(6) mgr_okD(1))
next
  case (disconnecting agentID m m1 i)
  then show ?case by (auto simp: disconnect_begin_def split: option.splits)
next
  case (stopped i m)
  then show ?case unfolding conn_stop_def by (intro superseded_on_conn) simp_all
next
  case (gen_closed i m)
  then show ?case unfolding closeGeneration_def by (intro superseded_on_gen) simp_all
qed (auto simp: request_end_def superseded_pump reconnect_start_def reconnect_wake_def intro!: superseded_on_gen split: option.splits)

lemma superseded_reach: "mgr_reach m m' \<Longrightarrow> mgr_ok m \<Longrightarrow> superseded_closed m \<Longrightarrow> superseded_closed m'"
  by (induction rule: mgr_reach.induct) (auto intro: superseded_step mgr_ok_reach)

section \<open>A connection that left the map\<close>

text \<open>The generations of a connection, and what was written to one.\<close>

definition sockets :: "nat \<Rightarrow> ManagerCC \<Rightarrow> nat list" where
  "sockets i m = filter (\<lambda>g. gn_owner (gen_of m g) = i) [0..<length (mg_gens m)]"

definition written_to :: "nat \<Rightarrow> ManagerCC \<Rightarrow> Message list" where
  "written_to g m = map snd (filter (\<lambda>x. fst x = g) (mg_sent m))"

lemma left_map:
  assumes "advances m m'" "mgr_ok m'" "i < length (mg_conns m)" "fmlookup (mg_agents m) (ag_ID (ac_info (conn_of m i))) = None"
  shows "i < length (mg_conns m')" "ag_ID (ac_info (conn_of m' i)) = ag_ID (ac_info (conn_of m i))"
    "fmlookup (mg_agents m') (ag_ID (ac_info (conn_of m i))) = None" "i \<notin> fmran' (mg_agents m')"
proof -
  let ?k = "ag_ID (ac_info (conn_of m i))"
  have c: "keeps_conns m m'" "keeps_names m m'" using assms(1) by (simp_all add: advances_def)
  show i: "i < length (mg_conns m')" and k: "ag_ID (ac_info (conn_of m' i)) = ?k"
    using c(1) assms(3) by (auto simp: keeps_conns_def)
  have "?k \<in> used_names m" using assms(3) by (auto simp: used_names_def)
  with c(2) assms(4) show none: "fmlookup (mg_agents m') ?k = None"
    unfolding keeps_names_def by (metis not_None_eq option.distinct(1))
  show "i \<notin> fmran' (mg_agents m')"
  proof
    assume "i \<in> fmran' (mg_agents m')"
    then obtain a where a: "fmlookup (mg_agents m') a = Some i" by (auto elim: fmran'E)
    with mgr_okD(11) [OF assms(2) a] k none show False by simp
  qed
qed

lemma closed_stays:
  assumes "advances m m'" "i < length (mg_conns m)" "ac_closed (conn_of m i)"
  shows "ac_closed (conn_of m' i)" "ac_generation (conn_of m' i) = ac_generation (conn_of m i)"
    "gn_connClosed (gen_of m g) \<Longrightarrow> g < length (mg_gens m) \<Longrightarrow> gn_connClosed (gen_of m' g)"
  using assms by (auto simp: advances_def keeps_conns_def keeps_gens_def)

text \<open>Once all generations of a closed connection are closed nothing is written to any of them, and none is added.\<close>

lemma sockets_silent:
  assumes "advances m m'" "i < length (mg_conns m)" "ac_closed (conn_of m i)"
    "\<And>g. g \<in> set (sockets i m) \<Longrightarrow> gn_connClosed (gen_of m g)"
  shows "sockets i m' = sockets i m" "g \<in> set (sockets i m) \<Longrightarrow> written_to g m' = written_to g m"
proof -
  have G: "keeps_gens m m'" and S: "keeps_sent m m'" using assms(1) by (simp_all add: advances_def)
  have "[0..<length (mg_gens m')] = [0..<length (mg_gens m)] @ [length (mg_gens m)..<length (mg_gens m')]"
    using G upt_add_eq_append [of 0 "length (mg_gens m)" "length (mg_gens m') - length (mg_gens m)"] by (simp add: keeps_gens_def)
  moreover have "filter (\<lambda>g. gn_owner (gen_of m' g) = i) [length (mg_gens m)..<length (mg_gens m')] = []"
    using G assms(2,3) by (auto simp: keeps_gens_def filter_empty_conv)
  moreover have "filter (\<lambda>g. gn_owner (gen_of m' g) = i) [0..<length (mg_gens m)] = sockets i m"
    unfolding sockets_def by (rule filter_cong) (use G in \<open>auto simp: keeps_gens_def\<close>)
  ultimately show "sockets i m' = sockets i m" unfolding sockets_def by simp
  assume g: "g \<in> set (sockets i m)"
  obtain ys where ys: "mg_sent m' = mg_sent m @ ys" "\<forall>y \<in> set ys. fst y < length (mg_gens m) \<longrightarrow> \<not> gn_connClosed (gen_of m (fst y))"
    using S by (auto simp: keeps_sent_def)
  have "filter (\<lambda>x. fst x = g) ys = []" using ys(2) g assms(4) [OF g] by (auto simp: filter_empty_conv sockets_def)
  then show "written_to g m' = written_to g m" by (simp add: written_to_def ys(1))
qed


text \<open>A connection that is closed with all its sockets, and stays so.\<close>

definition silenced :: "nat \<Rightarrow> ManagerCC \<Rightarrow> bool" where
  "silenced i m \<longleftrightarrow> i < length (mg_conns m) \<and> ac_closed (conn_of m i) \<and> (\<forall>g \<in> set (sockets i m). gn_connClosed (gen_of m g))"

lemma silenced_stays:
  assumes "advances m m'" "silenced i m"
  shows "silenced i m'" "sockets i m' = sockets i m" "g \<in> set (sockets i m) \<Longrightarrow> written_to g m' = written_to g m"
proof -
  have s: "i < length (mg_conns m)" "ac_closed (conn_of m i)" "\<And>g. g \<in> set (sockets i m) \<Longrightarrow> gn_connClosed (gen_of m g)"
    using assms(2) by (simp_all add: silenced_def)
  note q = sockets_silent [OF assms(1) s]
  show "sockets i m' = sockets i m" "g \<in> set (sockets i m) \<Longrightarrow> written_to g m' = written_to g m" by (rule q; simp)+
  note c = closed_stays [OF assms(1) s(1,2)]
  have "gn_connClosed (gen_of m' g)" if "g \<in> set (sockets i m)" for g
    using s(3) [OF that] that c(3) [of g] by (simp add: sockets_def)
  moreover have "i < length (mg_conns m')" using assms(1) s(1) by (simp add: advances_def keeps_conns_def)
  ultimately show "silenced i m'" using c(1) q(1) by (simp add: silenced_def)
qed

section \<open>Stopping a connection\<close>

lemma mgr_reach_trans: "mgr_reach m2 m3 \<Longrightarrow> mgr_reach m1 m2 \<Longrightarrow> mgr_reach m1 m3"
  by (induction rule: mgr_reach.induct) (auto intro: mr_step)

lemma mgr_reach1: "mgr_step m m1 \<Longrightarrow> mgr_reach m m1"
  by (rule mr_step [OF mr_start])

text \<open>
  \<^verbatim>\<open>stop\<close> and \<^verbatim>\<open>closeGeneration\<close> of a connection that left the map, with any run of the other
  goroutines in between, are steps; afterwards it is closed with all its sockets.
\<close>

lemma stop_parts:
  assumes ok: "mgr_ok m" and i: "i < length (mg_conns m)" "fmlookup (mg_agents m) (ag_ID (ac_info (conn_of m i))) = None"
    and r: "mgr_reach (conn_stop i m) m1"
  defines "m2 \<equiv> closeGeneration (ac_generation (conn_of m i)) m1"
  shows "mgr_reach m m2" "superseded_closed m \<Longrightarrow> silenced i m2"
proof -
  note u = left_map [OF advances_refl ok i]
  have s1: "mgr_step m (conn_stop i m)" by (rule stopped [OF i(1) u(4)])
  have c: "i < length (mg_conns (conn_stop i m))" "ac_closed (conn_of (conn_stop i m) i)"
    "ac_generation (conn_of (conn_stop i m) i) = ac_generation (conn_of m i)" using i(1) by (simp_all add: conn_stop_def)
  note a = advances_reach [OF r]
  have i1: "i < length (mg_conns m1)" "ac_closed (conn_of m1 i)" "ac_generation (conn_of m1 i) = ac_generation (conn_of m i)"
    using a c(1) closed_stays [OF a c(1,2)] c(3) by (simp_all add: advances_def keeps_conns_def)
  have s2: "mgr_step m1 m2" unfolding m2_def i1(3) [symmetric] by (rule gen_closed [OF i1(1,2)])
  have "mgr_reach m m1" by (rule mgr_reach_trans [OF r mgr_reach1 [OF s1]])
  then show reach: "mgr_reach m m2" using s2 by (rule mr_step)
  assume "superseded_closed m"
  then have sup: "superseded_closed m2" by (rule superseded_reach [OF reach ok])
  have "gn_connClosed (gen_of m2 g)" if "g \<in> set (sockets i m2)" for g
  proof (cases "g = ac_generation (conn_of m i)")
    case True
    with that show ?thesis by (simp add: m2_def closeGeneration_def sockets_def)
  next
    case False
    with that sup i1(3) show ?thesis by (auto simp: superseded_closed_def m2_def closeGeneration_def sockets_def)
  qed
  then show "silenced i m2" using i1(1,2) by (simp add: silenced_def m2_def closeGeneration_def)
qed

end
