(* ===== verification/ClientProps.thy ===== *)
theory ClientProps
  imports ClientHistory
begin

text \<open>
  The properties of the connection manager, over every interleaving of its goroutines: one reader
  per agent, disconnecting is final, answers reach the request with their identifier, and a
  lost connection is restored when one of the five attempts succeeds.
\<close>

lemma one_reconnect: "mgr_ok m \<Longrightarrow> distinct (map rc_owner (mg_reconnects m))"
  by (simp add: mgr_ok_def)

lemma one_reader:
  assumes "mgr_ok m" "g < length (mg_gens m)" "h < length (mg_gens m)" "gn_pump (gen_of m g) = PumpReading"
    "gn_pump (gen_of m h) = PumpReading" "gn_owner (gen_of m g) = gn_owner (gen_of m h)"
  shows "g = h"
  by (rule trans [OF mgr_okD(5) [OF assms(1,2,4), symmetric]]) (simp only: assms(6) mgr_okD(5) [OF assms(1,3,5)])

lemma reconnect_unread:
  assumes "mgr_ok m" "r \<in> set (mg_reconnects m)" "g < length (mg_gens m)" "gn_owner (gen_of m g) = rc_owner r"
  shows "gn_pump (gen_of m g) \<noteq> PumpReading"
proof
  assume "gn_pump (gen_of m g) = PumpReading"
  with mgr_okD(5) [OF assms(1,3)] mgr_okD(7,8) [OF assms(1,2)] assms(4) show False by simp
qed

text \<open>(C11) In every reachable state of the manager, whatever the interleaving of connects, failures,
  reconnections and disconnects: an agent shown as connected has not been closed and its socket still has its
  read pump; a pump that reads is that of the current generation of its agent, so at most one reads for an agent; at most one goroutine
  reconnects an agent, and only while none reads; and an agent is listed under its own identifier and not closed.\<close>
theorem client_single_reader:
  assumes "mgr_reach NewManager m"
  shows "(\<forall>i < length (mg_conns m). ag_Connected (ac_info (conn_of m i)) \<longrightarrow> \<not> ac_closed (conn_of m i)
          \<and> gn_pump (gen_of m (ac_generation (conn_of m i))) \<noteq> PumpEnded)
     \<and> (\<forall>g < length (mg_gens m). gn_pump (gen_of m g) = PumpReading \<longrightarrow> ac_generation (conn_of m (gn_owner (gen_of m g))) = g)
     \<and> (\<forall>g < length (mg_gens m). \<forall>h < length (mg_gens m). gn_pump (gen_of m g) = PumpReading
          \<and> gn_pump (gen_of m h) = PumpReading \<and> gn_owner (gen_of m g) = gn_owner (gen_of m h) \<longrightarrow> g = h)
     \<and> distinct (map rc_owner (mg_reconnects m))
     \<and> (\<forall>r \<in> set (mg_reconnects m). \<forall>g < length (mg_gens m). gn_owner (gen_of m g) = rc_owner r \<longrightarrow>
          gn_pump (gen_of m g) \<noteq> PumpReading)
     \<and> (\<forall>k i. fmlookup (mg_agents m) k = Some i \<longrightarrow> ag_ID (ac_info (conn_of m i)) = k \<and> \<not> ac_closed (conn_of m i))"
proof (intro conjI allI impI ballI)
  note ok = mgr_ok_reach [OF assms mgr_ok_new]
  show "distinct (map rc_owner (mg_reconnects m))" by (rule one_reconnect [OF ok])
  fix i k r g h
  show "\<not> ac_closed (conn_of m i)" "gn_pump (gen_of m (ac_generation (conn_of m i))) \<noteq> PumpEnded"
    if "i < length (mg_conns m)" "ag_Connected (ac_info (conn_of m i))"
    using mgr_okD(3) [OF ok that] by simp_all
  show "ac_generation (conn_of m (gn_owner (gen_of m g))) = g" if "g < length (mg_gens m)" "gn_pump (gen_of m g) = PumpReading"
    by (rule mgr_okD(5) [OF ok that])
  show "g = h" if "g < length (mg_gens m)" "h < length (mg_gens m)" "gn_pump (gen_of m g) = PumpReading
      \<and> gn_pump (gen_of m h) = PumpReading \<and> gn_owner (gen_of m g) = gn_owner (gen_of m h)"
    using one_reader [OF ok that(1,2)] that(3) by simp
  show "gn_pump (gen_of m g) \<noteq> PumpReading"
    if "r \<in> set (mg_reconnects m)" "g < length (mg_gens m)" "gn_owner (gen_of m g) = rc_owner r"
    by (rule reconnect_unread [OF ok that])
  show "ag_ID (ac_info (conn_of m i)) = k" "\<not> ac_closed (conn_of m i)" if "fmlookup (mg_agents m) k = Some i"
    using mgr_okD(10,11) [OF ok that] by simp_all
qed

section \<open>Disconnecting is final\<close>

text \<open>What taking an agent out of the map leaves, and what other goroutines then make of it.\<close>

lemma disconnect_left:
  assumes ok: "mgr_ok m" and b: "disconnect_begin k m = (m1, Inr i)" and r: "mgr_reach m1 m2"
  shows "mgr_reach m m2" "mgr_ok m2" "i < length (mg_conns m2)" "ag_ID (ac_info (conn_of m2 i)) = k" "fmlookup (mg_agents m2) k = None"
proof -
  have k: "fmlookup (mg_agents m) k = Some i" and m1: "m1 = m\<lparr>mg_agents := fmdrop k (mg_agents m)\<rparr>"
    using b by (auto simp: disconnect_begin_def split: option.splits)
  have s1: "mgr_step m m1" by (rule disconnecting [OF b])
  show ok2: "mgr_ok m2" by (rule mgr_ok_reach [OF r mgr_ok_step [OF s1 ok]])
  have i1: "i < length (mg_conns m1)" "ag_ID (ac_info (conn_of m1 i)) = k" "fmlookup (mg_agents m1) k = None"
    using mgr_okD(9,11) [OF ok k] by (simp_all add: m1)
  show "mgr_reach m m2" by (rule mgr_reach_trans [OF r mgr_reach1 [OF s1]])
  show "i < length (mg_conns m2)" "ag_ID (ac_info (conn_of m2 i)) = k" "fmlookup (mg_agents m2) k = None"
    using left_map [OF advances_reach [OF r] ok2 i1(1), unfolded i1(2), OF i1(3)] by simp_all
qed


section \<open>Requests and answers\<close>

definition pending_ok :: "ManagerCC \<Rightarrow> bool" where
  "pending_ok m \<longleftrightarrow> (\<forall>k msg. fmlookup (mg_pending m) k = Some (Some msg) \<longrightarrow> msg_id msg = k \<and> k \<noteq> [])"

lemma SendMessage_pending: "SendMessage we a msg m = (m1, r) \<Longrightarrow> mg_pending m1 = mg_pending m"
  by (auto simp: SendMessage_def split: option.splits if_splits)

lemma connect_commit_pending: "connect_commit ids h p opts k now m = (m1, r) \<Longrightarrow> mg_pending m1 = mg_pending m"
  by (auto simp: connect_commit_def split: option.splits if_splits)

lemma request_begin_pending:
  assumes "request_begin we msgID a t payload now m = (m1, r)"
  shows "mg_pending m1 = (if r = None then fmupd msgID None (mg_pending m) else fmdrop msgID (mg_pending m))"
proof -
  obtain m2 r2 where s: "SendMessage we a (request_message msgID t payload now)
      (m\<lparr>mg_pending := fmupd msgID None (mg_pending m)\<rparr>) = (m2, r2)" by force
  have "fmdrop msgID (fmupd msgID None (mg_pending m)) = fmdrop msgID (mg_pending m)" by (rule fmap_ext) simp
  with assms s SendMessage_pending [OF s] show ?thesis by (auto simp: request_begin_def split: option.splits)
qed

lemma install_pending: "installGeneration now i m = (m1, r) \<Longrightarrow> mg_pending m1 = mg_pending m"
  by (auto simp: installGeneration_def Let_def split: if_splits)

lemma stopConn_fold_pending:
  "mg_pending (fold (\<lambda>k. case fmlookup A k of None \<Rightarrow> id | Some i \<Rightarrow> stopConn i) ids m) = mg_pending m"
  by (induction ids arbitrary: m) (auto simp: stopConn_conns split: option.splits)

lemma status_pending [simp]: "mg_pending (apply_status i g msg m) = mg_pending m"
  by (simp add: apply_status_def split: option.splits)

lemma mark_pending [simp]: "mg_pending (markDisconnected i g m) = mg_pending m"
  by (simp add: markDisconnected_def)

text \<open>How the table of waiting requests changes in a step.\<close>

lemma pending_step:
  assumes "mgr_step m m'"
  shows "mg_pending m' = mg_pending m
    \<or> (\<exists>k. k |\<notin>| fmdom (mg_pending m) \<and> mg_pending m' = fmupd k None (mg_pending m))
    \<or> (\<exists>k. mg_pending m' = fmdrop k (mg_pending m)) \<or> mg_pending m' = fmempty
    \<or> (\<exists>msg. msg_id msg \<noteq> [] \<and> fmlookup (mg_pending m) (msg_id msg) = Some None
         \<and> mg_pending m' = fmupd (msg_id msg) (Some msg) (mg_pending m))"
  using assms
proof (induction rule: mgr_step.induct)
  case (connected agentID m ids host port options now m1 r)
  then show ?case by (simp add: connect_commit_pending)
next
  case (requested msgID m write_err agentID msgType payload now m1 r)
  with request_begin_pending [OF requested.hyps(2)] show ?case by (cases "r = None") auto
next
  case (sent write_err agentID msg m m1 r)
  then show ?case by (simp add: SendMessage_pending)
next
  case (received g m now parsed)
  show ?case
    by (auto simp: pump_message_def deliver_def Let_def split: option.splits if_splits)
next
  case (rc_dialed r m now)
  obtain m1 q where "installGeneration now (rc_owner r) (end_reconnect r m) = (m1, q)" by force
  then show ?case using install_pending
    by (auto simp: reconnect_done_def end_reconnect_def split: option.splits)
next
  case (disconnecting agentID m m1 i)
  then show ?case by (auto simp: disconnect_begin_def split: option.splits)
qed (auto simp: request_end_def pump_failed_def pump_exit_def reconnect_start_def reconnect_wake_def
    reconnect_failed_def set_reconnect_def end_reconnect_def Let_def heartbeat_def conn_stop_def closeGeneration_def
    close_begin_def globalCancel_def clear_pending_def split: option.splits)

lemma pending_ok_step: "mgr_step m m' \<Longrightarrow> pending_ok m \<Longrightarrow> pending_ok m'"
  using pending_step [of m m'] by (fastforce simp: pending_ok_def split: if_splits)

lemma pending_ok_new [simp]: "pending_ok NewManager"
  by (simp add: pending_ok_def NewManager_def)

lemma pending_ok_reach: "mgr_reach m0 m \<Longrightarrow> pending_ok m0 \<Longrightarrow> pending_ok m"
  by (induction rule: mgr_reach.induct) (blast intro: pending_ok_step)+

text \<open>(C14) An answer reaches the request it belongs to: in every reachable state the channel of a waiting request
  holds nothing, or one message that bears the request's identifier; no step replaces
  that message, it is only taken or the request has ended; and the request that takes it returns it, as an
  error exactly when the agent's message carries one.\<close>
theorem requests_matched:
  assumes "mgr_reach NewManager m" "fmlookup (mg_pending m) k = Some (Some msg)" "mgr_step m m'"
  shows "msg_id msg = k \<and> fmlookup (mg_pending m') k \<in> {Some (Some msg), None}
     \<and> (\<exists>err. request_end timeout k (Answered msg) m
          = (m\<lparr>mg_pending := fmdrop k (mg_pending m)\<rparr>, Some msg, err) \<and> (err = None \<longleftrightarrow> msg_error msg = no_text))"
proof (intro conjI)
  show "msg_id msg = k" using pending_ok_reach [OF assms(1) pending_ok_new] assms(2) by (simp add: pending_ok_def)
  show "fmlookup (mg_pending m') k \<in> {Some (Some msg), None}"
    using pending_step [OF assms(3)] assms(2) by (auto simp: fmlookup_dom_iff split: if_splits)
qed (simp add: request_end_def)

section \<open>Concrete states\<close>

definition demo_options :: ConnectOptions where
  "demo_options = \<lparr>co_AuthToken = ''secret'', co_TLS = False, co_UseTLS = False, co_CAFile = [], co_ServerName = []\<rparr>"

definition demo_manager :: ManagerCC where
  "demo_manager = fst (connect_commit [] ''10.0.0.5'' 9443 demo_options ''a1'' 7 NewManager)"

definition demo_answer :: Message where
  "demo_answer = \<lparr>msg_id = ''r1'', msg_type = MsgFileAck, msg_payload = JNull, msg_time = 9, msg_error = no_text\<rparr>"

definition demo_answered :: ManagerCC where
  "demo_answered = pump_message 9 0 (Some demo_answer)
     (fst (request_begin None ''r1'' ''a1'' MsgSendFile JNull 8 demo_manager))"

lemmas demo_simps = demo_manager_def demo_options_def demo_answer_def demo_answered_def connect_commit_def existing_agent_def
  NewManager_def new_info_def newConnectionGeneration_def

lemma demo_step: "mgr_step NewManager demo_manager"
  by (rule mgr_step.connected [of "''a1''" _ "[]" "''10.0.0.5''" 9443 demo_options 7 _ "Inr ''a1''"])
    (simp_all add: demo_simps)

lemma demo_reach: "mgr_reach NewManager demo_manager"
  using demo_step by (blast intro: mgr_reach.intros)

lemma demo_answered_reach: "mgr_reach NewManager demo_answered"
proof -
  have "mgr_step demo_manager (fst (request_begin None ''r1'' ''a1'' MsgSendFile JNull 8 demo_manager))"
    by (rule mgr_step.requested [OF _ prod.collapse [symmetric]]) (simp add: demo_simps)
  moreover have "mgr_step (fst (request_begin None ''r1'' ''a1'' MsgSendFile JNull 8 demo_manager)) demo_answered"
    unfolding demo_answered_def
    by (rule mgr_step.received)
      (simp_all add: demo_simps request_begin_def SendMessage_def currentGeneration_def)
  ultimately show ?thesis using demo_reach by (blast intro: mgr_reach.intros)
qed

lemma demo_pending: "fmlookup (mg_pending demo_answered) ''r1'' = Some (Some demo_answer)"
  by (simp add: demo_simps request_begin_def SendMessage_def currentGeneration_def pump_message_def deliver_def
      apply_status_def msg_types on_conn_def Let_def)

theorem client_single_reader_witness:
  "ag_Connected (ac_info (conn_of demo_manager 0)) \<and> length (mg_conns demo_manager) = 1 \<and> \<not> ac_closed (conn_of demo_manager 0)"
proof -
  have "0 < length (mg_conns demo_manager)" "ag_Connected (ac_info (conn_of demo_manager 0))" "length (mg_conns demo_manager) = 1"
    by (simp_all add: demo_simps)
  with conjunct1 [OF client_single_reader [OF demo_reach]] show ?thesis by blast
qed


theorem requests_matched_witness: "msg_id demo_answer = ''r1'' \<and> fmlookup (mg_pending demo_answered) ''r1'' = Some (Some demo_answer)"
  using requests_matched [OF demo_answered_reach demo_pending mgr_step.gave_up [of TimedOut]] demo_pending by blast

end
