(* ===== verification/ClientRecovery.thy ===== *)
theory ClientRecovery
  imports ClientProps
begin

text \<open>
  Progress of the connection manager: when a socket fails, the goroutine that the read pump leaves
  behind brings the agent back if one of its attempts succeeds, and gives up after the last.
\<close>

text \<open>
  The reconnecting goroutine alone, from its timer on: each element of the list tells whether
  that attempt (dialing and handshake) succeeds. Every attempt is two steps of the manager.
\<close>

primrec reconnect_run :: "bool list \<Rightarrow> int \<Rightarrow> reconnection \<Rightarrow> ManagerCC \<Rightarrow> ManagerCC" where
  "reconnect_run [] now r m = m"
| "reconnect_run (ok # oks) now r m =
     (let r1 = r\<lparr>rc_stage := Dialing\<rparr>; m1 = reconnect_wake True r m
      in if ok then reconnect_done now r1 m1
         else reconnect_run oks now (r\<lparr>rc_attempt := Suc (rc_attempt r), rc_stage := Waiting\<rparr>) (reconnect_failed r1 m1))"

lemma mgr_reach_step: "mgr_step m1 m2 \<Longrightarrow> mgr_reach m2 m3 \<Longrightarrow> mgr_reach m1 m3"
  by (rotate_tac, induction rule: mgr_reach.induct) (auto intro: mgr_reach.intros)

lemma set_reconnect_simps [simp]:
  "mg_conns (set_reconnect r r' m) = mg_conns m" "mg_gens (set_reconnect r r' m) = mg_gens m"
  "mg_cancelled (set_reconnect r r' m) = mg_cancelled m" "r' \<in> set (mg_reconnects (set_reconnect r r' m))"
  by (simp_all add: set_reconnect_def)

lemma shouldReconnect_cong:
  "mg_conns m' = mg_conns m \<Longrightarrow> mg_cancelled m' = mg_cancelled m \<Longrightarrow> shouldReconnect m' i g = shouldReconnect m i g"
  by (simp add: shouldReconnect_def ctx_done_def)

text \<open>
  How it ends for connection \<open>i\<close>: no goroutine reconnects it any more, and it is served through
  generation \<open>g\<close>, seen at \<open>now\<close>, or shown as disconnected.
\<close>

definition recovered :: "nat \<Rightarrow> nat \<Rightarrow> int \<Rightarrow> bool \<Rightarrow> ManagerCC \<Rightarrow> bool" where
  "recovered i g now ok m \<longleftrightarrow> i \<notin> rc_owner ` set (mg_reconnects m)
     \<and> (if ok then currentGeneration (conn_of m i) = Some g \<and> ag_LastSeen (ac_info (conn_of m i)) = now
          \<and> gn_pump (gen_of m g) = PumpReading
        else \<not> ag_Connected (ac_info (conn_of m i)))"

text \<open>A successful attempt installs a new generation, read by its own pump.\<close>

lemma reconnect_done_result:
  fixes now :: int
  assumes "mgr_ok m" "r \<in> set (mg_reconnects m)" "shouldReconnect m i (rc_failed r)" "rc_owner r = i"
  shows "recovered i (length (mg_gens m)) now True (reconnect_done now r m)"
proof -
  have i: "i < length (mg_conns m)" and g: "ac_generation (conn_of m i) < length (mg_gens m)"
    using mgr_okD(6) [OF assms(1,2)] mgr_okD(1) [OF assms(1)] assms(4) by simp_all
  have open_: "\<not> ac_closed (conn_of m i)" "\<not> ctx_done m i" using assms(3) by (simp_all add: shouldReconnect_def)
  have m1: "reconnect_done now r m = on_gen (ac_generation (conn_of m i)) closeConn
     (on_conn i (\<lambda>ac. (on_info (\<lambda>a. a\<lparr>ag_Connected := True, ag_LastSeen := now\<rparr>) ac)\<lparr>ac_generation := length (mg_gens m)\<rparr>)
       ((end_reconnect r m)\<lparr>mg_gens := mg_gens m @ [newConnectionGeneration i]\<rparr>))"
    using open_ assms(4) by (simp add: reconnect_done_def installGeneration_def Let_def)
  show ?thesis
    using reconnect_alone [OF assms(1,2)] i g open_ assms(4)
    by (simp add: recovered_def m1 currentGeneration_def newConnectionGeneration_def)
qed

text \<open>A failed attempt leads to the next one, or gives up.\<close>

lemma reconnect_failed_result:
  assumes "mgr_ok m" "r \<in> set (mg_reconnects m)" "rc_owner r = i" "\<not> ag_Connected (ac_info (conn_of m i))"
    "shouldReconnect m i (rc_failed r)"
  defines "m1 \<equiv> reconnect_failed r m" and "r1 \<equiv> r\<lparr>rc_attempt := Suc (rc_attempt r), rc_stage := Waiting\<rparr>"
  shows "Suc (rc_attempt r) < maxReconnectRetries \<Longrightarrow> r1 \<in> set (mg_reconnects m1) \<and> shouldReconnect m1 i (rc_failed r)
      \<and> \<not> ag_Connected (ac_info (conn_of m1 i)) \<and> mg_gens m1 = mg_gens m"
    "Suc (rc_attempt r) = maxReconnectRetries \<Longrightarrow> recovered i g now False m1"
proof -
  have i: "i < length (mg_conns m)" using mgr_okD(6) [OF assms(1,2)] assms(3) by simp
  show "r1 \<in> set (mg_reconnects m1) \<and> shouldReconnect m1 i (rc_failed r) \<and> \<not> ag_Connected (ac_info (conn_of m1 i))
      \<and> mg_gens m1 = mg_gens m" if "Suc (rc_attempt r) < maxReconnectRetries"
    using that assms(4,5) shouldReconnect_cong [of m1 m] by (simp add: m1_def r1_def reconnect_failed_def)
  show "recovered i g now False m1" if "Suc (rc_attempt r) = maxReconnectRetries"
    using that assms(3,4) i reconnect_alone [OF assms(1,2)]
    by (simp add: m1_def reconnect_failed_def recovered_def markDisconnected_def)
qed

text \<open>Up to the last attempt, one of which may succeed.\<close>

lemma reconnect_run_result:
  assumes "mgr_ok m" "r \<in> set (mg_reconnects m)" "rc_stage r = Waiting" "rc_owner r = i"
    "shouldReconnect m i (rc_failed r)" "\<not> ag_Connected (ac_info (conn_of m i))"
    "rc_attempt r + length oks = maxReconnectRetries"
  shows "mgr_reach m (reconnect_run oks now r m)
    \<and> recovered i (length (mg_gens m)) now (True \<in> set oks) (reconnect_run oks now r m)"
  using assms
proof (induction oks arbitrary: m r)
  case Nil
  with rc_attempt_less [OF Nil.prems(1,2)] show ?case by simp
next
  case (Cons ok oks)
  define r1 where "r1 = r\<lparr>rc_stage := Dialing\<rparr>"
  define m1 where "m1 = set_reconnect r r1 m"
  have w: "reconnect_wake True r m = m1" using Cons.prems(4,5) by (simp add: reconnect_wake_def m1_def r1_def)
  have s1: "mgr_step m m1" using mgr_step.rc_woken [OF Cons.prems(2,3)] w by metis
  have ok1: "mgr_ok m1" by (rule mgr_ok_step [OF s1 Cons.prems(1)])
  have r1: "r1 \<in> set (mg_reconnects m1)" "rc_stage r1 = Dialing" "rc_owner r1 = i" "rc_failed r1 = rc_failed r"
      "rc_attempt r1 = rc_attempt r" using Cons.prems(4) by (simp_all add: m1_def r1_def)
  have c1: "mg_gens m1 = mg_gens m" "\<not> ag_Connected (ac_info (conn_of m1 i))" "shouldReconnect m1 i (rc_failed r1)"
    using Cons.prems(5,6) shouldReconnect_cong [of m1 m] r1(4) by (simp_all add: m1_def)
  show ?case
  proof (cases ok)
    case True
    have "mgr_step m1 (reconnect_done now r1 m1)" by (rule mgr_step.rc_dialed [OF r1(1,2)])
    with s1 have "mgr_reach m (reconnect_done now r1 m1)" by (blast intro: mgr_reach_step mgr_reach.intros)
    with reconnect_done_result [OF ok1 r1(1) c1(3) r1(3), of now] True w c1(1) show ?thesis
      by (simp add: r1_def [symmetric])
  next
    case False
    let ?r2 = "r1\<lparr>rc_attempt := Suc (rc_attempt r1), rc_stage := Waiting\<rparr>" and ?m2 = "reconnect_failed r1 m1"
    have run: "reconnect_run (ok # oks) now r m = reconnect_run oks now ?r2 ?m2"
      using False w by (simp add: r1_def Let_def)
    have s2: "mgr_step m1 ?m2" by (rule mgr_step.rc_dial_failed [OF r1(1,2)])
    have ok2: "mgr_ok ?m2" by (rule mgr_ok_step [OF s2 ok1])
    note f = reconnect_failed_result [OF ok1 r1(1,3) c1(2,3)]
    have "mgr_reach ?m2 (reconnect_run oks now ?r2 ?m2)
        \<and> recovered i (length (mg_gens m)) now (True \<in> set oks) (reconnect_run oks now ?r2 ?m2)"
    proof (cases "oks = []")
      case True
      with Cons.prems(7) r1(5) f(2) show ?thesis by (simp add: mgr_reach.intros)
    next
      case False
      then have "Suc (rc_attempt r1) < maxReconnectRetries" using Cons.prems(7) r1(5) by (cases oks) simp_all
      from Cons.IH [OF ok2, of ?r2] f(1) [OF this] Cons.prems(7) r1(3,5) c1(1) show ?thesis by simp
    qed
    with s1 s2 False run show ?thesis by (auto intro: mgr_reach_step)
  qed
qed

text \<open>(C13) A lost connection is restored: when the socket of an agent that was neither disconnected nor shut down
  fails, the goroutine its read pump leaves behind makes up to five attempts, each a sequence of the manager's steps; if
  the \<open>n\<close>-th of them succeeds, the agent is connected again through a new generation that has its own read
  pump, and if all fail it is shown as disconnected. Either way that goroutine has ended.\<close>
theorem reconnect_recovers:
  assumes "mgr_reach NewManager m" "g < length (mg_gens m)" "gn_pump (gen_of m g) = PumpReading"
    "shouldReconnect m i g" "gn_owner (gen_of m g) = i" "length oks = maxReconnectRetries"
  shows "let r = \<lparr>rc_owner = i, rc_failed = g, rc_attempt = 0, rc_stage = Starting\<rparr>;
      m1 = reconnect_start r (pump_exit g (pump_failed g m));
      m2 = reconnect_run oks now (r\<lparr>rc_stage := Waiting\<rparr>) m1
    in mgr_reach m m2 \<and> recovered i (length (mg_gens m)) now (True \<in> set oks) m2"
proof -
  let ?r = "\<lparr>rc_owner = i, rc_failed = g, rc_attempt = 0, rc_stage = Starting\<rparr>"
  define m0 where "m0 = pump_failed g m"
  define m1 where "m1 = pump_exit g m0"
  define m2 where "m2 = reconnect_start ?r m1"
  have ok: "mgr_ok m" by (rule mgr_ok_reach [OF assms(1) mgr_ok_new])
  have i: "i < length (mg_conns m)" "ac_generation (conn_of m i) = g"
    using mgr_okD(4,5) [OF ok assms(2)] assms(3,5) by simp_all
  have m0: "m0 = (on_gen g (\<lambda>gn. gn\<lparr>gn_pump := PumpLeaving\<rparr>) m)\<lparr>mg_reconnects := mg_reconnects m @ [?r]\<rparr>"
    using assms(4,5) by (simp add: m0_def pump_failed_def Let_def)
  have m1: "mg_conns m1 = mg_conns (markDisconnected i g m)" "length (mg_gens m1) = length (mg_gens m)"
      "mg_cancelled m1 = mg_cancelled m" "?r \<in> set (mg_reconnects m1)"
    using assms(2,5) by (simp_all add: m1_def m0 pump_exit_def markDisconnected_def on_conn_def)
  have s0: "mgr_step m m0" unfolding m0_def by (rule mgr_step.read_failed [OF assms(2,3)])
  have s1: "mgr_step m0 m1" unfolding m1_def by (rule mgr_step.pump_ended) (use assms(2) in \<open>simp_all add: m0\<close>)
  have s2: "mgr_step m1 m2" unfolding m2_def by (rule mgr_step.rc_started) (simp_all add: m1)
  have ok2: "mgr_ok m2" by (intro mgr_ok_step [OF s2] mgr_ok_step [OF s1] mgr_ok_step [OF s0] ok)
  have sh: "shouldReconnect m1 i g"
    using assms(4) i by (simp add: shouldReconnect_def ctx_done_def m1 markDisconnected_def)
  have m2: "m2 = set_reconnect ?r (?r\<lparr>rc_stage := Waiting\<rparr>) m1" using sh by (simp add: m2_def reconnect_start_def)
  have nc: "\<not> ag_Connected (ac_info (conn_of m2 i))" using i by (simp add: m2 m1 markDisconnected_def)
  have sh2: "shouldReconnect m2 i g" using sh shouldReconnect_cong [of m2 m1] by (simp add: m2)
  have "mgr_reach m2 (reconnect_run oks now (?r\<lparr>rc_stage := Waiting\<rparr>) m2) \<and>
      recovered i (length (mg_gens m2)) now (True \<in> set oks) (reconnect_run oks now (?r\<lparr>rc_stage := Waiting\<rparr>) m2)"
    using assms(6) sh2 nc by (intro reconnect_run_result [OF ok2]) (simp_all add: m2)
  then have "mgr_reach m (reconnect_run oks now (?r\<lparr>rc_stage := Waiting\<rparr>) m2)"
    and "recovered i (length (mg_gens m)) now (True \<in> set oks) (reconnect_run oks now (?r\<lparr>rc_stage := Waiting\<rparr>) m2)"
    using mgr_reach_step [OF s0 mgr_reach_step [OF s1 mgr_reach_step [OF s2]]] m1(2) by (simp_all add: m2)
  then show ?thesis unfolding Let_def m0_def [symmetric] m1_def [symmetric] m2_def [symmetric] by (rule conjI)
qed

theorem reconnect_recovers_witness:
  "\<exists>m. mgr_reach demo_manager m \<and> recovered 0 1 50 True m"
proof -
  have d: "0 < length (mg_gens demo_manager)" "gn_pump (gen_of demo_manager 0) = PumpReading"
    "shouldReconnect demo_manager 0 0" "gn_owner (gen_of demo_manager 0) = 0" "length (mg_gens demo_manager) = 1"
    by (simp_all add: demo_simps shouldReconnect_def ctx_done_def)
  have "length [False, False, True, False, False] = maxReconnectRetries" by (simp add: maxReconnectRetries_def)
  from reconnect_recovers [OF demo_reach d(1-4) this, of 50] show ?thesis
    unfolding d(5) Let_def by auto
qed

end
