(* ===== verification/DbBackup.thy ===== *)
theory DbBackup
  imports OsFacts GoText
begin

text \<open>
  The copy of a database that is kept before a new version opens it
  (\<^verbatim>\<open>control-center/backend/dbbackup/dbbackup.go\<close>). \<open>glob\<close> is \<^verbatim>\<open>filepath.Glob\<close>: what a pattern
  matches in a tree, none when the pattern is malformed.
\<close>

definition keepBackups :: nat where "keepBackups = 5"

section \<open>Model\<close>

text \<open>Every character but letters, digits, dot, underscore and hyphen becomes an underscore.\<close>

definition version_char :: "nat \<Rightarrow> bool" where
  "version_char r \<longleftrightarrow> (65 \<le> r \<and> r \<le> 90) \<or> (97 \<le> r \<and> r \<le> 122) \<or> (48 \<le> r \<and> r \<le> 57) \<or> r \<in> {46, 95, 45}"

definition safe_version :: "string \<Rightarrow> string" where
  "safe_version s = map (\<lambda>r. if version_char r then char_of r else CHR ''_'') (runes s)"

text \<open>The bytes copied before an error, and the error.\<close>

definition copy_into :: "osenv \<Rightarrow> fsys \<Rightarrow> path \<Rightarrow> node \<Rightarrow> path \<Rightarrow> fsys \<times> oserr option" where
  "copy_into E fs src nd tmp =
     (case nd of Dir \<Rightarrow> (fs, Some EISDIR)
      | File c \<Rightarrow> (case fault E SRead src of
          Some err \<Rightarrow> (case write_at E fs tmp (take (progress E src) c) 0 of
              (fs1, _, Some err') \<Rightarrow> (fs1, Some err') | (fs1, _, None) \<Rightarrow> (fs1, Some err))
        | None \<Rightarrow> (case write_at E fs tmp c 0 of (fs1, _, r) \<Rightarrow> (fs1, r))))"

definition publish :: "osenv \<Rightarrow> fsys \<Rightarrow> path \<Rightarrow> node \<Rightarrow> path \<Rightarrow> path \<Rightarrow> fsys \<times> goerr option" where
  "publish E fs src nd tmp dst =
     (case copy_into E fs src nd tmp of
        (fs1, Some err) \<Rightarrow> (fst (remove E fs1 tmp), Some (Sprintf ''copy database: %w'' [GOs err]))
      | (fs1, None) \<Rightarrow> (case fault E SSync tmp of
          Some err \<Rightarrow> (fst (remove E fs1 tmp), Some (Sprintf ''flush backup: %w'' [GOs err]))
        | None \<Rightarrow> (case fault E SClose tmp of
            Some err \<Rightarrow> (fst (remove E fs1 tmp), Some (Sprintf ''close backup: %w'' [GOs err]))
          | None \<Rightarrow> (case fault E SChmod tmp of
              Some err \<Rightarrow> (fst (remove E fs1 tmp), Some (Sprintf ''restrict backup: %w'' [GOs err]))
            | None \<Rightarrow> (case rename E fs1 tmp dst of
                (fs2, Some err) \<Rightarrow> (fst (remove E fs2 tmp), Some (Sprintf ''publish backup: %w'' [GOs err]))
              | (fs2, None) \<Rightarrow> (fs2, None))))))"

definition copyFile :: "osenv \<Rightarrow> fsys \<Rightarrow> path \<Rightarrow> path \<Rightarrow> fsys \<times> goerr option" where
  "copyFile E fs src dst =
     (case open_read E fs src of Inl err \<Rightarrow> (fs, Some (Sprintf ''open database: %w'' [GOs err]))
      | Inr nd \<Rightarrow> (case create_temp E fs (DirOf dst) (Base dst @ ''.tmp-'') [] of
          (fs1, Inl err) \<Rightarrow> (fs1, Some (Sprintf ''create backup: %w'' [GOs err]))
        | (fs1, Inr tmp) \<Rightarrow> publish E fs1 src nd tmp dst))"

text \<open>Backups whose data can be read, the latest first; the sort leaves the order of equal times open, here it is that of the names.\<close>

definition by_age :: "osenv \<Rightarrow> fsys \<Rightarrow> path list \<Rightarrow> path list" where
  "by_age E fs ms = sort_key (\<lambda>p. - mod_time E p) (filter (\<lambda>p. case stat E fs p of Inr _ \<Rightarrow> True | Inl _ \<Rightarrow> False) ms)"

definition remove_all :: "osenv \<Rightarrow> path list \<Rightarrow> fsys \<Rightarrow> fsys" where
  "remove_all E ps fs = fold (\<lambda>p fs. fst (remove E fs p)) ps fs"

type_synonym globber = "fsys \<Rightarrow> string \<Rightarrow> path list option"

definition prune :: "osenv \<Rightarrow> globber \<Rightarrow> fsys \<Rightarrow> path \<Rightarrow> fsys" where
  "prune E glob fs dbPath = (case glob fs (dbPath @ ''.bak-*'') of None \<Rightarrow> fs
     | Some matches \<Rightarrow> if length matches \<le> keepBackups then fs
         else remove_all E (drop keepBackups (by_age E fs matches)) fs)"

definition BackupBeforeUpgrade :: "osenv \<Rightarrow> globber \<Rightarrow> fsys \<Rightarrow> path \<Rightarrow> string \<Rightarrow> fsys \<times> string result" where
  "BackupBeforeUpgrade E glob fs dbPath version0 =
     (let v = TrimPrefix (TrimSpace version0) ''v'' in
      if v = [] then (fs, Inl (lit ''version is required''))
      else (case stat E fs dbPath of
          Inl err \<Rightarrow> if err = ENOENT then (fs, Inr []) else (fs, Inl (Sprintf ''stat database: %w'' [GOs err]))
        | Inr info \<Rightarrow>
          if is_dir info \<or> node_size E dbPath info = 0 then (fs, Inr [])
          else let backupPath = dbPath @ ''.bak-'' @ safe_version v in
            (case stat E fs backupPath of Inr _ \<Rightarrow> (fs, Inr [])
             | Inl _ \<Rightarrow> (case copyFile E fs dbPath backupPath of
                 (fs1, Some err) \<Rightarrow> (fs1, Inl err)
               | (fs1, None) \<Rightarrow> (prune E glob fs1 dbPath, Inr backupPath)))))"

section \<open>Facts\<close>

lemma remove_all_same: "set ps \<subseteq> A \<Longrightarrow> same_except A fs (remove_all E ps fs)"
proof (induction ps arbitrary: fs)
  case (Cons p ps)
  have "same_except A fs (fst (remove E fs p))" using Cons.prems by (intro remove_frame) simp
  also have "same_except A (fst (remove E fs p)) (remove_all E ps (fst (remove E fs p)))" using Cons by simp
  finally show ?case by (simp add: remove_all_def)
qed (simp add: remove_all_def)

lemma copy_into_ok:
  assumes "copy_into E fs src nd tmp = (fs1, None)" "fmlookup fs tmp = Some (File [])"
  shows "\<exists>c. nd = File c \<and> fs1 = fmupd tmp (File c) fs"
  using assms by (auto simp: copy_into_def write_at_def splice_def resize_def zeros_def Let_def split: node.splits option.splits prod.splits if_splits)

lemma copy_into_same: "same_except {tmp} fs (fst (copy_into E fs src nd tmp))"
proof -
  have w: "same_except {tmp} fs (fst (write_at E fs tmp d 0))" for d by (rule write_at_frame) simp
  show ?thesis
  proof (cases nd)
    case (File c)
    then show ?thesis using w [of c] w [of "take (progress E src) c"]
      by (auto simp: copy_into_def split: option.splits prod.splits)
  qed (simp add: copy_into_def)
qed

lemma remove_one_same: "same_except {tmp} fs fs1 \<Longrightarrow> same_except {tmp} fs (fst (remove E fs1 tmp))"
  using remove_frame [of tmp "{tmp}" fs1 E] same_except_trans by blast

lemma publish_cases:
  assumes "publish E fs src nd tmp dst = (fs', r)" "fmlookup fs tmp = Some (File [])"
  shows "r = None \<Longrightarrow> \<exists>c. nd = File c \<and> fs' = fmupd dst (File c) (fmdrop tmp fs)"
    "r \<noteq> None \<Longrightarrow> same_except {tmp} fs fs'"
proof -
  obtain fs1 c1 where c: "copy_into E fs src nd tmp = (fs1, c1)" by force
  have 1: "same_except {tmp} fs fs1" using copy_into_same [of tmp fs E src nd] c by simp
  have ren: "same_except {tmp} fs1 fs2" if "rename E fs1 tmp dst = (fs2, Some err)" for fs2 err
    using that by (auto simp: rename_def split: option.splits node.splits)
  show "\<exists>c. nd = File c \<and> fs' = fmupd dst (File c) (fmdrop tmp fs)" if "r = None"
  proof -
    have c0: "c1 = None" "rename E fs1 tmp dst = (fs', None)"
      using assms(1) c that by (auto simp: publish_def split: option.splits prod.splits)
    from copy_into_ok [OF c [unfolded c0(1)] assms(2)] obtain d where d: "nd = File d" "fs1 = fmupd tmp (File d) fs" by blast
    have "fs' = fmupd dst (File d) (fmdrop tmp fs1)"
      using c0(2) d(2) by (auto simp: rename_def split: option.splits node.splits)
    moreover have "fmdrop tmp fs1 = fmdrop tmp fs" unfolding d(2) by (rule fmap_ext) simp
    ultimately show ?thesis using d(1) by simp
  qed
  show "same_except {tmp} fs fs'" if "r \<noteq> None"
    using assms(1) c that remove_one_same [OF 1] remove_one_same [OF same_except_trans [OF 1 ren]]
    by (auto simp: publish_def split: option.splits prod.splits)
qed

lemma copyFile_cases:
  assumes "copyFile E fs src dst = (fs1, q)" "tmp = JoinPath [DirOf dst, (Base dst @ ''.tmp-'') @ rand_suffix E @ []]"
  shows "q = None \<Longrightarrow> \<exists>c. fmlookup fs src = Some (File c) \<and> fmlookup fs tmp = None \<and> fs1 = fmupd dst (File c) (fmdrop tmp fs)"
    "q \<noteq> None \<Longrightarrow> fs1 = fs \<or> fmlookup fs tmp = None \<and> same_except {tmp} fs fs1"
proof -
  have "(q = None \<longrightarrow> (\<exists>c. fmlookup fs src = Some (File c) \<and> fmlookup fs tmp = None \<and> fs1 = fmupd dst (File c) (fmdrop tmp fs)))
    \<and> (q \<noteq> None \<longrightarrow> fs1 = fs \<or> fmlookup fs tmp = None \<and> same_except {tmp} fs fs1)"
  proof (cases "open_read E fs src")
    case (Inl err)
    with assms(1) show ?thesis by (auto simp: copyFile_def)
  next
    case (Inr nd)
    then have nd: "fmlookup fs src = Some nd" by (auto simp: open_read_def split: option.splits)
    obtain fs2 t where ct: "create_temp E fs (DirOf dst) (Base dst @ ''.tmp-'') [] = (fs2, t)" by force
    show ?thesis
    proof (cases t)
      case (Inl err)
      with create_temp_err [OF ct [unfolded Inl]] assms(1) Inr ct show ?thesis by (auto simp: copyFile_def)
    next
      case t: (Inr p)
      have pt: "p = tmp" using ct t by (auto simp: create_temp_def assms(2) Let_def split: option.splits if_splits)
      note c1 = create_temp_ok [OF ct [unfolded t pt]]
      have pub: "publish E fs2 src nd tmp dst = (fs1, q)" using assms(1) Inr ct t pt by (simp add: copyFile_def)
      have fd: "fmdrop tmp (fmupd tmp (File []) fs) = fmdrop tmp fs" by (rule fmap_ext) simp
      have "fmlookup fs2 tmp = Some (File [])" "same_except {tmp} fs fs2" using c1 by auto
      with publish_cases [OF pub] c1 nd fd show ?thesis by (auto intro: same_except_trans)
    qed
  qed
  then show "q = None \<Longrightarrow> \<exists>c. fmlookup fs src = Some (File c) \<and> fmlookup fs tmp = None \<and> fs1 = fmupd dst (File c) (fmdrop tmp fs)"
    "q \<noteq> None \<Longrightarrow> fs1 = fs \<or> fmlookup fs tmp = None \<and> same_except {tmp} fs fs1" by blast+
qed

text \<open>Pruning leaves the newest backup, and everything that is not a backup.\<close>

lemma sort_key_first:
  fixes f :: "'a \<Rightarrow> int"
  assumes "x \<in> set xs" "distinct xs" "\<And>y. y \<in> set xs \<Longrightarrow> y \<noteq> x \<Longrightarrow> f x < f y"
  shows "x \<notin> set (drop (Suc n) (sort_key f xs))"
proof (cases "sort_key f xs")
  case (Cons y ys)
  have s: "set (y # ys) = set xs" "distinct (y # ys)" using assms(2) unfolding Cons [symmetric] by simp_all
  have "sorted (map f (y # ys))" unfolding Cons [symmetric] by (rule sorted_sort_key)
  then have "f y \<le> f z" if "z \<in> set ys" for z using that by simp
  moreover have "y \<in> set xs" using s(1) by auto
  ultimately have "x = y" using assms(1,3) s(1) by force
  with s(2) have "x \<notin> set ys" by simp
  then show ?thesis unfolding Cons by (auto dest: in_set_dropD)
qed simp

lemma prune_keeps:
  assumes "glob fs (db @ ''.bak-*'') = Some ms \<Longrightarrow> distinct ms \<and> (\<forall>p \<in> set ms. HasPrefix p (db @ ''.bak-''))"
    and "\<And>p. HasPrefix p (db @ ''.bak-'') \<Longrightarrow> p \<noteq> b \<Longrightarrow> mod_time E p < mod_time E b"
    and "\<And>ms'. glob fs (db @ ''.bak-*'') = Some ms' \<Longrightarrow> ms' = ms"
  shows "same_except ({p. HasPrefix p (db @ ''.bak-'')} - {b}) fs (prune E glob fs db)"
proof (cases "glob fs (db @ ''.bak-*'')")
  case (Some ms')
  then have g: "glob fs (db @ ''.bak-*'') = Some ms" using assms(3) by simp
  let ?live = "filter (\<lambda>p. case stat E fs p of Inr _ \<Rightarrow> True | Inl _ \<Rightarrow> False) ms"
  have "b \<notin> set (drop keepBackups (by_age E fs ms))"
  proof (cases "b \<in> set ?live")
    case True
    then have "b \<notin> set (drop (Suc 4) (sort_key (\<lambda>p. - mod_time E p) ?live))"
      using assms(1) [OF g] assms(2) by (intro sort_key_first) auto
    then show ?thesis by (simp add: keepBackups_def by_age_def numeral_eq_Suc)
  next
    case False
    then show ?thesis by (auto simp: by_age_def dest: in_set_dropD)
  qed
  moreover have "set (drop keepBackups (by_age E fs ms)) \<subseteq> {p. HasPrefix p (db @ ''.bak-'')}"
    using assms(1) [OF g] by (auto simp: by_age_def dest!: in_set_dropD)
  ultimately have "set (drop keepBackups (by_age E fs ms)) \<subseteq> {p. HasPrefix p (db @ ''.bak-'')} - {b}" by blast
  then show ?thesis by (simp add: prune_def g remove_all_same)
qed (simp add: prune_def)

lemma backup_prefix: "HasPrefix (db @ ''.bak-'' @ v) (db @ ''.bak-'')"
  by (simp add: HasPrefix_def)

lemma nonempty_file: "(\<exists>c. nd = File c \<and> c \<noteq> []) \<longleftrightarrow> \<not> is_dir nd \<and> node_size E p nd \<noteq> 0"
  by (cases nd) auto

lemma db_no_backup: "\<not> HasPrefix db (db @ ''.bak-'')"
  by (simp add: HasPrefix_def)

text \<open>(C34) A database is safe across an upgrade: whatever fails on the machine, the database is left as it is and nothing but
  its backups and one temporary file changes; a reported backup holds exactly the content of the database, and the
  pruning that follows leaves it in place. Without a report of a backup nothing but the temporary file has changed.
  The pattern of the pruning is assumed to match only backups of this database, as it does when its path has no pattern
  characters, and the new backup to be the most recently modified.\<close>
theorem backup_before_upgrade:
  assumes "BackupBeforeUpgrade E glob fs dbPath version = (fs', r)"
    and "\<And>fs1 ms. glob fs1 (dbPath @ ''.bak-*'') = Some ms \<Longrightarrow> distinct ms \<and> (\<forall>p \<in> set ms. HasPrefix p (dbPath @ ''.bak-''))"
    and "b = dbPath @ ''.bak-'' @ safe_version (TrimPrefix (TrimSpace version) ''v'')"
    and "\<And>p. HasPrefix p (dbPath @ ''.bak-'') \<Longrightarrow> p \<noteq> b \<Longrightarrow> mod_time E p < mod_time E b"
    and "tmp = JoinPath [DirOf b, (Base b @ ''.tmp-'') @ rand_suffix E @ []]"
  shows "fmlookup fs' dbPath = fmlookup fs dbPath \<and> same_except ({p. HasPrefix p (dbPath @ ''.bak-'')} \<union> {tmp}) fs fs'
     \<and> (r = Inr b \<or> same_except {tmp} fs fs')
     \<and> (r = Inr b \<longrightarrow> (\<exists>c. fmlookup fs dbPath = Some (File c) \<and> c \<noteq> [] \<and> fmlookup fs' b = Some (File c)))"
proof -
  let ?B = "{p. HasPrefix p (dbPath @ ''.bak-'')}"
  have b0: "b \<noteq> []" and bB: "b \<in> ?B" "dbPath \<notin> ?B" using backup_prefix db_no_backup by (simp_all add: assms(3))
  obtain fs1 q where cp: "copyFile E fs dbPath b = (fs1, q)" by force
  have "fs' = fs \<and> r \<noteq> Inr b \<or> (\<exists>nd. fmlookup fs dbPath = Some nd \<and> \<not> is_dir nd \<and> node_size E dbPath nd \<noteq> 0)
      \<and> (if q = None then fs' = prune E glob fs1 dbPath \<and> r = Inr b else fs' = fs1 \<and> r \<noteq> Inr b)"
    using assms(1) [unfolded BackupBeforeUpgrade_def Let_def assms(3) [symmetric]] b0 cp
    by (auto simp: stat_def split: if_splits sum.splits option.splits)
  then consider (same) "fs' = fs" "r \<noteq> Inr b" | (failed) c where "q \<noteq> None" "fmlookup fs dbPath = Some (File c)" "fs' = fs1" "r \<noteq> Inr b"
    | (copied) c where "q = None" "fmlookup fs dbPath = Some (File c)" "c \<noteq> []" "fs' = prune E glob fs1 dbPath" "r = Inr b"
    by (auto simp: nonempty_file [symmetric] split: if_splits)
  then show ?thesis
  proof cases
    case failed
    then have "dbPath \<noteq> tmp \<or> fs1 = fs" "same_except {tmp} fs fs1"
      using copyFile_cases(2) [OF cp assms(5)] by auto
    with failed show ?thesis by (auto dest: same_exceptD intro: same_except_mono)
  next
    case copied
    from copyFile_cases(1) [OF cp assms(5) copied(1)] copied(2)
    have 1: "fmlookup fs tmp = None" "fs1 = fmupd b (File c) (fmdrop tmp fs)" by auto
    have pr: "same_except (?B - {b}) fs1 fs'"
    proof (cases "glob fs1 (dbPath @ ''.bak-*'')")
      case (Some ms)
      show ?thesis unfolding copied(4)
        by (rule prune_keeps [where ms = ms]) (use assms(2) [OF Some] assms(4) Some in auto)
    qed (simp add: copied(4) prune_def)
    have "dbPath \<noteq> tmp" "dbPath \<noteq> b" using 1(1) copied(2) bB by auto
    then have "fmlookup fs1 dbPath = fmlookup fs dbPath" by (simp add: 1(2))
    moreover have "fmlookup fs' dbPath = fmlookup fs1 dbPath" "fmlookup fs' b = fmlookup fs1 b"
      using same_exceptD [OF pr] bB by auto
    moreover have "same_except (?B \<union> {tmp}) fs fs1" using bB(1) by (auto simp: 1(2) same_except_def)
    then have "same_except (?B \<union> {tmp}) fs fs'" by (rule same_except_trans) (rule same_except_mono [OF pr], blast)
    ultimately show ?thesis using copied(2,3,5) by (simp add: 1(2))
  qed simp
qed

definition demo_db :: fsys where
  "demo_db = fmupd ''/'' Dir (fmupd ''/a.db'' (File ''data'') fmempty)"

definition demo_env :: osenv where
  "demo_env = quiet\<lparr>mod_time := (\<lambda>p. if p = ''/a.db.bak-1.2'' then 1 else 0)\<rparr>"

definition demo_glob :: globber where
  "demo_glob fs pat = (if fmlookup fs ''/a.db.bak-1.2'' = None then Some [] else Some [''/a.db.bak-1.2''])"

lemma demo_backup_paths:
  "TrimPrefix (TrimSpace ''v1.2'') ''v'' = ''1.2''" "safe_version ''1.2'' = ''1.2''"
  "DirOf ''/a.db.bak-1.2'' = ''/''" "Base ''/a.db.bak-1.2'' = ''a.db.bak-1.2''"
  "JoinPath [''/'', ''a.db.bak-1.2.tmp-1''] = ''/a.db.bak-1.2.tmp-1''" "DirOf ''/a.db.bak-1.2.tmp-1'' = ''/''"
  by code_simp+

lemma demo_backup_result: "snd (BackupBeforeUpgrade demo_env demo_glob demo_db ''/a.db'' ''v1.2'') = Inr ''/a.db.bak-1.2''"
  unfolding BackupBeforeUpgrade_def demo_backup_paths
  by (simp add: stat_def demo_db_def demo_env_def quiet_def copyFile_def open_read_def create_temp_def parent_err_def
      demo_backup_paths demo_backup_paths [simplified] publish_def copy_into_def write_at_def rename_def Let_def)

lemma backup_before_upgrade_witness:
  "\<exists>fs'. BackupBeforeUpgrade demo_env demo_glob demo_db ''/a.db'' ''v1.2'' = (fs', Inr ''/a.db.bak-1.2'')
     \<and> fmlookup fs' ''/a.db.bak-1.2'' = Some (File ''data'') \<and> fmlookup fs' ''/a.db'' = Some (File ''data'')"
proof -
  let ?b = "''/a.db.bak-1.2''"
  obtain fs' r where e: "BackupBeforeUpgrade demo_env demo_glob demo_db ''/a.db'' ''v1.2'' = (fs', r)" by force
  have r: "r = Inr ?b" using demo_backup_result e by simp
  have b: "?b = ''/a.db'' @ ''.bak-'' @ safe_version (TrimPrefix (TrimSpace ''v1.2'') ''v'')"
    unfolding demo_backup_paths by simp
  have g: "demo_glob fs1 (''/a.db'' @ ''.bak-*'') = Some ms \<Longrightarrow> distinct ms \<and> (\<forall>p \<in> set ms. HasPrefix p (''/a.db'' @ ''.bak-''))" for fs1 ms
    by (auto simp: demo_glob_def HasPrefix_def split: if_splits)
  have m: "p \<noteq> ?b \<Longrightarrow> mod_time demo_env p < mod_time demo_env ?b" for p by (simp add: demo_env_def)
  have d: "fmlookup demo_db ''/a.db'' = Some (File ''data'')" by (simp add: demo_db_def)
  from backup_before_upgrade [OF e g b m refl] r d e show ?thesis by auto
qed

end
