(* ===== verification/Discovery.thy ===== *)
theory Discovery
  imports Wol
begin

text \<open>
  Agents announce themselves on the network and the control center listens
  (\<^verbatim>\<open>agent/internal/discovery/mdns.go\<close>,
  \<^verbatim>\<open>control-center/backend/discovery/discover.go\<close>). The announcing and querying package is third-party:
  making a service and a server of it are arguments, and so are the entries a query yields.
\<close>

section \<open>The agent's announcement\<close>

definition ServiceName :: string where "ServiceName = ''_lan-commander._tcp''"
definition Domain :: string where "Domain = ''local.''"

text \<open>The first IPv4 address of an interface that is up, outside the loop-back network.\<close>

fun first_ipv4 :: "ifaddr list \<Rightarrow> 8 word list option" where
  "first_ipv4 [] = None"
| "first_ipv4 (OtherAddr # as) = first_ipv4 as"
| "first_ipv4 (IPv4Net ip msk # as) = (if hd ip = 127 then first_ipv4 as else Some ip)"

fun first_local :: "iface list \<Rightarrow> 8 word list option" where
  "first_local [] = None"
| "first_local (i # is) =
     (if \<not> if_up i \<or> if_loopback i then first_local is
      else case if_addrs i of None \<Rightarrow> first_local is
        | Some as \<Rightarrow> (case first_ipv4 as of Some ip \<Rightarrow> Some ip | None \<Rightarrow> first_local is))"

definition getLocalIP :: "goerr + iface list \<Rightarrow> 8 word list option" where
  "getLocalIP interfaces = (case interfaces of Inl _ \<Rightarrow> None | Inr ifs \<Rightarrow> first_local ifs)"

record announcement =
  an_instance :: string
  an_service :: string
  an_domain :: string
  an_host :: string
  an_port :: int
  an_ips :: "8 word list list"
  an_txt :: "string list"

record 'srv MDNSService =
  ms_server :: 'srv
  ms_port :: int

definition txt_records :: "string \<Rightarrow> string \<Rightarrow> string \<Rightarrow> bool \<Rightarrow> string list" where
  "txt_records version os arch hasAuth =
     [''version='' @ version, ''os='' @ os, ''arch='' @ arch, ''auth='' @ (if hasAuth then ''true'' else ''false'')]"

definition announce :: "string \<Rightarrow> goerr + iface list \<Rightarrow> string \<Rightarrow> string \<Rightarrow> string \<Rightarrow> int \<Rightarrow> bool \<Rightarrow> announcement" where
  "announce hostname interfaces version os arch port hasAuth =
     \<lparr>an_instance = hostname, an_service = ServiceName, an_domain = Domain, an_host = [], an_port = port,
      an_ips = (case getLocalIP interfaces of None \<Rightarrow> [] | Some ip \<Rightarrow> [ip]),
      an_txt = txt_records version os arch hasAuth\<rparr>"

definition NewMDNSService ::
  "goerr + string \<Rightarrow> goerr + iface list \<Rightarrow> string \<Rightarrow> string \<Rightarrow> string \<Rightarrow> (announcement \<Rightarrow> 'svc result) \<Rightarrow> ('svc \<Rightarrow> 'srv result)
    \<Rightarrow> int \<Rightarrow> bool \<Rightarrow> 'srv MDNSService result" where
  "NewMDNSService hostname interfaces version os arch new_service new_server port hasAuth =
     (case hostname of Inl err \<Rightarrow> Inl (Sprintf ''cannot get hostname: %w'' [GErr err])
      | Inr h \<Rightarrow> (case new_service (announce h interfaces version os arch port hasAuth) of
          Inl err \<Rightarrow> Inl (Sprintf ''failed to create mDNS service: %w'' [GErr err])
        | Inr service \<Rightarrow> (case new_server service of
            Inl err \<Rightarrow> Inl (Sprintf ''failed to start mDNS server: %w'' [GErr err])
          | Inr server \<Rightarrow> Inr \<lparr>ms_server = server, ms_port = port\<rparr>)))"

section \<open>Entries and agents\<close>

text \<open>\<open>se_addrV6\<close> is the text of the address.\<close>

record ServiceEntry =
  se_host :: string
  se_addrV4 :: "8 word list option"
  se_addrV6 :: "string option"
  se_port :: int
  se_info :: "string list"

record AgentDiscovered =
  ad_host :: string
  ad_port :: int
  ad_name :: string
  ad_os :: string
  ad_arch :: string
  ad_version :: string
  ad_mac :: string

text \<open>
  \<^verbatim>\<open>strings.ToLower\<close> of a key. Two characters outside ASCII have an ASCII lower case, the
  dotted capital I and the Kelvin sign; every other one stays outside the keys that are compared.
\<close>

fun lower_key :: "string \<Rightarrow> string" where
  "lower_key [] = []"
| "lower_key (c # cs) =
     (if HasPrefix (c # cs) [CHR 0xC4, CHR 0xB0] then CHR ''i'' # lower_key (drop 1 cs)
      else if HasPrefix (c # cs) [CHR 0xE2, CHR 0x84, CHR 0xAA] then CHR ''k'' # lower_key (drop 2 cs)
      else lower_char c # lower_key cs)"

text \<open>\<^verbatim>\<open>strings.SplitN(txt, "=", 2)\<close> when it yields two parts.\<close>

definition split_pair :: "string \<Rightarrow> (string \<times> string) option" where
  "split_pair txt = (if CHR ''='' \<in> set txt
     then Some (takeWhile (\<lambda>c. c \<noteq> CHR ''='') txt, tl (dropWhile (\<lambda>c. c \<noteq> CHR ''='') txt)) else None)"

definition txt_field :: "string \<Rightarrow> AgentDiscovered \<Rightarrow> AgentDiscovered" where
  "txt_field txt info = (case split_pair txt of None \<Rightarrow> info
     | Some (k, v) \<Rightarrow>
       (let key = lower_key (TrimSpace k); value = TrimSpace v in
        if key = ''name'' then info\<lparr>ad_name := value\<rparr>
        else if key = ''os'' then info\<lparr>ad_os := value\<rparr>
        else if key = ''arch'' then info\<lparr>ad_arch := value\<rparr>
        else if key = ''version'' then info\<lparr>ad_version := value\<rparr>
        else if key = ''mac'' then info\<lparr>ad_mac := value\<rparr>
        else info))"

definition entry_host :: "ServiceEntry \<Rightarrow> string option" where
  "entry_host e = (case se_addrV4 e of Some ip \<Rightarrow> Some (ip_string ip) | None \<Rightarrow> se_addrV6 e)"

definition ParseAgentInfoFromMDNS :: "ServiceEntry option \<Rightarrow> AgentDiscovered option" where
  "ParseAgentInfoFromMDNS entry =
     (case entry of None \<Rightarrow> None
      | Some e \<Rightarrow> (case entry_host e of None \<Rightarrow> None
        | Some host \<Rightarrow> Some (fold txt_field (se_info e)
            \<lparr>ad_host = host, ad_port = se_port e,
             ad_name = (if se_host e \<noteq> [] then TrimSuffix (se_host e) ''.'' else []),
             ad_os = [], ad_arch = [], ad_version = [], ad_mac = []\<rparr>)))"

definition ParsePort :: "string \<Rightarrow> int" where
  "ParsePort portStr = (case ParseInt portStr of
       (_, Some err) \<Rightarrow> 0
     | (port, None) \<Rightarrow> if port < 1 \<or> port > 65535 then 0 else port)"

definition ResolveHostname :: "(string \<Rightarrow> string list result) \<Rightarrow> string \<Rightarrow> string" where
  "ResolveHostname LookupAddr ip = (case LookupAddr ip of
       Inr (name # names) \<Rightarrow> TrimSuffix name ''.'' | _ \<Rightarrow> ip)"

section \<open>The listener\<close>

text \<open>
  \<open>dv_stopped\<close> tells that the stop channel is closed, \<open>dv_loops\<close> how many loops were started,
  \<open>dv_found\<close> the calls of the callback in order.
\<close>

record Discovery =
  dv_known :: "(string \<times> int) fset"
  dv_running :: bool
  dv_stopped :: bool
  dv_loops :: nat
  dv_found :: "AgentDiscovered list"

definition NewDiscovery :: Discovery where
  "NewDiscovery = \<lparr>dv_known = {||}, dv_running = False, dv_stopped = False, dv_loops = 0, dv_found = []\<rparr>"

definition StartDiscovery :: "Discovery \<Rightarrow> Discovery" where
  "StartDiscovery d = (if dv_running d then d else d\<lparr>dv_running := True, dv_loops := dv_loops d + 1\<rparr>)"

text \<open>Closing a closed channel panics: no value.\<close>

definition StopDiscovery :: "Discovery \<Rightarrow> Discovery option" where
  "StopDiscovery d = (if \<not> dv_running d then Some d
     else if dv_stopped d then None else Some (d\<lparr>dv_stopped := True, dv_running := False\<rparr>))"

definition IsRunning :: "Discovery \<Rightarrow> bool" where
  "IsRunning d = dv_running d"

definition agentKey :: "AgentDiscovered \<Rightarrow> string \<times> int" where
  "agentKey info = (ad_host info, ad_port info)"

definition handleEntry :: "ServiceEntry option \<Rightarrow> Discovery \<Rightarrow> Discovery" where
  "handleEntry entry d = (case ParseAgentInfoFromMDNS entry of None \<Rightarrow> d
     | Some info \<Rightarrow> if agentKey info |\<in>| dv_known d then d
         else d\<lparr>dv_known := finsert (agentKey info) (dv_known d), dv_found := dv_found d @ [info]\<rparr>)"

text \<open>One scan handles what the query yielded, also when it ended with an error; the loop scans at once and then at every tick.\<close>

definition scan :: "ServiceEntry option list \<Rightarrow> Discovery \<Rightarrow> Discovery" where
  "scan entries d = fold handleEntry entries d"

definition discovery_loop :: "ServiceEntry option list \<Rightarrow> ServiceEntry option list list \<Rightarrow> Discovery \<Rightarrow> Discovery" where
  "discovery_loop first ticks d = fold scan ticks (scan first d)"

section \<open>Facts\<close>

lemma txt_field_keeps [simp]: "ad_host (txt_field t i) = ad_host i" "ad_port (txt_field t i) = ad_port i"
  by (simp_all add: txt_field_def Let_def split: option.splits prod.splits)

lemma txt_fields_keep [simp]: "ad_host (fold txt_field ts i) = ad_host i" "ad_port (fold txt_field ts i) = ad_port i"
  by (induction ts arbitrary: i) simp_all

lemma handleEntry_keeps [simp]:
  "dv_running (handleEntry e d) = dv_running d" "dv_stopped (handleEntry e d) = dv_stopped d"
  "dv_loops (handleEntry e d) = dv_loops d"
  by (simp_all add: handleEntry_def split: option.splits)

definition reports_ok :: "Discovery \<Rightarrow> bool" where
  "reports_ok d \<longleftrightarrow> distinct (map agentKey (dv_found d)) \<and> set (map agentKey (dv_found d)) = fset (dv_known d)"

lemma reports_ok_new [simp]: "reports_ok NewDiscovery"
  by (simp add: reports_ok_def NewDiscovery_def)

lemma reports_ok_entry: "reports_ok d \<Longrightarrow> reports_ok (handleEntry e d)"
  by (auto simp: reports_ok_def handleEntry_def split: option.splits)

lemma handleEntry_known: "ParseAgentInfoFromMDNS e = Some i \<Longrightarrow> agentKey i |\<in>| dv_known (handleEntry e d)"
  by (simp add: handleEntry_def)

lemma handleEntry_mono: "k |\<in>| dv_known d \<Longrightarrow> k |\<in>| dv_known (handleEntry e d)"
  by (simp add: handleEntry_def split: option.splits)

lemma scan_mono: "k |\<in>| dv_known d \<Longrightarrow> k |\<in>| dv_known (scan es d)"
  unfolding scan_def by (induction es arbitrary: d) (simp_all add: handleEntry_mono)

lemma scan_known:
  "e \<in> set es \<Longrightarrow> ParseAgentInfoFromMDNS e = Some i \<Longrightarrow> agentKey i |\<in>| dv_known (scan es d)"
  unfolding scan_def
proof (induction es arbitrary: d)
  case (Cons a es)
  then show ?case using scan_mono [of "agentKey i" "handleEntry a d" es] handleEntry_known [of e i d]
    by (auto simp: scan_def)
qed simp

lemma reports_ok_scan: "reports_ok d \<Longrightarrow> reports_ok (scan es d)"
  unfolding scan_def by (induction es arbitrary: d) (simp_all add: reports_ok_entry)

lemma scan_concat: "discovery_loop first ticks d = scan (first @ concat ticks) d"
proof -
  have "fold scan ticks d = scan (concat ticks) d" for d
    by (induction ticks arbitrary: d) (simp_all add: scan_def)
  then show ?thesis by (simp add: discovery_loop_def scan_def)
qed

text \<open>A record \<open>key=value\<close> of graphic text is read back.\<close>

lemma split_pair_record:
  assumes "CHR ''='' \<notin> set k"
  shows "split_pair (k @ CHR ''='' # v) = Some (k, v)"
proof -
  have "takeWhile (\<lambda>c. c \<noteq> CHR ''='') (k @ CHR ''='' # v) = k" "dropWhile (\<lambda>c. c \<noteq> CHR ''='') (k @ CHR ''='' # v) = CHR ''='' # v"
    using assms by (induction k) auto
  then show ?thesis by (simp add: split_pair_def)
qed

declare lower_key.simps [simp del]

lemma key_names:
  "lower_key (TrimSpace ''version'') = ''version''" "lower_key (TrimSpace ''os'') = ''os''"
  "lower_key (TrimSpace ''arch'') = ''arch''" "lower_key (TrimSpace ''auth'') = ''auth''"
  by code_simp+

lemma key_plain:
  "CHR ''='' \<notin> set ''version''" "CHR ''='' \<notin> set ''os''" "CHR ''='' \<notin> set ''arch''" "CHR ''='' \<notin> set ''auth''"
  by simp_all

lemma announced_fields:
  assumes "graphic version" "graphic os" "graphic arch"
  shows "fold txt_field (txt_records version os arch hasAuth) i = i\<lparr>ad_version := version, ad_os := os, ad_arch := arch\<rparr>"
proof -
  have v: "txt_field (''version'' @ CHR ''='' # version) i = i\<lparr>ad_version := version\<rparr>" for i
    unfolding txt_field_def split_pair_record [OF key_plain(1)] option.case prod.case key_names TrimSpace_graphic [OF assms(1)] Let_def by simp
  have o: "txt_field (''os'' @ CHR ''='' # os) i = i\<lparr>ad_os := os\<rparr>" for i
    unfolding txt_field_def split_pair_record [OF key_plain(2)] option.case prod.case key_names TrimSpace_graphic [OF assms(2)] Let_def by simp
  have a: "txt_field (''arch'' @ CHR ''='' # arch) i = i\<lparr>ad_arch := arch\<rparr>" for i
    unfolding txt_field_def split_pair_record [OF key_plain(3)] option.case prod.case key_names TrimSpace_graphic [OF assms(3)] Let_def by simp
  have h: "txt_field (''auth'' @ CHR ''='' # v) i = i" for v i
    unfolding txt_field_def split_pair_record [OF key_plain(4)] option.case prod.case key_names Let_def by simp
  have r: "txt_records version os arch hasAuth = [''version'' @ CHR ''='' # version, ''os'' @ CHR ''='' # os,
      ''arch'' @ CHR ''='' # arch, ''auth'' @ CHR ''='' # (if hasAuth then ''true'' else ''false'')]"
    by (simp add: txt_records_def)
  show ?thesis unfolding r fold_simps v o a h by simp
qed

lemma found_parsed: "i \<in> set (dv_found (scan es d)) \<Longrightarrow> i \<in> set (dv_found d) \<or> (\<exists>e \<in> set es. ParseAgentInfoFromMDNS e = Some i)"
  unfolding scan_def
proof (induction es arbitrary: d)
  case (Cons e es)
  from Cons.prems have "i \<in> set (dv_found (fold handleEntry es (handleEntry e d)))" by simp
  from Cons.IH [OF this] show ?case by (auto simp: handleEntry_def split: option.splits if_splits)
qed simp

lemma filter_one:
  assumes "distinct (map f xs)" "x \<in> set xs"
  shows "filter (\<lambda>y. f y = f x) xs = [x]"
  using assms by (induction xs) (auto simp: filter_empty_conv image_iff)

lemma parse_announced:
  assumes "graphic version" "graphic os" "graphic arch" "se_addrV4 e = Some ip" "se_info e = txt_records version os arch hasAuth"
  shows "\<exists>i. ParseAgentInfoFromMDNS (Some e) = Some i \<and> agentKey i = (ip_string ip, se_port e) \<and> ad_version i = version
    \<and> ad_os i = os \<and> ad_arch i = arch"
  using assms announced_fields [OF assms(1-3)] by (simp add: ParseAgentInfoFromMDNS_def entry_host_def agentKey_def)

text \<open>(C37) An agent that announces itself is found once, with what it announced: when the network delivers its service entry,
  in whichever scan and however often, and nobody else uses its address, the control center reports exactly one agent at the
  agent's address and port, with the agent's version, operating system and architecture; and whatever else is
  delivered, no two reports have the same address and port.\<close>
theorem announced_agent_found:
  assumes "a = announce hostname interfaces version os arch port hasAuth" "getLocalIP interfaces = Some ip"
    "graphic version" "graphic os" "graphic arch"
    and "se_addrV4 e = Some (hd (an_ips a))" "se_port e = an_port a" "se_info e = an_txt a"
    and "Some e \<in> set (first @ concat ticks)"
    and "\<And>e' i. e' \<in> set (first @ concat ticks) \<Longrightarrow> ParseAgentInfoFromMDNS e' = Some i \<Longrightarrow>
      agentKey i = (ip_string ip, port) \<Longrightarrow> e' = Some e"
  shows "let found = dv_found (discovery_loop first ticks NewDiscovery) in distinct (map agentKey found)
     \<and> (\<exists>i. filter (\<lambda>i. agentKey i = (ip_string ip, port)) found = [i]
          \<and> ad_version i = version \<and> ad_os i = os \<and> ad_arch i = arch)"
proof -
  let ?es = "first @ concat ticks"
  let ?d = "scan ?es NewDiscovery"
  have ok: "reports_ok ?d" by (simp add: reports_ok_scan)
  obtain i where i: "ParseAgentInfoFromMDNS (Some e) = Some i" "agentKey i = (ip_string ip, port)"
      "ad_version i = version" "ad_os i = os" "ad_arch i = arch"
    using parse_announced [OF assms(3-5), of e ip hasAuth] assms(1,2,6-8) by (auto simp: announce_def)
  have "agentKey i |\<in>| dv_known ?d" by (rule scan_known [OF assms(9) i(1)])
  with ok obtain j where j: "j \<in> set (dv_found ?d)" "agentKey j = agentKey i" by (force simp: reports_ok_def)
  from found_parsed [OF j(1)] obtain e' where e': "e' \<in> set ?es" "ParseAgentInfoFromMDNS e' = Some j"
    by (auto simp: NewDiscovery_def)
  with assms(10) [OF e'] j(2) i(1,2) have ji: "j = i" by simp
  have d: "distinct (map agentKey (dv_found ?d))" using ok by (simp add: reports_ok_def)
  have "filter (\<lambda>y. agentKey y = (ip_string ip, port)) (dv_found ?d) = [i]"
    using filter_one [OF d j(1)] unfolding ji i(2) .
  with d i(3-5) show ?thesis by (simp add: scan_concat)
qed

definition demo_interfaces :: "iface list" where
  "demo_interfaces = [\<lparr>if_up = True, if_loopback = False, if_addrs = Some [OtherAddr, IPv4Net [192, 168, 1, 20] [255, 255, 255, 0]]\<rparr>]"

definition demo_entry :: ServiceEntry where
  "demo_entry = \<lparr>se_host = ''pc.local.'', se_addrV4 = Some [192, 168, 1, 20], se_addrV6 = None, se_port = 9443,
     se_info = txt_records ''1.1.0'' ''linux'' ''amd64'' True\<rparr>"

lemma announced_agent_found_witness:
  "\<exists>i. filter (\<lambda>i. agentKey i = (ip_string [192, 168, 1, 20], 9443))
     (dv_found (discovery_loop [Some demo_entry] [[Some demo_entry]] NewDiscovery)) = [i] \<and> ad_os i = ''linux''"
proof -
  let ?a = "announce ''pc'' (Inr demo_interfaces) ''1.1.0'' ''linux'' ''amd64'' 9443 True"
  have ip: "getLocalIP (Inr demo_interfaces) = Some [192, 168, 1, 20]" by code_simp
  have g: "graphic ''1.1.0''" "graphic ''linux''" "graphic ''amd64''" by (simp_all add: graphic_def)
  have "se_addrV4 demo_entry = Some (hd (an_ips ?a))" "se_port demo_entry = an_port ?a" "se_info demo_entry = an_txt ?a"
    by (simp_all add: demo_entry_def announce_def ip)
  from announced_agent_found [OF refl ip g this, of "[Some demo_entry]" "[[Some demo_entry]]"]
  show ?thesis unfolding Let_def by auto
qed

end
