(* ===== verification/AppWire.thy ===== *)
theory AppWire
  imports AgentStatus
begin

text \<open>
  The payloads of the control center's requests and of the answers it reads
  (\<^verbatim>\<open>control-center/backend/protocol/types.go\<close>): commands, directory listings and screenshots.
\<close>

section \<open>Requests\<close>

definition encode_exec :: "ExecCommandPayload \<Rightarrow> json" where
  "encode_exec r = JObj ([(''command'', JStr (ex_command r))]
     @ omit (ex_args r = []) ''args'' (JArr (map JStr (ex_args r)))
     @ omit (ex_timeout r = 0) ''timeout'' (JNum (ex_timeout r))
     @ omit (ex_shell r = []) ''shell'' (JStr (ex_shell r)))"

definition encode_list_dir :: "ListDirPayload \<Rightarrow> json" where
  "encode_list_dir r = JObj ([(''path'', JStr (ld_path r))]
     @ omit (ld_offset r = 0) ''offset'' (JNum (ld_offset r))
     @ omit (ld_limit r = 0) ''limit'' (JNum (ld_limit r)))"

section \<open>Answers\<close>

definition command_result_field :: "string \<Rightarrow> json \<Rightarrow> CommandResultPayload \<Rightarrow> CommandResultPayload option" where
  "command_result_field k v r =
     (if key_is k ''stdout'' then map_option (\<lambda>x. r\<lparr>cr_stdout := x\<rparr>) (dec_string (cr_stdout r) v)
      else if key_is k ''stderr'' then map_option (\<lambda>x. r\<lparr>cr_stderr := x\<rparr>) (dec_string (cr_stderr r) v)
      else if key_is k ''exit_code'' then map_option (\<lambda>x. r\<lparr>cr_exit_code := x\<rparr>) (dec_int (cr_exit_code r) v)
      else if key_is k ''duration_ms'' then map_option (\<lambda>x. r\<lparr>cr_duration := x\<rparr>) (dec_int (cr_duration r) v)
      else Some r)"

definition decode_command_result :: "json \<Rightarrow> CommandResultPayload option" where
  "decode_command_result = Unmarshal command_result_field
     \<lparr>cr_stdout = [], cr_stderr = [], cr_exit_code = 0, cr_duration = 0\<rparr>"

definition dir_entry_field :: "string \<Rightarrow> json \<Rightarrow> DirEntry \<Rightarrow> DirEntry option" where
  "dir_entry_field k v r =
     (if key_is k ''name'' then map_option (\<lambda>x. r\<lparr>de_name := x\<rparr>) (dec_string (de_name r) v)
      else if key_is k ''path'' then map_option (\<lambda>x. r\<lparr>de_path := x\<rparr>) (dec_string (de_path r) v)
      else if key_is k ''is_dir'' then map_option (\<lambda>x. r\<lparr>de_is_dir := x\<rparr>) (dec_bool (de_is_dir r) v)
      else if key_is k ''size'' then map_option (\<lambda>x. r\<lparr>de_size := x\<rparr>) (dec_int (de_size r) v)
      else if key_is k ''mode'' then map_option (\<lambda>x. r\<lparr>de_mode := x\<rparr>) (dec_string (de_mode r) v)
      else if key_is k ''mod_time'' then map_option (\<lambda>x. r\<lparr>de_mod_time := x\<rparr>) (dec_string (de_mod_time r) v)
      else Some r)"

definition zero_entry :: DirEntry where
  "zero_entry = \<lparr>de_name = [], de_path = [], de_is_dir = False, de_size = 0, de_mode = [], de_mod_time = []\<rparr>"

fun dec_entries :: "DirEntry list \<Rightarrow> json \<Rightarrow> DirEntry list option" where
  "dec_entries old (JArr vs) = dec_list (dec_struct dir_entry_field zero_entry) vs"
| "dec_entries old JNull = Some []"
| "dec_entries old _ = None"

definition dir_contents_field :: "string \<Rightarrow> json \<Rightarrow> DirContentsPayload \<Rightarrow> DirContentsPayload option" where
  "dir_contents_field k v r =
     (if key_is k ''path'' then map_option (\<lambda>x. r\<lparr>dc_path := x\<rparr>) (dec_string (dc_path r) v)
      else if key_is k ''entries'' then map_option (\<lambda>x. r\<lparr>dc_entries := x\<rparr>) (dec_entries (dc_entries r) v)
      else if key_is k ''total'' then map_option (\<lambda>x. r\<lparr>dc_total := x\<rparr>) (dec_int (dc_total r) v)
      else if key_is k ''next_offset'' then map_option (\<lambda>x. r\<lparr>dc_next_offset := x\<rparr>) (dec_int (dc_next_offset r) v)
      else if key_is k ''has_more'' then map_option (\<lambda>x. r\<lparr>dc_has_more := x\<rparr>) (dec_bool (dc_has_more r) v)
      else Some r)"

definition decode_dir_contents :: "json \<Rightarrow> DirContentsPayload option" where
  "decode_dir_contents = Unmarshal dir_contents_field
     \<lparr>dc_path = [], dc_entries = [], dc_total = 0, dc_next_offset = 0, dc_has_more = False\<rparr>"

definition screenshot_field :: "string \<Rightarrow> json \<Rightarrow> ScreenshotDataPayload \<Rightarrow> ScreenshotDataPayload option" where
  "screenshot_field k v r =
     (if key_is k ''format'' then map_option (\<lambda>x. r\<lparr>sd_format := x\<rparr>) (dec_string (sd_format r) v)
      else if key_is k ''data'' then map_option (\<lambda>x. r\<lparr>sd_data := x\<rparr>) (dec_bytes (sd_data r) v)
      else if key_is k ''width'' then map_option (\<lambda>x. r\<lparr>sd_width := x\<rparr>) (dec_int (sd_width r) v)
      else if key_is k ''height'' then map_option (\<lambda>x. r\<lparr>sd_height := x\<rparr>) (dec_int (sd_height r) v)
      else Some r)"

definition decode_screenshot :: "json \<Rightarrow> ScreenshotDataPayload option" where
  "decode_screenshot = Unmarshal screenshot_field \<lparr>sd_format = [], sd_data = [], sd_width = 0, sd_height = 0\<rparr>"

section \<open>Round trips\<close>

lemma via_list_dir:
  "exact (ld_offset r) \<Longrightarrow> exact (ld_limit r) \<Longrightarrow> via_interface (encode_list_dir r) = encode_list_dir r"
  by (simp add: encode_list_dir_def omit_def)

lemma decode_encode_list_dir:
  "exact (ld_offset r) \<Longrightarrow> exact (ld_limit r) \<Longrightarrow> decode_list_dir (via_interface (encode_list_dir r)) = Some r"
  by (cases r) (simp add: encode_list_dir_def omit_def decode_list_dir_def Unmarshal_def list_dir_field_def status_keys exact_ranges)

lemma decode_strings: "dec_list (dec_string []) (map (via_interface \<circ> JStr) ss) = Some ss"
  by (induction ss) simp_all

lemma decode_encode_exec:
  "exact (ex_timeout r) \<Longrightarrow> decode_exec (via_interface (encode_exec r)) = Some r"
  by (cases r) (simp add: encode_exec_def omit_def decode_exec_def Unmarshal_def exec_field_def status_keys exact_ranges decode_strings)

lemma decode_encode_command_result:
  "exact (cr_exit_code r) \<Longrightarrow> exact (cr_duration r) \<Longrightarrow>
     decode_command_result (via_interface (encode_command_result r)) = Some r"
  by (cases r) (simp add: encode_command_result_def decode_command_result_def Unmarshal_def command_result_field_def status_keys exact_ranges)

lemma decode_dir_entry:
  "exact (de_size r) \<Longrightarrow> dec_struct dir_entry_field zero_entry (via_interface (encode_dir_entry r)) = Some r"
  by (cases r) (simp add: encode_dir_entry_def dir_entry_field_def status_keys exact_ranges zero_entry_def)

lemma decode_entries:
  "list_all (\<lambda>e. exact (de_size e)) es \<Longrightarrow>
     dec_list (dec_struct dir_entry_field zero_entry) (map (via_interface \<circ> encode_dir_entry) es) = Some es"
  by (induction es) (simp_all add: decode_dir_entry)

lemma decode_encode_dir_contents:
  assumes "exact (dc_total r)" "exact (dc_next_offset r)" "list_all (\<lambda>e. exact (de_size e)) (dc_entries r)"
  shows "decode_dir_contents (via_interface (encode_dir_contents r)) = Some r"
  using assms decode_entries [OF assms(3)]
  by (cases r) (simp add: encode_dir_contents_def decode_dir_contents_def Unmarshal_def dir_contents_field_def status_keys exact_ranges)

lemma decode_encode_screenshot:
  "exact (sd_width r) \<Longrightarrow> exact (sd_height r) \<Longrightarrow> decode_screenshot (via_interface (encode_screenshot r)) = Some r"
  by (cases r) (simp add: encode_screenshot_def decode_screenshot_def Unmarshal_def screenshot_field_def status_keys exact_ranges)

end
