(* ===== verification/App.thy ===== *)
theory App
  imports AppWire ClientMgr Session Scripting FileTransfer Discovery DbBackup CCAudit
begin

text \<open>
  The control center's application (\<^verbatim>\<open>control-center/app.go\<close>): what the user interface calls, on
  the client manager, the saved sessions, the audit log, the scripts and the local files. The
  interface itself, its dialogs and the log output are not modelled.
\<close>

section \<open>Surroundings and state\<close>

text \<open>
  The operations of the client manager the application calls, on a state that stands for the
  manager, its connections and the agents behind them.
\<close>

record 'r netops =
  no_connect :: "'r \<Rightarrow> string \<Rightarrow> int \<Rightarrow> ConnectOptions \<Rightarrow> 'r \<times> string result"
  no_disconnect :: "'r \<Rightarrow> string \<Rightarrow> 'r \<times> goerr option"
  no_request :: "'r requester"
  no_agents :: "'r \<Rightarrow> AgentInfo list"
  no_agent :: "'r \<Rightarrow> string \<Rightarrow> AgentInfo option"
  no_close :: "'r \<Rightarrow> 'r"

text \<open>The machine during one call: the text of formatted values, the clock, the drivers' errors.\<close>

record 't appenv =
  ae_os :: osenv
  ae_envs :: "nat \<Rightarrow> osenv"
  ae_text :: "gotext \<Rightarrow> string"
  ae_now :: int
  ae_date :: string
  ae_db :: dbfail
  ae_audit :: auditfail
  ae_codec :: codec
  ae_templates :: "'t templates"
  ae_polls :: ctx_polls
  ae_uuid :: string
  ae_source :: "nat \<Rightarrow> bytes \<Rightarrow> bytes"
  ae_udp :: udp

text \<open>The transfer context is absent before startup; \<open>ap_transfers\<close> counts the wait group.\<close>

record 'r App =
  ap_net :: 'r
  ap_sessions :: sessionManager
  ap_audit :: LoggerCC
  ap_scripts :: Engine
  ap_fs :: fsys
  ap_discover :: Discovery
  ap_ready :: bool
  ap_transferCtx :: "bool option"
  ap_shuttingDown :: bool
  ap_transfers :: nat

definition defaultTimeout :: int where "defaultTimeout = 30 * 10 ^ 9"

definition app_log :: "'t appenv \<Rightarrow> string \<Rightarrow> string \<Rightarrow> string \<Rightarrow> gotext \<Rightarrow> string \<Rightarrow> 'r App \<Rightarrow> 'r App" where
  "app_log V action agentID user details status a =
     a\<lparr>ap_audit := LogCC (ae_audit V) (ae_now V) action agentID user (ae_text V details) status (ap_audit a)\<rparr>"

definition on_net :: "('r \<Rightarrow> 'r \<times> 'x) \<Rightarrow> 'r App \<Rightarrow> 'r App \<times> 'x" where
  "on_net f a = (case f (ap_net a) of (r, x) \<Rightarrow> (a\<lparr>ap_net := r\<rparr>, x))"

definition on_sessions :: "(sessionManager \<Rightarrow> sessionManager \<times> 'x) \<Rightarrow> 'r App \<Rightarrow> 'r App \<times> 'x" where
  "on_sessions f a = (case f (ap_sessions a) of (s, x) \<Rightarrow> (a\<lparr>ap_sessions := s\<rparr>, x))"

text \<open>\<^verbatim>\<open>errors.Is\<close>: an error is the target, or wraps it with the verb \<^verbatim>\<open>%w\<close>.\<close>

fun err_verbs :: "string \<Rightarrow> string" where
  "err_verbs (c # d # r) = (if c = CHR ''%'' then d # err_verbs r else err_verbs (d # r))"
| "err_verbs _ = []"

fun errors_Is :: "goerr \<Rightarrow> goerr \<Rightarrow> bool" and wraps_any :: "goerr \<Rightarrow> string \<Rightarrow> goarg list \<Rightarrow> bool" where
  "errors_Is target (Sprintf f as) = (Sprintf f as = target \<or> wraps_any target (err_verbs f) as)"
| "wraps_any target (v # vs) (GErr e # as) = (v = CHR ''w'' \<and> errors_Is target e \<or> wraps_any target vs as)"
| "wraps_any target (v # vs) (GStr s # as) = wraps_any target vs as"
| "wraps_any target (v # vs) (GInt i # as) = wraps_any target vs as"
| "wraps_any target (v # vs) (GBool b # as) = wraps_any target vs as"
| "wraps_any target (v # vs) (GOs e # as) = wraps_any target vs as"
| "wraps_any target _ _ = False"

section \<open>Agents and connections\<close>

definition redactAgentTokens :: "AgentInfo list \<Rightarrow> AgentInfo list" where
  "redactAgentTokens agents = map (\<lambda>a. a\<lparr>ag_AuthToken := []\<rparr>) agents"

definition GetAgents :: "'r netops \<Rightarrow> 'r App \<Rightarrow> AgentInfo list" where
  "GetAgents N a = redactAgentTokens (no_agents N (ap_net a))"

text \<open>The options a saved session connects with.\<close>

definition session_options :: "Session \<Rightarrow> ConnectOptions" where
  "session_options s = \<lparr>co_AuthToken = ss_token s, co_TLS = ss_tls s, co_UseTLS = False,
     co_CAFile = ss_ca_file s, co_ServerName = ss_server_name s\<rparr>"

definition no_options :: ConnectOptions where
  "no_options = \<lparr>co_AuthToken = [], co_TLS = False, co_UseTLS = False, co_CAFile = [], co_ServerName = []\<rparr>"

definition sessionForConnectionOptions :: "string \<Rightarrow> int \<Rightarrow> string \<Rightarrow> ConnectOptions \<Rightarrow> Session" where
  "sessionForConnectionOptions host port name options = \<lparr>ss_id = 0, ss_name = name, ss_host = host, ss_port = port,
     ss_token = co_AuthToken options, ss_tls = (co_TLS options \<or> co_UseTLS options), ss_ca_file = co_CAFile options,
     ss_server_name = co_ServerName options, ss_created = 0, ss_last = 0\<rparr>"

definition endpoint_name :: "string \<Rightarrow> int \<Rightarrow> string" where
  "endpoint_name host port = host @ '':'' @ FormatInt port"

definition port_err :: "string \<Rightarrow> int \<Rightarrow> goerr option" where
  "port_err host port =
     (if host = [] then Some (lit ''host cannot be empty'')
      else if port < 1 \<or> port > 65535 then Some (Sprintf ''invalid port: %d'' [GInt port]) else None)"

definition connectAgentWithOptions ::
  "'r netops \<Rightarrow> 't appenv \<Rightarrow> string \<Rightarrow> int \<Rightarrow> ConnectOptions \<Rightarrow> 'r App \<Rightarrow> 'r App \<times> goerr option" where
  "connectAgentWithOptions N V host port options a =
     (case port_err host port of Some err \<Rightarrow> (a, Some err)
      | None \<Rightarrow>
        (case on_net (\<lambda>r. no_connect N r host port options) a of
           (a1, Inl err) \<Rightarrow>
             (app_log V ''connect'' [] ''user'' (Sprintf ''Failed to connect to %s:%d: %v'' [GStr host, GInt port, GErr err])
                StatusError a1, Some (Sprintf ''failed to connect to agent: %w'' [GErr err]))
         | (a1, Inr agentID) \<Rightarrow>
             (fst (on_sessions (SaveSession (ae_db V) (ae_now V)
                (sessionForConnectionOptions host port (endpoint_name host port) options))
                (app_log V ''connect'' agentID ''user'' (Sprintf ''Connected to %s:%d'' [GStr host, GInt port]) StatusSuccess a1)),
              None)))"

definition ConnectAgent :: "'r netops \<Rightarrow> 't appenv \<Rightarrow> string \<Rightarrow> int \<Rightarrow> string \<Rightarrow> 'r App \<Rightarrow> 'r App \<times> goerr option" where
  "ConnectAgent N V host port authToken = connectAgentWithOptions N V host port (no_options\<lparr>co_AuthToken := authToken\<rparr>)"

definition secure_options :: "string \<Rightarrow> string \<Rightarrow> string \<Rightarrow> ConnectOptions" where
  "secure_options authToken caFile serverName = \<lparr>co_AuthToken = authToken, co_TLS = True, co_UseTLS = False,
     co_CAFile = caFile, co_ServerName = serverName\<rparr>"

definition ConnectAgentSecure ::
  "'r netops \<Rightarrow> 't appenv \<Rightarrow> string \<Rightarrow> int \<Rightarrow> string \<Rightarrow> string \<Rightarrow> string \<Rightarrow> 'r App \<Rightarrow> 'r App \<times> goerr option" where
  "ConnectAgentSecure N V host port authToken caFile serverName =
     connectAgentWithOptions N V host port (secure_options authToken caFile serverName)"

definition DisconnectAgent :: "'r netops \<Rightarrow> 't appenv \<Rightarrow> string \<Rightarrow> 'r App \<Rightarrow> 'r App \<times> goerr option" where
  "DisconnectAgent N V agentID a =
     (if agentID = [] then (a, Some (lit ''agent ID cannot be empty''))
      else (case on_net (\<lambda>r. no_disconnect N r agentID) a of
        (a1, Some err) \<Rightarrow> (app_log V ''disconnect'' agentID ''user'' (Sprintf ''Failed to disconnect: %v'' [GErr err]) StatusError a1,
            Some (Sprintf ''failed to disconnect: %w'' [GErr err]))
      | (a1, None) \<Rightarrow> (app_log V ''disconnect'' agentID ''user'' (lit ''Disconnected from agent'') StatusSuccess a1, None)))"

text \<open>A reconnected session may come with an identifier and an error.\<close>

definition ReconnectSession :: "'r netops \<Rightarrow> 't appenv \<Rightarrow> int \<Rightarrow> 'r App \<Rightarrow> 'r App \<times> string \<times> goerr option" where
  "ReconnectSession N V i a =
     (if i \<le> 0 then
        (let err = Sprintf ''invalid session ID: %d'' [GInt i]
         in (app_log V ''reconnect_session'' [] ''user'' err StatusError a, [], Some err))
      else (case on_sessions (LoadByID (ae_db V) i) a of
        (a1, Inl err) \<Rightarrow>
          (app_log V ''reconnect_session'' [] ''user'' (Sprintf ''Failed to load session %d: %v'' [GInt i, GErr err]) StatusError a1,
           [], Some (Sprintf ''failed to load session: %w'' [GErr err]))
      | (a1, Inr saved) \<Rightarrow>
        (case on_net (\<lambda>r. no_connect N r (ss_host saved) (ss_port saved) (session_options saved)) a1 of
           (a2, Inl err) \<Rightarrow>
             (app_log V ''reconnect_session'' [] ''user'' (Sprintf ''Failed to reconnect session %d at %s:%d: %v''
                [GInt i, GStr (ss_host saved), GInt (ss_port saved), GErr err]) StatusError a2,
              [], Some (Sprintf ''failed to reconnect session: %w'' [GErr err]))
         | (a2, Inr agentID) \<Rightarrow>
           (case on_sessions (UpdateLastConnected (ae_db V) (ae_now V) i) a2 of
              (a3, Some err) \<Rightarrow>
                (app_log V ''reconnect_session'' agentID ''user'' (Sprintf ''Connected but failed to update session %d: %v''
                   [GInt i, GErr err]) StatusError a3,
                 agentID, Some (Sprintf ''connected to agent but failed to update session: %w'' [GErr err]))
            | (a3, None) \<Rightarrow>
                (app_log V ''reconnect_session'' agentID ''user'' (Sprintf ''Reconnected session %d to %s:%d''
                   [GInt i, GStr (ss_host saved), GInt (ss_port saved)]) StatusSuccess a3, agentID, None)))))"

section \<open>Saved sessions\<close>

definition saveSessionWithOptions :: "'t appenv \<Rightarrow> string \<Rightarrow> int \<Rightarrow> string \<Rightarrow> ConnectOptions \<Rightarrow> 'r App \<Rightarrow> 'r App \<times> goerr option" where
  "saveSessionWithOptions V host port name0 options a =
     (case port_err host port of Some err \<Rightarrow> (a, Some err)
      | None \<Rightarrow>
        let name = (if name0 = [] then endpoint_name host port else name0) in
        (case on_sessions (SaveSession (ae_db V) (ae_now V) (sessionForConnectionOptions host port name options)) a of
           (a1, Inl err) \<Rightarrow> (app_log V ''save_session'' [] ''user'' (Sprintf ''Failed to save session: %v'' [GErr err]) StatusError a1,
              Some (Sprintf ''failed to save session: %w'' [GErr err]))
         | (a1, Inr _) \<Rightarrow> (app_log V ''save_session'' [] ''user''
              (Sprintf ''Saved session: %s (%s:%d)'' [GStr name, GStr host, GInt port]) StatusSuccess a1, None)))"

definition SaveSessionPlain :: "'t appenv \<Rightarrow> string \<Rightarrow> int \<Rightarrow> string \<Rightarrow> string \<Rightarrow> 'r App \<Rightarrow> 'r App \<times> goerr option" where
  "SaveSessionPlain V host port name authToken =
     saveSessionWithOptions V host port name (no_options\<lparr>co_AuthToken := authToken\<rparr>)"

definition SaveSessionSecure ::
  "'t appenv \<Rightarrow> string \<Rightarrow> int \<Rightarrow> string \<Rightarrow> string \<Rightarrow> string \<Rightarrow> string \<Rightarrow> 'r App \<Rightarrow> 'r App \<times> goerr option" where
  "SaveSessionSecure V host port name authToken caFile serverName =
     saveSessionWithOptions V host port name (secure_options authToken caFile serverName)"

definition DeleteSession :: "'t appenv \<Rightarrow> int \<Rightarrow> 'r App \<Rightarrow> 'r App \<times> goerr option" where
  "DeleteSession V i a =
     (if i \<le> 0 then (a, Some (Sprintf ''invalid session ID: %d'' [GInt i]))
      else (case on_sessions (DeleteSessionRow (ae_db V) i) a of
        (a1, Some err) \<Rightarrow> (app_log V ''delete_session'' [] ''user'' (Sprintf ''Failed to delete session %d: %v'' [GInt i, GErr err]) StatusError a1,
            Some (Sprintf ''failed to delete session: %w'' [GErr err]))
      | (a1, None) \<Rightarrow> (app_log V ''delete_session'' [] ''user'' (Sprintf ''Deleted session %d'' [GInt i]) StatusSuccess a1, None)))"

definition GetSessions :: "'t appenv \<Rightarrow> 'r App \<Rightarrow> 'r App \<times> Session list" where
  "GetSessions V a = (case on_sessions (LoadAll (ae_db V)) a of
       (a1, Inl err) \<Rightarrow> (a1, [])
     | (a1, Inr sessions) \<Rightarrow> (a1, map (\<lambda>s. s\<lparr>ss_token := []\<rparr>) sessions))"

definition savedOptionsFor :: "'t appenv \<Rightarrow> string \<Rightarrow> int \<Rightarrow> 'r App \<Rightarrow> 'r App \<times> ConnectOptions" where
  "savedOptionsFor V host port a = (case on_sessions (LoadAll (ae_db V)) a of
       (a1, Inl err) \<Rightarrow> (a1, no_options)
     | (a1, Inr saved) \<Rightarrow> (case find (\<lambda>s. ss_host s = host \<and> ss_port s = port) saved of
         None \<Rightarrow> (a1, no_options) | Some s \<Rightarrow> (a1, session_options s)))"

section \<open>Callbacks\<close>

definition onAgentDiscovered :: "'r netops \<Rightarrow> 't appenv \<Rightarrow> AgentDiscovered \<Rightarrow> 'r App \<Rightarrow> 'r App" where
  "onAgentDiscovered N V d a =
     (let a1 = app_log V ''agent_discovered'' [] ''system'' (Sprintf ''Agent %s discovered at %s:%d (os=%s, arch=%s)''
            [GStr (ad_name d), GStr (ad_host d), GInt (ad_port d), GStr (ad_os d), GStr (ad_arch d)]) StatusSuccess a
      in if list_ex (\<lambda>g. ag_Host g = ad_host d \<and> ag_Port g = ad_port d) (no_agents N (ap_net a1)) then a1
         else (case savedOptionsFor V (ad_host d) (ad_port d) a1 of (a2, options) \<Rightarrow>
           (case on_net (\<lambda>r. no_connect N r (ad_host d) (ad_port d) options) a2 of
              (a3, Inr agentID) \<Rightarrow> a3
            | (a3, Inl err) \<Rightarrow>
                if errors_Is ErrAuthRequired err
                then app_log V ''agent_discovered'' [] ''system'' (Sprintf ''Agent %s at %s:%d requires a token; add it manually to connect''
                       [GStr (ad_name d), GStr (ad_host d), GInt (ad_port d)]) StatusWarning a3
                else a3)))"

definition onAgentMessage :: "'t appenv \<Rightarrow> string \<Rightarrow> Message \<Rightarrow> 'r App \<Rightarrow> 'r App" where
  "onAgentMessage V agentID msg a =
     (if msg_type msg = MsgCommandResult
      then app_log V ''command_result'' agentID ''system'' (lit ''Command result received'') StatusSuccess a
      else if msg_type msg = MsgError
      then app_log V ''agent_error'' agentID ''system''
             (if msg_error msg = no_text then lit ''unknown error'' else msg_error msg) StatusError a
      else a)"

end
