(* ===== verification/AppRequests.thy ===== *)
theory AppRequests
  imports App
begin

text \<open>
  The application's requests to agents, directory listings, transfers and Wake-on-LAN
  (\<^verbatim>\<open>control-center/app.go\<close>).
\<close>

section \<open>Requests\<close>

text \<open>\<^verbatim>\<open>SendAndParse\<close> on the client manager.\<close>

definition send_parse :: "'r netops \<Rightarrow> (json \<Rightarrow> 'x option) \<Rightarrow> string \<Rightarrow> string \<Rightarrow> json \<Rightarrow> int \<Rightarrow> 'r \<Rightarrow> 'r \<times> 'x result" where
  "send_parse N decode agentID t payload timeout r =
     (case no_request N r agentID t payload timeout of (r1, m, err) \<Rightarrow> (r1, parse_response decode (m, err)))"

text \<open>
  Whole seconds of a duration in nanoseconds, truncated toward zero; the source goes through a floating-point
  number, which is exact for the whole seconds it is given.
\<close>

definition seconds_of :: "int \<Rightarrow> int" where
  "seconds_of d = (if d \<ge> 0 then d div 10 ^ 9 else - ((- d) div 10 ^ 9))"

definition requestCommandResult :: "'r netops \<Rightarrow> string \<Rightarrow> string \<Rightarrow> int \<Rightarrow> 'r \<Rightarrow> 'r \<times> CommandResultPayload result" where
  "requestCommandResult N agentID command timeout =
     send_parse N decode_command_result agentID MsgExecCommand
       (encode_exec \<lparr>ex_command = command, ex_args = [], ex_timeout = seconds_of timeout, ex_shell = []\<rparr>) timeout"

definition requestSystemInfo :: "'r netops \<Rightarrow> string \<Rightarrow> 'r \<Rightarrow> 'r \<times> SystemInfoPayload result" where
  "requestSystemInfo N agentID = send_parse N decode_system_info agentID MsgSystemInfo (JObj []) defaultTimeout"

text \<open>The seconds of the caller as a duration, in 64 bits.\<close>

definition exec_duration :: "int \<Rightarrow> int" where
  "exec_duration timeout = (if timeout > 0 then wrap64 (timeout * 10 ^ 9) else defaultTimeout)"

definition ExecCommand :: "'r netops \<Rightarrow> 't appenv \<Rightarrow> string \<Rightarrow> string \<Rightarrow> int \<Rightarrow> 'r App \<Rightarrow> 'r App \<times> CommandResultPayload result" where
  "ExecCommand N V agentID command timeout a =
     (if agentID = [] then (a, Inl (lit ''agent ID cannot be empty''))
      else if command = [] then (a, Inl (lit ''command cannot be empty''))
      else (case on_net (requestCommandResult N agentID command (exec_duration timeout)) a of
        (a1, Inl err) \<Rightarrow> (app_log V ''exec_command'' agentID ''user'' (Sprintf ''Command failed: %v'' [GErr err]) StatusError a1,
           Inl (Sprintf ''command execution failed: %w'' [GErr err]))
      | (a1, Inr result) \<Rightarrow> (app_log V ''exec_command'' agentID ''user''
           (Sprintf ''Command: %s (exit code: %d)'' [GStr command, GInt (cr_exit_code result)])
           (if cr_exit_code result \<noteq> 0 then StatusError else StatusSuccess) a1, Inr result)))"

text \<open>
  One goroutine per agent; each asks its agent and then, under the mutex, enters the result. They
  finish in the order of the list.
\<close>

record multi =
  mu_results :: "(string, CommandResultPayload) fmap"
  mu_succeeded :: int
  mu_failed :: int

definition failed_result :: "'t appenv \<Rightarrow> goerr \<Rightarrow> CommandResultPayload" where
  "failed_result V err = \<lparr>cr_stdout = [], cr_stderr = ae_text V err, cr_exit_code = -1, cr_duration = 0\<rparr>"

definition multi_enter :: "'t appenv \<Rightarrow> string \<Rightarrow> CommandResultPayload result \<Rightarrow> multi \<Rightarrow> multi" where
  "multi_enter V agentID r s = (case r of
       Inl err \<Rightarrow> s\<lparr>mu_results := fmupd agentID (failed_result V err) (mu_results s), mu_failed := mu_failed s + 1\<rparr>
     | Inr result \<Rightarrow>
         (let s1 = s\<lparr>mu_results := fmupd agentID result (mu_results s)\<rparr>
          in if cr_exit_code result = 0 then s1\<lparr>mu_succeeded := mu_succeeded s1 + 1\<rparr> else s1\<lparr>mu_failed := mu_failed s1 + 1\<rparr>))"

fun multi_run :: "'r netops \<Rightarrow> 't appenv \<Rightarrow> string \<Rightarrow> int \<Rightarrow> string list \<Rightarrow> 'r \<times> multi \<Rightarrow> 'r \<times> multi" where
  "multi_run N V command duration [] st = st"
| "multi_run N V command duration (agentID # ids) (r, s) =
     (case requestCommandResult N agentID command duration r of
        (r1, x) \<Rightarrow> multi_run N V command duration ids (r1, multi_enter V agentID x s))"

definition ExecCommandMulti ::
  "'r netops \<Rightarrow> 't appenv \<Rightarrow> string list \<Rightarrow> string list \<Rightarrow> string \<Rightarrow> int \<Rightarrow> 'r App \<Rightarrow> 'r App \<times> (string, CommandResultPayload) fmap" where
  "ExecCommandMulti N V order agentIDs command timeout a =
     (if agentIDs = [] \<or> command = [] then (a, fmempty)
      else (case multi_run N V command (exec_duration timeout) order
          (ap_net a, \<lparr>mu_results = fmempty, mu_succeeded = 0, mu_failed = 0\<rparr>) of
        (r, s) \<Rightarrow>
          (app_log V ''exec_command_multi'' [] ''user'' (Sprintf ''Executed command on %d agents: %d succeeded, %d failed: %s''
             [GInt (int (length agentIDs)), GInt (mu_succeeded s), GInt (mu_failed s), GStr command])
             (if mu_failed s = int (length agentIDs) then StatusError else if mu_failed s > 0 then StatusWarning else StatusSuccess)
             (a\<lparr>ap_net := r\<rparr>), mu_results s)))"

section \<open>Directory listings\<close>

definition listDirPageSize :: int where "listDirPageSize = 500"
definition maxListedEntries :: nat where "maxListedEntries = 5000"
definition maxListDirRequest :: nat where "maxListDirRequest = maxListedEntries div nat listDirPageSize + 2"

definition merge_page :: "DirContentsPayload option \<Rightarrow> DirContentsPayload \<Rightarrow> DirContentsPayload" where
  "merge_page merged page = (case merged of None \<Rightarrow> page
     | Some m \<Rightarrow> m\<lparr>dc_entries := dc_entries m @ dc_entries page, dc_total := dc_total page,
         dc_next_offset := dc_next_offset page, dc_has_more := dc_has_more page\<rparr>)"

definition request_page :: "'r netops \<Rightarrow> string \<Rightarrow> string \<Rightarrow> int \<Rightarrow> 'r \<Rightarrow> 'r \<times> DirContentsPayload result" where
  "request_page N agentID path offset = send_parse N decode_dir_contents agentID MsgListDir
     (encode_list_dir \<lparr>ld_path = path, ld_offset = offset, ld_limit = listDirPageSize\<rparr>) defaultTimeout"

fun list_dir_loop ::
  "'r netops \<Rightarrow> string \<Rightarrow> string \<Rightarrow> nat \<Rightarrow> int \<Rightarrow> DirContentsPayload option \<Rightarrow> 'r \<Rightarrow> 'r \<times> DirContentsPayload option result" where
  "list_dir_loop N agentID path 0 offset merged r = (r, Inr merged)"
| "list_dir_loop N agentID path (Suc n) offset merged r =
     (case request_page N agentID path offset r of
        (r1, Inl err) \<Rightarrow> (r1, Inl err)
      | (r1, Inr page) \<Rightarrow>
          (let m = merge_page merged page in
           if \<not> dc_has_more page \<or> dc_next_offset page \<le> offset \<or> length (dc_entries m) \<ge> maxListedEntries
           then (r1, Inr (Some m))
           else list_dir_loop N agentID path n (dc_next_offset page) (Some m) r1))"

text \<open>At least one page has been merged, so the pointer is not nil.\<close>

lemma list_dir_loop_merged:
  "list_dir_loop N agentID path n offset merged r = (r1, Inr m) \<Longrightarrow> 0 < n \<or> merged \<noteq> None \<Longrightarrow> m \<noteq> None"
  by (induction N agentID path n offset merged r rule: list_dir_loop.induct)
    (auto simp: Let_def split: prod.splits sum.splits if_splits)

definition listDirPages :: "'r netops \<Rightarrow> string \<Rightarrow> string \<Rightarrow> 'r \<Rightarrow> 'r \<times> DirContentsPayload result" where
  "listDirPages N agentID path r = (case list_dir_loop N agentID path maxListDirRequest 0 None r of
       (r1, Inl err) \<Rightarrow> (r1, Inl err)
     | (r1, Inr None) \<Rightarrow> (r1, Inl (lit ''nil pointer dereference''))
     | (r1, Inr (Some m)) \<Rightarrow> (r1, Inr (if dc_total m < int (length (dc_entries m))
         then m\<lparr>dc_total := int (length (dc_entries m))\<rparr> else m)))"

definition ListDirApp :: "'r netops \<Rightarrow> 't appenv \<Rightarrow> string \<Rightarrow> string \<Rightarrow> 'r App \<Rightarrow> 'r App \<times> DirContentsPayload result" where
  "ListDirApp N V agentID path a =
     (if agentID = [] then (a, Inl (lit ''agent ID cannot be empty''))
      else if path = [] then (a, Inl (lit ''path cannot be empty''))
      else (case on_net (listDirPages N agentID path) a of
        (a1, Inl err) \<Rightarrow> (app_log V ''list_dir'' agentID ''user'' (Sprintf ''Failed: %v'' [GErr err]) StatusError a1,
           Inl (Sprintf ''failed to list directory: %w'' [GErr err]))
      | (a1, Inr result) \<Rightarrow> (app_log V ''list_dir'' agentID ''user'' (Sprintf ''Path: %s'' [GStr path]) StatusSuccess a1, Inr result)))"

section \<open>System information and screenshots\<close>

definition GetSystemInfoApp :: "'r netops \<Rightarrow> 't appenv \<Rightarrow> string \<Rightarrow> 'r App \<Rightarrow> 'r App \<times> SystemInfoPayload result" where
  "GetSystemInfoApp N V agentID a =
     (if agentID = [] then (a, Inl (lit ''agent ID cannot be empty''))
      else (case on_net (requestSystemInfo N agentID) a of
        (a1, Inl err) \<Rightarrow> (app_log V ''system_info'' agentID ''user'' (Sprintf ''Failed: %v'' [GErr err]) StatusError a1,
           Inl (Sprintf ''failed to get system info: %w'' [GErr err]))
      | (a1, Inr result) \<Rightarrow> (app_log V ''system_info'' agentID ''user'' (lit ''Retrieved system info'') StatusSuccess a1, Inr result)))"

definition RequestScreenshot :: "'r netops \<Rightarrow> 't appenv \<Rightarrow> string \<Rightarrow> 'r App \<Rightarrow> 'r App \<times> ScreenshotDataPayload result" where
  "RequestScreenshot N V agentID a =
     (if agentID = [] then (a, Inl (lit ''agent ID cannot be empty''))
      else (case on_net (send_parse N decode_screenshot agentID MsgScreenshot (JObj []) defaultTimeout) a of
        (a1, Inl err) \<Rightarrow> (app_log V ''screenshot'' agentID ''user'' (Sprintf ''Failed: %v'' [GErr err]) StatusError a1,
           Inl (Sprintf ''failed to request screenshot: %w'' [GErr err]))
      | (a1, Inr result) \<Rightarrow> (app_log V ''screenshot'' agentID ''user'' (lit ''Screenshot captured'') StatusSuccess a1, Inr result)))"

section \<open>Transfers\<close>

definition beginTransfer :: "'r App \<Rightarrow> 'r App \<times> goerr option" where
  "beginTransfer a =
     (if ap_shuttingDown a \<or> ap_transferCtx a = None \<or> ap_transferCtx a = Some True
      then (a, Some (lit ''application is shutting down''))
      else (a\<lparr>ap_transfers := ap_transfers a + 1\<rparr>, None))"

definition endTransfer :: "'r App \<Rightarrow> 'r App" where
  "endTransfer a = a\<lparr>ap_transfers := ap_transfers a - 1\<rparr>"

definition transfer_args :: "string \<Rightarrow> string \<Rightarrow> string \<Rightarrow> goerr option" where
  "transfer_args agentID remotePath localPath =
     (if agentID = [] then Some (lit ''agent ID cannot be empty'')
      else if remotePath = [] then Some (lit ''remote path cannot be empty'')
      else if localPath = [] then Some (lit ''local path cannot be empty'') else None)"

definition upload_args :: "string \<Rightarrow> string \<Rightarrow> string \<Rightarrow> goerr option" where
  "upload_args agentID localPath remotePath =
     (if agentID = [] then Some (lit ''agent ID cannot be empty'')
      else if localPath = [] then Some (lit ''local path cannot be empty'')
      else if remotePath = [] then Some (lit ''remote path cannot be empty'') else None)"

text \<open>No value when the transfer does not return.\<close>

text \<open>A call checks its arguments and registers; then it transfers, reports to the audit log and, deferred, signs off.\<close>

definition run_download :: "'r netops \<Rightarrow> 't appenv \<Rightarrow> string \<Rightarrow> string \<Rightarrow> string \<Rightarrow> 'r App \<Rightarrow> ('r App \<times> goerr option) option" where
  "run_download N V agentID remotePath localPath a =
     (case Download (Some (ae_polls V)) (Some (no_request N)) (ae_envs V) agentID remotePath localPath defaultTimeout
          (ap_net a) (ap_fs a) of
        None \<Rightarrow> None
      | Some (r, fs, err) \<Rightarrow>
        Some (endTransfer (app_log V ''transfer_download'' agentID ''user''
            (case err of None \<Rightarrow> Sprintf ''Remote: %s -> Local: %s'' [GStr remotePath, GStr localPath]
             | Some e \<Rightarrow> Sprintf ''Remote: %s -> Local: %s; failed: %v'' [GStr remotePath, GStr localPath, GErr e])
            (if err = None then StatusSuccess else StatusError) (a\<lparr>ap_net := r, ap_fs := fs\<rparr>)), err))"

definition TransferFile :: "'r netops \<Rightarrow> 't appenv \<Rightarrow> string \<Rightarrow> string \<Rightarrow> string \<Rightarrow> 'r App \<Rightarrow> ('r App \<times> goerr option) option" where
  "TransferFile N V agentID remotePath localPath a =
     (case transfer_args agentID remotePath localPath of Some err \<Rightarrow> Some (a, Some err)
      | None \<Rightarrow> (case beginTransfer a of (a1, Some err) \<Rightarrow> Some (a1, Some err)
        | (a1, None) \<Rightarrow> run_download N V agentID remotePath localPath a1))"

definition run_upload :: "'r netops \<Rightarrow> 't appenv \<Rightarrow> string \<Rightarrow> string \<Rightarrow> string \<Rightarrow> 'r App \<Rightarrow> ('r App \<times> goerr option) option" where
  "run_upload N V agentID localPath remotePath a =
     (case Upload (Some (ae_polls V)) (Some (no_request N)) (ae_envs V) (ae_uuid V) (ae_source V) agentID localPath remotePath
          defaultTimeout (ap_net a) (ap_fs a) of
        None \<Rightarrow> None
      | Some (r, err) \<Rightarrow>
        Some (endTransfer (app_log V ''transfer_upload'' agentID ''user''
            (case err of None \<Rightarrow> Sprintf ''Local: %s -> Remote: %s'' [GStr localPath, GStr remotePath]
             | Some e \<Rightarrow> Sprintf ''Local: %s -> Remote: %s; failed: %v'' [GStr localPath, GStr remotePath, GErr e])
            (if err = None then StatusSuccess else StatusError) (a\<lparr>ap_net := r\<rparr>)), err))"

definition UploadFileFromPath :: "'r netops \<Rightarrow> 't appenv \<Rightarrow> string \<Rightarrow> string \<Rightarrow> string \<Rightarrow> 'r App \<Rightarrow> ('r App \<times> goerr option) option" where
  "UploadFileFromPath N V agentID localPath remotePath a =
     (case upload_args agentID localPath remotePath of Some err \<Rightarrow> Some (a, Some err)
      | None \<Rightarrow> (case beginTransfer a of (a1, Some err) \<Rightarrow> Some (a1, Some err)
        | (a1, None) \<Rightarrow> run_upload N V agentID localPath remotePath a1))"

definition joinRemotePath :: "string \<Rightarrow> string \<Rightarrow> string" where
  "joinRemotePath directory name =
     (if HasSuffix directory ''/'' \<or> HasSuffix directory [CHR 0x5C] then directory @ name
      else directory @ (if Contains directory [CHR 0x5C] then [CHR 0x5C] else ''/'') @ name)"

text \<open>The native dialogs are third-party: \<open>chosen\<close> is the path the user picked, or an error.\<close>

definition DownloadFile :: "'r netops \<Rightarrow> 't appenv \<Rightarrow> string result \<Rightarrow> string \<Rightarrow> string \<Rightarrow> 'r App \<Rightarrow> ('r App \<times> goerr option) option" where
  "DownloadFile N V chosen agentID remotePath a =
     (if agentID = [] then Some (a, Some (lit ''agent ID cannot be empty''))
      else if remotePath = [] then Some (a, Some (lit ''remote path cannot be empty''))
      else if \<not> ap_ready a then Some (a, Some (lit ''application context is not initialized''))
      else (case chosen of Inl err \<Rightarrow> Some (a, Some (Sprintf ''open download dialog: %w'' [GErr err]))
        | Inr localPath \<Rightarrow> if localPath = [] then Some (a, None) else TransferFile N V agentID remotePath localPath a))"

definition UploadFile :: "'r netops \<Rightarrow> 't appenv \<Rightarrow> string result \<Rightarrow> string \<Rightarrow> string \<Rightarrow> 'r App \<Rightarrow> ('r App \<times> goerr option) option" where
  "UploadFile N V chosen agentID remoteDirectory a =
     (if agentID = [] then Some (a, Some (lit ''agent ID cannot be empty''))
      else if remoteDirectory = [] then Some (a, Some (lit ''remote directory cannot be empty''))
      else if \<not> ap_ready a then Some (a, Some (lit ''application context is not initialized''))
      else (case chosen of Inl err \<Rightarrow> Some (a, Some (Sprintf ''open upload dialog: %w'' [GErr err]))
        | Inr localPath \<Rightarrow> if localPath = [] then Some (a, None)
            else UploadFileFromPath N V agentID localPath (joinRemotePath remoteDirectory (Base localPath)) a))"

section \<open>Wake on LAN\<close>

definition WakeOnLAN :: "'t appenv \<Rightarrow> string \<Rightarrow> string \<Rightarrow> 'r App \<Rightarrow> 'r App \<times> datagram list \<times> goerr option" where
  "WakeOnLAN V macAddr broadcastIP a =
     (if macAddr = [] then (a, [], Some (lit ''MAC address cannot be empty''))
      else if \<not> ValidateMAC macAddr then (a, [], Some (Sprintf ''invalid MAC address format: %s'' [GStr macAddr]))
      else (case Send (ae_udp V) [] macAddr broadcastIP of
        (sent, Some err) \<Rightarrow> (app_log V ''wol'' [] ''user'' (Sprintf ''Failed: %v'' [GErr err]) StatusError a, sent,
           Some (Sprintf ''failed to send WOL packet: %w'' [GErr err]))
      | (sent, None) \<Rightarrow> (app_log V ''wol'' [] ''user'' (Sprintf ''Sent WOL to MAC: %s via %s'' [GStr macAddr, GStr broadcastIP])
           StatusSuccess a, sent, None)))"

end
