(* ===== verification/AppListing.thy ===== *)
theory AppListing
  imports AppRequests AgentLink
begin

text \<open>
  Directory listings over both programs: a locale states what the control center's paging needs
  of an agent, the loop is proved once against it, and the agent's handlers, reached over one
  authenticated connection, are an instance.
\<close>

section \<open>The paging loop on an agent that serves a directory\<close>

locale pager =
  fixes N :: "'r netops" and agentID path :: string and items :: "DirEntry list" and serves :: "'r \<Rightarrow> bool"
  assumes page_served: "serves r \<Longrightarrow> n \<le> length items \<Longrightarrow> request_page N agentID path (int n) r = (r1, x) \<Longrightarrow>
      serves r1 \<and> (\<exists>page. x = Inr page \<and> dc_entries page = take 500 (drop n items) \<and> dc_total page = int (length items)
        \<and> dc_has_more page = (n + 500 < length items) \<and> (dc_has_more page \<longrightarrow> dc_next_offset page = int (n + 500)))"
begin

definition merged_upto :: "nat \<Rightarrow> DirContentsPayload option \<Rightarrow> bool" where
  "merged_upto n merged \<longleftrightarrow> (case merged of None \<Rightarrow> n = 0 | Some m \<Rightarrow> dc_entries m = take n items)"

lemma merge_next:
  assumes "merged_upto n merged" "dc_entries page = take 500 (drop n items)"
  shows "dc_entries (merge_page merged page) = take (n + 500) items"
    "dc_total (merge_page merged page) = dc_total page" "dc_has_more (merge_page merged page) = dc_has_more page"
  using assms by (auto simp: merged_upto_def merge_page_def take_add split: option.splits)

lemma loop_pages:
  assumes "serves r" "500 * k \<le> length items" "k < 10" "10 - k \<le> fuel" "merged_upto (500 * k) merged"
  shows "\<exists>r' m. list_dir_loop N agentID path fuel (int (500 * k)) merged r = (r', Inr (Some m)) \<and> serves r'
    \<and> dc_entries m = take 5000 items \<and> dc_total m = int (length items) \<and> dc_has_more m = (5000 < length items)"
  using assms
proof (induction fuel arbitrary: k merged r)
  case (Suc fuel)
  obtain r1 x where q: "request_page N agentID path (int (500 * k)) r = (r1, x)" by force
  from page_served [OF Suc.prems(1,2) q] obtain page where p: "serves r1" "x = Inr page"
      "dc_entries page = take 500 (drop (500 * k) items)" "dc_total page = int (length items)"
      "dc_has_more page = (500 * k + 500 < length items)" "dc_has_more page \<Longrightarrow> dc_next_offset page = int (500 * k + 500)"
    by blast
  note m = merge_next [OF Suc.prems(5) p(3)]
  let ?m = "merge_page merged page"
  show ?case
  proof (cases "500 * k + 500 < length items \<and> k < 9")
    case True
    then have off: "dc_has_more page" "dc_next_offset page = int (500 * Suc k)" using p(5,6) by simp_all
    have "length (dc_entries ?m) < maxListedEntries" using True m(1) by (auto simp: maxListedEntries_def)
    then have step: "list_dir_loop N agentID path (Suc fuel) (int (500 * k)) merged r
        = list_dir_loop N agentID path fuel (int (500 * Suc k)) (Some ?m) r1"
      using off p(2) q by (simp add: Let_def)
    have "merged_upto (500 * Suc k) (Some ?m)" using m(1) by (simp add: merged_upto_def add.commute)
    from Suc.IH [OF p(1) _ _ _ this] True Suc.prems(4) show ?thesis unfolding step by simp
  next
    case False
    have e: "dc_entries ?m = take 5000 items"
    proof (cases "k = 9")
      case False
      with \<open>\<not> (500 * k + 500 < length items \<and> k < 9)\<close> Suc.prems(3) m(1) show ?thesis by simp
    qed (use m(1) in simp)
    have "\<not> dc_has_more page \<or> length (dc_entries ?m) \<ge> maxListedEntries"
      using False Suc.prems(3) p(5) e by (auto simp: maxListedEntries_def)
    then have "list_dir_loop N agentID path (Suc fuel) (int (500 * k)) merged r = (r1, Inr (Some ?m))"
      using p(2) q by (auto simp: Let_def)
    moreover have "(500 * k + 500 < length items) = (5000 < length items)" using False Suc.prems(3) by auto
    ultimately show ?thesis using p(1,4,5) e m(2,3) by simp
  qed
qed simp

lemma pages_complete:
  assumes "serves r"
  shows "\<exists>r' m. listDirPages N agentID path r = (r', Inr m) \<and> serves r' \<and> dc_entries m = take 5000 items
    \<and> dc_total m = int (length items) \<and> dc_has_more m = (5000 < length items)"
proof -
  have "10 \<le> maxListDirRequest" by (simp add: maxListDirRequest_def maxListedEntries_def listDirPageSize_def)
  moreover have "merged_upto 0 None" by (simp add: merged_upto_def)
  ultimately obtain r' m where "list_dir_loop N agentID path maxListDirRequest 0 None r = (r', Inr (Some m))" "serves r'"
      "dc_entries m = take 5000 items" "dc_total m = int (length items)" "dc_has_more m = (5000 < length items)"
    using loop_pages [of r 0 maxListDirRequest None] assms by auto
  then show ?thesis by (simp add: listDirPages_def)
qed

end

section \<open>The agent as a pager\<close>

text \<open>
  The agent serves the directory: nothing fails, its log is steady and elsewhere, and every entry
  is known, with a size below \<open>2 ^ 53\<close>.
\<close>

definition agent_lists :: "World \<Rightarrow> string \<Rightarrow> DirEntry list \<Rightarrow> HState \<Rightarrow> bool" where
  "agent_lists w path items st \<longleftrightarrow> connected w st \<and> int (length items) < 2 ^ 53 \<and> list_all (\<lambda>e. exact (de_size e)) items
     \<and> (\<exists>p. safePath (w_os w) path = Inr p \<and> fmlookup (hs_fs st) p = Some Dir
          \<and> map (dir_entry (w_os w) (hs_fs st) p) (listing (w_os w) (hs_fs st) p) = map Some items
          \<and> (\<forall>q \<in> log_paths (hs_log st). q \<noteq> p \<and> DirOf q \<noteq> p))"

lemma listing_same:
  assumes "same_except A fs fs1" "\<And>q. q \<in> A \<Longrightarrow> DirOf q \<noteq> p"
  shows "listing E fs1 p = listing E fs p" "map (dir_entry E fs1 p) (listing E fs1 p) = map (dir_entry E fs p) (listing E fs p)"
proof -
  have same: "fmlookup fs1 q = fmlookup fs q" if "DirOf q = p" for q
    using same_exceptD [OF assms(1)] assms(2) that by blast
  have "children fs1 p = children fs p"
  proof (rule fset_eqI)
    fix q
    show "q |\<in>| children fs1 p \<longleftrightarrow> q |\<in>| children fs p"
      using same [of q] by (cases "DirOf q = p") (simp_all add: children_def fmlookup_dom_iff)
  qed
  then show l: "listing E fs1 p = listing E fs p" by (simp add: listing_def)
  have "dir_entry E fs1 p q = dir_entry E fs p q" if "q \<in> set (listing E fs p)" for q
    using that same [of q] by (simp add: dir_entry_def listing_set)
  then show "map (dir_entry E fs1 p) (listing E fs1 p) = map (dir_entry E fs p) (listing E fs p)"
    unfolding l by (rule map_cong [OF refl])
qed

lemma map_filter_known: "map f xs = map Some ys \<Longrightarrow> List.map_filter f xs = ys"
proof (induction xs arbitrary: ys)
  case (Cons x xs)
  then show ?case by (cases ys) simp_all
qed simp

lemma agent_lists_log:
  assumes "agent_lists w path items st" "same_except (log_paths (hs_log st)) (hs_fs st) (hs_fs st1)" "connected w st1"
    "log_paths (hs_log st1) = log_paths (hs_log st)"
  shows "agent_lists w path items st1"
proof -
  obtain p where p: "safePath (w_os w) path = Inr p" "fmlookup (hs_fs st) p = Some Dir"
      "map (dir_entry (w_os w) (hs_fs st) p) (listing (w_os w) (hs_fs st) p) = map Some items"
      "\<forall>q \<in> log_paths (hs_log st). q \<noteq> p \<and> DirOf q \<noteq> p"
    using assms(1) by (auto simp: agent_lists_def)
  have "fmlookup (hs_fs st1) p = Some Dir" using same_exceptD [OF assms(2), of p] p(2,4) by auto
  moreover have "map (dir_entry (w_os w) (hs_fs st1) p) (listing (w_os w) (hs_fs st1) p) = map Some items"
    using listing_same(2) [OF assms(2)] p(3,4) by simp
  ultimately show ?thesis using assms(1,3,4) p(1,4) by (auto simp: agent_lists_def)
qed

lemma agent_page:
  assumes l: "agent_lists w path items st" and n: "n \<le> length items"
    and req: "request_page (N\<lparr>no_request := agent_request w tok uid\<rparr>) agentID path (int n) st = (st', x)"
  shows "agent_lists w path items st' \<and> (\<exists>page. x = Inr page \<and> dc_entries page = take 500 (drop n items)
    \<and> dc_total page = int (length items) \<and> dc_has_more page = (n + 500 < length items)
    \<and> (dc_has_more page \<longrightarrow> dc_next_offset page = int (n + 500)))"
proof -
  obtain p where p: "safePath (w_os w) path = Inr p" "fmlookup (hs_fs st) p = Some Dir"
      "map (dir_entry (w_os w) (hs_fs st) p) (listing (w_os w) (hs_fs st) p) = map Some items"
    using l by (auto simp: agent_lists_def)
  have con: "connected w st" and big: "int (length items) < 2 ^ 53" and ex: "list_all (\<lambda>e. exact (de_size e)) items"
    using l by (simp_all add: agent_lists_def)
  let ?L = "listing (w_os w) (hs_fs st) p"
  have len: "length ?L = length items" using arg_cong [OF p(3), of length] by simp
  define stop where "stop = min (n + 500) (length items)"
  define page where "page = \<lparr>dc_path = p, dc_entries = take 500 (drop n items), dc_total = int (length items),
      dc_next_offset = int stop, dc_has_more = stop < length items\<rparr>"
  have lim: "page_limit 500 = 500" by (simp add: page_limit_def MaxDirEntries_def)
  have "map (dir_entry (w_os w) (hs_fs st) p) (take (stop - n) (drop n ?L)) = map Some (take (stop - n) (drop n items))"
    using p(3) by (metis drop_map take_map)
  then have "List.map_filter (dir_entry (w_os w) (hs_fs st) p) (take (stop - n) (drop n ?L)) = take (stop - n) (drop n items)"
    by (rule map_filter_known)
  also have "\<dots> = take 500 (drop n items)" by (auto simp: stop_def min_def)
  finally have ld: "ListDir (w_os w) (hs_fs st) path (int n) 500 = Inr page"
    using ListDir_quiet [OF _ p(1,2), of "int n" 500] con n len lim by (simp add: connected_def page_def stop_def)
  let ?q = "\<lparr>ld_path = path, ld_offset = int n, ld_limit = 500\<rparr>"
  let ?msg = "\<lparr>msg_id = uid, msg_type = MsgListDir, msg_payload = encode_list_dir ?q, msg_time = w_now w, msg_error = no_text\<rparr>"
  have "exact (int n)" "exact 500" using n big by (simp_all add: exact_def)
  then have dec: "decode_list_dir (via_interface (msg_payload ?msg)) = Some ?q"
    using decode_encode_list_dir [of ?q] by simp
  define st2 where "st2 = (if n = 0 then record_ev w ''list_dir'' ResultOK (lit path) (drained st) else drained st)"
  have h: "handleMessage w tok ?msg (drained st) = sendResponse w uid MsgDirContents (encode_dir_contents page) st2"
    using con dec ld
    by (simp add: handleMessage_def dispatch_def msg_types connected_def handleListDir_def remarshal_def st2_def)
  have st2c: "hs_client st2 = (hs_client st)\<lparr>cl_send := []\<rparr>" by (simp add: st2_def)
  have "\<not> cl_closed (hs_client st)" using con by (simp add: connected_def)
  note r = agent_request_response [OF h st2c this, of agentID defaultTimeout]
  have "exact (dc_total page)" "exact (dc_next_offset page)" using big by (simp_all add: exact_def page_def stop_def min_def)
  moreover have "list_all (\<lambda>e. exact (de_size e)) (dc_entries page)"
    using ex by (auto simp: page_def list_all_iff dest!: in_set_takeD in_set_dropD)
  ultimately have "decode_dir_contents (via_interface (encode_dir_contents page)) = Some page"
    by (rule decode_encode_dir_contents)
  then have x: "st' = sendResponse w uid MsgDirContents (encode_dir_contents page) st2" "x = Inr page"
    using req r by (simp_all add: request_page_def send_parse_def parse_response_def message_def listDirPageSize_def)
  have "same_except (log_paths (hs_log st)) (hs_fs st) (hs_fs st2) \<and> log_steady (hs_fs st2) (hs_log st2) \<and> fs_wf (hs_fs st2)
      \<and> log_paths (hs_log st2) = log_paths (hs_log st)"
    using con record_ev_steady [of w "drained st"] by (simp add: st2_def connected_def)
  moreover have "connected w st'"
    using con calculation st2c sendResponse_answers(2) [OF st2c \<open>\<not> cl_closed (hs_client st)\<close>, of w uid] x(1)
    by (simp add: connected_def)
  ultimately have "agent_lists w path items st'" using x(1) by (intro agent_lists_log [OF l]) simp_all
  moreover have "dc_has_more page = (n + 500 < length items)" "dc_has_more page \<Longrightarrow> dc_next_offset page = int (n + 500)"
    by (auto simp: page_def stop_def)
  ultimately show ?thesis using x(2) by (auto simp: page_def)
qed

interpretation agent_pager: pager "N\<lparr>no_request := agent_request w tok uid\<rparr>" agentID path items "agent_lists w path items"
  for N w tok uid agentID path items
  by unfold_locales (rule agent_page)

end
