(* ===== verification/AppScripts.thy ===== *)
theory AppScripts
  imports AppRequests
begin

text \<open>
  Running and saving scripts, the audit trail, and the start and end of the application
  (\<^verbatim>\<open>control-center/app.go\<close>).
\<close>

section \<open>Scripts\<close>

definition script_vars :: "'r netops \<Rightarrow> 't appenv \<Rightarrow> string \<Rightarrow> 'r \<Rightarrow> (string \<times> string) list" where
  "script_vars N V agentID r = [(''AGENT_ID'', agentID), (''DATE'', ae_date V)]
     @ (case no_agent N r agentID of None \<Rightarrow> []
        | Some g \<Rightarrow> [(''HOSTNAME'', ag_Name g), (''OS'', ag_OS g), (''ARCH'', ag_Arch g)])"

definition script_executor :: "'r netops \<Rightarrow> string \<Rightarrow> 'r command_executor" where
  "script_executor N agentID r command = (case requestCommandResult N agentID command (60 * 10 ^ 9) r of
       (r1, Inl err) \<Rightarrow> (r1, Inl err)
     | (r1, Inr result) \<Rightarrow> (r1, Inr \<lparr>er_line = 0, er_command = command, er_stdout = cr_stdout result,
         er_stderr = lit (cr_stderr result), er_exit = cr_exit_code result, er_duration = cr_duration result\<rparr>))"

text \<open>The output of the lines that have some, each under its number and command.\<close>

definition line_format :: string where
  "line_format = ''# Line %d: %s'' @ [CHR 0x0A] @ ''%s'' @ [CHR 0x0A]"

definition combined :: "'t appenv \<Rightarrow> (ExecutionResult \<Rightarrow> string) \<Rightarrow> ExecutionResult list \<Rightarrow> string" where
  "combined V out rs = concat (map (\<lambda>r. if out r = [] then []
     else ae_text V (Sprintf line_format [GInt (er_line r), GStr (er_command r), GStr (out r)])) rs)"

definition chosen_script :: "Engine \<Rightarrow> string \<Rightarrow> string \<Rightarrow> Script result" where
  "chosen_script e scriptName scriptContent =
     (if scriptName \<noteq> [] then GetScript scriptName e
      else Inr \<lparr>sc_name = ''_inline_'', sc_content = scriptContent, sc_created = 0, sc_updated = 0\<rparr>)"

definition RunScript :: "'r netops \<Rightarrow> 't appenv \<Rightarrow> string \<Rightarrow> string \<Rightarrow> string \<Rightarrow> 'r App \<Rightarrow> 'r App \<times> CommandResultPayload result" where
  "RunScript N V agentID scriptName scriptContent a =
     (if agentID = [] then (a, Inl (lit ''agent ID cannot be empty''))
      else if scriptName = [] \<and> scriptContent = [] then (a, Inl (lit ''script name or content must be provided''))
      else (case chosen_script (ap_scripts a) scriptName scriptContent of
        Inl err \<Rightarrow> (app_log V ''run_script'' agentID ''user'' (Sprintf ''Script lookup failed: %v'' [GErr err]) StatusError a,
          Inl (Sprintf ''script not found: %w'' [GErr err]))
      | Inr script \<Rightarrow>
        (case on_net (ExecuteScript (ae_templates V) (Some script) (Some (script_vars N V agentID (ap_net a)))
            (Some (script_executor N agentID))) a of
           (a1, Inl err) \<Rightarrow> (app_log V ''run_script'' agentID ''user'' (Sprintf ''Script execution failed: %v'' [GErr err]) StatusError a1,
              Inl (Sprintf ''script execution failed: %w'' [GErr err]))
         | (a1, Inr res) \<Rightarrow>
             (app_log V ''run_script'' agentID ''user'' (Sprintf ''Script: %s (%d succeeded, %d failed)''
                [GStr (sc_name script), GInt (sr_success res), GInt (sr_failed res)])
                (if sr_failed res > 0 then StatusError else StatusSuccess) a1,
              Inr \<lparr>cr_stdout = combined V er_stdout (sr_results res),
                   cr_stderr = combined V (\<lambda>r. ae_text V (er_stderr r)) (sr_results res),
                   cr_exit_code = sr_failed res, cr_duration = 0\<rparr>))))"

definition SaveScriptApp :: "'t appenv \<Rightarrow> string \<Rightarrow> string \<Rightarrow> 'r App \<Rightarrow> 'r App \<times> goerr option" where
  "SaveScriptApp V name content a =
     (if name = [] then (a, Some (lit ''script name cannot be empty''))
      else if content = [] then (a, Some (lit ''script content cannot be empty''))
      else (case SaveScript (ae_codec V) (ae_os V) (ae_now V) name content (ap_fs a, ap_scripts a) of
        ((fs, e), Some err) \<Rightarrow> (app_log V ''save_script'' [] ''user'' (Sprintf ''Failed to save script '%s': %v'' [GStr name, GErr err])
            StatusError (a\<lparr>ap_fs := fs, ap_scripts := e\<rparr>), Some (Sprintf ''failed to save script: %w'' [GErr err]))
      | ((fs, e), None) \<Rightarrow> (app_log V ''save_script'' [] ''user'' (Sprintf ''Saved script: %s (%d chars)''
            [GStr name, GInt (int (length content))]) StatusSuccess (a\<lparr>ap_fs := fs, ap_scripts := e\<rparr>), None)))"

definition GetScripts :: "'r App \<Rightarrow> Script fset" where
  "GetScripts a = ListScripts (ap_scripts a)"

definition GetAuditLogs :: "'t appenv \<Rightarrow> int \<Rightarrow> 'r App \<Rightarrow> Entry list" where
  "GetAuditLogs V limit a = GetRecent (ae_audit V) limit (ap_audit a)"

section \<open>Starting\<close>

text \<open>What the machine holds when the application starts, and its version.\<close>

record start_env =
  su_config :: "string result"
  su_exe :: "string result"
  su_glob :: globber
  su_version :: string
  su_sessions :: "string \<Rightarrow> sessionDB option"
  su_audits :: "string \<Rightarrow> auditDB option"
  su_store :: store

definition resolveDataDir :: "osenv \<Rightarrow> start_env \<Rightarrow> fsys \<Rightarrow> fsys \<times> string" where
  "resolveDataDir E S fs =
     (let fallback = (\<lambda>fs. (fs, case su_exe S of Inr exe \<Rightarrow> DirOf exe | Inl _ \<Rightarrow> ''.'')) in
      case su_config S of Inl _ \<Rightarrow> fallback fs
      | Inr cfgDir \<Rightarrow>
        (let dir = JoinPath [cfgDir, ''LAN Commander''] in
         case MkdirAll E fs (os_path E dir) of (fs1, None) \<Rightarrow> (fs1, dir) | (fs1, Some err) \<Rightarrow> fallback fs1))"

definition backup_databases :: "osenv \<Rightarrow> start_env \<Rightarrow> string \<Rightarrow> fsys \<Rightarrow> fsys" where
  "backup_databases E S dir fs = fold (\<lambda>name fs. fst (BackupBeforeUpgrade E (su_glob S) fs (os_path E (JoinPath [dir, name])) (su_version S)))
     [''lan-commander.db'', ''audit.db''] fs"

text \<open>Sessions, audit log, scripts and the listener; a failure is only reported. Then discovery starts.\<close>

definition startup :: "'t appenv \<Rightarrow> start_env \<Rightarrow> 'r \<Rightarrow> fsys \<Rightarrow> 'r App" where
  "startup V S r fs =
     (case resolveDataDir (ae_os V) S fs of (fs1, dir) \<Rightarrow>
       let fs2 = backup_databases (ae_os V) S dir fs1;
           exe = (case su_exe S of Inr e \<Rightarrow> Some e | Inl _ \<Rightarrow> None);
           sessions = fst (OpenSessions (ae_db V) exe dir (su_sessions S) (NewManagerWithStore (su_store S) None));
           logger = fst (OpenDB (ae_audit V) (su_audits S) (JoinPath [dir, ''audit.db'']) NewLogger)
       in case NewEngineWithPath (ae_codec V) (ae_os V) fs2 (JoinPath [dir, ''scripts'']) of (fs3, scripts) \<Rightarrow>
         \<lparr>ap_net = r, ap_sessions = sessions, ap_audit = logger, ap_scripts = scripts, ap_fs = fs3,
          ap_discover = StartDiscovery NewDiscovery, ap_ready = True, ap_transferCtx = Some False,
          ap_shuttingDown = False, ap_transfers = 0\<rparr>)"

text \<open>The goroutine that connects the saved sessions again, and the one that asks each agent for its data.\<close>

definition populate :: "'r netops \<Rightarrow> 't appenv \<Rightarrow> string \<Rightarrow> 'r App \<Rightarrow> 'r App" where
  "populate N V agentID a = (case on_net (requestSystemInfo N agentID) a of
       (a1, Inl err) \<Rightarrow> a1
     | (a1, Inr info) \<Rightarrow> app_log V ''system_info'' agentID ''system'' (Sprintf ''Hostname: %s, OS: %s, Arch: %s''
         [GStr (si_hostname info), GStr (si_os info), GStr (si_arch info)]) StatusSuccess a1)"

fun restore_each :: "'r netops \<Rightarrow> 't appenv \<Rightarrow> Session list \<Rightarrow> 'r App \<Rightarrow> 'r App" where
  "restore_each N V [] a = a"
| "restore_each N V (s # ss) a =
     (case on_net (\<lambda>r. no_connect N r (ss_host s) (ss_port s) (session_options s)) a of
        (a1, Inl err) \<Rightarrow> restore_each N V ss a1
      | (a1, Inr agentID) \<Rightarrow> restore_each N V ss (populate N V agentID
          (fst (on_sessions (UpdateLastConnected (ae_db V) (ae_now V) (ss_id s)) a1))))"

definition restore_sessions :: "'r netops \<Rightarrow> 't appenv \<Rightarrow> 'r App \<Rightarrow> 'r App" where
  "restore_sessions N V a = (case on_sessions (LoadAll (ae_db V)) a of
       (a1, Inl err) \<Rightarrow> a1 | (a1, Inr saved) \<Rightarrow> restore_each N V saved a1)"

section \<open>Shutting down\<close>

definition shutdown_begin :: "'r App \<Rightarrow> 'r App" where
  "shutdown_begin a = a\<lparr>ap_shuttingDown := True, ap_transferCtx := map_option (\<lambda>_. True) (ap_transferCtx a)\<rparr>"

text \<open>
  What follows once no transfer is left; no value when stopping the discovery panics. Closing the
  session database releases its handle and changes nothing else.
\<close>

definition shutdown_finish :: "'r netops \<Rightarrow> 't appenv \<Rightarrow> 'r App \<Rightarrow> 'r App option" where
  "shutdown_finish N V a = (case StopDiscovery (ap_discover a) of None \<Rightarrow> None
     | Some d \<Rightarrow> Some (a\<lparr>ap_discover := d, ap_net := no_close N (ap_net a), ap_sessions := fst (CloseSessions None (ap_sessions a)),
         ap_audit := fst (CloseCC (ae_audit V) (ap_audit a))\<rparr>))"

end
