(* ===== verification/AppRestart.thy ===== *)
theory AppRestart
  imports AppScripts SessionProps
begin

text \<open>
  What the application remembers across a restart: the options of a connection made once are
  saved, loaded again by the next start, and used when the agent announces itself.
\<close>

section \<open>Loading all sessions\<close>

lemma restoreToken_store: "sm_store (fst (restoreToken F i t p m)) = sm_store m"
  by (simp add: restoreToken_def Let_def split: option.splits sum.splits)

lemma restore_rows_each:
  assumes "restore_rows F rs m = (m1, Inr ss)"
  shows "list_all2 (\<lambda>r s. \<exists>t. s = row_session r t
     \<and> snd (restoreToken F (rw_id r) (rw_auth_token r) (rw_protected r) m) = Inr t) rs ss"
  using assms
proof (induction rs arbitrary: m ss)
  case (Cons r rs)
  obtain m2 t ss2 where 1: "restoreToken F (rw_id r) (rw_auth_token r) (rw_protected r) m = (m2, Inr t)"
    and 2: "restore_rows F rs m2 = (m1, Inr ss2)" and ss: "ss = row_session r t # ss2"
    using Cons.prems by (auto split: prod.splits sum.splits)
  have "sm_store m2 = sm_store m" using restoreToken_store [of F "rw_id r" "rw_auth_token r" "rw_protected r" m] 1 by simp
  then have "snd (restoreToken F i t p m2) = snd (restoreToken F i t p m)" for i t p by (rule restoreToken_result)
  with Cons.IH [OF 2] 1 ss show ?case by simp
qed simp

lemma LoadAll_each:
  assumes "LoadAll F m = (m1, Inr ss)" "sm_db m = Some db"
  shows "list_all2 (\<lambda>r s. \<exists>t. s = row_session r t
     \<and> snd (restoreToken F (rw_id r) (rw_auth_token r) (rw_protected r) m) = Inr t) (rows_by_last db) ss"
  using assms by (intro restore_rows_each [of _ _ _ m1]) (auto simp: LoadAll_def split: option.splits if_splits)

context token_store
begin

lemma load_all_finds:
  assumes m: "sm_store m = Some st" "sm_db m = Some db" "table_wf db"
    and r: "r \<in> set (db_rows db)" "rw_auth_token r = []" "protect_token m t = Inr (rw_protected r)"
    and L: "LoadAll F m = (m1, Inr ss)"
  shows "find (\<lambda>s. ss_host s = rw_host r \<and> ss_port s = rw_port r) ss = Some (row_session r t)"
proof -
  note each = LoadAll_each [OF L m(2)]
  have tok: "snd (restoreToken F (rw_id r) (rw_auth_token r) (rw_protected r) m) = Inr t"
    using restore_protected [OF m(1) r(3), of F "rw_id r"] r(2) by simp
  have from_row: "\<exists>q \<in> set (db_rows db). \<exists>t'. s = row_session q t'
      \<and> snd (restoreToken F (rw_id q) (rw_auth_token q) (rw_protected q) m) = Inr t'" if "s \<in> set ss" for s
    using each that by (auto simp: list_all2_conv_all_nth in_set_conv_nth) (metis nth_mem set_rows_by_last)
  have mem: "row_session r t \<in> set ss"
  proof -
    obtain i where "i < length (rows_by_last db)" "rows_by_last db ! i = r"
      using r(1) by (metis in_set_conv_nth set_rows_by_last)
    then have "i < length ss" "ss ! i = row_session r t" using each tok by (auto simp: list_all2_conv_all_nth)
    then show ?thesis by (metis nth_mem)
  qed
  show ?thesis
  proof (rule find_unique [OF mem])
    show "ss_host (row_session r t) = rw_host r \<and> ss_port (row_session r t) = rw_port r" by (simp add: row_session_def)
    fix s assume s: "s \<in> set ss" "ss_host s = rw_host r \<and> ss_port s = rw_port r"
    from from_row [OF s(1)] obtain q t' where q: "q \<in> set (db_rows db)" "s = row_session q t'"
      "snd (restoreToken F (rw_id q) (rw_auth_token q) (rw_protected q) m) = Inr t'" by blast
    have "endpoint q = endpoint r" using s(2) q(2) by (simp add: row_session_def endpoint_def)
    with q(1) r(1) m(3) have "q = r" by (auto simp: table_wf_def distinct_map inj_on_def)
    with q tok show "s = row_session r t" by simp
  qed
qed

end

section \<open>What is remembered of a connection\<close>

definition remembered :: "ConnectOptions \<Rightarrow> ConnectOptions" where
  "remembered options = options\<lparr>co_TLS := (co_TLS options \<or> co_UseTLS options), co_UseTLS := False\<rparr>"

text \<open>The table holds the endpoint with these options, its token under protection.\<close>

definition holds_endpoint :: "sessionManager \<Rightarrow> sessionDB \<Rightarrow> string \<Rightarrow> int \<Rightarrow> ConnectOptions \<Rightarrow> bool" where
  "holds_endpoint m db host port options \<longleftrightarrow> (\<exists>r \<in> set (db_rows db). rw_host r = host \<and> rw_port r = port
     \<and> rw_auth_token r = [] \<and> protect_token m (co_AuthToken options) = Inr (rw_protected r)
     \<and> session_options (row_session r (co_AuthToken options)) = remembered options)"

lemma save_holds:
  assumes "table_wf db" "protect_token m (co_AuthToken options) = Inr c"
  shows "holds_endpoint m (sql_upsert (session_row (sessionForConnectionOptions host port name options) c now) db) host port options"
proof -
  let ?new = "session_row (sessionForConnectionOptions host port name options) c now"
  obtain i e where "?new\<lparr>rw_id := i, rw_auth_token := [], rw_created := e\<rparr> \<in> set (db_rows (sql_upsert ?new db))"
    using upsert_row [OF assms(1), of ?new] by blast
  then show ?thesis unfolding holds_endpoint_def
    by (rule bexI [rotated])
      (simp add: session_row_def sessionForConnectionOptions_def assms(2) session_options_def row_session_def remembered_def)
qed

lemma holds_cong: "sm_store m = sm_store n \<Longrightarrow> db_rows db = db_rows db1 \<Longrightarrow>
    holds_endpoint m db host port options = holds_endpoint n db1 host port options"
  by (simp add: holds_endpoint_def protect_token_def)

lemma savedOptionsFor_holds:
  assumes "token_store st" "sm_store (ap_sessions a) = Some st" "sm_db (ap_sessions a) = Some db" "table_wf db"
    and "holds_endpoint (ap_sessions a) db host port options" "LoadAll (ae_db V) (ap_sessions a) = (m, Inr ss)"
  shows "savedOptionsFor V host port a = (a\<lparr>ap_sessions := m\<rparr>, remembered options)"
    "\<exists>s \<in> set ss. ss_host s = host \<and> ss_port s = port \<and> session_options s = remembered options"
proof -
  obtain r where r: "r \<in> set (db_rows db)" "rw_host r = host" "rw_port r = port" "rw_auth_token r = []"
      "protect_token (ap_sessions a) (co_AuthToken options) = Inr (rw_protected r)"
      "session_options (row_session r (co_AuthToken options)) = remembered options"
    using assms(5) by (auto simp: holds_endpoint_def)
  note f = token_store.load_all_finds [OF assms(1-4) r(1,4,5) assms(6), unfolded r(2,3)]
  then show "savedOptionsFor V host port a = (a\<lparr>ap_sessions := m\<rparr>, remembered options)"
    using assms(6) r(6) by (simp add: savedOptionsFor_def on_sessions_def)
  show "\<exists>s \<in> set ss. ss_host s = host \<and> ss_port s = port \<and> session_options s = remembered options"
    using f r(6) by (auto simp: find_Some_iff)
qed

section \<open>Connecting, and the next start\<close>

lemma connect_saves:
  assumes "connectAgentWithOptions N V host port options a = (a1, None)" "sm_db (ap_sessions a) = Some db" "table_wf db"
    "ae_db V = (\<lambda>_. None)" "protect_token (ap_sessions a) (co_AuthToken options) = Inr c"
  shows "\<exists>db1. sm_db (ap_sessions a1) = Some db1 \<and> table_wf db1 \<and> sm_store (ap_sessions a1) = sm_store (ap_sessions a)
     \<and> holds_endpoint (ap_sessions a) db1 host port options"
proof -
  let ?s = "sessionForConnectionOptions host port (endpoint_name host port) options"
  obtain r i where ok: "port_err host port = None" "no_connect N (ap_net a) host port options = (r, Inr i)"
    using assms(1) by (auto simp: connectAgentWithOptions_def on_net_def split: option.splits prod.splits sum.splits)
  then have "ap_sessions a1 = fst (SaveSession (ae_db V) (ae_now V) ?s (ap_sessions a))"
    using assms(1) by (auto simp: connectAgentWithOptions_def on_net_def on_sessions_def app_log_def split: prod.splits)
  also have "\<dots> = (ap_sessions a)\<lparr>sm_db := Some (sql_upsert (session_row ?s c (ae_now V)) db)\<rparr>"
    using assms(2,4,5) by (simp add: SaveSession_def Let_def sessionForConnectionOptions_def)
  finally show ?thesis using assms(3) save_holds [OF assms(3,5)] by (simp add: table_wf_upsert)
qed

lemma startup_sessions:
  assumes "ae_db V = (\<lambda>_. None)" "\<And>path. su_sessions S path = Some db"
  shows "\<exists>db1. sm_db (ap_sessions (startup V S r fs)) = Some db1 \<and> db_rows db1 = db_rows db \<and> db_seq db1 = db_seq db"
    "sm_store (ap_sessions (startup V S r fs)) = Some (su_store S)"
proof -
  obtain fs1 dir exe where s: "ap_sessions (startup V S r fs)
      = fst (OpenSessions (ae_db V) exe dir (su_sessions S) (NewManagerWithStore (su_store S) None))"
    by (simp add: startup_def Let_def case_prod_unfold)
  obtain m where m: "OpenSessions (ae_db V) exe dir (su_sessions S) (NewManagerWithStore (su_store S) None) = (m, None)"
    "sm_store m = Some (su_store S)"
    using add_columns_undisturbed [of additions "db\<lparr>db_inserted := 0\<rparr>"] assms
    by (cases "add_columns (\<lambda>_. None) additions (db\<lparr>db_inserted := 0\<rparr>)") (simp add: OpenSessions_def Let_def migrateSchema_def NewManagerWithStore_def)
  obtain db1 where "sm_db m = Some db1" "db_rows db1 = db_rows db" "db_seq db1 = db_seq db"
    using OpenSessions_rows [OF m(1)] assms(2) by (metis option.simps(5))
  then show "\<exists>db1. sm_db (ap_sessions (startup V S r fs)) = Some db1 \<and> db_rows db1 = db_rows db \<and> db_seq db1 = db_seq db"
    "sm_store (ap_sessions (startup V S r fs)) = Some (su_store S)"
    using m by (simp_all add: s)
qed

text \<open>(C18) An agent connected once is connected again after a restart with what the user gave: when
  a connection succeeded and its token could be protected, the next start of the application on the
  same database loads a session of that endpoint with the same token, certificate settings and transport, and when
  the agent announces itself and is not connected yet, the client manager is asked to connect with exactly these.\<close>
theorem restart_reconnects:
  assumes "token_store (su_store S)" "sm_store (ap_sessions a) = Some (su_store S)" "sm_db (ap_sessions a) = Some db" "table_wf db"
    and "ae_db V = (\<lambda>_. None)" "protect_token (ap_sessions a) (co_AuthToken options) = Inr c"
    and "connectAgentWithOptions N V host port options a = (a1, None)"
    and "\<And>path. su_sessions S path = sm_db (ap_sessions a1)" "b = startup V S r fs"
    and "LoadAll (ae_db V) (ap_sessions b) = (m, Inr ss)"
  shows "(\<exists>s \<in> set ss. ss_host s = host \<and> ss_port s = port \<and> session_options s = remembered options)
     \<and> (\<not> list_ex (\<lambda>g. ag_Host g = ad_host d \<and> ag_Port g = ad_port d) (no_agents N r) \<and> ad_host d = host \<and> ad_port d = port \<longrightarrow>
          ap_net (onAgentDiscovered N V d b) = fst (no_connect N r host port (remembered options)))"
proof -
  obtain db1 where 1: "sm_db (ap_sessions a1) = Some db1" "table_wf db1" "holds_endpoint (ap_sessions a) db1 host port options"
    using connect_saves [OF assms(7,3-6)] by blast
  obtain db2 where 2: "sm_db (ap_sessions b) = Some db2" "db_rows db2 = db_rows db1" "db_seq db2 = db_seq db1"
      "sm_store (ap_sessions b) = Some (su_store S)"
    using startup_sessions [OF assms(5), of S db1 r fs] assms(8,9) 1(1) by auto
  have wf: "table_wf db2" using 1(2) 2(2,3) by (simp add: table_wf_def)
  have h: "holds_endpoint (ap_sessions b) db2 host port options"
    using 1(3) holds_cong [of "ap_sessions a" "ap_sessions b" db1 db2] assms(2) 2(2,4) by simp
  have net: "ap_net b = r" using assms(9) by (auto simp: startup_def Let_def split: prod.splits)
  define b1 where "b1 = app_log V ''agent_discovered'' [] ''system'' (Sprintf ''Agent %s discovered at %s:%d (os=%s, arch=%s)''
            [GStr (ad_name d), GStr (ad_host d), GInt (ad_port d), GStr (ad_os d), GStr (ad_arch d)]) StatusSuccess b"
  have same: "ap_sessions b1 = ap_sessions b" "ap_net b1 = r" using net by (simp_all add: b1_def app_log_def)
  have opts: "savedOptionsFor V host port b1 = (b1\<lparr>ap_sessions := m\<rparr>, remembered options)"
    using savedOptionsFor_holds(1) [OF assms(1), of b1 db2 host port options V m ss] 2 wf h assms(10) same by simp
  have "ap_net (onAgentDiscovered N V d b) = fst (no_connect N r host port (remembered options))"
    if "\<not> list_ex (\<lambda>g. ag_Host g = ad_host d \<and> ag_Port g = ad_port d) (no_agents N r)" "ad_host d = host" "ad_port d = port"
  proof -
    have "\<not> list_ex (\<lambda>g. ag_Host g = ad_host d \<and> ag_Port g = ad_port d) (no_agents N (ap_net b1))"
      using that(1) same(2) by simp
    moreover have "savedOptionsFor V (ad_host d) (ad_port d) b1 = (b1\<lparr>ap_sessions := m\<rparr>, remembered options)"
      using opts that(2,3) by simp
    ultimately show ?thesis
      using that(2,3) same(2) unfolding onAgentDiscovered_def Let_def b1_def [symmetric]
      by (simp add: on_net_def app_log_def split: prod.split sum.split)
  qed
  moreover have "\<exists>s \<in> set ss. ss_host s = host \<and> ss_port s = port \<and> session_options s = remembered options"
    using savedOptionsFor_holds(2) [OF assms(1) 2(4,1) wf h assms(10)] .
  ultimately show ?thesis by blast
qed

section \<open>A concrete application\<close>

definition lab_env :: "unit appenv" where
  "lab_env = \<lparr>ae_os = quiet, ae_envs = (\<lambda>_. quiet), ae_text = (\<lambda>_. ''text''), ae_now = 300, ae_date = ''2026-01-01T00:00:00Z'',
     ae_db = (\<lambda>_. None), ae_audit = (\<lambda>_. None), ae_codec = \<lparr>marshal = (\<lambda>_. Inl (lit ''json'')), unmarshal = (\<lambda>_. Inl (lit ''json''))\<rparr>,
     ae_templates = \<lparr>tm_parse = (\<lambda>s. Inr ()), tm_execute = (\<lambda>_ _. Inr [])\<rparr>, ae_polls = (\<lambda>_. None), ae_uuid = ''u1'',
     ae_source = (\<lambda>_ b. b), ae_udp = \<lparr>ud_dial = (\<lambda>_ _. None), ud_write = (\<lambda>_ p. (length p, None))\<rparr>\<rparr>"

text \<open>A network on which nothing answers, and one that counts the connections asked for with the token.\<close>

definition idle_net :: "'r netops" where
  "idle_net = \<lparr>no_connect = (\<lambda>r host port options. (r, Inl (lit ''refused''))), no_disconnect = (\<lambda>r i. (r, None)),
     no_request = (\<lambda>r i t p d. (r, None, Some (lit ''timeout''))), no_agents = (\<lambda>r. []), no_agent = (\<lambda>r i. None), no_close = (\<lambda>r. r)\<rparr>"

definition lab_net :: "nat netops" where
  "lab_net = idle_net\<lparr>no_connect := (\<lambda>n host port options.
     (if options = remembered (no_options\<lparr>co_AuthToken := ''token''\<rparr>) then n + 1 else n, Inr ''a1''))\<rparr>"

definition lab_app :: "'r \<Rightarrow> 'r App" where
  "lab_app r = \<lparr>ap_net = r, ap_sessions = \<lparr>sm_db = Some empty_db, sm_path = [], sm_store = Some demo_store\<rparr>,
     ap_audit = NewLogger, ap_scripts = \<lparr>en_scripts = fmempty, en_base = ''/s''\<rparr>, ap_fs = fmempty,
     ap_discover = NewDiscovery, ap_ready = True, ap_transferCtx = Some False, ap_shuttingDown = False, ap_transfers = 0\<rparr>"

definition lab_start :: start_env where
  "lab_start = \<lparr>su_config = Inl (lit ''no home''), su_exe = Inl (lit ''unknown''), su_glob = (\<lambda>_ _. Some []), su_version = ''dev'',
     su_sessions = (\<lambda>_. sm_db (ap_sessions (fst (connectAgentWithOptions lab_net lab_env ''10.0.0.9'' 9473
       (no_options\<lparr>co_AuthToken := ''token''\<rparr>) (lab_app 0))))), su_audits = (\<lambda>_. None), su_store = demo_store\<rparr>"

definition lab_found :: AgentDiscovered where
  "lab_found = \<lparr>ad_host = ''10.0.0.9'', ad_port = 9473, ad_name = ''desk'', ad_os = ''linux'', ad_arch = ''amd64'',
     ad_version = ''1.0'', ad_mac = []\<rparr>"

lemma demo_protects: "\<exists>c. st_protect demo_store ''token'' = Inr c"
  by (simp add: demo_store_def dpapiStore_def dpapi_Protect_def demo_crypt_def)

lemma LoadAll_one:
  assumes "token_store st" "sm_store m = Some st" "sm_db m = Some db" "db_rows db = [r]" "rw_auth_token r = []"
    "protect_token m t = Inr (rw_protected r)"
  shows "LoadAll (\<lambda>_. None) m = (m, Inr [row_session r t])"
  using assms token_store.restore_protected [OF assms(1,2,6)] by (simp add: LoadAll_def rows_by_last_def)

lemma restart_reconnects_witness:
  "ap_net (onAgentDiscovered lab_net lab_env lab_found (startup lab_env lab_start 7 fmempty)) = 8"
proof -
  let ?o = "no_options\<lparr>co_AuthToken := ''token''\<rparr>" and ?b = "startup lab_env lab_start (7::nat) fmempty"
  let ?s = "sessionForConnectionOptions ''10.0.0.9'' 9473 (endpoint_name ''10.0.0.9'' 9473) ?o"
  obtain c where c: "st_protect demo_store ''token'' = Inr c" using demo_protects by blast
  obtain a1 where a1: "connectAgentWithOptions lab_net lab_env ''10.0.0.9'' 9473 ?o (lab_app 0) = (a1, None)"
    by (simp add: connectAgentWithOptions_def port_err_def on_net_def lab_net_def)
  have p: "protect_token (ap_sessions (lab_app 0)) (co_AuthToken ?o) = Inr c"
    using c by (simp add: protect_token_def lab_app_def)
  have quiet: "ae_db lab_env = (\<lambda>_. None)" by (simp add: lab_env_def)
  have db: "sm_db (ap_sessions a1) = Some (sql_upsert (session_row ?s c 300) empty_db)"
    using a1 c
    by (auto simp: connectAgentWithOptions_def port_err_def on_net_def lab_net_def on_sessions_def app_log_def lab_env_def lab_app_def
        SaveSession_def protect_token_def sessionForConnectionOptions_def no_options_def Let_def)
  obtain r where r: "db_rows (sql_upsert (session_row ?s c 300) empty_db) = [r]" "rw_auth_token r = []" "rw_protected r = c"
    by (simp add: sql_upsert_def empty_db_def session_row_def)
  have src: "su_sessions lab_start path = sm_db (ap_sessions a1)" for path using a1 by (simp add: lab_start_def)
  have st: "su_store lab_start = demo_store" by (simp add: lab_start_def)
  obtain db2 where db2: "sm_db (ap_sessions ?b) = Some db2" "db_rows db2 = [r]" "sm_store (ap_sessions ?b) = Some demo_store"
    using startup_sessions [OF quiet, of lab_start "sql_upsert (session_row ?s c 300) empty_db" "7::nat" fmempty] src db r st by auto
  have p2: "protect_token (ap_sessions ?b) ''token'' = Inr (rw_protected r)" using c db2(3) r(3) by (simp add: protect_token_def)
  have L: "LoadAll (ae_db lab_env) (ap_sessions ?b) = (ap_sessions ?b, Inr [row_session r ''token''])"
    unfolding quiet by (rule LoadAll_one [OF demo_token_store db2(3,1,2) r(2) p2])
  have "ap_net (onAgentDiscovered lab_net lab_env lab_found ?b) = fst (no_connect lab_net 7 ''10.0.0.9'' 9473 (remembered ?o))"
    using restart_reconnects [OF _ _ _ table_wf_empty quiet p a1 src refl L, of lab_found] demo_token_store st
    by (simp add: lab_app_def lab_net_def idle_net_def lab_found_def)
  then show ?thesis by (simp add: lab_net_def)
qed

end
