(* ===== verification/AppProps.thy ===== *)
theory AppProps
  imports AppListing AppRestart TransferProps
begin

text \<open>
  The properties of the application's bindings: complete directory listings over both programs,
  one audit entry for everything a binding does, and the outcome of a command on several agents.
\<close>

section \<open>Listings over both programs\<close>

text \<open>A directory listing over both programs is complete: when an agent that is connected and
  authenticated holds the directory, \<^verbatim>\<open>ListDir\<close> of the application returns, page by page, the first
  5000 entries of the directory in the agent's order, its true size as the total, and says whether entries
  are missing.\<close>

lemma agent_listing:
  assumes "agent_lists w path items (ap_net a)" "agentID \<noteq> []" "path \<noteq> []"
  shows "\<exists>a1 m. ListDirApp (N\<lparr>no_request := agent_request w tok uid\<rparr>) V agentID path a = (a1, Inr m)
     \<and> dc_entries m = take 5000 items \<and> dc_total m = int (length items) \<and> dc_has_more m = (5000 < length items)
     \<and> agent_lists w path items (ap_net a1)"
proof -
  obtain r m where "listDirPages (N\<lparr>no_request := agent_request w tok uid\<rparr>) agentID path (ap_net a) = (r, Inr m)"
      "agent_lists w path items r" "dc_entries m = take 5000 items" "dc_total m = int (length items)"
      "dc_has_more m = (5000 < length items)"
    using agent_pager.pages_complete [OF assms(1)] by blast
  with assms(2,3) show ?thesis by (simp add: ListDirApp_def on_net_def app_log_def)
qed

definition demo_items :: "DirEntry list" where
  "demo_items = [\<lparr>de_name = ''f'', de_path = ''/d/f'', de_is_dir = False, de_size = 5, de_mode = ''-rw-r--r--'',
     de_mod_time = ''2026-01-01T00:00:00Z''\<rparr>]"

lemma demo_listing: "listing quiet demo_fs ''/d'' = [''/d/f'']"
  by code_simp

lemma demo_lists: "agent_lists demo_world ''/d'' demo_items demo_agent"
proof -
  have "Base ''/d/f'' = ''f''" "JoinPath [''/d'', ''f''] = ''/d/f''" by code_simp+
  then have "map (dir_entry quiet demo_fs ''/d'') (listing quiet demo_fs ''/d'') = map Some demo_items"
    unfolding demo_listing by (simp add: dir_entry_def demo_items_def) (simp add: quiet_def)
  then have "\<exists>p. safePath quiet ''/d'' = Inr p \<and> fmlookup demo_fs p = Some Dir
      \<and> map (dir_entry quiet demo_fs p) (listing quiet demo_fs p) = map Some demo_items"
    by (simp add: demo_paths)
  moreover have "list_all (\<lambda>e. exact (de_size e)) demo_items" "length demo_items = 1" by (simp_all add: demo_items_def exact_def)
  ultimately show ?thesis using demo_connected
    by (simp add: agent_lists_def) (simp add: demo_agent_def demo_world_def log_paths_def)
qed

lemma agent_listing_demo:
  "\<exists>a1 m. ListDirApp (idle_net\<lparr>no_request := demo_request\<rparr>) lab_env ''a1'' ''/d'' (lab_app demo_agent) = (a1, Inr m)
     \<and> map de_name (dc_entries m) = [''f''] \<and> dc_total m = 1"
  using agent_listing [where w = demo_world and path = "''/d''" and items = demo_items and a = "lab_app demo_agent" and agentID = "''a1''"
      and N = idle_net and tok = "''secret''" and uid = "''req-1''" and V = lab_env] demo_lists
  by (auto simp: lab_app_def demo_items_def)

section \<open>What leaves a trace in the audit log\<close>

datatype binding = BConnect string int string | BConnectSecure string int string string string | BDisconnect string
  | BReconnect int | BExec string string int | BExecMulti "string list" "string list" string int | BListDir string string
  | BSystemInfo string | BScreenshot string | BTransfer string string string | BUpload string string string
  | BDownloadFile "string result" string string | BUploadFile "string result" string string
  | BWake string string | BSave string int string string | BSaveSecure string int string string string string
  | BDelete int | BRun string string string | BSaveScript string string
  | BGetAgents | BGetSessions | BGetScripts | BGetAuditLogs int

definition failed_of :: "'x result \<Rightarrow> bool" where
  "failed_of r \<longleftrightarrow> (case r of Inl err \<Rightarrow> True | Inr x \<Rightarrow> False)"

lemma failed_of_simps [simp]: "failed_of (Inl err)" "\<not> failed_of (Inr x)"
  by (simp_all add: failed_of_def)

text \<open>The state a binding leaves and whether it returned an error; no value when it does not return.\<close>

fun perform :: "'r netops \<Rightarrow> 't appenv \<Rightarrow> binding \<Rightarrow> 'r App \<Rightarrow> ('r App \<times> bool) option" where
  "perform N V (BConnect h p t) a = Some (map_prod id (\<lambda>e. e \<noteq> None) (ConnectAgent N V h p t a))"
| "perform N V (BConnectSecure h p t ca sn) a = Some (map_prod id (\<lambda>e. e \<noteq> None) (ConnectAgentSecure N V h p t ca sn a))"
| "perform N V (BDisconnect i) a = Some (map_prod id (\<lambda>e. e \<noteq> None) (DisconnectAgent N V i a))"
| "perform N V (BReconnect i) a = Some (map_prod id (\<lambda>(s, e). e \<noteq> None) (ReconnectSession N V i a))"
| "perform N V (BExec i c t) a = Some (map_prod id failed_of (ExecCommand N V i c t a))"
| "perform N V (BExecMulti ord is c t) a = Some (map_prod id (\<lambda>r. False) (ExecCommandMulti N V ord is c t a))"
| "perform N V (BListDir i p) a = Some (map_prod id failed_of (ListDirApp N V i p a))"
| "perform N V (BSystemInfo i) a = Some (map_prod id failed_of (GetSystemInfoApp N V i a))"
| "perform N V (BScreenshot i) a = Some (map_prod id failed_of (RequestScreenshot N V i a))"
| "perform N V (BTransfer i r l) a = map_option (map_prod id (\<lambda>e. e \<noteq> None)) (TransferFile N V i r l a)"
| "perform N V (BUpload i l r) a = map_option (map_prod id (\<lambda>e. e \<noteq> None)) (UploadFileFromPath N V i l r a)"
| "perform N V (BDownloadFile ch i r) a = map_option (map_prod id (\<lambda>e. e \<noteq> None)) (DownloadFile N V ch i r a)"
| "perform N V (BUploadFile ch i d) a = map_option (map_prod id (\<lambda>e. e \<noteq> None)) (UploadFile N V ch i d a)"
| "perform N V (BWake m ip) a = Some (map_prod id (\<lambda>(d, e). e \<noteq> None) (WakeOnLAN V m ip a))"
| "perform N V (BSave h p n t) a = Some (map_prod id (\<lambda>e. e \<noteq> None) (SaveSessionPlain V h p n t a))"
| "perform N V (BSaveSecure h p n t ca sn) a = Some (map_prod id (\<lambda>e. e \<noteq> None) (SaveSessionSecure V h p n t ca sn a))"
| "perform N V (BDelete i) a = Some (map_prod id (\<lambda>e. e \<noteq> None) (DeleteSession V i a))"
| "perform N V (BRun i n c) a = Some (map_prod id failed_of (RunScript N V i n c a))"
| "perform N V (BSaveScript n c) a = Some (map_prod id (\<lambda>e. e \<noteq> None) (SaveScriptApp V n c a))"
| "perform N V BGetAgents a = Some (map_prod id (\<lambda>agents. False) (a, GetAgents N a))"
| "perform N V BGetSessions a = Some (map_prod id (\<lambda>sessions. False) (GetSessions V a))"
| "perform N V BGetScripts a = Some (map_prod id (\<lambda>scripts. False) (a, GetScripts a))"
| "perform N V (BGetAuditLogs limit) a = Some (map_prod id (\<lambda>entries. False) (a, GetAuditLogs V limit a))"

text \<open>One entry was added, by the user, with the status of an error when the binding failed.\<close>

definition one_entry :: "'t appenv \<Rightarrow> LoggerCC \<Rightarrow> LoggerCC \<Rightarrow> bool \<Rightarrow> bool" where
  "one_entry V l l1 failed \<longleftrightarrow> (\<exists>action agentID details status.
     l1 = LogCC (ae_audit V) (ae_now V) action agentID ''user'' details status l
     \<and> status \<in> {StatusSuccess, StatusError, StatusWarning} \<and> (failed \<longrightarrow> status = StatusError))"

definition traced :: "'t appenv \<Rightarrow> 'r App \<Rightarrow> 'r App \<Rightarrow> bool \<Rightarrow> bool" where
  "traced V a a1 failed \<longleftrightarrow> a1 = a \<or> one_entry V (ap_audit a) (ap_audit a1) failed"

lemma traced_same [intro, simp]: "traced V a a failed"
  by (simp add: traced_def)

lemma on_net_audit [simp]: "on_net f a = (a1, x) \<Longrightarrow> ap_audit a1 = ap_audit a"
  by (auto simp: on_net_def split: prod.splits)

lemma on_sessions_audit [simp]: "on_sessions f a = (a1, x) \<Longrightarrow> ap_audit a1 = ap_audit a"
  by (auto simp: on_sessions_def split: prod.splits)

lemma fst_on_sessions [simp]: "ap_audit (fst (on_sessions f a)) = ap_audit a"
  by (simp add: on_sessions_def split: prod.splits)

lemma fst_on_sessions_net [simp]: "ap_net (fst (on_sessions f a)) = ap_net a"
  by (simp add: on_sessions_def split: prod.splits)

lemma logged:
  "ap_audit a = l \<Longrightarrow> (failed \<longrightarrow> s = StatusError) \<Longrightarrow> s \<in> {StatusSuccess, StatusError, StatusWarning} \<Longrightarrow>
     one_entry V l (ap_audit (app_log V act i ''user'' d s a)) failed"
  by (auto simp: one_entry_def app_log_def)

lemma traced_log:
  "ap_audit a1 = ap_audit a \<Longrightarrow> (failed \<longrightarrow> s = StatusError) \<Longrightarrow> s \<in> {StatusSuccess, StatusError, StatusWarning} \<Longrightarrow>
     traced V a (app_log V act i ''user'' d s a1) failed"
  by (simp add: traced_def logged)

lemma traced_connect: "traced V a (fst (connectAgentWithOptions N V h p options a)) (snd (connectAgentWithOptions N V h p options a) \<noteq> None)"
  by (auto simp: connectAgentWithOptions_def traced_def intro!: logged split: option.split prod.split sum.split)

lemma traced_save: "traced V a (fst (saveSessionWithOptions V h p n options a)) (snd (saveSessionWithOptions V h p n options a) \<noteq> None)"
  by (auto simp: saveSessionWithOptions_def Let_def intro!: traced_log split: option.split prod.split sum.split)

lemma traced_disconnect: "traced V a (fst (DisconnectAgent N V i a)) (snd (DisconnectAgent N V i a) \<noteq> None)"
  by (auto simp: DisconnectAgent_def intro!: traced_log split: option.split prod.split)

lemma traced_reconnect: "traced V a (fst (ReconnectSession N V i a)) (case snd (ReconnectSession N V i a) of (j, e) \<Rightarrow> e \<noteq> None)"
  by (auto simp: ReconnectSession_def Let_def intro!: traced_log split: option.split prod.split sum.split)

lemma traced_exec: "traced V a (fst (ExecCommand N V i c t a)) (failed_of (snd (ExecCommand N V i c t a)))"
  by (auto simp: ExecCommand_def intro!: traced_log split: prod.split sum.split)

lemma traced_multi: "traced V a (fst (ExecCommandMulti N V ord is c t a)) False"
  by (auto simp: ExecCommandMulti_def intro!: traced_log split: prod.split)

lemma traced_list: "traced V a (fst (ListDirApp N V i p a)) (failed_of (snd (ListDirApp N V i p a)))"
  by (auto simp: ListDirApp_def intro!: traced_log split: prod.split sum.split)

lemma traced_info: "traced V a (fst (GetSystemInfoApp N V i a)) (failed_of (snd (GetSystemInfoApp N V i a)))"
  by (auto simp: GetSystemInfoApp_def intro!: traced_log split: prod.split sum.split)

lemma traced_shot: "traced V a (fst (RequestScreenshot N V i a)) (failed_of (snd (RequestScreenshot N V i a)))"
  by (auto simp: RequestScreenshot_def intro!: traced_log split: prod.split sum.split)

lemma begin_audit: "beginTransfer a = (a1, e) \<Longrightarrow> ap_audit a1 = ap_audit a \<and> (e \<noteq> None \<longrightarrow> a1 = a)"
  by (auto simp: beginTransfer_def split: if_splits)

lemma traced_end:
  "ap_audit a1 = ap_audit a \<Longrightarrow> (failed \<longrightarrow> s = StatusError) \<Longrightarrow> s \<in> {StatusSuccess, StatusError, StatusWarning} \<Longrightarrow>
     traced V a (endTransfer (app_log V act i ''user'' d s a1)) failed"
  by (auto simp: traced_def endTransfer_def intro!: logged)

lemma traced_transfer: "TransferFile N V i r l a = Some (a1, err) \<Longrightarrow> traced V a a1 (err \<noteq> None)"
  by (auto simp: TransferFile_def run_download_def dest!: begin_audit intro!: traced_end simp del: not_None_eq split: option.splits prod.splits)

lemma traced_upload: "UploadFileFromPath N V i l r a = Some (a1, err) \<Longrightarrow> traced V a a1 (err \<noteq> None)"
  by (auto simp: UploadFileFromPath_def run_upload_def dest!: begin_audit intro!: traced_end simp del: not_None_eq split: option.splits prod.splits)

lemma traced_download_dialog: "DownloadFile N V ch i r a = Some (a1, err) \<Longrightarrow> traced V a a1 (err \<noteq> None)"
  by (auto simp: DownloadFile_def intro: traced_transfer simp del: not_None_eq split: if_splits sum.splits)

lemma traced_upload_dialog: "UploadFile N V ch i d a = Some (a1, err) \<Longrightarrow> traced V a a1 (err \<noteq> None)"
  by (auto simp: UploadFile_def intro: traced_upload simp del: not_None_eq split: if_splits sum.splits)

lemma traced_wake: "traced V a (fst (WakeOnLAN V m ip a)) (case snd (WakeOnLAN V m ip a) of (j, e) \<Rightarrow> e \<noteq> None)"
  by (auto simp: WakeOnLAN_def intro!: traced_log split: option.split prod.split)

lemma traced_delete: "traced V a (fst (DeleteSession V i a)) (snd (DeleteSession V i a) \<noteq> None)"
  by (auto simp: DeleteSession_def intro!: traced_log split: option.split prod.split)

lemma traced_run: "traced V a (fst (RunScript N V i n c a)) (failed_of (snd (RunScript N V i n c a)))"
  by (auto simp: RunScript_def intro!: traced_log split: prod.split sum.split)

lemma traced_script: "traced V a (fst (SaveScriptApp V n c a)) (snd (SaveScriptApp V n c a) \<noteq> None)"
  by (auto simp: SaveScriptApp_def intro!: traced_log split: option.split prod.split)

lemmas traces = traced_connect [of V a N h p "no_options\<lparr>co_AuthToken := t\<rparr>" for V a N h p t, folded ConnectAgent_def]
  traced_connect [of V a N h p "secure_options t ca sn" for V a N h p t ca sn, folded ConnectAgentSecure_def]
  traced_save [of V a h p n "no_options\<lparr>co_AuthToken := t\<rparr>" for V a h p n t, folded SaveSessionPlain_def]
  traced_save [of V a h p n "secure_options t ca sn" for V a h p n t ca sn, folded SaveSessionSecure_def]
  traced_disconnect traced_reconnect traced_exec traced_multi traced_list traced_info
  traced_shot traced_wake traced_delete traced_run traced_script

lemmas traces_opt = traced_transfer traced_upload traced_download_dialog traced_upload_dialog

lemma traced_pair: "Some (map_prod id f x) = Some (a1, failed) \<Longrightarrow> traced V a (fst x) (f (snd x)) \<Longrightarrow> traced V a a1 failed"
  by (cases x) auto

lemma traced_opt:
  "map_option (map_prod id (\<lambda>e. e \<noteq> None)) x = Some (a1, failed) \<Longrightarrow>
     (\<And>a2 e. x = Some (a2, e) \<Longrightarrow> traced V a a2 (e \<noteq> None)) \<Longrightarrow> traced V a a1 failed"
  by (cases x) auto

text \<open>Listing the saved sessions protects tokens that an older release stored as plain text, and changes nothing else.\<close>

definition but_tokens :: "sessionManager \<Rightarrow> sessionManager" where
  "but_tokens m = m\<lparr>sm_db := map_option (\<lambda>db. db\<lparr>db_rows := map (\<lambda>r. r\<lparr>rw_auth_token := [], rw_protected := []\<rparr>) (db_rows db)\<rparr>) (sm_db m)\<rparr>"

lemma but_tokens_update:
  assumes "\<And>r. (f r)\<lparr>rw_auth_token := [], rw_protected := []\<rparr> = r\<lparr>rw_auth_token := [], rw_protected := []\<rparr>"
  shows "but_tokens (m\<lparr>sm_db := map_option (\<lambda>db. fst (sql_update i f db)) (sm_db m)\<rparr>) = but_tokens m"
  by (cases "sm_db m") (simp_all add: but_tokens_def sql_update_def assms)

lemma restoreToken_tokens: "restoreToken F i plain prot m = (m1, x) \<Longrightarrow> but_tokens m1 = but_tokens m"
  by (auto simp: restoreToken_def Let_def but_tokens_update split: if_splits option.splits sum.splits)

lemma restore_rows_tokens: "restore_rows F rs m = (m1, x) \<Longrightarrow> but_tokens m1 = but_tokens m"
  by (induction rs arbitrary: m m1 x) (auto dest!: restoreToken_tokens split: prod.splits sum.splits)

lemma GetSessions_tokens:
  "GetSessions V a = (a1, ss) \<Longrightarrow> \<exists>m. a1 = a\<lparr>ap_sessions := m\<rparr> \<and> but_tokens m = but_tokens (ap_sessions a)"
  by (auto simp: GetSessions_def on_sessions_def LoadAll_def dest: restore_rows_tokens split: prod.splits sum.splits option.splits)

text \<open>(C19) What the audit log records, over every binding. Listing the saved sessions is the one call that can change
  the state without a trace, and all it can change are the two token columns of the saved sessions, where it protects
  tokens in plain text. Every other binding either changes nothing at all (it only reads, its arguments were
  rejected, a dialog was closed, the application is shutting down) or adds exactly one entry, made by the user, and
  that entry reports an error whenever the binding returns one.\<close>

theorem bindings_audited:
  assumes "perform N V call a = Some (a1, failed)"
  shows "if call = BGetSessions then \<not> failed \<and> (\<exists>m. a1 = a\<lparr>ap_sessions := m\<rparr> \<and> but_tokens m = but_tokens (ap_sessions a))
    else a1 = a \<or> one_entry V (ap_audit a) (ap_audit a1) failed"
proof (cases "call = BGetSessions")
  case True
  with assms show ?thesis by (cases "GetSessions V a") (auto dest: GetSessions_tokens)
next
  case False
  have "traced V a a1 failed"
    by (insert assms False, cases call; simp only: perform.simps;
        ((erule traced_pair, rule traces) | (erule traced_opt, erule traces_opt) | simp)?)
  with False show ?thesis by (simp add: traced_def)
qed

lemma bindings_audited_witness:
  "\<exists>a1. perform lab_net lab_env (BConnect ''10.0.0.9'' 9473 ''token'') (lab_app (0::nat)) = Some (a1, False) \<and> a1 \<noteq> lab_app 0
     \<and> one_entry lab_env (ap_audit (lab_app (0::nat))) (ap_audit a1) False"
proof -
  let ?o = "no_options\<lparr>co_AuthToken := ''token''\<rparr>"
  define c where "c = connectAgentWithOptions lab_net lab_env ''10.0.0.9'' 9473 ?o (lab_app 0)"
  have o: "?o = remembered ?o" by (simp add: remembered_def no_options_def)
  have n: "no_connect lab_net 0 ''10.0.0.9'' 9473 ?o = (1, Inr ''a1'')"
    unfolding lab_net_def using o by simp
  have p: "port_err ''10.0.0.9'' 9473 = None" by (simp add: port_err_def)
  have net: "on_net (\<lambda>r. no_connect lab_net r ''10.0.0.9'' 9473 ?o) (lab_app 0) = (lab_app 1, Inr ''a1'')"
    by (simp add: on_net_def lab_app_def n)
  have c: "c = (fst c, None)" "ap_net (fst c) = 1"
    unfolding c_def connectAgentWithOptions_def p option.case net by (simp_all add: lab_app_def app_log_def)
  have "fst c \<noteq> lab_app 0" using c(2) by (auto simp: lab_app_def)
  moreover have "perform lab_net lab_env (BConnect ''10.0.0.9'' 9473 ''token'') (lab_app 0) = Some (map_prod id (\<lambda>e. e \<noteq> None) c)"
    by (simp only: perform.simps ConnectAgent_def c_def)
  moreover have "map_prod id (\<lambda>e. e \<noteq> None) c = (fst c, False)" by (subst c(1)) simp
  ultimately have a: "perform lab_net lab_env (BConnect ''10.0.0.9'' 9473 ''token'') (lab_app 0) = Some (fst c, False)"
    and b: "fst c \<noteq> lab_app 0" by simp_all
  have "one_entry lab_env (ap_audit (lab_app (0::nat))) (ap_audit (fst c)) False"
    using bindings_audited [OF a] b by simp
  with a b show ?thesis by (intro exI conjI)
qed

section \<open>One command on several agents\<close>

text \<open>What the request to one agent counts as.\<close>

definition result_of :: "'t appenv \<Rightarrow> CommandResultPayload result \<Rightarrow> CommandResultPayload" where
  "result_of V r = (case r of Inl err \<Rightarrow> failed_result V err | Inr x \<Rightarrow> x)"

definition asked :: "'r netops \<Rightarrow> 't appenv \<Rightarrow> string \<Rightarrow> int \<Rightarrow> string \<Rightarrow> CommandResultPayload \<Rightarrow> bool" where
  "asked N V command d agentID res \<longleftrightarrow> (\<exists>r. res = result_of V (snd (requestCommandResult N agentID command d r)))"

definition tally :: "multi \<Rightarrow> string list \<Rightarrow> bool" where
  "tally s done_ids \<longleftrightarrow> fset (fmdom (mu_results s)) = set done_ids
     \<and> mu_succeeded s = int (length (filter (\<lambda>i. cr_exit_code (the (fmlookup (mu_results s) i)) = 0) done_ids))
     \<and> mu_failed s = int (length (filter (\<lambda>i. cr_exit_code (the (fmlookup (mu_results s) i)) \<noteq> 0) done_ids))"

lemma length_filter_all: "length (filter P xs) = length xs \<longleftrightarrow> (\<forall>x \<in> set xs. P x)"
  using length_filter_less [of _ xs P] by (metis filter_True less_irrefl)

lemma multi_enter_tally:
  assumes "tally s ids" "i \<notin> set ids"
  shows "tally (multi_enter V i x s) (ids @ [i])" "mu_results (multi_enter V i x s) = fmupd i (result_of V x) (mu_results s)"
proof -
  show r: "mu_results (multi_enter V i x s) = fmupd i (result_of V x) (mu_results s)"
    by (simp add: multi_enter_def result_of_def Let_def split: sum.split)
  have f: "filter (\<lambda>j. P (cr_exit_code (the (fmlookup (fmupd i v (mu_results s)) j)))) ids
      = filter (\<lambda>j. P (cr_exit_code (the (fmlookup (mu_results s) j)))) ids" for P v
    using assms(2) by (intro filter_cong) auto
  have "mu_succeeded (multi_enter V i x s) = mu_succeeded s + (if cr_exit_code (result_of V x) = 0 then 1 else 0)"
    "mu_failed (multi_enter V i x s) = mu_failed s + (if cr_exit_code (result_of V x) = 0 then 0 else 1)"
    by (simp_all add: multi_enter_def result_of_def failed_result_def Let_def split: sum.split)
  then show "tally (multi_enter V i x s) (ids @ [i])"
    using assms(1) f [of "\<lambda>c. c = 0"] f [of "\<lambda>c. c \<noteq> 0"] by (simp add: tally_def r)
qed

lemma multi_run_tally:
  assumes "multi_run N V command d todo (r, s) = (r1, s1)" "tally s ids" "distinct (ids @ todo)"
    "\<And>i res. fmlookup (mu_results s) i = Some res \<Longrightarrow> asked N V command d i res"
  shows "tally s1 (ids @ todo) \<and> (\<forall>i res. fmlookup (mu_results s1) i = Some res \<longrightarrow> asked N V command d i res)"
  using assms
proof (induction todo arbitrary: r s ids)
  case (Cons i todo)
  obtain r2 x where q: "requestCommandResult N i command d r = (r2, x)" by force
  have "i \<notin> set ids" using Cons.prems(3) by simp
  note e = multi_enter_tally [OF Cons.prems(2) this, of V x]
  have "asked N V command d i (result_of V x)" unfolding asked_def using q by (intro exI [of _ r]) simp
  then have "asked N V command d j res" if "fmlookup (mu_results (multi_enter V i x s)) j = Some res" for j res
    using that Cons.prems(4) by (auto simp: e(2) split: if_splits)
  moreover have "multi_run N V command d todo (r2, multi_enter V i x s) = (r1, s1)" using Cons.prems(1) q by simp
  ultimately show ?case using Cons.IH [OF _ e(1)] Cons.prems(3) by simp
qed auto

text \<open>(C20) One command on several agents, each named once: in whatever order the requests finish, the result has exactly
  the agents asked, each with what its own request returned or, when that failed, the exit code -1 and the error as
  its standard error; and one entry of the audit log reports success when every agent succeeded, an error
  when none did and a warning otherwise.\<close>

theorem exec_multi_results:
  assumes "ExecCommandMulti N V ord agentIDs command timeout a = (a1, results)" "agentIDs \<noteq> []" "command \<noteq> []"
    "distinct agentIDs" "mset ord = mset agentIDs"
  shows "fset (fmdom results) = set agentIDs
     \<and> (\<forall>i \<in> set agentIDs. \<exists>r. fmlookup results i = Some (case snd (requestCommandResult N i command (exec_duration timeout) r) of
           Inr x \<Rightarrow> x | Inl err \<Rightarrow> \<lparr>cr_stdout = [], cr_stderr = ae_text V err, cr_exit_code = -1, cr_duration = 0\<rparr>))
     \<and> (\<exists>details. ap_audit a1 = LogCC (ae_audit V) (ae_now V) ''exec_command_multi'' [] ''user'' details
          (if \<forall>i \<in> set agentIDs. cr_exit_code (the (fmlookup results i)) = 0 then StatusSuccess
           else if \<forall>i \<in> set agentIDs. cr_exit_code (the (fmlookup results i)) \<noteq> 0 then StatusError else StatusWarning) (ap_audit a))"
proof -
  let ?d = "exec_duration timeout" and ?s0 = "\<lparr>mu_results = fmempty, mu_succeeded = 0, mu_failed = 0\<rparr>"
  obtain r s where run: "multi_run N V command ?d ord (ap_net a, ?s0) = (r, s)" by force
  have ord: "set ord = set agentIDs" "distinct ord" "length ord = length agentIDs"
    using mset_eq_setD [OF assms(5)] mset_eq_imp_distinct_iff [OF assms(5)] mset_eq_length [OF assms(5)] assms(4) by simp_all
  have "tally ?s0 []" by (simp add: tally_def)
  from multi_run_tally [OF run this] ord(2)
  have t: "tally s ord" and k: "\<And>i res. fmlookup (mu_results s) i = Some res \<Longrightarrow> asked N V command ?d i res" by simp_all
  have res: "results = mu_results s" using assms(1-3) run by (simp add: ExecCommandMulti_def)
  have dom: "fset (fmdom results) = set agentIDs" using t ord(1) by (simp add: tally_def res)
  let ?bad = "\<lambda>i. cr_exit_code (the (fmlookup results i)) \<noteq> 0"
  have bad: "mu_failed s = int (length (filter ?bad ord))" using t by (simp add: tally_def res)
  have all: "mu_failed s = int (length agentIDs) \<longleftrightarrow> (\<forall>i \<in> set agentIDs. ?bad i)"
    unfolding bad ord(3) [symmetric] of_nat_eq_iff length_filter_all ord(1) ..
  have none: "0 < mu_failed s \<longleftrightarrow> \<not> (\<forall>i \<in> set agentIDs. \<not> ?bad i)"
    using ord(1) bad by (auto simp: filter_empty_conv)
  have "agentIDs \<noteq> [] \<Longrightarrow> \<forall>i \<in> set agentIDs. \<not> ?bad i \<Longrightarrow> \<not> (\<forall>i \<in> set agentIDs. ?bad i)"
    by (cases agentIDs) simp_all
  with assms(2) have status: "(if mu_failed s = int (length agentIDs) then StatusError else if mu_failed s > 0 then StatusWarning else StatusSuccess)
      = (if \<forall>i \<in> set agentIDs. \<not> ?bad i then StatusSuccess else if \<forall>i \<in> set agentIDs. ?bad i then StatusError else StatusWarning)"
    unfolding all none by simp
  have "\<exists>r. fmlookup results i = Some (case snd (requestCommandResult N i command ?d r) of
           Inr x \<Rightarrow> x | Inl err \<Rightarrow> \<lparr>cr_stdout = [], cr_stderr = ae_text V err, cr_exit_code = -1, cr_duration = 0\<rparr>)"
    if i: "i \<in> set agentIDs" for i
  proof -
    obtain v where v: "fmlookup results i = Some v" using dom i by (auto simp: fmlookup_dom_iff)
    then have "asked N V command ?d i v" using k by (simp add: res)
    then obtain r where "v = result_of V (snd (requestCommandResult N i command ?d r))" by (auto simp: asked_def)
    with v show ?thesis unfolding result_of_def failed_result_def by (intro exI [of _ r]) (simp split: sum.split)
  qed
  moreover have "\<exists>details. ap_audit a1 = LogCC (ae_audit V) (ae_now V) ''exec_command_multi'' [] ''user'' details
      (if mu_failed s = int (length agentIDs) then StatusError else if mu_failed s > 0 then StatusWarning else StatusSuccess) (ap_audit a)"
    using assms(1-3) run by (auto simp: ExecCommandMulti_def app_log_def)
  ultimately show ?thesis unfolding status not_not by (intro conjI ballI dom)
qed

lemma exec_multi_results_witness:
  "\<exists>a1 results. ExecCommandMulti idle_net lab_env [''b'', ''a''] [''a'', ''b''] ''ls'' 5 (lab_app ()) = (a1, results)
     \<and> fset (fmdom results) = {''a'', ''b''}"
proof -
  obtain a1 results where e: "ExecCommandMulti idle_net lab_env [''b'', ''a''] [''a'', ''b''] ''ls'' 5 (lab_app ()) = (a1, results)" by force
  from exec_multi_results [OF e] have "fset (fmdom results) = set [''a'', ''b'']" by (simp add: add_mset_commute)
  with e show ?thesis by (intro exI [of _ a1] exI [of _ results]) simp
qed

end
