(* ===== verification/AppTransfers.thy ===== *)
theory AppTransfers
  imports AppProps
begin

text \<open>
  The transfers of the application and its shutdown: transfers under way beside everything else the application does,
  what cancelling their context does to them, and the wait of the shutdown, which ends.
\<close>

section \<open>Transfers under way\<close>

text \<open>
  Agent, remote and local path of a download; agent, local and remote path of an upload. \<open>run_job\<close> is what follows once the
  call has registered.
\<close>

datatype job = JDownload string string string | JUpload string string string

fun job_args :: "job \<Rightarrow> goerr option" where
  "job_args (JDownload k remotePath localPath) = transfer_args k remotePath localPath"
| "job_args (JUpload k localPath remotePath) = upload_args k localPath remotePath"

fun run_job :: "'r netops \<Rightarrow> 't appenv \<Rightarrow> job \<Rightarrow> 'r App \<Rightarrow> ('r App \<times> goerr option) option" where
  "run_job N V (JDownload k remotePath localPath) = run_download N V k remotePath localPath"
| "run_job N V (JUpload k localPath remotePath) = run_upload N V k localPath remotePath"

fun call_job :: "'r netops \<Rightarrow> 't appenv \<Rightarrow> job \<Rightarrow> 'r App \<Rightarrow> ('r App \<times> goerr option) option" where
  "call_job N V (JDownload k remotePath localPath) = TransferFile N V k remotePath localPath"
| "call_job N V (JUpload k localPath remotePath) = UploadFileFromPath N V k localPath remotePath"

lemma call_job_eq:
  "call_job N V j a = (case job_args j of Some err \<Rightarrow> Some (a, Some err)
     | None \<Rightarrow> (case beginTransfer a of (a1, Some err) \<Rightarrow> Some (a1, Some err) | (a1, None) \<Rightarrow> run_job N V j a1))"
  by (cases j) (simp_all add: TransferFile_def UploadFileFromPath_def split: option.split prod.split)

text \<open>
  The steps of the application with the transfers under way: one registers; one returns, whatever it did; any binding
  runs; agents and manager do anything; the shutdown begins. The engine of templates \<open>T\<close> is the same throughout.
\<close>

inductive app_step :: "'r netops \<Rightarrow> 't templates \<Rightarrow> 'r App \<times> job list \<Rightarrow> 'r App \<times> job list \<Rightarrow> bool" for N T where
  job_begun: "job_args j = None \<Longrightarrow> beginTransfer a = (a1, None) \<Longrightarrow> app_step N T (a, js) (a1, j # js)"
| job_returned: "j \<in> set js \<Longrightarrow> ae_templates V = T \<Longrightarrow> run_job N V j a = Some (a1, err) \<Longrightarrow> app_step N T (a, js) (a1, remove1 j js)"
| binding_called: "ae_templates V = T \<Longrightarrow> perform N V call a = Some (a1, failed) \<Longrightarrow> app_step N T (a, js) (a1, js)"
| net_moved: "app_step N T (a, js) (a\<lparr>ap_net := r\<rparr>, js)"
| shutting_down: "app_step N T (a, js) (shutdown_begin a, js)"

text \<open>The transfers return one after the other, in any order.\<close>

fun drain :: "'r netops \<Rightarrow> 't appenv \<Rightarrow> job list \<Rightarrow> 'r App \<Rightarrow> 'r App option" where
  "drain N V [] a = Some a"
| "drain N V (j # js) a = Option.bind (run_job N V j a) (\<lambda>(a1, err). drain N V js a1)"

section \<open>What keeps the wait group\<close>

text \<open>The shutdown flag and the number of transfers under way.\<close>

definition transfers_of :: "'r App \<Rightarrow> bool \<times> bool option \<times> nat" where
  "transfers_of a = (ap_shuttingDown a, ap_transferCtx a, ap_transfers a)"

lemma transfers_of_data [simp]:
  "transfers_of (a\<lparr>ap_net := r\<rparr>) = transfers_of a" "transfers_of (a\<lparr>ap_fs := fs\<rparr>) = transfers_of a"
  "transfers_of (a\<lparr>ap_sessions := m\<rparr>) = transfers_of a" "transfers_of (a\<lparr>ap_scripts := e\<rparr>) = transfers_of a"
  "transfers_of (app_log V act k u d s a) = transfers_of a"
  by (simp_all add: transfers_of_def app_log_def)

lemma on_transfers [simp]:
  "on_net f a = (a1, x) \<Longrightarrow> transfers_of a1 = transfers_of a"
  "on_sessions g a = (a1, y) \<Longrightarrow> transfers_of a1 = transfers_of a"
  "transfers_of (fst (on_sessions g a)) = transfers_of a"
  by (auto simp: on_net_def on_sessions_def split: prod.splits)

lemma run_transfers:
  assumes "run_job N V j a = Some (a1, err)"
  shows "transfers_of a1 = (ap_shuttingDown a, ap_transferCtx a, ap_transfers a - 1)"
  using assms by (cases j) (auto simp: run_download_def run_upload_def endTransfer_def transfers_of_def app_log_def split: option.splits prod.splits)

lemma call_transfers:
  assumes "call_job N V j a = Some (a1, err)"
  shows "transfers_of a1 = transfers_of a"
proof (cases "job_args j")
  case None
  obtain a2 e where b: "beginTransfer a = (a2, e)" by force
  show ?thesis
  proof (cases e)
    case None
    with b have "transfers_of a2 = (ap_shuttingDown a, ap_transferCtx a, Suc (ap_transfers a))"
      by (auto simp: beginTransfer_def transfers_of_def split: if_splits)
    moreover have "run_job N V j a2 = Some (a1, err)" using assms b None \<open>job_args j = None\<close> by (simp add: call_job_eq)
    ultimately show ?thesis using run_transfers [of N V j a2 a1 err] by (simp add: transfers_of_def)
  next
    case (Some e')
    with assms b \<open>job_args j = None\<close> show ?thesis by (auto simp: call_job_eq beginTransfer_def split: if_splits)
  qed
qed (use assms in \<open>simp add: call_job_eq\<close>)

lemma connect_transfers: "transfers_of (fst (connectAgentWithOptions N V host port options a)) = transfers_of a"
  by (auto simp: connectAgentWithOptions_def split: option.split prod.split sum.split)

lemma requests_transfers:
  "transfers_of (fst (DisconnectAgent N V k a)) = transfers_of a"
  "transfers_of (fst (ReconnectSession N V i a)) = transfers_of a"
  "transfers_of (fst (ExecCommand N V k c t a)) = transfers_of a"
  "transfers_of (fst (ExecCommandMulti N V order ids c t a)) = transfers_of a"
  "transfers_of (fst (ListDirApp N V k path a)) = transfers_of a"
  "transfers_of (fst (GetSystemInfoApp N V k a)) = transfers_of a"
  "transfers_of (fst (RequestScreenshot N V k a)) = transfers_of a"
  "transfers_of (fst (RunScript N V k name content a)) = transfers_of a"
  by (auto simp: DisconnectAgent_def ReconnectSession_def ExecCommand_def ExecCommandMulti_def ListDirApp_def GetSystemInfoApp_def
      RequestScreenshot_def RunScript_def Let_def split: option.split prod.split sum.split)

lemma local_transfers:
  "transfers_of (fst (saveSessionWithOptions V host port name options a)) = transfers_of a"
  "transfers_of (fst (DeleteSession V i a)) = transfers_of a" "transfers_of (fst (WakeOnLAN V mac ip a)) = transfers_of a"
  "transfers_of (fst (SaveScriptApp V name content a)) = transfers_of a" "transfers_of (fst (GetSessions V a)) = transfers_of a"
  by (auto simp: saveSessionWithOptions_def DeleteSession_def WakeOnLAN_def SaveScriptApp_def GetSessions_def Let_def
      split: option.split prod.split sum.split)

lemmas keeps_transfers = connect_transfers requests_transfers local_transfers

lemma dialogs_transfers:
  "DownloadFile N V ch k remotePath a = Some (a1, e) \<Longrightarrow> transfers_of a1 = transfers_of a"
  "UploadFile N V ch k directory a = Some (a1, e) \<Longrightarrow> transfers_of a1 = transfers_of a"
  by (auto simp: DownloadFile_def UploadFile_def split: if_splits sum.splits
      dest: call_transfers [where j = "JDownload k r l" for k r l, simplified] call_transfers [where j = "JUpload k l r" for k l r, simplified])

lemma pair_transfers:
  "Some (map_prod id f x) = Some (a1, failed) \<Longrightarrow> transfers_of (fst x) = transfers_of a \<Longrightarrow> transfers_of a1 = transfers_of a"
  by (cases x) simp

lemma opt_transfers:
  "map_option (map_prod id f) x = Some (a1, failed) \<Longrightarrow> (\<And>a2 e. x = Some (a2, e) \<Longrightarrow> transfers_of a2 = transfers_of a)
     \<Longrightarrow> transfers_of a1 = transfers_of a"
  by (cases x) auto

lemma binding_transfers:
  assumes "perform N V call a = Some (a1, failed)"
  shows "transfers_of a1 = transfers_of a"
  by (insert assms, cases call;
      simp only: perform.simps ConnectAgent_def ConnectAgentSecure_def SaveSessionPlain_def SaveSessionSecure_def)
    ((erule pair_transfers, rule keeps_transfers)
      | (erule opt_transfers, erule dialogs_transfers call_transfers [where j = "JDownload k r l" for k r l, simplified]
          call_transfers [where j = "JUpload k l r" for k l r, simplified])
      | (erule pair_transfers, simp))+


section \<open>A cancelled transfer returns\<close>

text \<open>A context that is cancelled stays so: from some poll on it reports the same error.\<close>

definition cancels :: "ctx_polls \<Rightarrow> bool" where
  "cancels ctx \<longleftrightarrow> (\<exists>n err. \<forall>k \<ge> n. ctx k = Some err)"

text \<open>Each round of either loop polls the context first, so the loop is left then, whatever the agent answers.\<close>

lemma download_round_polls:
  assumes "download_round rq ctx En k path part timeout s = Inr s1"
  shows "ctx (dn_round s) = None" "dn_round s1 = Suc (dn_round s)"
  using assms by (auto simp: download_round_def Let_def split: option.splits prod.splits sum.splits)

lemma download_loop_cancelled:
  assumes "cancels ctx"
  shows "\<exists>x. go_loop (download_round rq ctx En k path part timeout) s = Some x"
proof -
  obtain n err where n: "\<forall>i \<ge> n. ctx i = Some err" using assms by (auto simp: cancels_def)
  have "\<exists>x. go_loop (download_round rq ctx En k path part timeout) s = Some x \<and> True"
  proof (rule go_loop_total [where I = "\<lambda>_. True" and m = "\<lambda>t. n - dn_round t"])
    fix t t' assume "download_round rq ctx En k path part timeout t = Inr t'"
    note p = download_round_polls [OF this]
    have "dn_round t < n" using p(1) n by (metis not_less option.distinct(1))
    with p(2) show "True \<and> n - dn_round t' < n - dn_round t" by simp
  qed simp_all
  then show ?thesis by simp
qed

lemma upload_round_polls:
  assumes "upload_round rq ctx En k path p timeout uuid tot now s = Inr s1"
  shows "ctx (up_polls s) = None" "up_polls s1 = up_polls s + 2"
  using assms by (auto simp: upload_round_def Let_def split: option.splits oserr.splits if_splits prod.splits)

lemma upload_loop_cancelled:
  assumes "cancels ctx"
  shows "\<exists>x. go_loop (upload_round rq ctx En k path p timeout uuid tot now) s = Some x"
proof -
  obtain n err where n: "\<forall>i \<ge> n. ctx i = Some err" using assms by (auto simp: cancels_def)
  have "\<exists>x. go_loop (upload_round rq ctx En k path p timeout uuid tot now) s = Some x \<and> True"
  proof (rule go_loop_total [where I = "\<lambda>_. True" and m = "\<lambda>t. n - up_polls t"])
    fix t t' assume "upload_round rq ctx En k path p timeout uuid tot now t = Inr t'"
    note p = upload_round_polls [OF this]
    have "up_polls t < n" using p(1) n by (metis not_less option.distinct(1))
    with p(2) show "True \<and> n - up_polls t' < n - up_polls t" by simp
  qed simp_all
  then show ?thesis by simp
qed

lemma Download_cancelled:
  assumes "cancels ctx"
  shows "\<exists>x. Download (Some ctx) (Some rq) En k path l timeout r fs = Some x"
  by (insert download_loop_cancelled [OF assms, of rq En k path], auto simp: Download_def split: option.splits sum.splits prod.splits)
    (metis option.distinct(1))+

lemma Upload_cancelled:
  assumes "cancels ctx"
  shows "\<exists>x. Upload (Some ctx) (Some rq) En uuid now k l path timeout r fs = Some x"
  by (insert upload_loop_cancelled [OF assms, of rq En k path], auto simp: Upload_def split: option.splits sum.splits prod.splits)
    (metis option.distinct(1))+

lemma job_cancelled:
  assumes "cancels (ae_polls V)"
  shows "\<exists>a1 err. run_job N V j a = Some (a1, err)"
proof (cases j)
  case (JDownload k path l)
  with Download_cancelled [OF assms, of "no_request N" "ae_envs V" k path l defaultTimeout "ap_net a" "ap_fs a"]
  show ?thesis by (auto simp: run_download_def)
next
  case (JUpload k l path)
  with Upload_cancelled [OF assms, of "no_request N" "ae_envs V" "ae_uuid V" "ae_source V" k l path defaultTimeout "ap_net a" "ap_fs a"]
  show ?thesis by (auto simp: run_upload_def)
qed

section \<open>The shutdown\<close>

text \<open>Whatever happens, the wait group counts the transfers under way, and none registers after the shutdown began.\<close>

lemma step_counts:
  assumes "app_step N T s s1" "ap_transfers (fst s) = length (snd s)"
  shows "ap_transfers (fst s1) = length (snd s1)"
    "ap_shuttingDown (fst s) \<Longrightarrow> ap_shuttingDown (fst s1) \<and> mset (snd s1) \<subseteq># mset (snd s)"
  using assms
proof (induction rule: app_step.induct)
  case (job_returned j js V a a1 err)
  {
    case 1
    then show ?case using run_transfers [OF job_returned(3)] job_returned(1) by (simp add: transfers_of_def length_remove1)
  next
    case 2
    then show ?case using run_transfers [OF job_returned(3)] by (simp add: transfers_of_def)
  }
next
  case (binding_called V call a a1 failed js)
  {
    case 1
    then show ?case using binding_transfers [OF binding_called(2)] by (simp add: transfers_of_def)
  next
    case 2
    then show ?case using binding_transfers [OF binding_called(2)] by (simp add: transfers_of_def)
  }
qed (auto simp: beginTransfer_def shutdown_begin_def split: if_splits)

lemma steps_count:
  assumes "(app_step N T)\<^sup>*\<^sup>* s s1" "ap_transfers (fst s) = length (snd s)" "ap_shuttingDown (fst s)"
  shows "ap_transfers (fst s1) = length (snd s1) \<and> ap_shuttingDown (fst s1) \<and> mset (snd s1) \<subseteq># mset (snd s)"
  using assms
proof (induction rule: rtranclp_induct)
  case (step s1 s2)
  with step_counts [OF step(2)] show ?case by (meson subset_mset.order_trans)
qed simp

lemma drain_total:
  assumes "cancels (ae_polls V)" "ap_transfers a = length js"
  shows "\<exists>c. drain N V js a = Some c \<and> ap_transfers c = 0"
  using assms(2)
proof (induction js arbitrary: a)
  case (Cons j js)
  obtain a1 err where j: "run_job N V j a = Some (a1, err)" using job_cancelled [OF assms(1)] by blast
  then have "ap_transfers a1 = length js" using run_transfers [OF j] Cons.prems by (simp add: transfers_of_def)
  from Cons.IH [OF this] j show ?case by simp
qed simp

lemma drain_steps:
  assumes "drain N V js a = Some c" "ae_templates V = T" "mset js = mset ks"
  shows "(app_step N T)\<^sup>*\<^sup>* (a, ks) (c, [])"
  using assms(1,3)
proof (induction js arbitrary: a ks)
  case (Cons j js)
  then obtain a1 err where j: "run_job N V j a = Some (a1, err)" "drain N V js a1 = Some c" by (auto simp: bind_eq_Some_conv)
  have "j \<in> set ks" using Cons.prems(2) by (metis list.set_intros(1) mset_eq_setD)
  from job_returned [OF this assms(2) j(1)] have "app_step N T (a, ks) (a1, remove1 j ks)" .
  moreover have "mset js = mset (remove1 j ks)" using Cons.prems(2) by (metis add_mset_remove_trivial mset.simps(2) mset_remove1)
  note Cons.IH [OF j(2) this]
  ultimately show ?case by (rule converse_rtranclp_into_rtranclp)
qed auto

text \<open>(C21) The wait of the shutdown ends. After the shutdown has begun, in whatever order transfers return and bindings, agents and
  the manager go on: a transfer is refused and leaves the application as it was, the wait group counts exactly the transfers
  still under way, all of them begun before, and each that returns signs off. And when the context of the transfers
  reports the cancelation from some poll on, every one of them returns, whatever the agents answer, whatever its file does and whatever
  fails, and after they have returned, in any order, the wait group is empty.\<close>

theorem shutdown_drains:
  fixes V :: "'t appenv"
  assumes "ap_transfers a = length js" "(app_step N T)\<^sup>*\<^sup>* (shutdown_begin a, js) (b, ks)"
  shows "beginTransfer b = (b, Some (lit ''application is shutting down''))
     \<and> (job_args j = None \<longrightarrow> call_job N V j b = Some (b, Some (lit ''application is shutting down'')))
     \<and> ap_transfers b = length ks \<and> mset ks \<subseteq># mset js
     \<and> (k \<in> set ks \<longrightarrow> run_job N V k b = Some (b1, err) \<longrightarrow> Suc (ap_transfers b1) = ap_transfers b)
     \<and> (cancels (ae_polls V) \<longrightarrow> ae_templates V = T \<longrightarrow> mset ls = mset ks \<longrightarrow>
          (\<exists>c. drain N V ls b = Some c \<and> (app_step N T)\<^sup>*\<^sup>* (b, ks) (c, []) \<and> ap_transfers c = 0))"
proof -
  have b: "ap_transfers b = length ks" "ap_shuttingDown b" "mset ks \<subseteq># mset js"
    using steps_count [OF assms(2)] assms(1) by (simp_all add: shutdown_begin_def)
  have refused: "beginTransfer b = (b, Some (lit ''application is shutting down''))" using b(2) by (simp add: beginTransfer_def)
  moreover have "Suc (ap_transfers b1) = ap_transfers b" if "k \<in> set ks" "run_job N V k b = Some (b1, err)"
    using run_transfers [OF that(2)] that(1) b(1) by (cases ks) (auto simp: transfers_of_def)
  moreover have "\<exists>c. drain N V ls b = Some c \<and> (app_step N T)\<^sup>*\<^sup>* (b, ks) (c, []) \<and> ap_transfers c = 0"
    if "cancels (ae_polls V)" "ae_templates V = T" "mset ls = mset ks"
    using drain_total [OF that(1), of b ls N] drain_steps [OF _ that(2,3)] b(1) mset_eq_length [OF that(3)] by fastforce
  ultimately show ?thesis using b by (simp add: call_job_eq)
qed

text \<open>A download under way, with a context that reports the cancelation at the third poll.\<close>

definition late_cancel :: ctx_polls where
  "late_cancel k = (if k < 2 then None else Some (lit ''context canceled''))"

lemma late_cancels: "cancels (ae_polls (lab_env\<lparr>ae_polls := late_cancel\<rparr>))"
  by (auto simp: cancels_def late_cancel_def intro!: exI [of _ 2])

lemma shutdown_drains_witness:
  "\<exists>a c. app_step lab_net (ae_templates lab_env) (lab_app (0::nat), []) (a, [JDownload ''a1'' ''/d/f'' ''/d/h''])
     \<and> drain lab_net (lab_env\<lparr>ae_polls := late_cancel\<rparr>) [JDownload ''a1'' ''/d/f'' ''/d/h''] (shutdown_begin a) = Some c
     \<and> ap_transfers c = 0 \<and> TransferFile lab_net lab_env ''a1'' ''/d/f'' ''/d/h'' (shutdown_begin a)
          = Some (shutdown_begin a, Some (lit ''application is shutting down''))"
proof -
  let ?j = "JDownload ''a1'' ''/d/f'' ''/d/h''" and ?a = "(lab_app (0::nat))\<lparr>ap_transfers := 1\<rparr>"
  have args: "job_args ?j = None" by (simp add: transfer_args_def)
  have t: "ae_templates (lab_env\<lparr>ae_polls := late_cancel\<rparr>) = ae_templates lab_env" by simp
  have "beginTransfer (lab_app 0) = (?a, None)" by (simp add: beginTransfer_def lab_app_def)
  note job_begun [OF args this, of lab_net "ae_templates lab_env" "[]"]
  moreover have d: "ap_transfers ?a = length [?j]" by simp
  note s = shutdown_drains [where N = lab_net and T = "ae_templates lab_env" and js = "[?j]" and ks = "[?j]" and j = ?j, OF d rtranclp.rtrancl_refl]
  have "TransferFile lab_net lab_env ''a1'' ''/d/f'' ''/d/h'' (shutdown_begin ?a)
      = Some (shutdown_begin ?a, Some (lit ''application is shutting down''))"
    using s [where V = lab_env] args by simp
  moreover have "\<exists>c. drain lab_net (lab_env\<lparr>ae_polls := late_cancel\<rparr>) [?j] (shutdown_begin ?a) = Some c \<and> ap_transfers c = 0"
    using s [where V = "lab_env\<lparr>ae_polls := late_cancel\<rparr>" and ls = "[?j]" and k = ?j and ?b1.0 = ?a and err = None] late_cancels t
    by (elim conjE) blast
  ultimately show ?thesis by blast
qed

end
