(* ===== verification/AgentListen.thy ===== *)
theory AgentListen
  imports ServerFacts ClientMgr
begin

text \<open>
  Starting and stopping the agent's listener (\<^verbatim>\<open>Start\<close>, \<^verbatim>\<open>createListener\<close> and
  \<^verbatim>\<open>shutdown\<close> of \<^verbatim>\<open>agent/internal/server/server.go\<close>). Packages \<^verbatim>\<open>net\<close>,
  \<^verbatim>\<open>crypto/tls\<close> and \<^verbatim>\<open>net/http\<close> are arguments: what binding an address and reading a
  key pair yield, and how serving ends. A listener keeps the layers of TLS it accepts connections through.
\<close>

section \<open>Constants and routes\<close>

definition ReadTimeout :: int where "ReadTimeout = 60 * 10 ^ 9"
definition WriteTimeout :: int where "WriteTimeout = 30 * 10 ^ 9"
definition MaxMessageSize :: int where "MaxMessageSize = 10 * 1024 * 1024"
definition ReadBufferSize :: int where "ReadBufferSize = 64 * 1024"
definition WriteBufferSize :: int where "WriteBufferSize = 64 * 1024"
definition PushInterval :: int where "PushInterval = 2 * 10 ^ 9"
definition AuthTimeout :: int where "AuthTimeout = 15 * 10 ^ 9"

text \<open>The deadline a read gets: the timeout of the client, or the constant where it has none.\<close>

definition refreshReadDeadline :: "int \<Rightarrow> int \<Rightarrow> int" where
  "refreshReadDeadline now timeout = now + (if timeout \<le> 0 then ReadTimeout else timeout)"

text \<open>\<open>header\<close> is \<^verbatim>\<open>Header.Get\<close>, the empty string where a header is absent.\<close>

definition CheckOrigin :: "(string \<Rightarrow> string) \<Rightarrow> bool" where
  "CheckOrigin header \<longleftrightarrow> header ''Origin'' = []"

datatype route = HealthCheck | WebSocket

text \<open>The two patterns of the multiplexer, on a path in canonical form.\<close>

definition route_of :: "string \<Rightarrow> route" where
  "route_of path = (if path = ''/health'' then HealthCheck else WebSocket)"

record httpResponse =
  hr_status :: int
  hr_type :: string
  hr_body :: json

definition health_response :: httpResponse where
  "health_response = \<lparr>hr_status = 200, hr_type = ''application/json'', hr_body = JObj [(''status'', JStr ''ok'')]\<rparr>"

section \<open>Listeners\<close>

record listenConf =
  ls_addr :: string
  ls_certFile :: string
  ls_keyFile :: string

datatype 'cert listener = Tcp string | Tls 'cert "'cert listener"

record 'cert netenv =
  ne_listen :: "string \<Rightarrow> goerr option"
  ne_keypair :: "string \<Rightarrow> string \<Rightarrow> 'cert result"

definition with_tls :: "listenConf \<Rightarrow> bool" where
  "with_tls c \<longleftrightarrow> ls_certFile c \<noteq> [] \<and> ls_keyFile c \<noteq> []"

definition net_Listen :: "'cert netenv \<Rightarrow> string \<Rightarrow> 'cert listener result" where
  "net_Listen N addr = (case ne_listen N addr of Some err \<Rightarrow> Inl err | None \<Rightarrow> Inr (Tcp addr))"

text \<open>\<^verbatim>\<open>tls.Listen\<close> puts one layer on the listener it binds.\<close>

definition createListener :: "'cert netenv \<Rightarrow> listenConf \<Rightarrow> 'cert listener result" where
  "createListener N c =
     (if with_tls c then
        (case ne_keypair N (ls_certFile c) (ls_keyFile c) of
           Inl err \<Rightarrow> Inl (Sprintf ''cannot load TLS cert/key: %w'' [GErr err])
         | Inr cert \<Rightarrow> (case net_Listen N (ls_addr c) of Inl err \<Rightarrow> Inl err | Inr l \<Rightarrow> Inr (Tls cert l)))
      else net_Listen N (ls_addr c))"

text \<open>\<^verbatim>\<open>ServeTLS\<close> reads the key pair again and puts a layer on the listener it is given; \<^verbatim>\<open>Serve\<close> does not.\<close>

definition served_listener :: "'cert netenv \<Rightarrow> listenConf \<Rightarrow> 'cert listener \<Rightarrow> 'cert listener result" where
  "served_listener N c l =
     (if with_tls c then
        (case ne_keypair N (ls_certFile c) (ls_keyFile c) of Inl err \<Rightarrow> Inl err | Inr cert \<Rightarrow> Inr (Tls cert l))
      else Inr l)"

section \<open>Start and shutdown\<close>

text \<open>The clients of the snapshot are closed one after the other; \<open>order\<close> lists them.\<close>

definition close_at :: "nat \<Rightarrow> Server \<Rightarrow> Server" where
  "close_at p s = put_conn p ((sv_conns s ! p)\<lparr>cn_client := closeClient (cn_client (sv_conns s ! p))\<rparr>) s"

definition shutdown_clients :: "nat list \<Rightarrow> Server \<Rightarrow> Server" where
  "shutdown_clients order s = fold close_at order s"

text \<open>\<open>ended\<close> is what \<^verbatim>\<open>http.Server.Shutdown\<close> returns, absent when no HTTP server was started.\<close>

definition shutdown :: "nat list \<Rightarrow> goerr option option \<Rightarrow> Server \<Rightarrow> Server \<times> goerr option" where
  "shutdown order ended s = (shutdown_clients order s, case ended of None \<Rightarrow> None | Some r \<Rightarrow> r)"

definition ErrServerClosed :: goerr where "ErrServerClosed = lit ''http: Server closed''"

text \<open>What ends the wait: the context, with the clients closed and the result of the HTTP server's shutdown, or serving itself.\<close>

datatype serve_end = CtxDone "nat list" "goerr option" | ServeReturned "goerr option"

definition StartServer :: "'cert netenv \<Rightarrow> listenConf \<Rightarrow> ('cert listener \<Rightarrow> Server \<Rightarrow> Server \<times> serve_end) \<Rightarrow> Server \<Rightarrow> Server \<times> goerr option" where
  "StartServer N c run s =
     (case createListener N c of
        Inl err \<Rightarrow> (s, Some (Sprintf ''cannot listen on %s: %w'' [GStr (ls_addr c), GErr err]))
      | Inr l \<Rightarrow>
        (case (case served_listener N c l of Inl err \<Rightarrow> (s, ServeReturned (Some err)) | Inr served \<Rightarrow> run served s) of
           (s1, CtxDone order r) \<Rightarrow> shutdown order (Some r) s1
         | (s1, ServeReturned r) \<Rightarrow> (s1, if r \<noteq> None \<and> r \<noteq> Some ErrServerClosed then r else None)))"

section \<open>Layers of TLS\<close>

fun tls_layers :: "'cert listener \<Rightarrow> nat" where
  "tls_layers (Tcp addr) = 0"
| "tls_layers (Tls cert l) = Suc (tls_layers l)"

text \<open>The layers a control center puts on the connection it dials: one when the address is a secure one.\<close>

definition dialed_layers :: "ConnectOptions \<Rightarrow> nat" where
  "dialed_layers options = (if fst (websocketURL [] 0 options) = ''wss'' then 1 else 0)"

text \<open>(C25) An agent with a certificate cannot be reached by any control center: \<^verbatim>\<open>createListener\<close> puts TLS on
  the listener and \<^verbatim>\<open>ServeTLS\<close> puts it on once more, so every connection is expected to carry TLS inside TLS, while a
  control center dials with one layer or none. Without a certificate the layers agree exactly for a plain connection.\<close>

theorem tls_wrapped_twice:
  assumes "createListener N c = Inr l" "served_listener N c l = Inr served"
  shows "(with_tls c \<longrightarrow> tls_layers served = 2 \<and> tls_layers served \<noteq> dialed_layers options)
     \<and> (\<not> with_tls c \<longrightarrow> (tls_layers served = dialed_layers options \<longleftrightarrow> \<not> tlsEnabled options))"
  using assms
  by (auto simp: createListener_def served_listener_def net_Listen_def dialed_layers_def websocketURL_def split: if_splits sum.splits option.splits)

definition lab_netenv :: "string netenv" where
  "lab_netenv = \<lparr>ne_listen = (\<lambda>_. None), ne_keypair = (\<lambda>c k. Inr c)\<rparr>"

lemma tls_wrapped_twice_witness:
  "served_listener lab_netenv \<lparr>ls_addr = '':9474'', ls_certFile = ''c.pem'', ls_keyFile = ''k.pem''\<rparr> (Tls ''c.pem'' (Tcp '':9474''))
       = Inr (Tls ''c.pem'' (Tls ''c.pem'' (Tcp '':9474'')))
     \<and> dialed_layers \<lparr>co_AuthToken = [], co_TLS = True, co_UseTLS = False, co_CAFile = [], co_ServerName = []\<rparr> \<noteq> 2"
proof -
  let ?c = "\<lparr>ls_addr = '':9474'', ls_certFile = ''c.pem'', ls_keyFile = ''k.pem''\<rparr>"
  let ?o = "\<lparr>co_AuthToken = [], co_TLS = True, co_UseTLS = False, co_CAFile = [], co_ServerName = []\<rparr>"
  have c: "createListener lab_netenv ?c = Inr (Tls ''c.pem'' (Tcp '':9474''))"
    by (simp add: createListener_def with_tls_def net_Listen_def lab_netenv_def)
  have s: "served_listener lab_netenv ?c (Tls ''c.pem'' (Tcp '':9474'')) = Inr (Tls ''c.pem'' (Tls ''c.pem'' (Tcp '':9474'')))"
    by (simp add: served_listener_def with_tls_def lab_netenv_def)
  have "with_tls ?c" by (simp add: with_tls_def)
  with tls_wrapped_twice [OF c s, of ?o] s show ?thesis by simp
qed

section \<open>Shutdown is a sequence of steps\<close>

lemma close_at_simps [simp]:
  "sv_clients (close_at p s) = sv_clients s" "length (sv_conns (close_at p s)) = length (sv_conns s)"
  by (simp_all add: close_at_def put_conn_def)

lemma close_at_closed:
  "q < length (sv_conns s) \<Longrightarrow> cl_closed (cn_client (sv_conns (close_at p s) ! q)) \<longleftrightarrow> q = p \<or> cl_closed (cn_client (sv_conns s ! q))"
  by (cases "p < length (sv_conns s)") (auto simp: close_at_def put_conn_def nth_list_update closeClient_def)

lemma shutdown_closed:
  "q < length (sv_conns s) \<Longrightarrow>
     cl_closed (cn_client (sv_conns (shutdown_clients order s) ! q)) \<longleftrightarrow> q \<in> set order \<or> cl_closed (cn_client (sv_conns s ! q))"
  unfolding shutdown_clients_def by (induction order arbitrary: s) (auto simp: close_at_closed)

lemma shutdown_reachable:
  fixes w :: World
  assumes "reachable s0 s" "set order \<subseteq> fset (sv_clients s)" "env_ok (w_os w)"
  shows "reachable s0 (shutdown_clients order s)"
  using assms unfolding shutdown_clients_def
proof (induction order arbitrary: s)
  case (Cons p ps)
  have "serve w s (close_at p s)"
    unfolding close_at_def by (rule serve.shutdown_closes) (use Cons.prems(2) in simp_all)
  with Cons.prems have "reachable s0 (close_at p s)" by (blast intro: reachable.step)
  with Cons.IH [of "close_at p s"] Cons.prems show ?case by simp
qed simp

end
