(* ===== verification/AgentRun.thy ===== *)
theory AgentRun
  imports AgentListen AgentMain Discovery ServerProps
begin

text \<open>
  What the agent's program does with its arguments (\<^verbatim>\<open>main\<close> and \<^verbatim>\<open>run\<close> of
  \<^verbatim>\<open>agent/cmd/lan-agent/main.go\<close>) and the local status page of a desktop session
  (\<^verbatim>\<open>agent/internal/ui\<close>). The service manager, the HTTP server, the browser and the template are third-party or
  standard packages: their results are arguments.
\<close>

section \<open>The background run\<close>

definition listen_address :: "agentFlags \<Rightarrow> string" where
  "listen_address f = af_host f @ '':'' @ FormatInt (af_port f)"

definition listen_conf :: "agentFlags \<Rightarrow> listenConf" where
  "listen_conf f = \<lparr>ls_addr = listen_address f, ls_certFile = af_tlsCert f, ls_keyFile = af_tlsKey f\<rparr>"

text \<open>The announcement of a run, absent when it is turned off or fails; \<open>mdns\<close> is \<open>NewMDNSService\<close> on this machine.\<close>

definition run_announcement :: "(int \<Rightarrow> bool \<Rightarrow> 'srv MDNSService result) \<Rightarrow> agentFlags \<Rightarrow> 'srv MDNSService option" where
  "run_announcement mdns f = (if \<not> af_discoveryEnabled f then None
     else case mdns (af_port f) (af_authToken f \<noteq> []) of Inl err \<Rightarrow> None | Inr s \<Rightarrow> Some s)"

text \<open>
  The server runs to its end; then the announcement and the audit log are closed. The result is the
  tree, the announcement that was made and the server when it stopped.
\<close>

definition program_run ::
  "'cert netenv \<Rightarrow> (int \<Rightarrow> bool \<Rightarrow> 'srv MDNSService result) \<Rightarrow> ('cert listener \<Rightarrow> Server \<Rightarrow> Server \<times> serve_end)
    \<Rightarrow> fsys \<Rightarrow> program \<Rightarrow> 'srv MDNSService option \<times> Server" where
  "program_run N mdns run fs p =
     (let f = pg_flags p; announced = run_announcement mdns f;
          s = fst (StartServer N (listen_conf f) run (run_server fs p))
      in (announced, s\<lparr>sv_log := CloseLog (sv_log s)\<rparr>))"

section \<open>The status page\<close>

text \<open>The environment variables of a graphical session; \<open>windows\<close> is the build.\<close>

definition Available :: "(string \<Rightarrow> string) \<Rightarrow> bool \<Rightarrow> bool" where
  "Available getenv windows \<longleftrightarrow> getenv ''DISPLAY'' \<noteq> [] \<or> getenv ''WAYLAND_DISPLAY'' \<noteq> [] \<or> windows"

record uiConfig =
  ui_Port :: int
  ui_ManagedByNotice :: string
  ui_AgentVersion :: string

record pageData =
  pd_ManagedByNotice :: string
  pd_AgentVersion :: string
  pd_AgentPort :: int

datatype page = NotFound | StatusPage pageData | StatusJson bool

text \<open>\<open>health\<close> is the request to the agent: the status code, or an error.\<close>

definition health_url :: "uiConfig \<Rightarrow> string" where
  "health_url cfg = ''http://127.0.0.1:'' @ FormatInt (ui_Port cfg) @ ''/health''"

definition ui_page :: "uiConfig \<Rightarrow> (string \<Rightarrow> int result) \<Rightarrow> string \<Rightarrow> page" where
  "ui_page cfg health path =
     (if path = ''/api/status'' then StatusJson (case health (health_url cfg) of Inr code \<Rightarrow> code = 200 | Inl err \<Rightarrow> False)
      else if path = ''/'' then StatusPage \<lparr>pd_ManagedByNotice = ui_ManagedByNotice cfg,
          pd_AgentVersion = ui_AgentVersion cfg, pd_AgentPort = ui_Port cfg\<rparr>
      else NotFound)"

definition browser_command :: "string \<Rightarrow> string \<Rightarrow> string list" where
  "browser_command goos address =
     (if goos = ''windows'' then [''rundll32.exe'', ''url.dll,FileProtocolHandler'', address]
      else if goos = ''darwin'' then [''open'', address] else [''xdg-open'', address])"

record uienv =
  ue_available :: bool
  ue_listen :: "string \<Rightarrow> string result"
  ue_template :: "goerr option"
  ue_goos :: string
  ue_browser :: "string list \<Rightarrow> goerr option"
  ue_end :: serve_end

text \<open>The result of showing the page, and the commands started on the way.\<close>

definition ui_Run :: "uienv \<Rightarrow> uiConfig \<Rightarrow> string list list \<times> goerr option" where
  "ui_Run U cfg =
     (if \<not> ue_available U then ([], Some (lit ''no graphical environment available''))
      else if ui_Port cfg < 1 \<or> ui_Port cfg > 65535 then ([], Some (Sprintf ''invalid agent port: %d'' [GInt (ui_Port cfg)]))
      else (case ue_listen U ''127.0.0.1:0'' of
        Inl err \<Rightarrow> ([], Some (Sprintf ''start local interface: %w'' [GErr err]))
      | Inr addr \<Rightarrow> (case ue_template U of
          Some err \<Rightarrow> ([], Some (Sprintf ''prepare local interface: %w'' [GErr err]))
        | None \<Rightarrow>
          let command = browser_command (ue_goos U) (''http://'' @ addr) in
          (case ue_browser U command of
             Some err \<Rightarrow> ([command], Some (Sprintf ''open local interface: %w'' [GErr err]))
           | None \<Rightarrow> (case ue_end U of
               CtxDone order r \<Rightarrow> ([command], r)
             | ServeReturned r \<Rightarrow> ([command], if r = Some ErrServerClosed then None else r))))))"

section \<open>The arguments of the program\<close>

text \<open>What ends the program: a bad flag, a fatal error, a printed line, or nothing to say.\<close>

datatype main_end = BadFlags | Fatal gotext | Printed string | Quiet

record svcConfig =
  sc_Name :: string
  sc_DisplayName :: string
  sc_Description :: string
  sc_Arguments :: "string list"
  sc_UserService :: bool

definition service_config :: "string list \<Rightarrow> svcConfig" where
  "service_config runArgs = \<lparr>sc_Name = ''LANCommanderAgent'', sc_DisplayName = ''LAN Commander Agent'',
     sc_Description = ''Remote management agent for the LAN Commander control center.'', sc_Arguments = runArgs,
     sc_UserService = False\<rparr>"

text \<open>The service manager: making a service of the program, the verbs, and running it.\<close>

record 'svc services =
  sv_make :: "agentFlags \<Rightarrow> svcConfig \<Rightarrow> 'svc result"
  sv_verb :: "string \<Rightarrow> 'svc \<Rightarrow> goerr option"
  sv_run :: "'svc \<Rightarrow> goerr option"

definition verb_texts :: "string \<Rightarrow> (string \<times> string) option" where
  "verb_texts cmd =
     (if cmd = ''install'' then Some (''[main] Install failed: %v'', ''Service installed. Start it with: lan-agent start'')
      else if cmd = ''uninstall'' then Some (''[main] Uninstall failed: %v'', ''Service uninstalled.'')
      else if cmd = ''start'' then Some (''[main] Start failed: %v'', ''Service started.'')
      else if cmd = ''stop'' then Some (''[main] Stop failed: %v'', ''Service stopped.'')
      else if cmd = ''restart'' then Some (''[main] Restart failed: %v'', ''Service restarted.'') else None)"

definition agent_main ::
  "'svc services \<Rightarrow> (uiConfig \<Rightarrow> goerr option) \<Rightarrow> string \<Rightarrow> string list \<Rightarrow> main_end" where
  "agent_main S show_ui version args =
     (case split_command args of (cmd, runArgs) \<Rightarrow>
       (case parseAgentFlags runArgs of None \<Rightarrow> BadFlags
        | Some f \<Rightarrow>
          if af_uiMode f then
            (case show_ui \<lparr>ui_Port = af_port f, ui_ManagedByNotice = af_managedByNotice f, ui_AgentVersion = version\<rparr> of
               Some err \<Rightarrow> Fatal (Sprintf ''[main] Interface failed: %v'' [GErr err]) | None \<Rightarrow> Quiet)
          else (case sv_make S f (service_config runArgs) of
            Inl err \<Rightarrow> Fatal (Sprintf ''[main] Failed to init service: %v'' [GErr err])
          | Inr svc \<Rightarrow> (case verb_texts cmd of
              Some (failed, said) \<Rightarrow> (case sv_verb S cmd svc of
                Some err \<Rightarrow> Fatal (Sprintf failed [GErr err]) | None \<Rightarrow> Printed said)
            | None \<Rightarrow> (case sv_run S svc of Some err \<Rightarrow> Fatal (Sprintf ''[main] %v'' [GErr err]) | None \<Rightarrow> Quiet)))))"

section \<open>From the arguments to an authenticated connection\<close>

lemma unregister_keeps [simp]:
  "sv_token (unregister p s) = sv_token s" "length (sv_conns (unregister p s)) = length (sv_conns s)"
  by (simp_all add: unregister_def Let_def put_conn_def)

lemma serve_token:
  assumes "serve w s s'"
  shows "sv_token s' = sv_token s"
  using assms
  by cases (auto simp: register_def stop_reading_def handle_step_def auth_timeout_def Let_def split: if_splits)

lemma reachable_token: "reachable s0 s \<Longrightarrow> sv_token s = sv_token s0"
  by (induction rule: reachable.induct) (simp_all add: serve_token)

text \<open>A connection that a step creates is not authenticated.\<close>

lemma serve_new_conn:
  assumes "serve w s s'" "\<not> p < length (sv_conns s)" "p < length (sv_conns s')"
  shows "\<not> cl_authed (cn_client (sv_conns s' ! p))"
  using assms(1)
proof cases
  case (upgraded remote uuid)
  with assms(2,3) have "p = length (sv_conns s)" by simp
  with upgraded show ?thesis by (simp add: newConn_def newClient_def)
next
  case (registered q s1)
  with assms(2,3) show ?thesis by (simp add: register_conns)
qed (use assms(2,3) in \<open>simp_all add: register_conns stop_reading_def handle_step_def auth_timeout_def put_conn_def Let_def split: if_splits\<close>)

lemma authenticated_along_run:
  assumes "reachable s0 s" "sv_token s0 \<noteq> []" "sv_conns s0 = []" "p < length (sv_conns s)" "cl_authed (cn_client (sv_conns s ! p))"
  shows "\<exists>s1 msg. reachable s0 s1 \<and> reachable s1 s \<and> cn_pump (sv_conns s1 ! p) = Got msg \<and> msg_type msg = MsgAuth
     \<and> right_token (sv_token s0) msg"
  using assms
proof (induction rule: reachable.induct)
  case (step s0 s w s')
  have tok: "sv_token s = sv_token s0" using step.hyps(1) by (rule reachable_token)
  consider "p < length (sv_conns s)" "cl_authed (cn_client (sv_conns s ! p))"
    | "p < length (sv_conns s)" "\<not> cl_authed (cn_client (sv_conns s ! p))"
    using serve_new_conn [OF step.hyps(3), of p] step.prems(3,4) by blast
  then show ?case
  proof cases
    case 1
    with step.IH step.prems(1,2) step.hyps(2,3) show ?thesis by (blast intro: reachable.step)
  next
    case 2
    have "sv_token s = [] \<or> (\<exists>msg. cn_pump (sv_conns s ! p) = Got msg \<and> msg_type msg = MsgAuth \<and> right_token (sv_token s) msg)"
      using authenticated_only_by_token [OF step.hyps(3) 2 step.prems(4)] .
    moreover have "reachable s s'" using reachable.step [OF reachable.start step.hyps(2,3)] .
    ultimately show ?thesis using step.hyps(1) step.prems(1) tok by auto
  qed
qed simp

text \<open>(C2) From the arguments of the program to the connection: when the agent started and was not told to go without
  authentication, then in every state its server can reach, a connection that is authenticated had, before, received an
  authentication message with exactly the token the agent was given, and that token is not empty.\<close>

theorem secure_by_default:
  assumes "program_Start E getenv fs p = (fs', p', None)" "\<not> af_noAuth (pg_flags p)"
    and "reachable (run_server fs' p') s" "c < length (sv_conns s)" "cl_authed (cn_client (sv_conns s ! c))"
  shows "af_authToken (pg_flags p') \<noteq> [] \<and> (\<exists>s1 msg auth. reachable (run_server fs' p') s1 \<and> reachable s1 s
     \<and> cn_pump (sv_conns s1 ! c) = Got msg \<and> msg_type msg = MsgAuth
     \<and> decode_auth (via_interface (msg_payload msg)) = Some auth \<and> au_token auth = af_authToken (pg_flags p'))"
proof -
  have tok: "af_authToken (pg_flags p') \<noteq> []"
    using validate_ok(1) [OF program_Start_ok(1) [OF assms(1)]] assms(2) by simp
  moreover have "sv_token (run_server fs' p') = af_authToken (pg_flags p')" "sv_conns (run_server fs' p') = []"
    by (simp_all add: run_server_def NewServer_def)
  ultimately show ?thesis using authenticated_along_run [OF assms(3) _ _ assms(4,5)]
    by (fastforce simp: right_token_def split: option.splits)
qed

definition demo_flags :: agentFlags where
  "demo_flags = defaultFlags\<lparr>af_authToken := ''secret''\<rparr>"

definition demo_program :: program where
  "demo_program = \<lparr>pg_flags = demo_flags, pg_running = True, pg_auditor = None\<rparr>"

lemma demo_start:
  "program_Start quiet (\<lambda>_. []) root_fs (demo_program\<lparr>pg_running := False\<rparr>) = (root_fs, demo_program, None)"
  by (simp add: program_Start_def validateAgentFlags_def resolveAuthToken_def demo_program_def demo_flags_def defaultFlags_def
      Open_def open_max_def TrimSpace_def Let_def)

lemma demo_login: "\<exists>s. reachable demo_server s \<and> 0 < length (sv_conns s) \<and> cl_authed (cn_client (sv_conns s ! 0))"
proof -
  let ?c = "newConn ''id-1'' ''10.0.0.5:4000''"
  let ?s1 = "put_conn 0 (?c\<lparr>cn_pump := Registered\<rparr>) (demo_server\<lparr>sv_clients := {|0|}\<rparr>)"
  let ?s2 = "put_conn 0 ((greet demo_world ?s1 (sv_conns ?s1 ! 0))\<lparr>cn_pump := Reading, cn_writer := True\<rparr>) ?s1"
  let ?s3 = "put_conn 0 ((sv_conns ?s2 ! 0)\<lparr>cn_pump := Got (with_defaults demo_world ''u'' demo_auth)\<rparr>) ?s2"
  have c0: "sv_conns demo_server = [?c]" "sv_clients demo_server = {||}" "sv_token demo_server = ''secret''"
    by (simp_all add: demo_server_def NewServer_def)
  have d: "with_defaults demo_world ''u'' demo_auth = demo_auth" by (simp add: with_defaults_def demo_auth_def)
  have reg: "register 0 demo_server = (demo_server\<lparr>sv_clients := {|0|}\<rparr>, True)" by (simp add: register_def c0 MaxClients_def fcard.rep_eq)
  have "serve demo_world demo_server ?s1"
    using serve.registered [OF _ reg, of demo_world] by (simp add: conn_at_def newConn_def c0)
  moreover have "serve demo_world ?s1 ?s2" by (rule serve.greeted) (simp add: conn_at_def c0 put_conn_def)
  moreover have "serve demo_world ?s2 ?s3"
    by (rule serve.read_message) (simp_all add: conn_at_def c0 put_conn_def greet_def newConn_def newClient_def sendMsg_def enqueue_def SendQueue_def)
  moreover have "serve demo_world ?s3 (handle_step demo_world 0 demo_auth ?s3)"
    unfolding d by (rule serve.handled) (simp add: conn_at_def c0 put_conn_def)
  ultimately have "reachable demo_server (handle_step demo_world 0 demo_auth ?s3)"
    by (meson reachable.start reachable.step demo_env)
  moreover have "cl_authed (cn_client (sv_conns (handle_step demo_world 0 demo_auth ?s3) ! 0))"
    using demo_auth_right by (simp add: handle_step_def Let_def handleMessage_authed c0 put_conn_def)
  moreover have "0 < length (sv_conns (handle_step demo_world 0 demo_auth ?s3))"
    by (simp add: handle_step_def Let_def c0 put_conn_def)
  ultimately show ?thesis by blast
qed

lemma reachable_trans: "reachable s1 s2 \<Longrightarrow> reachable s0 s1 \<Longrightarrow> reachable s0 s2"
  by (induction rule: reachable.induct) (auto intro: reachable.step)

lemma secure_by_default_witness:
  "\<exists>s s1 msg auth. reachable (run_server root_fs demo_program) s \<and> cl_authed (cn_client (sv_conns s ! 0))
     \<and> reachable s1 s \<and> cn_pump (sv_conns s1 ! 0) = Got msg
     \<and> decode_auth (via_interface (msg_payload msg)) = Some auth \<and> au_token auth = ''secret''"
proof -
  obtain s where s: "reachable demo_server s" "0 < length (sv_conns s)" "cl_authed (cn_client (sv_conns s ! 0))"
    using demo_login by blast
  have run: "run_server root_fs demo_program = NewServer ''secret'' root_fs None"
    by (simp add: run_server_def demo_program_def demo_flags_def)
  have r: "reachable (run_server root_fs demo_program) s"
    unfolding run using s(1) demo_reachable by (rule reachable_trans)
  have n: "\<not> af_noAuth (pg_flags (demo_program\<lparr>pg_running := False\<rparr>))" by (simp add: demo_program_def demo_flags_def defaultFlags_def)
  from secure_by_default [OF demo_start n r s(2,3)] r s(3) show ?thesis
    by (auto simp: demo_program_def demo_flags_def)
qed

end
