(* ===== verification/WireTypes.thy ===== *)
theory WireTypes
  imports AppWire
begin

text \<open>
  The types of the wire: whatever JSON arrives, the numbers of a decoded payload are values of the
  integer types its Go struct declares, so the integers of the model are those of the programs.
\<close>

section \<open>Decoding keeps an invariant of the struct\<close>

named_theorems ranged

lemma decode_fields_keeps:
  "\<lbrakk>decode_fields step kvs r = Some r1; P r; \<And>k v a b. step k v a = Some b \<Longrightarrow> P a \<Longrightarrow> P b\<rbrakk> \<Longrightarrow> P r1"
  by (induction kvs arbitrary: r) (auto simp: bind_eq_Some_conv)

lemma Unmarshal_keeps:
  "P zero \<Longrightarrow> (\<And>k v a b. step k v a = Some b \<Longrightarrow> P a \<Longrightarrow> P b) \<Longrightarrow> pred_option P (Unmarshal step zero j)"
  by (auto simp: Unmarshal_def option.pred_set elim: decode_fields_keeps split: json.splits)

lemma dec_struct_keeps:
  assumes "dec_struct step old v = Some r" "P old" "\<And>k v a b. step k v a = Some b \<Longrightarrow> P a \<Longrightarrow> P b"
  shows "P r"
  using assms by (cases v) (auto elim: decode_fields_keeps)

lemma dec_list_keeps: "dec_list f vs = Some xs \<Longrightarrow> (\<And>v x. f v = Some x \<Longrightarrow> P x) \<Longrightarrow> list_all P xs"
  by (induction vs arbitrary: xs) (auto split: option.splits)

lemma dec_int_ranged [ranged]: "dec_int old v = Some i \<Longrightarrow> int64_ok old \<Longrightarrow> int64_ok i"
  by (cases v) (auto split: if_splits)

lemma dec_nat_ranged [ranged]: "dec_nat old v = Some n \<Longrightarrow> old < 2 ^ 64 \<Longrightarrow> n < 2 ^ 64"
  by (cases v) (auto split: if_splits)

lemma int64_zero [simp]: "int64_ok 0"
  by (simp add: int64_ok_def)

section \<open>The integer fields of the payloads\<close>

definition exec_typed :: "ExecCommandPayload \<Rightarrow> bool" where
  "exec_typed r \<longleftrightarrow> int64_ok (ex_timeout r)"

definition list_dir_typed :: "ListDirPayload \<Rightarrow> bool" where
  "list_dir_typed r \<longleftrightarrow> int64_ok (ld_offset r) \<and> int64_ok (ld_limit r)"

definition get_file_typed :: "GetFilePayload \<Rightarrow> bool" where
  "get_file_typed r \<longleftrightarrow> int64_ok (gf_offset r) \<and> int64_ok (gf_chunk_size r)"

definition send_file_typed :: "SendFilePayload \<Rightarrow> bool" where
  "send_file_typed r \<longleftrightarrow> int64_ok (sf_offset r) \<and> int64_ok (sf_total_size r)"

definition file_chunk_typed :: "FileChunkPayload \<Rightarrow> bool" where
  "file_chunk_typed r \<longleftrightarrow> int64_ok (fc_offset r) \<and> int64_ok (fc_total_size r)"

definition command_result_typed :: "CommandResultPayload \<Rightarrow> bool" where
  "command_result_typed r \<longleftrightarrow> int64_ok (cr_exit_code r) \<and> int64_ok (cr_duration r)"

definition dir_contents_typed :: "DirContentsPayload \<Rightarrow> bool" where
  "dir_contents_typed r \<longleftrightarrow> int64_ok (dc_total r) \<and> int64_ok (dc_next_offset r) \<and> list_all (\<lambda>e. int64_ok (de_size e)) (dc_entries r)"

definition screenshot_typed :: "ScreenshotDataPayload \<Rightarrow> bool" where
  "screenshot_typed r \<longleftrightarrow> int64_ok (sd_width r) \<and> int64_ok (sd_height r)"

definition disk_typed :: "DiskInfo \<Rightarrow> bool" where
  "disk_typed d \<longleftrightarrow> di_total d < 2 ^ 64 \<and> di_used d < 2 ^ 64 \<and> di_free d < 2 ^ 64"

definition memory_typed :: "MemoryInfo \<Rightarrow> bool" where
  "memory_typed r \<longleftrightarrow> mi_total r < 2 ^ 64 \<and> mi_used r < 2 ^ 64 \<and> mi_free r < 2 ^ 64"

definition system_info_typed :: "SystemInfoPayload \<Rightarrow> bool" where
  "system_info_typed r \<longleftrightarrow> int64_ok (ci_cores (si_cpu r)) \<and> memory_typed (si_memory r) \<and> list_all disk_typed (si_disks r)
     \<and> si_uptime r < 2 ^ 64"

lemmas typed_defs = exec_typed_def list_dir_typed_def get_file_typed_def send_file_typed_def file_chunk_typed_def
  command_result_typed_def screenshot_typed_def

section \<open>Every decoder is typed\<close>

lemma typed_exec: "pred_option exec_typed (decode_exec j)"
  unfolding decode_exec_def by (rule Unmarshal_keeps) (auto simp: exec_field_def typed_defs dest: ranged split: if_splits)

lemma typed_list_dir: "pred_option list_dir_typed (decode_list_dir j)"
  unfolding decode_list_dir_def by (rule Unmarshal_keeps) (auto simp: list_dir_field_def typed_defs dest: ranged split: if_splits)

lemma typed_get_file: "pred_option get_file_typed (decode_get_file j)"
  unfolding decode_get_file_def by (rule Unmarshal_keeps) (auto simp: get_file_field_def typed_defs dest: ranged split: if_splits)

lemma typed_send_file: "pred_option send_file_typed (decode_send_file j)"
  unfolding decode_send_file_def by (rule Unmarshal_keeps) (auto simp: send_file_field_def typed_defs dest: ranged split: if_splits)

lemma typed_file_chunk: "pred_option file_chunk_typed (decode_file_chunk j)"
  unfolding decode_file_chunk_def by (rule Unmarshal_keeps) (auto simp: file_chunk_field_def typed_defs dest: ranged split: if_splits)

lemma typed_command_result: "pred_option command_result_typed (decode_command_result j)"
  unfolding decode_command_result_def
  by (rule Unmarshal_keeps) (auto simp: command_result_field_def typed_defs dest: ranged split: if_splits)

lemma typed_screenshot: "pred_option screenshot_typed (decode_screenshot j)"
  unfolding decode_screenshot_def by (rule Unmarshal_keeps) (auto simp: screenshot_field_def typed_defs dest: ranged split: if_splits)

lemma typed_dir_entry: "dir_entry_field k v a = Some b \<Longrightarrow> int64_ok (de_size a) \<Longrightarrow> int64_ok (de_size b)"
  by (auto simp: dir_entry_field_def dest: ranged split: if_splits)

lemma typed_entries: "dec_entries old v = Some es \<Longrightarrow> list_all (\<lambda>e. int64_ok (de_size e)) es"
  by (cases v) (auto elim!: dec_list_keeps dec_struct_keeps simp: zero_entry_def typed_dir_entry)

lemma typed_dir_contents: "pred_option dir_contents_typed (decode_dir_contents j)"
  unfolding decode_dir_contents_def
  by (rule Unmarshal_keeps) (auto simp: dir_contents_field_def dir_contents_typed_def dest: ranged typed_entries split: if_splits)

lemma typed_disk: "disk_field k v a = Some b \<Longrightarrow> disk_typed a \<Longrightarrow> disk_typed b"
  by (auto simp: disk_field_def disk_typed_def dest: ranged split: if_splits)

lemma typed_memory: "memory_field k v a = Some b \<Longrightarrow> memory_typed a \<Longrightarrow> memory_typed b"
  by (auto simp: memory_field_def memory_typed_def dest: ranged split: if_splits)

lemma typed_cpu: "cpu_field k v a = Some b \<Longrightarrow> int64_ok (ci_cores a) \<Longrightarrow> int64_ok (ci_cores b)"
  by (auto simp: cpu_field_def dest: ranged split: if_splits)

lemma typed_zero_disk [simp]: "disk_typed zero_disk"
  by (simp add: zero_disk_def disk_typed_def)

lemma typed_disks: "dec_disks old v = Some ds \<Longrightarrow> list_all disk_typed ds"
  by (cases v) (auto elim!: dec_list_keeps dec_struct_keeps intro: typed_disk)

lemma typed_parts:
  "dec_struct cpu_field old v = Some c \<Longrightarrow> int64_ok (ci_cores old) \<Longrightarrow> int64_ok (ci_cores c)"
  "dec_struct memory_field oldm v = Some m \<Longrightarrow> memory_typed oldm \<Longrightarrow> memory_typed m"
  by (erule (1) dec_struct_keeps, erule (1) typed_cpu) (erule (1) dec_struct_keeps, erule (1) typed_memory)

lemma typed_system_info: "pred_option system_info_typed (decode_system_info j)"
  unfolding decode_system_info_def
proof (rule Unmarshal_keeps)
  show "system_info_typed zero_system_info"
    by (simp add: system_info_typed_def zero_system_info_def zero_cpu_def zero_memory_def memory_typed_def)
  show "system_info_field k v a = Some b \<Longrightarrow> system_info_typed a \<Longrightarrow> system_info_typed b" for k v a b
    by (auto simp: system_info_field_def system_info_typed_def dest: ranged typed_parts typed_disks split: if_splits)
qed

text \<open>Whatever JSON value a peer sends, if a payload is decoded from it then every
  number in it lies in the range of the integer type its struct declares, in requests and in answers, nested structs and
  lists included.\<close>

lemma decoded_payloads_typed:
  "pred_option exec_typed (decode_exec j) \<and> pred_option list_dir_typed (decode_list_dir j) \<and> pred_option get_file_typed (decode_get_file j)
     \<and> pred_option send_file_typed (decode_send_file j) \<and> pred_option file_chunk_typed (decode_file_chunk j)
     \<and> pred_option command_result_typed (decode_command_result j) \<and> pred_option dir_contents_typed (decode_dir_contents j)
     \<and> pred_option screenshot_typed (decode_screenshot j) \<and> pred_option system_info_typed (decode_system_info j)"
  by (intro conjI typed_exec typed_list_dir typed_get_file typed_send_file typed_file_chunk typed_command_result typed_dir_contents
      typed_screenshot typed_system_info)

end
