(* ===== verification/Envelope.thy ===== *)
theory Envelope
  imports AppWire AgentLink
begin

text \<open>
  The control center's copy of the protocol (\<^verbatim>\<open>control-center/backend/protocol/types.go\<close>): the names of its
  messages, the envelope as JSON, which both programs write and read, and the structs it declares. The names
  and the structs agree with the agent's, except for the struct of an upload.
\<close>

section \<open>Names of messages\<close>

definition cc_MsgExecCommand :: string where "cc_MsgExecCommand = ''exec_command''"
definition cc_MsgListDir :: string where "cc_MsgListDir = ''list_dir''"
definition cc_MsgGetFile :: string where "cc_MsgGetFile = ''get_file''"
definition cc_MsgSendFile :: string where "cc_MsgSendFile = ''send_file''"
definition cc_MsgScreenshot :: string where "cc_MsgScreenshot = ''screenshot''"
definition cc_MsgSystemInfo :: string where "cc_MsgSystemInfo = ''system_info''"
definition cc_MsgAuth :: string where "cc_MsgAuth = ''auth''"
definition cc_MsgKeepAlive :: string where "cc_MsgKeepAlive = ''keep_alive''"
definition cc_MsgScriptRun :: string where "cc_MsgScriptRun = ''script_run''"
definition cc_MsgCommandResult :: string where "cc_MsgCommandResult = ''command_result''"
definition cc_MsgDirContents :: string where "cc_MsgDirContents = ''dir_contents''"
definition cc_MsgFileChunk :: string where "cc_MsgFileChunk = ''file_chunk''"
definition cc_MsgFileAck :: string where "cc_MsgFileAck = ''file_ack''"
definition cc_MsgScreenshotData :: string where "cc_MsgScreenshotData = ''screenshot_data''"
definition cc_MsgSystemUpdate :: string where "cc_MsgSystemUpdate = ''system_update''"
definition cc_MsgError :: string where "cc_MsgError = ''error''"
definition cc_MsgAuthRequired :: string where "cc_MsgAuthRequired = ''auth_required''"
definition cc_MsgAuthOk :: string where "cc_MsgAuthOk = ''auth_ok''"
definition cc_MsgAgentInfo :: string where "cc_MsgAgentInfo = ''agent_info''"

lemmas cc_msg_types = cc_MsgExecCommand_def cc_MsgListDir_def cc_MsgGetFile_def cc_MsgSendFile_def cc_MsgScreenshot_def
  cc_MsgSystemInfo_def cc_MsgAuth_def cc_MsgKeepAlive_def cc_MsgScriptRun_def cc_MsgCommandResult_def cc_MsgDirContents_def
  cc_MsgFileChunk_def cc_MsgFileAck_def cc_MsgScreenshotData_def cc_MsgSystemUpdate_def cc_MsgError_def
  cc_MsgAuthRequired_def cc_MsgAuthOk_def cc_MsgAgentInfo_def

definition cc_messages :: "string list" where
  "cc_messages = [cc_MsgExecCommand, cc_MsgListDir, cc_MsgGetFile, cc_MsgSendFile, cc_MsgScreenshot, cc_MsgSystemInfo,
     cc_MsgAuth, cc_MsgKeepAlive, cc_MsgScriptRun, cc_MsgCommandResult, cc_MsgDirContents, cc_MsgFileChunk, cc_MsgFileAck,
     cc_MsgScreenshotData, cc_MsgSystemUpdate, cc_MsgError, cc_MsgAuthRequired, cc_MsgAuthOk, cc_MsgAgentInfo]"

text \<open>Where the models of the control center use the agent's names, they are its own.\<close>

lemma cc_names:
  "cc_messages = [MsgExecCommand, MsgListDir, MsgGetFile, MsgSendFile, MsgScreenshot, MsgSystemInfo, MsgAuth, MsgKeepAlive,
     MsgScriptRun, MsgCommandResult, MsgDirContents, MsgFileChunk, MsgFileAck, MsgScreenshotData, MsgSystemUpdate, MsgError,
     MsgAuthRequired, MsgAuthOk, MsgAgentInfo]"
  "distinct cc_messages" "MsgCancelFile \<notin> set cc_messages"
  by (simp_all add: cc_messages_def cc_msg_types msg_types)

section \<open>The envelope\<close>

text \<open>
  \<open>ftime\<close> and \<open>ptime\<close> are the JSON text of a time and its parser, \<open>text\<close> the text of an error, which is empty for
  none. A payload of type \<^verbatim>\<open>interface{}\<close> keeps the JSON value; who reads it goes through \<open>via_interface\<close>.
\<close>

definition encode_message :: "(int \<Rightarrow> string) \<Rightarrow> (gotext \<Rightarrow> string) \<Rightarrow> Message \<Rightarrow> json" where
  "encode_message ftime text m = JObj (omit (msg_id m = []) ''id'' (JStr (msg_id m))
     @ [(''type'', JStr (msg_type m)), (''payload'', msg_payload m), (''timestamp'', JStr (ftime (msg_time m)))]
     @ omit (text (msg_error m) = []) ''error'' (JStr (text (msg_error m))))"

fun dec_time :: "(string \<Rightarrow> int option) \<Rightarrow> int \<Rightarrow> json \<Rightarrow> int option" where
  "dec_time ptime old (JStr s) = ptime s"
| "dec_time ptime old JNull = Some old"
| "dec_time ptime old _ = None"

fun dec_error :: "gotext \<Rightarrow> json \<Rightarrow> gotext option" where
  "dec_error old (JStr s) = Some (if s = [] then no_text else lit s)"
| "dec_error old JNull = Some old"
| "dec_error old _ = None"

definition message_field :: "(string \<Rightarrow> int option) \<Rightarrow> string \<Rightarrow> json \<Rightarrow> Message \<Rightarrow> Message option" where
  "message_field ptime k v r =
     (if key_is k ''id'' then map_option (\<lambda>x. r\<lparr>msg_id := x\<rparr>) (dec_string (msg_id r) v)
      else if key_is k ''type'' then map_option (\<lambda>x. r\<lparr>msg_type := x\<rparr>) (dec_string (msg_type r) v)
      else if key_is k ''payload'' then Some (r\<lparr>msg_payload := v\<rparr>)
      else if key_is k ''timestamp'' then map_option (\<lambda>x. r\<lparr>msg_time := x\<rparr>) (dec_time ptime (msg_time r) v)
      else if key_is k ''error'' then map_option (\<lambda>x. r\<lparr>msg_error := x\<rparr>) (dec_error (msg_error r) v)
      else Some r)"

definition decode_message :: "(string \<Rightarrow> int option) \<Rightarrow> json \<Rightarrow> Message option" where
  "decode_message ptime = Unmarshal (message_field ptime)
     \<lparr>msg_id = [], msg_type = [], msg_payload = JNull, msg_time = 0, msg_error = no_text\<rparr>"

text \<open>What a program writes the other reads; of an error its text remains.\<close>

lemma decode_encode_message:
  assumes "ptime (ftime (msg_time m)) = Some (msg_time m)"
  shows "decode_message ptime (encode_message ftime text m)
    = Some (m\<lparr>msg_error := if text (msg_error m) = [] then no_text else lit (text (msg_error m))\<rparr>)"
  using assms
  by (cases m) (simp add: encode_message_def decode_message_def Unmarshal_def omit_def message_field_def status_keys)

text \<open>A message without error arrives as it was sent.\<close>

lemma message_arrives:
  "ptime (ftime (msg_time m)) = Some (msg_time m) \<Longrightarrow> msg_error m = no_text \<Longrightarrow> text no_text = []
    \<Longrightarrow> decode_message ptime (encode_message ftime text m) = Some m"
  by (simp add: decode_encode_message)

section \<open>The structs of the control center\<close>

text \<open>Those it declares for requests and answers; transfers use structs of their own, with the fields the agent knows.\<close>

record ccGetFilePayload =
  cg_path :: string
  cg_offset :: int
  cg_chunk_size :: int

record ccSendFilePayload =
  cs_path :: string
  cs_data :: string
  cs_offset :: int
  cs_total_size :: int
  cs_final :: bool

record ScriptRunPayload =
  sr_name :: string
  sr_script :: string
  sr_args :: "string list"

record ccFileChunkPayload =
  ck_path :: string
  ck_data :: string
  ck_offset :: int
  ck_total_size :: int
  ck_final :: bool
  ck_checksum :: string

definition cc_encode_get_file :: "ccGetFilePayload \<Rightarrow> json" where
  "cc_encode_get_file r = JObj ([(''path'', JStr (cg_path r))] @ omit (cg_offset r = 0) ''offset'' (JNum (cg_offset r))
     @ omit (cg_chunk_size r = 0) ''chunk_size'' (JNum (cg_chunk_size r)))"

definition cc_encode_send_file :: "ccSendFilePayload \<Rightarrow> json" where
  "cc_encode_send_file r = JObj ([(''path'', JStr (cs_path r))] @ omit (cs_data r = []) ''data'' (JStr (b64_encode (cs_data r)))
     @ omit (cs_offset r = 0) ''offset'' (JNum (cs_offset r)) @ omit (cs_total_size r = 0) ''total_size'' (JNum (cs_total_size r))
     @ omit (\<not> cs_final r) ''final'' (JBool (cs_final r)))"

definition encode_script_run :: "ScriptRunPayload \<Rightarrow> json" where
  "encode_script_run r = JObj ([(''name'', JStr (sr_name r)), (''script'', JStr (sr_script r))]
     @ omit (sr_args r = []) ''args'' (JArr (map JStr (sr_args r))))"

definition cc_file_chunk_field :: "string \<Rightarrow> json \<Rightarrow> ccFileChunkPayload \<Rightarrow> ccFileChunkPayload option" where
  "cc_file_chunk_field k v r =
     (if key_is k ''path'' then map_option (\<lambda>x. r\<lparr>ck_path := x\<rparr>) (dec_string (ck_path r) v)
      else if key_is k ''data'' then map_option (\<lambda>x. r\<lparr>ck_data := x\<rparr>) (dec_bytes (ck_data r) v)
      else if key_is k ''offset'' then map_option (\<lambda>x. r\<lparr>ck_offset := x\<rparr>) (dec_int (ck_offset r) v)
      else if key_is k ''total_size'' then map_option (\<lambda>x. r\<lparr>ck_total_size := x\<rparr>) (dec_int (ck_total_size r) v)
      else if key_is k ''final'' then map_option (\<lambda>x. r\<lparr>ck_final := x\<rparr>) (dec_bool (ck_final r) v)
      else if key_is k ''checksum'' then map_option (\<lambda>x. r\<lparr>ck_checksum := x\<rparr>) (dec_string (ck_checksum r) v)
      else Some r)"

definition cc_decode_file_chunk :: "json \<Rightarrow> ccFileChunkPayload option" where
  "cc_decode_file_chunk = Unmarshal cc_file_chunk_field
     \<lparr>ck_path = [], ck_data = [], ck_offset = 0, ck_total_size = 0, ck_final = False, ck_checksum = []\<rparr>"

text \<open>The agent reads the requests as they were meant; an upload has neither digest nor identifier then.\<close>

lemma cc_get_file_read:
  "exact (cg_offset r) \<Longrightarrow> exact (cg_chunk_size r) \<Longrightarrow> decode_get_file (via_interface (cc_encode_get_file r))
    = Some \<lparr>gf_path = cg_path r, gf_offset = cg_offset r, gf_chunk_size = cg_chunk_size r\<rparr>"
  by (cases r) (simp add: cc_encode_get_file_def omit_def decode_get_file_def Unmarshal_def get_file_field_def status_keys exact_ranges)

lemma cc_send_file_read:
  "exact (cs_offset r) \<Longrightarrow> exact (cs_total_size r) \<Longrightarrow> decode_send_file (via_interface (cc_encode_send_file r))
    = Some \<lparr>sf_path = cs_path r, sf_data = cs_data r, sf_offset = cs_offset r, sf_total_size = cs_total_size r,
        sf_final = cs_final r, sf_checksum = [], sf_transfer_id = []\<rparr>"
  by (cases r) (simp add: cc_encode_send_file_def omit_def decode_send_file_def Unmarshal_def send_file_field_def status_keys exact_ranges)

lemma cc_file_chunk_read:
  "exact (fc_offset c) \<Longrightarrow> exact (fc_total_size c) \<Longrightarrow> cc_decode_file_chunk (via_interface (encode_file_chunk c))
    = Some \<lparr>ck_path = fc_path c, ck_data = fc_data c, ck_offset = fc_offset c, ck_total_size = fc_total_size c,
        ck_final = fc_final c, ck_checksum = fc_checksum c\<rparr>"
  by (cases c) (simp add: encode_file_chunk_def omit_def cc_decode_file_chunk_def Unmarshal_def cc_file_chunk_field_def status_keys exact_ranges)


section \<open>From one program to the other\<close>

text \<open>A message as its sender writes it, and identifier, type and payload as its receiver reads them.\<close>

definition written :: "(int \<Rightarrow> string) \<Rightarrow> (gotext \<Rightarrow> string) \<Rightarrow> int \<Rightarrow> string \<Rightarrow> string \<Rightarrow> json \<Rightarrow> json" where
  "written ftime etext now msgID msgType payload = encode_message ftime etext
     \<lparr>msg_id = msgID, msg_type = msgType, msg_payload = payload, msg_time = now, msg_error = no_text\<rparr>"

definition reads :: "(string \<Rightarrow> int option) \<Rightarrow> (json \<Rightarrow> 'a option) \<Rightarrow> json \<Rightarrow> (string \<times> string \<times> 'a) option" where
  "reads ptime decode j = Option.bind (decode_message ptime j)
     (\<lambda>m. map_option (\<lambda>x. (msg_id m, msg_type m, x)) (decode (via_interface (msg_payload m))))"

lemma reads_written:
  assumes "ptime (ftime now) = Some now" "etext no_text = []" "decode (via_interface payload) = Some x"
  shows "reads ptime decode (written ftime etext now msgID msgType payload) = Some (msgID, msgType, x)"
  using assms by (simp add: reads_def written_def message_arrives)

lemma decode_requests:
  "exact (gf_offset gf) \<Longrightarrow> exact (gf_chunk_size gf) \<Longrightarrow> decode_get_file (via_interface (encode_get_file gf)) = Some gf"
  "exact (sf_offset sf) \<Longrightarrow> exact (sf_total_size sf) \<Longrightarrow> decode_send_file (via_interface (encode_send_file sf)) = Some sf"
  "decode_cancel_file (via_interface (encode_cancel_file cf)) = Some cf"
  "decode_auth (via_interface (encode_auth au)) = Some au"
  by (simp_all add: exact_ranges encode_get_file_def omit_def decode_get_file_def Unmarshal_def get_file_field_def status_keys
      encode_send_file_def decode_send_file_def send_file_field_def encode_auth_def decode_auth_def auth_field_def)

lemma decode_answers:
  "exact (fc_offset fc) \<Longrightarrow> exact (fc_total_size fc) \<Longrightarrow> decode_file_chunk (via_interface (encode_file_chunk fc)) = Some fc"
  "exact (sf_offset sf) \<Longrightarrow> decode_file_ack (via_interface (file_ack sf c)) = Some \<lparr>fa_path = sf_path sf, fa_offset = sf_offset sf,
     fa_final = sf_final sf, fa_committed = (if sf_transfer_id sf = [] then None else Some c)\<rparr>"
  by (simp_all add: exact_ranges encode_file_chunk_def omit_def decode_file_chunk_def Unmarshal_def file_chunk_field_def status_keys
      file_ack_def decode_file_ack_def file_ack_field_def)

text \<open>Beyond this bound a number may arrive as another one.\<close>

lemma beyond_exact: "decode_get_file (via_interface (encode_get_file \<lparr>gf_path = p, gf_offset = 2 ^ 53 + 1, gf_chunk_size = 0\<rparr>))
    = Some \<lparr>gf_path = p, gf_offset = 2 ^ 53, gf_chunk_size = 0\<rparr>"
proof -
  have "floorlog 2 9007199254740993 = 54"
    by (intro antisym floorlog_leI floorlog_geI) simp_all
  then have "f64_round (2 ^ 53 + 1) = 2 ^ 53" by (simp add: f64_round_def Let_def)
  then show ?thesis by (simp add: encode_get_file_def omit_def decode_get_file_def Unmarshal_def get_file_field_def status_keys int64_ok_def)
qed



end
