(* ===== verification/ManagerNet.thy ===== *)
theory ManagerNet
  imports App ClientProps
begin

text \<open>
  The operations of the client manager as one caller sees them: each call of \<^verbatim>\<open>netops\<close>, which the
  application makes, runs the functions of \<^verbatim>\<open>ClientMgr\<close> from its start to its return. What the network
  does meanwhile is an argument, so every failure of dialing, of the handshake and of writing is possible. Each
  call is a run of the steps of the manager, so all that is proved of those holds for the application.
\<close>

section \<open>The network and the manager\<close>

text \<open>
  \<open>pe_dial\<close> gives what dialing and the handshake of a new generation return; \<open>pe_frames\<close> what writing a request
  returns and the frames read until it is answered or its time is up, \<open>None\<close> one that is no message. The
  order in which Go walks the map of agents and the identifiers of package \<^verbatim>\<open>uuid\<close> are arguments.
\<close>

record 'h peers =
  pe_config :: "string \<Rightarrow> ConnectOptions \<Rightarrow> unit result"
  pe_dial :: "'h \<Rightarrow> nat \<Rightarrow> string \<Rightarrow> int \<Rightarrow> ConnectOptions \<Rightarrow> 'h \<times> goerr option \<times> goerr option"
  pe_frames :: "'h \<Rightarrow> nat \<Rightarrow> Message \<Rightarrow> 'h \<times> goerr option \<times> Message option list"
  pe_order :: "ManagerCC \<Rightarrow> string list"
  pe_uuid :: "ManagerCC \<Rightarrow> string"
  pe_now :: int

record 'h link =
  lk_mgr :: ManagerCC
  lk_peer :: 'h

definition well_named :: "'h peers \<Rightarrow> bool" where
  "well_named P \<longleftrightarrow> (\<forall>m. distinct (pe_order P m) \<and> set (pe_order P m) = fset (fmdom (mg_agents m))
     \<and> pe_uuid P m \<noteq> [] \<and> pe_uuid P m |\<notin>| fmdom (mg_agents m) \<and> pe_uuid P m |\<notin>| fmdom (mg_pending m)
     \<and> pe_uuid P m \<notin> set (map (\<lambda>ac. ag_ID (ac_info ac)) (mg_conns m)))"

lemma well_namedD:
  assumes "well_named P"
  shows "distinct (pe_order P m)" "set (pe_order P m) = fset (fmdom (mg_agents m))" "pe_uuid P m \<noteq> []"
    "pe_uuid P m |\<notin>| fmdom (mg_agents m)" "pe_uuid P m |\<notin>| fmdom (mg_pending m)"
    "pe_uuid P m \<notin> set (map (\<lambda>ac. ag_ID (ac_info ac)) (mg_conns m))"
  using assms by (simp_all add: well_named_def)

section \<open>The other goroutines\<close>

text \<open>
  What every other goroutine does between two points of a call: read pumps, heartbeats, reconnections, other calls. It is
  admissible when it is a run of the manager's steps. One who is alone meets nothing.
\<close>

type_synonym 'h others = "'h link \<Rightarrow> 'h link"

definition alone :: "'h others" where
  "alone r = r"

declare alone_def [simp]

definition others_ok :: "'h others \<Rightarrow> bool" where
  "others_ok I \<longleftrightarrow> (\<forall>r. mgr_ok (lk_mgr r) \<longrightarrow> mgr_reach (lk_mgr r) (lk_mgr (I r)))"

lemma others_okD:
  assumes "others_ok I" "mgr_ok (lk_mgr r)"
  shows "mgr_reach (lk_mgr r) (lk_mgr (I r))"
  by (rule assms(1) [unfolded others_ok_def, rule_format, OF assms(2)])

lemma others_okI: "(\<And>r. mgr_ok (lk_mgr r) \<Longrightarrow> mgr_reach (lk_mgr r) (lk_mgr (I r))) \<Longrightarrow> others_ok I"
  unfolding others_ok_def by (rule allI, rule impI)

lemma others_ok_alone [simp]: "others_ok alone"
  by (rule others_okI) (simp add: mr_start)

section \<open>The calls\<close>

text \<open>Dialing with the context of a manager that shuts down fails.\<close>

definition dial_agent :: "'h peers \<Rightarrow> 'h link \<Rightarrow> string \<Rightarrow> int \<Rightarrow> ConnectOptions \<Rightarrow> 'h \<times> goerr option \<times> goerr option" where
  "dial_agent P r host port options =
     (if mg_cancelled (lk_mgr r) then (lk_peer r, Some (lit ''operation was canceled''), None)
      else pe_dial P (lk_peer r) (length (mg_gens (lk_mgr r))) host port options)"

text \<open>Others run before the socket is open, and between the handshake and the lock.\<close>

definition shared_connect :: "'h others \<Rightarrow> 'h peers \<Rightarrow> 'h link \<Rightarrow> string \<Rightarrow> int \<Rightarrow> ConnectOptions \<Rightarrow> 'h link \<times> string result" where
  "shared_connect I P r host port options =
     (let m = lk_mgr r; dialer = pe_config P host options;
          dials = (existing_agent (pe_order P m) m host port = None \<and> \<not> isl dialer);
          r1 = (if dials then I r else r);
          (h, dialed, greeted) = (if dials then dial_agent P r1 host port options else (lk_peer r1, None, None));
          r2 = (if dials then I \<lparr>lk_mgr = lk_mgr r1, lk_peer = h\<rparr> else r1); m2 = lk_mgr r2;
          (m3, x) = ConnectWithOptions dialer dialed greeted (pe_order P m) (pe_order P m2) host port options
                      (pe_uuid P m2) (pe_now P) m m2
      in (\<lparr>lk_mgr = m3, lk_peer = lk_peer r2\<rparr>, x))"

text \<open>Others run between the parts of a disconnection, and while it waits for the read pump.\<close>

definition stop_one :: "'h others \<Rightarrow> nat \<Rightarrow> 'h link \<Rightarrow> 'h link" where
  "stop_one I i r =
     (let r1 = I (r\<lparr>lk_mgr := conn_stop i (lk_mgr r)\<rparr>)
      in I (r1\<lparr>lk_mgr := closeGeneration (ac_generation (conn_of (lk_mgr r) i)) (lk_mgr r1)\<rparr>))"

definition shared_disconnect :: "'h others \<Rightarrow> 'h link \<Rightarrow> string \<Rightarrow> 'h link \<times> goerr option" where
  "shared_disconnect I r agentID =
     (case disconnect_begin agentID (lk_mgr r) of
        (m1, Inl err) \<Rightarrow> (r\<lparr>lk_mgr := m1\<rparr>, Some err)
      | (m1, Inr i) \<Rightarrow> (stop_one I i (I (r\<lparr>lk_mgr := m1\<rparr>)), None))"

definition shared_close :: "'h others \<Rightarrow> 'h peers \<Rightarrow> 'h link \<Rightarrow> 'h link" where
  "shared_close I P r =
     (let connections = List.map_filter (fmlookup (mg_agents (lk_mgr r))) (pe_order P (lk_mgr r));
          r1 = I (r\<lparr>lk_mgr := close_begin (lk_mgr r)\<rparr>);
          r2 = I (r1\<lparr>lk_mgr := globalCancel (lk_mgr r1)\<rparr>);
          r3 = I (r2\<lparr>lk_mgr := clear_pending (lk_mgr r2)\<rparr>)
      in fold (stop_one I) connections r3)"

text \<open>The frames that arrive reach the manager as long as the read pump of the generation runs.\<close>

definition receive :: "int \<Rightarrow> nat \<Rightarrow> Message option list \<Rightarrow> ManagerCC \<Rightarrow> ManagerCC" where
  "receive now g frames m = (if gn_pump (gen_of m g) = PumpReading then fold (pump_message now g) frames m else m)"

definition wake_of :: "string \<Rightarrow> ManagerCC \<Rightarrow> wake" where
  "wake_of msgID m = (case fmlookup (mg_pending m) msgID of Some (Some response) \<Rightarrow> Answered response
     | _ \<Rightarrow> if mg_cancelled m then ShuttingDown else TimedOut)"

definition agent_socket :: "string \<Rightarrow> ManagerCC \<Rightarrow> nat option" where
  "agent_socket agentID m = Option.bind (fmlookup (mg_agents m) agentID) (\<lambda>i. currentGeneration (conn_of m i))"

text \<open>Others run while a request waits, before and after its agent's frames.\<close>

definition shared_request :: "'h others \<Rightarrow> 'h peers \<Rightarrow> 'h link requester" where
  "shared_request I P r agentID t payload timeout =
     (let m = lk_mgr r; uid = pe_uuid P m; socket = agent_socket agentID m;
          (h, write_err, frames) = (case socket of None \<Rightarrow> (lk_peer r, None, [])
            | Some g \<Rightarrow> pe_frames P (lk_peer r) g (request_message uid t payload (pe_now P)))
      in case request_begin write_err uid agentID t payload (pe_now P) m of
           (m1, Some err) \<Rightarrow> (\<lparr>lk_mgr = m1, lk_peer = h\<rparr>, None, Some err)
         | (m1, None) \<Rightarrow>
             (let r2 = I \<lparr>lk_mgr = m1, lk_peer = h\<rparr>;
                  m2 = (case socket of None \<Rightarrow> lk_mgr r2
                    | Some g \<Rightarrow> receive (pe_now P) g frames (lk_mgr r2));
                  r3 = I (r2\<lparr>lk_mgr := m2\<rparr>);
                  (m4, x, err) = request_end timeout uid (wake_of uid (lk_mgr r3)) (lk_mgr r3)
             in (r3\<lparr>lk_mgr := m4\<rparr>, x, err)))"

text \<open>The list is in the order of the walk.\<close>

definition manager_agents :: "'h peers \<Rightarrow> 'h link \<Rightarrow> AgentInfo list" where
  "manager_agents P r = List.map_filter (\<lambda>k. fmlookup (ListAgents (lk_mgr r)) k) (pe_order P (lk_mgr r))"

definition shared_net :: "'h others \<Rightarrow> 'h peers \<Rightarrow> 'h link netops" where
  "shared_net I P = \<lparr>no_connect = shared_connect I P, no_disconnect = shared_disconnect I, no_request = shared_request I P,
     no_agents = manager_agents P, no_agent = (\<lambda>r k. GetAgent k (lk_mgr r)), no_close = shared_close I P\<rparr>"

section \<open>The calls of one who is alone\<close>

definition manager_connect :: "'h peers \<Rightarrow> 'h link \<Rightarrow> string \<Rightarrow> int \<Rightarrow> ConnectOptions \<Rightarrow> 'h link \<times> string result" where
  "manager_connect = shared_connect alone"

definition manager_disconnect :: "'h link \<Rightarrow> string \<Rightarrow> 'h link \<times> goerr option" where
  "manager_disconnect = shared_disconnect alone"

definition manager_request :: "'h peers \<Rightarrow> 'h link requester" where
  "manager_request = shared_request alone"

definition manager_net :: "'h peers \<Rightarrow> 'h link netops" where
  "manager_net = shared_net alone"

text \<open>They are those of \<^verbatim>\<open>ClientMgr\<close>.\<close>

lemma manager_connect_eq:
  "manager_connect P r host port options =
     (let m = lk_mgr r; ids = pe_order P m;
          dials = (existing_agent ids m host port = None \<and> \<not> isl (pe_config P host options));
          (h, dialed, greeted) = (if dials then dial_agent P r host port options else (lk_peer r, None, None));
          (m1, x) = ConnectWithOptions (pe_config P host options) dialed greeted ids ids host port options
                      (pe_uuid P m) (pe_now P) m m
      in (\<lparr>lk_mgr = m1, lk_peer = h\<rparr>, x))"
  by (simp add: manager_connect_def shared_connect_def Let_def split: prod.split)

lemma manager_disconnect_eq:
  "manager_disconnect r agentID = (case Disconnect agentID (lk_mgr r) of (m1, err) \<Rightarrow> (r\<lparr>lk_mgr := m1\<rparr>, err))"
  by (simp add: manager_disconnect_def shared_disconnect_def stop_one_def Disconnect_def stopConn_def Let_def
      split: prod.split sum.split)

lemma stop_one_alone: "stop_one alone i r = r\<lparr>lk_mgr := stopConn i (lk_mgr r)\<rparr>"
  by (simp add: stop_one_def stopConn_def Let_def)

lemma fold_map_filter: "fold f (List.map_filter g xs) s = fold (\<lambda>x. case g x of None \<Rightarrow> id | Some y \<Rightarrow> f y) xs s"
  by (induction xs arbitrary: s) (auto simp: List.map_filter_simps split: option.split)

lemma manager_close_eq: "shared_close alone P r = r\<lparr>lk_mgr := CloseAll (pe_order P (lk_mgr r)) (lk_mgr r)\<rparr>"
proof -
  have "fold (stop_one alone) cs (r\<lparr>lk_mgr := m\<rparr>) = r\<lparr>lk_mgr := fold stopConn cs m\<rparr>" for cs m
    by (induction cs arbitrary: m) (simp_all add: stop_one_alone)
  then show ?thesis by (simp add: shared_close_def CloseAll_def fold_map_filter [symmetric] Let_def)
qed

section \<open>Every call is a run of the manager's steps\<close>

lemma others_keep: "others_ok I \<Longrightarrow> mgr_ok (lk_mgr r) \<Longrightarrow> mgr_ok (lk_mgr (I r))"
  using mgr_ok_reach [OF others_okD] by blast

lemma commit_reach:
  assumes "well_named P" "ConnectWithOptions d e g ids ids' host port options (pe_uuid P m1) now m0 m1 = (m2, y)"
    "mgr_reach m0 m1" "existing_agent ids m0 host port \<noteq> None \<Longrightarrow> m1 = m0"
  shows "mgr_reach m0 m2"
proof -
  note f = well_namedD(4,6) [OF assms(1), of m1]
  obtain m3 z where k: "connect_commit ids' host port options (pe_uuid P m1) now m1 = (m3, z)" by force
  from mgr_reach_trans [OF mgr_reach1 [OF connected [OF f k]] assms(3)] assms(2-4) k show ?thesis
    by (auto simp: ConnectWithOptions_def mr_start split: option.splits sum.splits)
qed

lemma connect_reach:
  assumes P: "well_named P" and I: "others_ok I" and ok: "mgr_ok (lk_mgr r)"
    and c: "shared_connect I P r host port options = (r1, x)"
  shows "mgr_reach (lk_mgr r) (lk_mgr r1)"
proof -
  let ?dials = "existing_agent (pe_order P (lk_mgr r)) (lk_mgr r) host port = None \<and> \<not> isl (pe_config P host options)"
  define ra where "ra = (if ?dials then I r else r)"
  obtain h d g where n: "(if ?dials then dial_agent P ra host port options else (lk_peer ra, None, None)) = (h, d, g)"
    by (rule prod_cases3)
  define rb where "rb = (if ?dials then I \<lparr>lk_mgr = lk_mgr ra, lk_peer = h\<rparr> else ra)"
  have "mgr_reach (lk_mgr r) (lk_mgr ra)" "mgr_ok (lk_mgr ra)"
    using others_okD [OF I ok] others_keep [OF I ok] ok by (simp_all add: ra_def mr_start)
  then have "mgr_reach (lk_mgr r) (lk_mgr rb)"
    using others_okD [OF I, of "\<lparr>lk_mgr = lk_mgr ra, lk_peer = h\<rparr>"] by (auto simp: rb_def intro: mgr_reach_trans)
  moreover
  let ?w = "ConnectWithOptions (pe_config P host options) d g (pe_order P (lk_mgr r)) (pe_order P (lk_mgr rb)) host port
      options (pe_uuid P (lk_mgr rb)) (pe_now P) (lk_mgr r) (lk_mgr rb)"
  have "shared_connect I P r host port options = (\<lparr>lk_mgr = fst ?w, lk_peer = lk_peer rb\<rparr>, snd ?w)"
    unfolding shared_connect_def Let_def ra_def [symmetric] n by (simp add: rb_def split: prod.split)
  with c have w: "?w = (lk_mgr r1, x)" by (cases ?w) auto
  moreover have "existing_agent (pe_order P (lk_mgr r)) (lk_mgr r) host port \<noteq> None \<Longrightarrow> lk_mgr rb = lk_mgr r"
    by (auto simp: rb_def ra_def)
  ultimately show ?thesis using commit_reach [OF P w] by simp
qed

text \<open>Stopping a connection that left the map leaves it silent.\<close>

lemma stop_one_reach:
  assumes I: "others_ok I" and ok: "mgr_ok (lk_mgr r)" and i: "i < length (mg_conns (lk_mgr r))"
    "fmlookup (mg_agents (lk_mgr r)) (ag_ID (ac_info (conn_of (lk_mgr r) i))) = None"
  shows "mgr_reach (lk_mgr r) (lk_mgr (stop_one I i r))"
    "superseded_closed (lk_mgr r) \<Longrightarrow> silenced i (lk_mgr (stop_one I i r))"
proof -
  let ?r1 = "r\<lparr>lk_mgr := conn_stop i (lk_mgr r)\<rparr>"
  let ?r2 = "(I ?r1)\<lparr>lk_mgr := closeGeneration (ac_generation (conn_of (lk_mgr r) i)) (lk_mgr (I ?r1))\<rparr>"
  have "mgr_ok (lk_mgr ?r1)" using mgr_ok_conn_stop [OF ok] left_map(4) [OF advances_refl ok i] by simp
  note r1 = others_okD [OF I this, simplified]
  note p = stop_parts [OF ok i r1]
  have r2: "mgr_reach (lk_mgr ?r2) (lk_mgr (I ?r2))" by (rule others_okD [OF I]) (use mgr_ok_reach [OF p(1) ok] in simp)
  have e: "stop_one I i r = I ?r2" by (simp add: stop_one_def Let_def)
  show "mgr_reach (lk_mgr r) (lk_mgr (stop_one I i r))" unfolding e using mgr_reach_trans [OF r2] p(1) by simp
  show "silenced i (lk_mgr (stop_one I i r))" if "superseded_closed (lk_mgr r)"
    unfolding e by (rule silenced_stays(1) [OF advances_reach [OF r2]]) (use p(2) [OF that] in simp)
qed

lemma disconnect_reach:
  assumes I: "others_ok I" and ok: "mgr_ok (lk_mgr r)" and d: "shared_disconnect I r k = (r1, err)"
  shows "mgr_reach (lk_mgr r) (lk_mgr r1)"
proof -
  obtain m1 x where b: "disconnect_begin k (lk_mgr r) = (m1, x)" by force
  show ?thesis
  proof (cases x)
    case (Inl e)
    with b d show ?thesis by (auto simp: shared_disconnect_def disconnect_begin_def mr_start split: option.splits)
  next
    case (Inr i)
    let ?r = "r\<lparr>lk_mgr := m1\<rparr>"
    have "mgr_ok (lk_mgr ?r)" using mgr_ok_disconnect_begin [OF ok b] by simp
    note l = disconnect_left [OF ok b [unfolded Inr] others_okD [OF I this, simplified]]
    have "r1 = stop_one I i (I ?r)" using b d Inr by (simp add: shared_disconnect_def)
    with stop_one_reach(1) [OF I l(2,3)] l(1,4,5) show ?thesis by (auto intro: mgr_reach_trans)
  qed
qed

lemma pump_message_gens [simp]: "mg_gens (pump_message now g parsed m) = mg_gens m"
  by (simp add: pump_message_def Let_def deliver_def apply_status_def split: option.splits)

lemma receive_reach:
  assumes "g < length (mg_gens m)"
  shows "mgr_reach m (receive now g frames m)"
proof -
  have "mgr_reach m (fold (pump_message now g) frames m)"
    if "gn_pump (gen_of m g) = PumpReading" "g < length (mg_gens m)" for m
    using that
  proof (induction frames arbitrary: m)
    case (Cons f fs)
    from mgr_reach1 [OF received [OF Cons.prems(2,1)]]
    have "mgr_reach m (pump_message now g f m)" .
    moreover have "mgr_reach (pump_message now g f m) (fold (pump_message now g) fs (pump_message now g f m))"
      using Cons.prems by (intro Cons.IH) simp_all
    ultimately show ?case by (simp add: mgr_reach_trans)
  qed (simp add: mr_start)
  with assms show ?thesis by (simp add: receive_def mr_start)
qed

lemma socket_bound:
  assumes "mgr_ok m" "agent_socket k m = Some g"
  shows "g < length (mg_gens m)"
  using assms mgr_okD(1,9) [OF assms(1)]
  by (auto simp: agent_socket_def currentGeneration_def bind_eq_Some_conv split: if_splits)

lemma request_begin_simps:
  assumes "request_begin we uid k t payload now m = (m1, r)"
  shows "mg_gens m1 = mg_gens m" "mg_agents m1 = mg_agents m" "mg_conns m1 = mg_conns m"
    "mg_pending m1 = (if r = None then fmupd uid None (mg_pending m) else fmdrop uid (mg_pending m))"
  using assms by (auto simp: request_begin_def SendMessage_def fmdrop_fmupd split: option.splits if_splits)

lemma request_reach:
  assumes P: "well_named P" and I: "others_ok I" and ok: "mgr_ok (lk_mgr r)"
    and req: "shared_request I P r k t payload timeout = (r1, x, err)"
  shows "mgr_reach (lk_mgr r) (lk_mgr r1)"
proof -
  let ?m = "lk_mgr r" and ?uid = "pe_uuid P (lk_mgr r)"
  obtain h we frames where n: "(case agent_socket k ?m of None \<Rightarrow> (lk_peer r, None, [])
      | Some g \<Rightarrow> pe_frames P (lk_peer r) g (request_message ?uid t payload (pe_now P))) = (h, we, frames)"
    by (rule prod_cases3)
  obtain m1 e where b: "request_begin we ?uid k t payload (pe_now P) ?m = (m1, e)" by force
  have s1: "mgr_step ?m m1" by (rule requested [OF well_namedD(5) [OF P] b])
  note r1 = mgr_reach1 [OF s1] and ok1 = mgr_ok_step [OF s1 ok]
  show ?thesis
  proof (cases e)
    case (Some err')
    with req b n r1 show ?thesis by (auto simp: shared_request_def Let_def)
  next
    case None
    define r2 where "r2 = I \<lparr>lk_mgr = m1, lk_peer = h\<rparr>"
    define m2 where "m2 = (case agent_socket k ?m of None \<Rightarrow> lk_mgr r2 | Some g \<Rightarrow> receive (pe_now P) g frames (lk_mgr r2))"
    define r3 where "r3 = I (r2\<lparr>lk_mgr := m2\<rparr>)"
    have 2: "mgr_reach m1 (lk_mgr r2)" using others_okD [OF I, of "\<lparr>lk_mgr = m1, lk_peer = h\<rparr>"] ok1 by (simp add: r2_def)
    have "g < length (mg_gens (lk_mgr r2))" if "agent_socket k ?m = Some g" for g
      using socket_bound [OF ok that] advances_reach [OF 2] request_begin_simps(1) [OF b] by (auto simp: advances_def keeps_gens_def)
    then have 3: "mgr_reach m1 m2" using 2 by (auto simp: m2_def intro: mgr_reach_trans [OF receive_reach] split: option.splits)
    have "mgr_ok (lk_mgr (r2\<lparr>lk_mgr := m2\<rparr>))" using mgr_ok_reach [OF 3 ok1] by simp
    from others_okD [OF I this] have 4: "mgr_reach m2 (lk_mgr r3)" by (simp add: r3_def)
    let ?w = "wake_of ?uid (lk_mgr r3)"
    have "mgr_step (lk_mgr r3) (fst (request_end timeout ?uid ?w (lk_mgr r3)))"
      by (cases "fmlookup (mg_pending (lk_mgr r3)) ?uid") (auto simp: wake_of_def intro: answered gave_up split: option.splits)
    then have 5: "mgr_reach (lk_mgr r3) (fst (request_end timeout ?uid ?w (lk_mgr r3)))" by (rule mgr_reach1)
    have "shared_request I P r k t payload timeout = (let (m4, x, err) = request_end timeout ?uid ?w (lk_mgr r3) in (r3\<lparr>lk_mgr := m4\<rparr>, x, err))"
      unfolding shared_request_def Let_def n r3_def m2_def r2_def by (simp add: b None split: prod.split)
    with req have "r1 = r3\<lparr>lk_mgr := fst (request_end timeout ?uid ?w (lk_mgr r3))\<rparr>" by (auto split: prod.splits)
    then have "lk_mgr r1 = fst (request_end timeout ?uid ?w (lk_mgr r3))" by simp
    with mgr_reach_trans [OF 5 mgr_reach_trans [OF 4 mgr_reach_trans [OF 3 r1]]] show ?thesis by simp
  qed
qed

text \<open>Whatever the others do and whatever it returns, a request leaves no entry of its own behind.\<close>

lemma request_leaves_nothing:
  assumes "shared_request I P r k t payload timeout = (r1, x, err)"
  shows "pe_uuid P (lk_mgr r) |\<notin>| fmdom (mg_pending (lk_mgr r1))"
proof -
  let ?m = "lk_mgr r" and ?uid = "pe_uuid P (lk_mgr r)"
  obtain h we frames where n: "(case agent_socket k ?m of None \<Rightarrow> (lk_peer r, None, [])
      | Some g \<Rightarrow> pe_frames P (lk_peer r) g (request_message ?uid t payload (pe_now P))) = (h, we, frames)"
    by (rule prod_cases3)
  obtain m1 e where b: "request_begin we ?uid k t payload (pe_now P) ?m = (m1, e)" by force
  show ?thesis
  proof (cases e)
    case (Some err')
    with assms b n request_begin_simps(4) [OF b] show ?thesis by (auto simp: shared_request_def Let_def)
  next
    case None
    with assms b n show ?thesis by (auto simp: shared_request_def Let_def request_end_def)
  qed
qed

text \<open>Closing takes out all agents at once, so none of them is listed again, and leaves their connections silent.\<close>

lemma stop_each_reach:
  assumes "others_ok I" "mgr_ok (lk_mgr r)"
    "\<forall>i \<in> set cs. i < length (mg_conns (lk_mgr r)) \<and> fmlookup (mg_agents (lk_mgr r)) (ag_ID (ac_info (conn_of (lk_mgr r) i))) = None"
  shows "mgr_reach (lk_mgr r) (lk_mgr (fold (stop_one I) cs r))
    \<and> (superseded_closed (lk_mgr r) \<longrightarrow> (\<forall>i \<in> set cs. silenced i (lk_mgr (fold (stop_one I) cs r))))"
  using assms(2,3)
proof (induction cs arbitrary: r)
  case (Cons i ks)
  let ?r = "stop_one I i r"
  have i: "i < length (mg_conns (lk_mgr r))" "fmlookup (mg_agents (lk_mgr r)) (ag_ID (ac_info (conn_of (lk_mgr r) i))) = None"
    using Cons.prems(2) by simp_all
  note s = stop_one_reach [OF assms(1) Cons.prems(1) i]
  have ok: "mgr_ok (lk_mgr ?r)" by (rule mgr_ok_reach [OF s(1) Cons.prems(1)])
  have left: "\<forall>i \<in> set ks. i < length (mg_conns (lk_mgr ?r)) \<and> fmlookup (mg_agents (lk_mgr ?r)) (ag_ID (ac_info (conn_of (lk_mgr ?r) i))) = None"
    using left_map [OF advances_reach [OF s(1)] ok] Cons.prems(2) by simp
  note rest = Cons.IH [OF ok left]
  have "silenced i (lk_mgr (fold (stop_one I) ks ?r))" if "superseded_closed (lk_mgr r)"
    by (rule silenced_stays(1) [OF advances_reach [OF conjunct1 [OF rest]] s(2) [OF that]])
  with rest mgr_reach_trans [OF conjunct1 [OF rest] s(1)] superseded_reach [OF s(1) Cons.prems(1)] show ?case by simp
qed (simp add: mr_start)

lemma close_reach:
  assumes P: "well_named P" and I: "others_ok I" and ok: "mgr_ok (lk_mgr r)"
  shows "mgr_reach (lk_mgr r) (lk_mgr (shared_close I P r))"
    "fmlookup (mg_agents (lk_mgr r)) k = Some i \<Longrightarrow> fmlookup (mg_agents (lk_mgr (shared_close I P r))) k = None"
    "fmlookup (mg_agents (lk_mgr r)) k = Some i \<Longrightarrow> superseded_closed (lk_mgr r) \<Longrightarrow> silenced i (lk_mgr (shared_close I P r))"
    "mg_cancelled (lk_mgr (shared_close I P r))"
proof -
  let ?m = "lk_mgr r" and ?r0 = "r\<lparr>lk_mgr := close_begin (lk_mgr r)\<rparr>"
  let ?is = "List.map_filter (fmlookup (mg_agents ?m)) (pe_order P ?m)"
  define r1 where "r1 = I ?r0"
  define r2 where "r2 = I (r1\<lparr>lk_mgr := globalCancel (lk_mgr r1)\<rparr>)"
  define r3 where "r3 = I (r2\<lparr>lk_mgr := clear_pending (lk_mgr r2)\<rparr>)"
  have c: "shared_close I P r = fold (stop_one I) ?is r3" by (simp add: shared_close_def Let_def r1_def r2_def r3_def)
  note s0 = closing [of ?m]
  have 1: "mgr_reach (close_begin ?m) (lk_mgr r1)" using others_okD [OF I, of ?r0] mgr_ok_step [OF s0 ok] by (simp add: r1_def)
  have ok1: "mgr_ok (lk_mgr r1)" by (rule mgr_ok_reach [OF 1 mgr_ok_step [OF s0 ok]])
  have s1: "mgr_step (lk_mgr r1) (globalCancel (lk_mgr r1))"
    using advances_reach [OF 1] by (intro cancelled) (simp add: close_begin_def advances_def keeps_flags_def)
  have 2: "mgr_reach (globalCancel (lk_mgr r1)) (lk_mgr r2)"
    using others_okD [OF I, of "r1\<lparr>lk_mgr := globalCancel (lk_mgr r1)\<rparr>"] mgr_ok_step [OF s1 ok1] by (simp add: r2_def)
  have ok2: "mgr_ok (lk_mgr r2)" by (rule mgr_ok_reach [OF 2 mgr_ok_step [OF s1 ok1]])
  have s2: "mgr_step (lk_mgr r2) (clear_pending (lk_mgr r2))"
    using advances_reach [OF 2] by (intro cleared) (simp add: globalCancel_def advances_def keeps_flags_def)
  have 3: "mgr_reach (clear_pending (lk_mgr r2)) (lk_mgr r3)"
    using others_okD [OF I, of "r2\<lparr>lk_mgr := clear_pending (lk_mgr r2)\<rparr>"] mgr_ok_step [OF s2 ok2] by (simp add: r3_def)
  have ok3: "mgr_ok (lk_mgr r3)" by (rule mgr_ok_reach [OF 3 mgr_ok_step [OF s2 ok2]])
  have r: "mgr_reach (close_begin ?m) (lk_mgr r3)"
    by (rule mgr_reach_trans [OF mgr_reach_trans [OF 3 mgr_reach1 [OF s2]]])
      (rule mgr_reach_trans [OF mgr_reach_trans [OF 2 mgr_reach1 [OF s1]] 1])
  have "i < length (mg_conns ?m)" if "i \<in> set ?is" for i
    using that mgr_okD(9) [OF ok] by (auto simp: List.map_filter_def)
  then have left: "\<forall>i \<in> set ?is. i < length (mg_conns (lk_mgr r3)) \<and> fmlookup (mg_agents (lk_mgr r3)) (ag_ID (ac_info (conn_of (lk_mgr r3) i))) = None"
    using left_map [OF advances_reach [OF r] ok3] by (simp add: close_begin_def)
  note e = stop_each_reach [OF I ok3 left, folded c]
  have all: "mgr_reach (close_begin ?m) (lk_mgr (shared_close I P r))" by (rule mgr_reach_trans [OF conjunct1 [OF e] r])
  show "mgr_reach ?m (lk_mgr (shared_close I P r))" by (rule mgr_reach_trans [OF all mgr_reach1 [OF s0]])
  have "mgr_reach (globalCancel (lk_mgr r1)) (lk_mgr (shared_close I P r))"
    by (rule mgr_reach_trans [OF conjunct1 [OF e] mgr_reach_trans [OF mgr_reach_trans [OF 3 mgr_reach1 [OF s2]] 2]])
  from advances_reach [OF this] show "mg_cancelled (lk_mgr (shared_close I P r))"
    by (simp add: advances_def keeps_flags_def globalCancel_def)
  assume k: "fmlookup (mg_agents ?m) k = Some i"
  then show "fmlookup (mg_agents (lk_mgr (shared_close I P r))) k = None"
    using left_map(3) [OF advances_reach [OF all] mgr_ok_reach [OF all], of i] mgr_okD(9,11) [OF ok k] mgr_ok_step [OF s0 ok]
    by (simp add: close_begin_def)
  have "i \<in> set ?is" using k well_namedD(2) [OF P, of ?m] by (force simp: List.map_filter_def intro: fmdomI)
  then show "silenced i (lk_mgr (shared_close I P r))" if "superseded_closed ?m"
    using e superseded_reach [OF r _] mgr_ok_step [OF s0 ok] that by simp
qed

end
