(* ===== verification/ManagerLink.thy ===== *)
theory ManagerLink
  imports ManagerNet AppListing HandshakeLink
begin

text \<open>
  The client manager between the application and an agent: a request that goes through the manager, its table of
  waiting requests and the read pump gives the same answer as a request made to the agent directly. The
  locale \<open>relay\<close> is that contract; it carries the interfaces of transfers and listings from one
  requester to the other.
\<close>

section \<open>Requests through another requester\<close>

locale relay =
  fixes inner :: "'u \<Rightarrow> 'h requester" and outer :: "'r requester" and uid :: "'r \<Rightarrow> 'u" and peer :: "'r \<Rightarrow> 'h"
    and up :: "'r \<Rightarrow> bool" and agentID :: string
  assumes relayed: "up r \<Longrightarrow> inner (uid r) (peer r) agentID t p timeout = (h, x, err)
    \<Longrightarrow> \<exists>r1. outer r agentID t p timeout = (r1, x, err) \<and> peer r1 = h \<and> up r1"
begin

lemma chunk_relayed:
  assumes "up r" "sendUploadChunk outer None agentID pl timeout r = (r1, err)"
  shows "up r1 \<and> sendUploadChunk (inner (uid r)) None agentID pl timeout (peer r) = (peer r1, err)"
proof -
  obtain h x e where i: "inner (uid r) (peer r) agentID MsgSendFile (encode_send_file pl) timeout = (h, x, e)"
    by (rule prod_cases3)
  from relayed [OF assms(1) i] obtain r2 where
    "outer r agentID MsgSendFile (encode_send_file pl) timeout = (r2, x, e)" "peer r2 = h" "up r2" by blast
  with i assms(2) show ?thesis
    by (cases e) (auto simp: sendUploadChunk_def split: option.splits sum.splits if_splits)
qed

lemma read_relayed:
  assumes "up r" "dn_request outer agentID path timeout r off = (r1, m, err)"
  shows "up r1 \<and> dn_request (inner (uid r)) agentID path timeout (peer r) off = (peer r1, m, err)"
proof -
  let ?p = "encode_get_file \<lparr>gf_path = path, gf_offset = off, gf_chunk_size = TransferChunkSize\<rparr>"
  obtain h x e where i: "inner (uid r) (peer r) agentID MsgGetFile ?p timeout = (h, x, e)" by (rule prod_cases3)
  from relayed [OF assms(1) i] i assms(2) show ?thesis by (auto simp: dn_request_def)
qed

lemma page_relayed:
  assumes "up r" "request_page (N\<lparr>no_request := outer\<rparr>) agentID path off r = (r1, y)"
  shows "up r1 \<and> request_page (M\<lparr>no_request := inner (uid r)\<rparr>) agentID path off (peer r) = (peer r1, y)"
proof -
  let ?p = "encode_list_dir \<lparr>ld_path = path, ld_offset = off, ld_limit = listDirPageSize\<rparr>"
  obtain h x e where i: "inner (uid r) (peer r) agentID MsgListDir ?p defaultTimeout = (h, x, e)" by (rule prod_cases3)
  from relayed [OF assms(1) i] i assms(2) show ?thesis by (auto simp: request_page_def send_parse_def)
qed

text \<open>An agent that takes in and serves files does so through the relay.\<close>

lemma files_relayed:
  assumes "\<And>u. file_agent (inner u) agentID path uuid timeout content received serving serving"
  shows "file_agent outer agentID path uuid timeout content (\<lambda>n r. up r \<and> received n (peer r))
    (\<lambda>r. up r \<and> serving (peer r)) (\<lambda>r. up r \<and> serving (peer r))"
proof -
  have rec: "chunk_receiver (inner u) agentID path uuid timeout content received serving"
    and src: "chunk_source (inner u) agentID path timeout content serving" for u
    using assms [of u] by (simp_all add: file_agent_def)
  show ?thesis
  proof (unfold_locales, goal_cases)
    case (1 n r)
    then show ?case using chunk_receiver.content_size [OF rec] by blast
  next
    case (2 n r data r' e)
    with chunk_relayed [of r] chunk_receiver.chunk [OF rec] show ?case by metis
  next
    case (3 r r' e)
    with chunk_relayed [of r] chunk_receiver.none [OF rec] show ?case by metis
  next
    case (4 r)
    then show ?case using chunk_source.content_bound [OF src] by blast
  next
    case (5 r n r' m e)
    with read_relayed [of r] chunk_source.serve [OF src] show ?case by metis
  qed simp
qed

lemma pages_relayed:
  assumes "\<And>u. pager (M\<lparr>no_request := inner u\<rparr>) agentID path items serves"
  shows "pager (N\<lparr>no_request := outer\<rparr>) agentID path items (\<lambda>r. up r \<and> serves (peer r))"
proof (unfold_locales, goal_cases)
  case (1 r n r1 x)
  with page_relayed [of r N path "int n" r1 x M] pager.page_served [OF assms] show ?case by metis
qed

end

section \<open>The agent on the network\<close>

text \<open>
  One agent at one address, without TLS. The state is the agent's, with the connection the control center reaches it
  over, and the number of the generation that connection belongs to. Dialing opens a new one, which the agent greets.
\<close>

record site =
  st_world :: World
  st_server :: Server
  st_host :: string
  st_port :: int
  st_uuid :: string
  st_remote :: string
  st_local :: osenv
  st_files :: fsys

definition agent_dial ::
  "site \<Rightarrow> nat \<times> HState \<Rightarrow> nat \<Rightarrow> string \<Rightarrow> int \<Rightarrow> ConnectOptions \<Rightarrow> (nat \<times> HState) \<times> goerr option \<times> goerr option" where
  "agent_dial S h g host port options =
     (if host \<noteq> st_host S \<or> port \<noteq> st_port S then (h, Some (lit ''connection refused''), None)
      else if tlsEnabled options then (h, Some (lit ''first record does not look like a TLS handshake''), None)
      else (case handshake (agent_wire (st_world S) (sv_token (st_server S)) (st_uuid S)) (w_now (st_world S)) (co_AuthToken options)
                (greeted_state (st_world S) (put_shared (snd h) (st_server S)) (st_uuid S) (st_remote S)) of
          Some (st, err) \<Rightarrow> ((g, st), None, err)
        | None \<Rightarrow> (h, None, Some err_deadline)))"

text \<open>Go walks the map in the order of the names; a new identifier is longer than all in use.\<close>

definition known_names :: "ManagerCC \<Rightarrow> string list" where
  "known_names m = sorted_list_of_fset (fmdom (mg_agents m)) @ sorted_list_of_fset (fmdom (mg_pending m))
     @ map (\<lambda>ac. ag_ID (ac_info ac)) (mg_conns m)"

definition unused_name :: "string list \<Rightarrow> string" where
  "unused_name names = replicate (Suc (sum_list (map length names))) (CHR ''u'')"

text \<open>The agent handles the request; what it has queued are the frames that arrive.\<close>

definition agent_frames :: "site \<Rightarrow> nat \<times> HState \<Rightarrow> nat \<Rightarrow> Message \<Rightarrow> (nat \<times> HState) \<times> goerr option \<times> Message option list" where
  "agent_frames S h g msg =
     (if g \<noteq> fst h then (h, Some err_socket, [])
      else (let st = handleMessage (st_world S) (sv_token (st_server S)) msg (drained (snd h))
            in ((g, st), None, map Some (cl_send (hs_client st)))))"

definition agent_peers :: "site \<Rightarrow> (nat \<times> HState) peers" where
  "agent_peers S = \<lparr>pe_config = (\<lambda>host options. map_sum id (\<lambda>_. ())
       (dialerForHost (st_local S) (st_files S) (Inr ([] :: unit list)) (\<lambda>_. []) host options)),
     pe_dial = agent_dial S, pe_frames = agent_frames S, pe_order = (\<lambda>m. sorted_list_of_fset (fmdom (mg_agents m))),
     pe_uuid = (\<lambda>m. unused_name (known_names m)), pe_now = w_now (st_world S)\<rparr>"

lemma unused_name: "unused_name names \<notin> set names" "unused_name names \<noteq> []"
proof -
  have "length x \<le> sum_list (map length names)" if "x \<in> set names" for x
    using that by (simp add: member_le_sum_list)
  then show "unused_name names \<notin> set names" by (force simp: unused_name_def)
  show "unused_name names \<noteq> []" by (simp add: unused_name_def)
qed

lemma agent_peers_named [simp]: "well_named (agent_peers S)"
  using unused_name [where names = "known_names m" for m]
  by (auto simp: well_named_def agent_peers_def known_names_def sorted_list_of_fset.rep_eq)

section \<open>A request through the manager\<close>

text \<open>
  The manager is linked to the agent under an identifier: the agent is listed and connected, its generation is the
  one the agent answers on, its socket is open, the read pump runs, no other request waits and nobody shuts down.
\<close>

definition linked :: "string \<Rightarrow> (nat \<times> HState) link \<Rightarrow> bool" where
  "linked k r \<longleftrightarrow> (let m = lk_mgr r in mgr_ok m \<and> mg_pending m = fmempty \<and> \<not> mg_cancelled m
     \<and> agent_socket k m = Some (fst (lk_peer r)) \<and> gn_pump (gen_of m (fst (lk_peer r))) = PumpReading
     \<and> \<not> gn_connClosed (gen_of m (fst (lk_peer r))))"

lemma pump_cancelled [simp]: "mg_cancelled (pump_message now g parsed m) = mg_cancelled m"
  by (simp add: pump_message_def Let_def deliver_def apply_status_def split: option.splits)

text \<open>What the read pump changes: neither sockets nor generations, and of the waiting requests only the one answered.\<close>

lemma agent_socket_keeps:
  assumes "mgr_ok m" "keeps_identity f"
  shows "agent_socket k (on_conn i f m) = agent_socket k m"
proof (cases "fmlookup (mg_agents m) k")
  case (Some j)
  then have "j < length (mg_conns m)" using mgr_okD(9) [OF assms(1)] by blast
  with Some assms(2) show ?thesis by (simp add: agent_socket_def currentGeneration_def keeps_identity_def)
qed (simp add: agent_socket_def)

lemma agent_socket_data [simp]:
  "agent_socket k (m\<lparr>mg_pending := p\<rparr>) = agent_socket k m" "agent_socket k (m\<lparr>mg_seen := x\<rparr>) = agent_socket k m"
  "agent_socket k (m\<lparr>mg_sent := y\<rparr>) = agent_socket k m"
  by (simp_all add: agent_socket_def)

lemma agent_socket_status: "mgr_ok m \<Longrightarrow> agent_socket k (apply_status i g msg m) = agent_socket k m"
  by (simp add: apply_status_def agent_socket_keeps split: option.splits)

lemma agent_socket_pump: "mgr_ok m \<Longrightarrow> agent_socket k (pump_message now g parsed m) = agent_socket k m"
  by (auto simp: pump_message_def Let_def deliver_def agent_socket_keeps agent_socket_status split: option.splits)

lemma pump_pending:
  "mg_pending m = fmupd uid x fmempty \<Longrightarrow> uid \<noteq> [] \<Longrightarrow> mg_pending (pump_message now g (Some msg) m)
     = fmupd uid (if x = None \<and> msg_id msg = uid then Some msg else x) fmempty"
  by (cases x) (auto simp: pump_message_def Let_def deliver_def split: option.splits)

lemma pump_all:
  fixes msgs :: "Message list" and g :: nat and now :: int
  assumes "mgr_ok m" "mg_pending m = fmupd uid x fmempty" "uid \<noteq> []"
  defines "m1 \<equiv> fold (pump_message now g) (map Some msgs) m"
  shows "mgr_ok m1 \<and> mg_gens m1 = mg_gens m \<and> agent_socket k m1 = agent_socket k m
    \<and> mg_cancelled m1 = mg_cancelled m \<and> mg_pending m1 = fmupd uid (if x = None then find (\<lambda>msg. msg_id msg = uid) msgs else x) fmempty"
  using assms(1,2) unfolding m1_def
proof (induction msgs arbitrary: m x)
  case (Cons msg msgs)
  have "mgr_ok (pump_message now g (Some msg) m)" using Cons.prems(1) by (rule mgr_ok_pump_message)
  note Cons.IH [OF this pump_pending [OF Cons.prems(2) assms(3)]]
  then show ?case by (cases x; cases "msg_id msg = uid") (simp_all add: agent_socket_pump [OF Cons.prems(1)])
qed simp

lemma request_begin_sent:
  "agent_socket k m = Some g \<Longrightarrow> \<not> gn_connClosed (gen_of m g) \<Longrightarrow> request_begin None uid k t payload now m
    = (m\<lparr>mg_pending := fmupd uid None (mg_pending m), mg_sent := mg_sent m @ [(g, request_message uid t payload now)]\<rparr>, None)"
  by (auto simp: request_begin_def SendMessage_def agent_socket_def bind_eq_Some_conv)

text \<open>Through the manager a request gives what the agent itself gives, under a new identifier.\<close>

lemma request_relayed:
  assumes l: "linked k r"
    and q: "agent_request (st_world S) (sv_token (st_server S)) (pe_uuid (agent_peers S) (lk_mgr r)) (snd (lk_peer r)) k t p timeout = (st, x, err)"
  shows "\<exists>r1. manager_request (agent_peers S) r k t p timeout = (r1, x, err) \<and> snd (lk_peer r1) = st \<and> linked k r1"
proof -
  let ?m = "lk_mgr r" and ?w = "st_world S" and ?uid = "pe_uuid (agent_peers S) (lk_mgr r)"
  obtain g h where h: "lk_peer r = (g, h)" by force
  have ok: "mgr_ok ?m" and pend: "mg_pending ?m = fmempty" and sock: "agent_socket k ?m = Some g"
    and open_: "\<not> gn_connClosed (gen_of ?m g)" "\<not> mg_cancelled ?m" and pump: "gn_pump (gen_of ?m g) = PumpReading" using l h by (simp_all add: linked_def Let_def)
  let ?msg = "request_message ?uid t p (w_now ?w)"
  let ?st = "handleMessage ?w (sv_token (st_server S)) ?msg (drained h)"
  let ?m1 = "?m\<lparr>mg_pending := fmupd ?uid None fmempty, mg_sent := mg_sent ?m @ [(g, ?msg)]\<rparr>"
  have uid: "?uid \<noteq> []" by (rule well_namedD(3) [OF agent_peers_named])
  define m2 where "m2 = fold (pump_message (w_now ?w) g) (map Some (cl_send (hs_client ?st))) ?m1"
  have m2: "mgr_ok m2 \<and> mg_gens m2 = mg_gens ?m \<and> agent_socket k m2 = Some g \<and> \<not> mg_cancelled m2
      \<and> mg_pending m2 = fmupd ?uid (find (\<lambda>msg. msg_id msg = ?uid) (cl_send (hs_client ?st))) fmempty"
    using pump_all [where m = ?m1 and x = None and uid = ?uid and k = k and now = "w_now ?w" and g = g
        and msgs = "cl_send (hs_client ?st)"] ok uid sock open_ by (simp add: m2_def)
  obtain m3 y e where m3: "request_end timeout ?uid (wake_of ?uid m2) m2 = (m3, y, e)" by (rule prod_cases3)
  have frames: "agent_frames S (g, h) g ?msg = ((g, ?st), None, map Some (cl_send (hs_client ?st)))"
    by (simp add: agent_frames_def Let_def)
  have sent: "request_begin None ?uid k t p (w_now ?w) ?m = (?m1, None)"
    using request_begin_sent [OF sock open_(1)] pend by simp
  have "receive (w_now ?w) g (map Some (cl_send (hs_client ?st))) ?m1 = m2"
    using pump by (simp add: receive_def m2_def)
  with frames sent sock m3 h
  have req: "manager_request (agent_peers S) r k t p timeout = (\<lparr>lk_mgr = m3, lk_peer = (g, ?st)\<rparr>, y, e)"
    by (simp add: manager_request_def shared_request_def Let_def agent_peers_def)
  have "m3 = m2\<lparr>mg_pending := fmempty\<rparr>" using m3 m2 by (auto simp: request_end_def fmdrop_fmupd)
  then have "linked k \<lparr>lk_mgr = m3, lk_peer = (g, ?st)\<rparr>" using m2 pump open_(1) by (simp add: linked_def Let_def)
  moreover have "st = ?st \<and> x = y \<and> err = e"
  proof (cases "find (\<lambda>msg. msg_id msg = ?uid) (cl_send (hs_client ?st))")
    case None
    then have "wake_of ?uid m2 = TimedOut" using m2 by (simp add: wake_of_def)
    then have "y = None \<and> e = Some (Sprintf ''request timed out after %v'' [GInt (if timeout \<le> 0 then 30 * 10 ^ 9 else timeout)])"
      using m3 by (simp add: request_end_def)
    moreover have "st = ?st \<and> x = None
        \<and> err = Some (Sprintf ''request timed out after %v'' [GInt (if timeout \<le> 0 then 30 * 10 ^ 9 else timeout)])"
      using q None h by (simp add: agent_request_def request_message_def Let_def)
    ultimately show ?thesis by simp
  next
    case (Some a)
    then have "wake_of ?uid m2 = Answered a" using m2 by (simp add: wake_of_def)
    then have "y = Some a \<and> e = (if msg_error a \<noteq> no_text then Some (Sprintf ''agent error: %s'' [GErr (msg_error a)]) else None)"
      using m3 by (simp add: request_end_def)
    moreover have "st = ?st \<and> x = Some a
        \<and> err = (if msg_error a \<noteq> no_text then Some (Sprintf ''agent error: %s'' [GErr (msg_error a)]) else None)"
      using q Some h by (simp add: agent_request_def request_message_def Let_def)
    ultimately show ?thesis by simp
  qed
  ultimately show ?thesis using req by auto
qed

interpretation via_manager: relay "\<lambda>u. agent_request (st_world S) (sv_token (st_server S)) u" "manager_request (agent_peers S)"
  "\<lambda>r. pe_uuid (agent_peers S) (lk_mgr r)" "\<lambda>r. snd (lk_peer r)" "linked k" k for S k
  by unfold_locales (rule request_relayed)

end
