(* ===== verification/ManagedAgent.thy ===== *)
theory ManagedAgent
  imports ManagerLink AppRestart
begin

text \<open>
  From an agent that waits for connections to a connected one: the control center dials it, authenticates
  and lists it, and from then on its requests reach the agent through the manager. The contracts of transfers and listings
  hold for the whole chain.
\<close>

section \<open>Files and listings through the manager\<close>

interpretation managed_files: file_agent "manager_request (agent_peers S)" k path uuid timeout content
  "\<lambda>n r. linked k r \<and> agent_receives (st_world S) path uuid content n (snd (lk_peer r))"
  "\<lambda>r. linked k r \<and> agent_serves (st_world S) path content (snd (lk_peer r))"
  "\<lambda>r. linked k r \<and> agent_serves (st_world S) path content (snd (lk_peer r))"
  for S k path uuid timeout content
  by (rule via_manager.files_relayed) (rule agent.file_agent_axioms)

interpretation managed_pages: pager "N\<lparr>no_request := manager_request (agent_peers S)\<rparr>" k path items
  "\<lambda>r. linked k r \<and> agent_lists (st_world S) path items (snd (lk_peer r))"
  for N S k path items
  by (rule via_manager.pages_relayed [where M = idle_net]) (rule agent_pager.pager_axioms)

section \<open>The agent after the handshake\<close>

definition quiet_server :: "World \<Rightarrow> Server \<Rightarrow> bool" where
  "quiet_server w s \<longleftrightarrow> fault_free (w_os w) \<and> env_ok (w_os w) \<and> fs_wf (sv_fs s) \<and> log_steady (sv_fs s) (sv_log s)"

lemma greeted_shared:
  "hs_fs (greeted_state w s uuid remote) = sv_fs s" "hs_log (greeted_state w s uuid remote) = sv_log s"
  by (simp_all add: greeted_state_def hstate_def)

text \<open>What successful credentials leave: the client authenticated, and one event in the audit log.\<close>

lemma accepted_state:
  fixes w :: World and st :: HState
  assumes "\<not> cl_closed (hs_client st)" "cl_send (hs_client st) = []" "msg_type msg = MsgAuth"
    "decode_auth (via_interface (msg_payload msg)) = Some \<lparr>au_token = tok, au_username = []\<rparr>"
  defines "st1 \<equiv> handleMessage w tok msg st"
  shows "\<exists>st0. hs_fs st0 = hs_fs st \<and> hs_log st0 = hs_log st
    \<and> hs_fs st1 = hs_fs (record_ev w ''auth'' ResultOK no_text st0) \<and> hs_log st1 = hs_log (record_ev w ''auth'' ResultOK no_text st0)
    \<and> cl_authed (hs_client st1) \<and> \<not> cl_closed (hs_client st1)"
  unfolding st1_def
  by (intro exI [where x = "on_client (\<lambda>c. c\<lparr>cl_user := []\<rparr>) ((on_client (\<lambda>c. c\<lparr>cl_authed := True\<rparr>) st)
        \<lparr>hs_guard := succeed (hs_guard (on_client (\<lambda>c. c\<lparr>cl_authed := True\<rparr>) st)) (cl_ip (hs_client (on_client (\<lambda>c. c\<lparr>cl_authed := True\<rparr>) st)))\<rparr>)"])
    (use assms(1-4) in \<open>simp add: handleMessage_def handleAuth_def remarshal_def Let_def sendAgentInfo_def sendMsg_def enqueue_def
      SendQueue_def message_def on_client_def\<close>)

lemma handshake_connected:
  assumes tok: "sv_token s = [] \<or> token = sv_token s" and q: "quiet_server w s"
  shows "\<exists>st. handshake (agent_wire w (sv_token s) uuid') now token (greeted_state w s uuid remote) = Some (st, None)
    \<and> connected w st \<and> same_except (log_paths (sv_log s)) (sv_fs s) (hs_fs st) \<and> log_paths (hs_log st) = log_paths (sv_log s)"
proof (cases "sv_token s = []")
  case True
  have "\<not> cl_closed (hs_client (greeted_state w s uuid remote))"
    using True by (simp add: greeted_state_def hstate_def greet_def newConn_def newClient_def sendAgentInfo_def Let_def
        sendMsg_def enqueue_def SendQueue_def)
  with q handshake_open [OF True] greeted_open(2) [OF True] show ?thesis
    by (simp add: connected_def on_client_def greeted_shared quiet_server_def)
next
  case False
  with tok have t: "token = sv_token s" "sv_token s \<noteq> []" "token \<noteq> []" by auto
  let ?msg = "with_defaults w uuid' (auth_message now token)"
  let ?st1 = "handleMessage w (sv_token s) ?msg (asked_state w s uuid remote)"
  note a = asked_state_facts [OF t(2), of w uuid remote]
  obtain rest where h: "handshake (agent_wire w (sv_token s) uuid') now token (greeted_state w s uuid remote)
      = Some (on_client (\<lambda>c. c\<lparr>cl_send := rest\<rparr>) ?st1, None)"
    using handshake_credentials(1) [OF t(2,3), of w uuid' now uuid remote] t(1) by auto
  have d: "decode_auth (via_interface (msg_payload ?msg)) = Some \<lparr>au_token = sv_token s, au_username = []\<rparr>" "msg_type ?msg = MsgAuth"
    by (simp_all add: with_defaults_def auth_message_def t(1))
  from accepted_state [OF a(1,2) d(2,1), of w] obtain st0 where s0: "hs_fs st0 = sv_fs s" "hs_log st0 = sv_log s"
    and s1: "hs_fs ?st1 = hs_fs (record_ev w ''auth'' ResultOK no_text st0)"
      "hs_log ?st1 = hs_log (record_ev w ''auth'' ResultOK no_text st0)"
      "cl_authed (hs_client ?st1)" "\<not> cl_closed (hs_client ?st1)"
    unfolding a(7,8) by blast
  have ff: "fault_free (w_os w)" "fs_wf (hs_fs st0)" "log_steady (hs_fs st0) (hs_log st0)"
    using q s0 by (simp_all add: quiet_server_def)
  note e = record_ev_steady [OF ff, of "''auth''" ResultOK no_text, folded s1(1,2), unfolded s0]
  have "connected w (on_client (\<lambda>c. c\<lparr>cl_send := rest\<rparr>) ?st1)"
    using q s1(3,4) e by (simp add: connected_def quiet_server_def on_client_def)
  with h e show ?thesis by (simp add: on_client_def)
qed

section \<open>Connecting\<close>

text \<open>No listed agent is connected at the endpoint.\<close>

definition endpoint_free :: "string \<Rightarrow> int \<Rightarrow> ManagerCC \<Rightarrow> bool" where
  "endpoint_free host port m \<longleftrightarrow> fmpred (\<lambda>k a. \<not> (ag_Host a = host \<and> ag_Port a = port \<and> ag_Connected a)) (ListAgents m)"

lemma no_existing:
  assumes "endpoint_free host port m"
  shows "existing_agent ids m host port = None"
proof -
  have none: "\<not> (case fmlookup (mg_agents m) k of None \<Rightarrow> False
      | Some i \<Rightarrow> (let a = ac_info (conn_of m i) in ag_Host a = host \<and> ag_Port a = port \<and> ag_Connected a))" for k
    using assms fmpredD [OF assms [unfolded endpoint_free_def], of k]
    by (cases "fmlookup (mg_agents m) k") (auto simp: ListAgents_def Let_def)
  have "find (\<lambda>k. case fmlookup (mg_agents m) k of None \<Rightarrow> False
      | Some i \<Rightarrow> (let a = ac_info (conn_of m i) in ag_Host a = host \<and> ag_Port a = port \<and> ag_Connected a)) ids = None"
    unfolding find_None_iff using none by blast
  then show ?thesis by (simp add: existing_agent_def)
qed

definition plain_token :: "string \<Rightarrow> ConnectOptions" where
  "plain_token token = no_options\<lparr>co_AuthToken := token\<rparr>"

text \<open>The manager is at rest: it is not shutting down and no request waits.\<close>

definition at_rest :: "ManagerCC \<Rightarrow> bool" where
  "at_rest m \<longleftrightarrow> mgr_ok m \<and> mg_pending m = fmempty \<and> \<not> mg_cancelled m"

definition server_at :: "site \<Rightarrow> (nat \<times> HState) link \<Rightarrow> Server" where
  "server_at S r = put_shared (snd (lk_peer r)) (st_server S)"

lemma server_at_token [simp]: "sv_token (server_at S r) = sv_token (st_server S)"
  by (simp add: server_at_def put_shared_def)

lemma connect_links:
  assumes m: "at_rest (lk_mgr r)" "endpoint_free (st_host S) (st_port S) (lk_mgr r)"
    and tok: "sv_token (st_server S) = [] \<or> token = sv_token (st_server S)"
    and q: "quiet_server (st_world S) (server_at S r)"
  defines "k \<equiv> pe_uuid (agent_peers S) (lk_mgr r)"
  shows "\<exists>r1. manager_connect (agent_peers S) r (st_host S) (st_port S) (plain_token token) = (r1, Inr k)
    \<and> linked k r1 \<and> at_rest (lk_mgr r1)
    \<and> GetAgent k (lk_mgr r1) = Some (new_info k (st_host S) (st_port S) (plain_token token) (w_now (st_world S)))
    \<and> connected (st_world S) (snd (lk_peer r1))
    \<and> same_except (log_paths (hs_log (snd (lk_peer r)))) (hs_fs (snd (lk_peer r))) (hs_fs (snd (lk_peer r1)))
    \<and> log_paths (hs_log (snd (lk_peer r1))) = log_paths (hs_log (snd (lk_peer r)))"
proof -
  let ?m = "lk_mgr r" and ?n = "length (mg_conns (lk_mgr r))" and ?g = "length (mg_gens (lk_mgr r))" and ?o = "plain_token token"
  let ?info = "new_info k (st_host S) (st_port S) ?o (w_now (st_world S))"
  let ?m1 = "?m\<lparr>mg_conns := mg_conns ?m @ [\<lparr>ac_info = ?info, ac_options = ?o, ac_generation = ?g, ac_closed = False, ac_cancelled = False\<rparr>],
      mg_gens := mg_gens ?m @ [newConnectionGeneration ?n], mg_agents := fmupd k ?n (mg_agents ?m)\<rparr>"
  note ex = no_existing [OF m(2)]
  from handshake_connected [OF _ q, of token "st_uuid S" "w_now (st_world S)" "st_uuid S" "st_remote S"] tok obtain st where
    h: "handshake (agent_wire (st_world S) (sv_token (st_server S)) (st_uuid S)) (w_now (st_world S)) token
        (greeted_state (st_world S) (server_at S r) (st_uuid S) (st_remote S)) = Some (st, None)"
    and st: "connected (st_world S) st" "same_except (log_paths (sv_log (server_at S r))) (sv_fs (server_at S r)) (hs_fs st)"
      "log_paths (hs_log st) = log_paths (sv_log (server_at S r))"
    by auto
  have plain: "\<not> tlsEnabled ?o" "co_AuthToken ?o = token" "co_CAFile ?o = []" "co_ServerName ?o = []"
    by (simp_all add: plain_token_def no_options_def tlsEnabled_def)
  have dial: "dial_agent (agent_peers S) r (st_host S) (st_port S) ?o = ((?g, st), None, None)"
    using h m(1) plain by (simp add: dial_agent_def agent_peers_def agent_dial_def at_rest_def server_at_def)
  have cfg: "pe_config (agent_peers S) (st_host S) ?o = Inr ()"
    using plain by (simp add: agent_peers_def dialerForHost_def)
  have com: "connect_commit ids (st_host S) (st_port S) ?o k (pe_now (agent_peers S)) ?m = (?m1, Inr k)" for ids
    using ex m(1) by (simp add: connect_commit_def at_rest_def agent_peers_def)
  then have con: "manager_connect (agent_peers S) r (st_host S) (st_port S) ?o = (\<lparr>lk_mgr = ?m1, lk_peer = (?g, st)\<rparr>, Inr k)"
    using ex dial cfg by (simp add: manager_connect_eq Let_def ConnectWithOptions_def k_def)
  have ok: "mgr_ok ?m1"
    using m(1) well_namedD(4) [OF agent_peers_named] by (intro mgr_ok_commit [OF _ com]) (simp_all add: at_rest_def k_def)
  have "agent_socket k ?m1 = Some ?g" "gn_pump (gen_of ?m1 ?g) = PumpReading" "\<not> gn_connClosed (gen_of ?m1 ?g)"
    by (simp_all add: agent_socket_def currentGeneration_def new_info_def newConnectionGeneration_def)
  then have "linked k \<lparr>lk_mgr = ?m1, lk_peer = (?g, st)\<rparr>" using ok m(1) by (simp add: linked_def Let_def at_rest_def)
  moreover have "at_rest ?m1" using ok m(1) by (simp add: at_rest_def)
  moreover have "GetAgent k ?m1 = Some ?info" by (simp add: GetAgent_def)
  ultimately show ?thesis using con st by (simp add: server_at_def put_shared_def)
qed

end
