(* ===== verification/AppManager.thy ===== *)
theory AppManager
  imports ManagedAgent AppProps
begin

text \<open>
  The application on the client manager: the locale \<open>agent_manager\<close> is what the application may rely on from the
  manager's operations; \<^verbatim>\<open>ManagerNet\<close> provides it for every network. With the agent at the other end of the network,
  what the user does through the application reaches the agent's disk and comes back.
\<close>

section \<open>What the application relies on\<close>

locale agent_manager =
  fixes N :: "'r netops" and ok :: "'r \<Rightarrow> bool"
  assumes listed: "ok r \<Longrightarrow> set (no_agents N r) = {a. \<exists>k. no_agent N r k = Some a}"
    and named: "ok r \<Longrightarrow> no_agent N r k = Some a \<Longrightarrow> ag_ID a = k"
    and connects: "ok r \<Longrightarrow> no_connect N r host port options = (r1, Inr k)
      \<Longrightarrow> ok r1 \<and> (\<exists>a. no_agent N r1 k = Some a \<and> ag_Host a = host \<and> ag_Port a = port \<and> ag_Connected a)"
    and refuses: "ok r \<Longrightarrow> no_connect N r host port options = (r1, Inl err) \<Longrightarrow> ok r1 \<and> no_agent N r1 = no_agent N r"
    and drops: "ok r \<Longrightarrow> no_disconnect N r k = (r1, None) \<Longrightarrow> ok r1 \<and> no_agent N r1 = (no_agent N r)(k := None)"
    and unanswered: "ok r \<Longrightarrow> no_agent N r k = None
      \<Longrightarrow> \<exists>r1 err. no_request N r k t p timeout = (r1, None, Some err) \<and> ok r1 \<and> no_agent N r1 = no_agent N r"
    and closes: "ok r \<Longrightarrow> no_agents N (no_close N r) = []"
begin

lemma agents_listed:
  "ok (ap_net a) \<Longrightarrow> set (GetAgents N a) = (\<lambda>x. x\<lparr>ag_AuthToken := []\<rparr>) ` {x. \<exists>k. no_agent N (ap_net a) k = Some x}"
  by (simp add: GetAgents_def redactAgentTokens_def listed)

lemma connect_listed:
  assumes "ok (ap_net a)" "connectAgentWithOptions N V host port options a = (a1, None)"
  shows "ok (ap_net a1) \<and> (\<exists>x \<in> set (GetAgents N a1). ag_Host x = host \<and> ag_Port x = port \<and> ag_Connected x)"
proof -
  obtain r k where c: "no_connect N (ap_net a) host port options = (r, Inr k)" and r: "ap_net a1 = r"
    using assms(2)
    by (auto simp: connectAgentWithOptions_def on_net_def on_sessions_def app_log_def split: option.splits prod.splits sum.splits)
  from connects [OF assms(1) c] obtain x where x: "ok r" "no_agent N r k = Some x" "ag_Host x = host" "ag_Port x = port" "ag_Connected x"
    by blast
  with agents_listed [of a1] r have "x\<lparr>ag_AuthToken := []\<rparr> \<in> set (GetAgents N a1)" by auto
  moreover have "ag_Host (x\<lparr>ag_AuthToken := []\<rparr>) = host" "ag_Port (x\<lparr>ag_AuthToken := []\<rparr>) = port" "ag_Connected (x\<lparr>ag_AuthToken := []\<rparr>)"
    using x(3-5) by simp_all
  ultimately show ?thesis using x(1) r by blast
qed

lemma disconnect_drops:
  assumes "ok (ap_net a)" "DisconnectAgent N V k a = (a1, None)"
  shows "ok (ap_net a1) \<and> no_agent N (ap_net a1) = (no_agent N (ap_net a))(k := None)"
proof -
  obtain r where "no_disconnect N (ap_net a) k = (r, None)" "ap_net a1 = r"
    using assms(2) by (auto simp: DisconnectAgent_def on_net_def app_log_def split: if_splits option.splits prod.splits)
  with drops [OF assms(1)] show ?thesis by simp
qed

text \<open>Of an agent that is not listed nothing is learned; the application only records the attempt.\<close>

lemma send_parse_unknown:
  assumes "ok r" "no_agent N r k = None"
  shows "\<exists>r1 err. send_parse N decode k t p timeout r = (r1, Inl err) \<and> ok r1 \<and> no_agent N r1 = no_agent N r"
  using unanswered [OF assms, of t p timeout] by (auto simp: send_parse_def parse_response_def)

lemma unknown_agent:
  assumes "ok (ap_net a)" "no_agent N (ap_net a) k = None"
  shows "failed_of (snd (ExecCommand N V k c timeout a))" "failed_of (snd (ListDirApp N V k path a))"
    "failed_of (snd (GetSystemInfoApp N V k a))" "failed_of (snd (RequestScreenshot N V k a))"
proof -
  let ?e = "encode_exec \<lparr>ex_command = c, ex_args = [], ex_timeout = seconds_of (exec_duration timeout), ex_shell = []\<rparr>"
  let ?l = "encode_list_dir \<lparr>ld_path = path, ld_offset = 0, ld_limit = listDirPageSize\<rparr>"
  obtain r1 e1 where "send_parse N decode_command_result k MsgExecCommand ?e (exec_duration timeout) (ap_net a) = (r1, Inl e1)"
    using send_parse_unknown [OF assms] by blast
  then show "failed_of (snd (ExecCommand N V k c timeout a))"
    by (simp add: ExecCommand_def requestCommandResult_def on_net_def)
  obtain r2 e2 where "send_parse N decode_dir_contents k MsgListDir ?l defaultTimeout (ap_net a) = (r2, Inl e2)"
    using send_parse_unknown [OF assms] by blast
  then have "list_dir_loop N k path (Suc n) 0 None (ap_net a) = (r2, Inl e2)" for n
    by (simp add: request_page_def)
  moreover obtain n where "maxListDirRequest = Suc n"
    by (cases maxListDirRequest) (simp_all add: maxListDirRequest_def)
  ultimately have "list_dir_loop N k path maxListDirRequest 0 None (ap_net a) = (r2, Inl e2)" by metis
  then have "listDirPages N k path (ap_net a) = (r2, Inl e2)" by (simp add: listDirPages_def)
  then show "failed_of (snd (ListDirApp N V k path a))" by (simp add: ListDirApp_def on_net_def)
  obtain r3 e3 where "requestSystemInfo N k (ap_net a) = (r3, Inl e3)"
    using send_parse_unknown [OF assms] unfolding requestSystemInfo_def by blast
  then show "failed_of (snd (GetSystemInfoApp N V k a))" by (simp add: GetSystemInfoApp_def on_net_def)
  obtain r4 e4 where "send_parse N decode_screenshot k MsgScreenshot (JObj []) defaultTimeout (ap_net a) = (r4, Inl e4)"
    using send_parse_unknown [OF assms] by blast
  then show "failed_of (snd (RequestScreenshot N V k a))" by (simp add: RequestScreenshot_def on_net_def)
qed

end

section \<open>The manager provides it\<close>

lemma manager_net_simps [simp]:
  "no_connect (manager_net P) = manager_connect P" "no_disconnect (manager_net P) = manager_disconnect"
  "no_request (manager_net P) = manager_request P" "no_agents (manager_net P) = manager_agents P"
  "no_agent (manager_net P) = (\<lambda>r k. GetAgent k (lk_mgr r))"
  "no_close (manager_net P) = (\<lambda>r. r\<lparr>lk_mgr := CloseAll (pe_order P (lk_mgr r)) (lk_mgr r)\<rparr>)"
  by (simp_all add: manager_net_def shared_net_def manager_connect_def manager_disconnect_def manager_request_def fun_eq_iff manager_close_eq)

lemma set_map_filter: "set (List.map_filter f xs) = {y. \<exists>x \<in> set xs. f x = Some y}"
  by (induction xs) (auto simp: split: option.splits)

lemma manager_lists: "well_named P \<Longrightarrow> set (manager_agents P r) = {a. \<exists>k. GetAgent k (lk_mgr r) = Some a}"
  by (auto simp: manager_agents_def set_map_filter ListAgents_def GetAgent_def well_namedD intro!: fmdomI)

text \<open>An agent connected before is reused, a new one is added.\<close>

lemma existing_agent_some:
  assumes "mgr_ok m" "existing_agent ids m host port = Some i"
  shows "\<exists>k. fmlookup (mg_agents m) k = Some i \<and> ag_ID (ac_info (conn_of m i)) = k \<and> ag_Host (ac_info (conn_of m i)) = host
    \<and> ag_Port (ac_info (conn_of m i)) = port \<and> ag_Connected (ac_info (conn_of m i))"
proof -
  obtain k where f: "find (\<lambda>k. case fmlookup (mg_agents m) k of None \<Rightarrow> False
       | Some i \<Rightarrow> (let a = ac_info (conn_of m i) in ag_Host a = host \<and> ag_Port a = port \<and> ag_Connected a)) ids = Some k"
    and k: "fmlookup (mg_agents m) k = Some i"
    using assms(2) by (auto simp: existing_agent_def bind_eq_Some_conv)
  from f k have "ag_Host (ac_info (conn_of m i)) = host \<and> ag_Port (ac_info (conn_of m i)) = port \<and> ag_Connected (ac_info (conn_of m i))"
    by (auto simp: find_Some_iff Let_def)
  with k mgr_okD(11) [OF assms(1) k] show ?thesis by blast
qed

lemma GetAgent_added:
  "GetAgent k (m\<lparr>mg_conns := mg_conns m @ [c], mg_gens := gs, mg_agents := fmupd k (length (mg_conns m)) (mg_agents m)\<rparr>) = Some (ac_info c)"
  by (simp add: GetAgent_def)

lemma manager_connected:
  assumes P: "well_named P" and ok: "mgr_ok (lk_mgr r)" and c: "manager_connect P r host port options = (r1, x)"
  shows "case x of Inr k \<Rightarrow> \<exists>a. GetAgent k (lk_mgr r1) = Some a \<and> ag_Host a = host \<and> ag_Port a = port \<and> ag_Connected a
    | Inl err \<Rightarrow> lk_mgr r1 = lk_mgr r"
proof -
  let ?m = "lk_mgr r" and ?ids = "pe_order P (lk_mgr r)"
  obtain d g where w: "ConnectWithOptions (pe_config P host options) d g ?ids ?ids host port options (pe_uuid P ?m) (pe_now P) ?m ?m
      = (lk_mgr r1, x)"
    using c by (auto simp: manager_connect_eq Let_def split: prod.splits)
  show ?thesis
  proof (cases "existing_agent ?ids ?m host port")
    case (Some i)
    with w have "lk_mgr r1 = ?m" "x = reuse_existing ?m i host port options" by (auto simp: ConnectWithOptions_def)
    with existing_agent_some [OF ok Some] show ?thesis by (auto simp: reuse_existing_def GetAgent_def)
  next
    case None
    define m1 where "m1 = lk_mgr r1"
    from None w [folded m1_def] show ?thesis
      unfolding m1_def [symmetric]
      by (auto simp: ConnectWithOptions_def connect_commit_def GetAgent_def new_info_def split: option.splits sum.splits if_splits)
  qed
qed

lemma manager_dropped:
  assumes ok: "mgr_ok m" and d: "Disconnect k m = (m1, None)"
  shows "(\<lambda>j. GetAgent j m1) = (\<lambda>j. GetAgent j m)(k := None)"
proof
  fix j
  obtain i where i: "fmlookup (mg_agents m) k = Some i" "m1 = stopConn i (m\<lparr>mg_agents := fmdrop k (mg_agents m)\<rparr>)"
    using d by (auto simp: Disconnect_eq split: option.splits)
  show "GetAgent j m1 = ((\<lambda>j. GetAgent j m)(k := None)) j"
  proof (cases "j \<noteq> k \<and> fmlookup (mg_agents m) j \<noteq> None")
    case True
    then obtain n where n: "fmlookup (mg_agents m) j = Some n" by blast
    have "n \<noteq> i" using mgr_okD(11) [OF ok n] mgr_okD(11) [OF ok i(1)] True by auto
    then show ?thesis using True n mgr_okD(9) [OF ok n] i(2) by (simp add: GetAgent_def stopConn_conns)
  qed (auto simp: GetAgent_def i(2) stopConn_conns)
qed

lemma manager_unanswered:
  assumes "well_named P" "GetAgent k (lk_mgr r) = None"
  shows "\<exists>r1 err. manager_request P r k t p timeout = (r1, None, Some err)
    \<and> lk_mgr r1 = (lk_mgr r)\<lparr>mg_pending := fmdrop (pe_uuid P (lk_mgr r)) (mg_pending (lk_mgr r))\<rparr>"
proof -
  have "fmlookup (mg_agents (lk_mgr r)) k = None" using assms(2) by (simp add: GetAgent_def)
  then show ?thesis
    by (simp add: manager_request_def shared_request_def agent_socket_def request_begin_def SendMessage_def Let_def fmdrop_fmupd)
qed

lemma CloseAll_agents: "mg_agents (CloseAll ids m) = fmempty"
proof -
  have "mg_agents (fold (\<lambda>k. case fmlookup A k of None \<Rightarrow> id | Some i \<Rightarrow> stopConn i) ids m1) = mg_agents m1" for A m1
    by (induction ids arbitrary: m1) (auto simp: stopConn_conns split: option.splits)
  then show ?thesis by (simp add: CloseAll_eq)
qed

lemma manager_contract: "well_named P \<Longrightarrow> agent_manager (manager_net P) (\<lambda>r. mgr_ok (lk_mgr r))"
proof (unfold_locales, goal_cases)
  case (1 r)
  then show ?case by (simp add: manager_lists)
next
  case (2 r k a)
  then show ?case using mgr_okD(11) [of "lk_mgr r" k] by (auto simp: GetAgent_def)
next
  case (3 r host port options r1 k)
  then show ?case using manager_connected [of P r host port options r1 "Inr k"] mgr_ok_reach [OF connect_reach [OF 3(1) others_ok_alone 3(2)]] by (auto simp: manager_connect_def)
next
  case (4 r host port options r1 err)
  then show ?case using manager_connected [of P r host port options r1 "Inl err"] by auto
next
  case (5 r k r1)
  obtain m1 where d: "Disconnect k (lk_mgr r) = (m1, None)" "r1 = r\<lparr>lk_mgr := m1\<rparr>"
    using 5(3) by (auto simp: manager_disconnect_eq split: prod.splits)
  show ?case using manager_dropped [OF 5(2) d(1)] mgr_ok_Disconnect [OF 5(2) d(1)] d(2) by simp
next
  case (6 r k t p timeout)
  then show ?case using manager_unanswered [OF 6(1), of k r t p timeout] by (auto simp: GetAgent_def)
next
  case (7 r)
  let ?r = "r\<lparr>lk_mgr := CloseAll (pe_order P (lk_mgr r)) (lk_mgr r)\<rparr>"
  have "set (manager_agents P ?r) = {}" using 7(1) by (auto simp: manager_lists GetAgent_def CloseAll_agents)
  then show ?case by simp
qed

interpretation managed: agent_manager "manager_net (agent_peers S)" "\<lambda>r. mgr_ok (lk_mgr r)" for S
  by (rule manager_contract) simp

end
