(* ===== verification/AppNet.thy ===== *)
theory AppNet
  imports AppManager
begin

text \<open>
  All that the application does to the network it does by the operations of the manager. The locale
  \<open>net_calls\<close> takes any relation of states that every operation keeps to, and follows it through every binding,
  transfer loops, scripts and callbacks included. Its instance on \<^verbatim>\<open>ManagerNet\<close> is the manager's
  own step relation.
\<close>

section \<open>A relation kept by the operations is kept by the application\<close>

locale net_calls =
  fixes N :: "'r netops" and R :: "'r \<Rightarrow> 'r \<Rightarrow> bool"
  assumes same [simp, intro]: "R r r"
    and trans: "R r1 r2 \<Longrightarrow> R r2 r3 \<Longrightarrow> R r1 r3"
    and connect: "no_connect N r host port options = (r1, x) \<Longrightarrow> R r r1"
    and disconnect: "no_disconnect N r k = (r1, e) \<Longrightarrow> R r r1"
    and request: "no_request N r k t p timeout = (r1, y, err) \<Longrightarrow> R r r1"
    and close: "R r (no_close N r)"
begin

lemma parse_R: "send_parse N decode k t p timeout r = (r1, z) \<Longrightarrow> R r r1"
  by (auto simp: send_parse_def dest: request split: prod.splits)

lemma command_R: "requestCommandResult N k c d r = (r1, z) \<Longrightarrow> R r r1"
  by (auto simp: requestCommandResult_def intro: parse_R)

lemma info_R: "requestSystemInfo N k r = (r1, z) \<Longrightarrow> R r r1"
  by (auto simp: requestSystemInfo_def intro: parse_R)

lemma pages_R: "list_dir_loop N k path n off merged r = (r1, z) \<Longrightarrow> R r r1"
proof (induction n arbitrary: off merged r)
  case (Suc n)
  obtain r2 w where q: "request_page N k path off r = (r2, w)" by force
  then have "R r r2" by (auto simp: request_page_def intro: parse_R)
  with Suc q show ?case by (auto simp: Let_def intro: trans split: sum.splits if_splits)
qed simp

lemma list_R: "listDirPages N k path r = (r1, z) \<Longrightarrow> R r r1"
  by (auto simp: listDirPages_def intro: pages_R split: prod.splits sum.splits option.splits)

lemma multi_R: "multi_run N V c d ids (r, s) = (r1, s1) \<Longrightarrow> R r r1"
proof (induction ids arbitrary: r s)
  case (Cons k ids)
  obtain r2 w where q: "requestCommandResult N k c d r = (r2, w)" by force
  with Cons command_R [OF q] show ?case by (auto intro: trans)
qed simp

lemma lines_R:
  assumes ex: "\<And>r c r1 z. executor r c = (r1, z) \<Longrightarrow> R r r1"
  shows "run_lines T vars executor i ls r res = (r1, res1) \<Longrightarrow> R r r1"
proof (induction ls arbitrary: i r res)
  case (Cons l ls)
  obtain r2 w where q: "run_line T vars executor (i + 1) (TrimSpace l) r = (r2, w)" by force
  then have "R r r2" by (auto simp: run_line_def dest: ex split: sum.splits prod.splits)
  with Cons q show ?case by (auto simp: Let_def intro: trans split: if_splits)
qed simp

lemma script_R: "ExecuteScript T script vars (Some (script_executor N k)) r = (r1, z) \<Longrightarrow> R r r1"
proof -
  have ex: "script_executor N k r c = (r1, z) \<Longrightarrow> R r r1" for r c r1 z
    by (auto simp: script_executor_def dest: command_R split: prod.splits sum.splits)
  show "ExecuteScript T script vars (Some (script_executor N k)) r = (r1, z) \<Longrightarrow> R r r1"
    by (auto simp: ExecuteScript_def Let_def intro: lines_R [where executor = "script_executor N k", OF ex] split: option.splits prod.splits)
qed

section \<open>The transfer loops\<close>

lemma download_round_R:
  assumes "R r (dn_remote s)"
  shows "case download_round (no_request N) ctx En k path part timeout s of
    Inl (s1, e) \<Rightarrow> R r (dn_remote s1) | Inr s1 \<Rightarrow> R r (dn_remote s1)"
proof -
  obtain r1 y e where q: "no_request N (dn_remote s) k MsgGetFile (encode_get_file
      \<lparr>gf_path = path, gf_offset = dn_offset s, gf_chunk_size = TransferChunkSize\<rparr>) timeout = (r1, y, e)" by (rule prod_cases3)
  have "R r r1" using trans [OF assms request [OF q]] .
  with assms show ?thesis
    by (simp add: download_round_def q Let_def split: option.split sum.split prod.split)
qed

lemma download_R:
  assumes "Download (Some ctx) (Some (no_request N)) En k path l timeout r fs = Some (r1, fs1, e)"
  shows "R r r1"
proof -
  have loop: "R r (dn_remote (fst x))"
    if "go_loop (download_round (no_request N) ctx En k path part timeout) s = Some x" "dn_remote s = r" for part s x
  proof (rule go_loop_partial [OF that(1), where I = "\<lambda>s. R r (dn_remote s)" and Q = "\<lambda>x. R r (dn_remote (fst x))"])
    show "R r (dn_remote s)" using that(2) by simp
    fix t y assume "R r (dn_remote t)" "download_round (no_request N) ctx En k path part timeout t = Inl y"
    with download_round_R [of r t ctx En k path part timeout] show "R r (dn_remote (fst y))" by (auto split: prod.splits)
  next
    fix t t' assume "R r (dn_remote t)" "download_round (no_request N) ctx En k path part timeout t = Inr t'"
    with download_round_R [of r t ctx En k path part timeout] show "R r (dn_remote t')" by simp
  qed
  from assms show ?thesis
    by (auto simp: Download_def dest!: loop split: option.splits sum.splits prod.splits)
qed

lemma chunk_R: "sendUploadChunk (no_request N) ce k pl timeout r = (r1, e) \<Longrightarrow> R r r1"
  by (auto simp: sendUploadChunk_def dest!: request split: option.splits prod.splits sum.splits if_splits)

lemma upload_round_R:
  assumes "R r (up_remote s)"
  shows "case upload_round (no_request N) ctx En k path p timeout uuid tot now s of
    Inl (s1, e) \<Rightarrow> R r (up_remote s1) | Inr s1 \<Rightarrow> R r (up_remote s1)"
proof -
  have c: "R r r1" if "sendUploadChunk (no_request N) ce k pl timeout (up_remote s) = (r1, e)" for ce pl r1 e
    by (rule trans [OF assms chunk_R [OF that]])
  show ?thesis
    using assms by (auto simp: upload_round_def Let_def dest: c split: option.split sum.split prod.split oserr.split)
qed

lemma upload_R:
  assumes "Upload (Some ctx) (Some (no_request N)) En uuid now k l path timeout r fs = Some (r1, e)"
  shows "R r r1"
proof -
  have loop: "R r (up_remote (fst x))"
    if "go_loop (upload_round (no_request N) ctx En k path p timeout uuid tot nw) s = Some x" "up_remote s = r" for p tot nw s x
  proof (rule go_loop_partial [OF that(1), where I = "\<lambda>s. R r (up_remote s)" and Q = "\<lambda>x. R r (up_remote (fst x))"])
    show "R r (up_remote s)" using that(2) by simp
    fix t y assume "R r (up_remote t)" "upload_round (no_request N) ctx En k path p timeout uuid tot nw t = Inl y"
    with upload_round_R [of r t ctx En k path p timeout uuid tot nw] show "R r (up_remote (fst y))" by (auto split: prod.splits)
  next
    fix t t' assume "R r (up_remote t)" "upload_round (no_request N) ctx En k path p timeout uuid tot nw t = Inr t'"
    with upload_round_R [of r t ctx En k path p timeout uuid tot nw] show "R r (up_remote t')" by simp
  qed
  have cancel: "R r (upload_cancel (no_request N) k path uuid timeout sent err r2)" if "R r r2" for sent err r2
  proof -
    let ?p = "encode_cancel_file \<lparr>cf_path = path, cf_transfer_id = uuid\<rparr>"
    obtain r3 y e where q: "no_request N r2 k cancelFileMessage ?p timeout = (r3, y, e)" by (rule prod_cases3)
    show ?thesis using that trans [OF that request [OF q]] by (simp add: upload_cancel_def q)
  qed
  from assms show ?thesis
    by (auto simp: Upload_def dest!: loop intro: cancel split: option.splits sum.splits prod.splits)
qed

end

section \<open>Every binding\<close>

context net_calls
begin

text \<open>The network after a function on it, on the sessions or on the log.\<close>

lemma nets:
  "on_net (\<lambda>r. no_connect N r host port options) a = (a1, x) \<Longrightarrow> R (ap_net a) (ap_net a1)"
  "on_net (\<lambda>r. no_disconnect N r k) a = (a1, e) \<Longrightarrow> R (ap_net a) (ap_net a1)"
  "on_net (requestCommandResult N k c d) a = (a1, y1) \<Longrightarrow> R (ap_net a) (ap_net a1)"
  "on_net (requestSystemInfo N k) a = (a1, y2) \<Longrightarrow> R (ap_net a) (ap_net a1)"
  "on_net (send_parse N decode k t p timeout) a = (a1, y3) \<Longrightarrow> R (ap_net a) (ap_net a1)"
  "on_net (listDirPages N k path) a = (a1, y4) \<Longrightarrow> R (ap_net a) (ap_net a1)"
  "on_net (ExecuteScript T script vars (Some (script_executor N k))) a = (a1, y5) \<Longrightarrow> R (ap_net a) (ap_net a1)"
  by (auto simp: on_net_def dest: connect disconnect command_R info_R parse_R list_R script_R split: prod.splits)

lemma on_sessions_keeps: "on_sessions f a = (a1, x) \<Longrightarrow> ap_net a1 = ap_net a"
  by (auto simp: on_sessions_def split: prod.splits)

lemma app_log_keeps [simp]: "ap_net (app_log V act k u d s a) = ap_net a"
  by (simp add: app_log_def)

lemma begin_keeps: "beginTransfer a = (a1, e) \<Longrightarrow> ap_net a1 = ap_net a \<and> ap_fs a1 = ap_fs a"
  by (auto simp: beginTransfer_def split: if_splits)

lemma end_keeps [simp]: "ap_net (endTransfer a) = ap_net a"
  by (simp add: endTransfer_def)

lemma connect_call_R: "R (ap_net a) (ap_net (fst (connectAgentWithOptions N V host port options a)))"
  by (auto simp: connectAgentWithOptions_def dest: nets split: option.split prod.split sum.split)

lemma reconnect_R: "R (ap_net a) (ap_net (fst (ReconnectSession N V i a)))"
  by (auto simp: ReconnectSession_def Let_def dest!: nets on_sessions_keeps split: option.split prod.split sum.split)

lemma requests_R:
  "R (ap_net a) (ap_net (fst (DisconnectAgent N V k a)))"
  "R (ap_net a) (ap_net (fst (ExecCommand N V k c t a)))"
  "R (ap_net a) (ap_net (fst (ListDirApp N V k path a)))"
  "R (ap_net a) (ap_net (fst (GetSystemInfoApp N V k a)))"
  "R (ap_net a) (ap_net (fst (RequestScreenshot N V k a)))"
  "R (ap_net a) (ap_net (fst (RunScript N V k name content a)))"
  by (auto simp: DisconnectAgent_def ExecCommand_def ListDirApp_def GetSystemInfoApp_def RequestScreenshot_def RunScript_def
      dest: nets split: option.split prod.split sum.split)

lemma exec_multi_R: "R (ap_net a) (ap_net (fst (ExecCommandMulti N V order ids c t a)))"
  by (auto simp: ExecCommandMulti_def dest: multi_R split: prod.split)

lemma local_calls:
  "ap_net (fst (saveSessionWithOptions V host port name options a)) = ap_net a"
  "ap_net (fst (DeleteSession V i a)) = ap_net a" "ap_net (fst (WakeOnLAN V mac ip a)) = ap_net a"
  "ap_net (fst (SaveScriptApp V name content a)) = ap_net a"
  by (auto simp: saveSessionWithOptions_def DeleteSession_def WakeOnLAN_def SaveScriptApp_def Let_def dest: on_sessions_keeps
      split: option.split prod.split sum.split)

lemma transfers_R:
  "TransferFile N V k remotePath localPath a = Some (a1, e) \<Longrightarrow> R (ap_net a) (ap_net a1)"
  "UploadFileFromPath N V k localPath remotePath a = Some (a1, e) \<Longrightarrow> R (ap_net a) (ap_net a1)"
  by (auto simp: TransferFile_def run_download_def UploadFileFromPath_def run_upload_def dest!: begin_keeps dest: download_R upload_R split: option.splits prod.splits)

lemma dialogs_R:
  "DownloadFile N V ch k remotePath a = Some (a1, e) \<Longrightarrow> R (ap_net a) (ap_net a1)"
  "UploadFile N V ch k directory a = Some (a1, e) \<Longrightarrow> R (ap_net a) (ap_net a1)"
  by (auto simp: DownloadFile_def UploadFile_def intro: transfers_R split: if_splits sum.splits)

lemma sessions_R: "R (ap_net a) (ap_net (fst (GetSessions V a)))"
  by (auto simp: GetSessions_def dest!: on_sessions_keeps split: prod.split sum.split)

lemma local_R:
  "R (ap_net a) (ap_net (fst (saveSessionWithOptions V host port name options a)))"
  "R (ap_net a) (ap_net (fst (DeleteSession V i a)))" "R (ap_net a) (ap_net (fst (WakeOnLAN V mac ip a)))"
  "R (ap_net a) (ap_net (fst (SaveScriptApp V script content a)))"
  by (simp_all add: local_calls)

lemma pair_R: "Some (map_prod id f x) = Some (a1, failed) \<Longrightarrow> R (ap_net a) (ap_net (fst x)) \<Longrightarrow> R (ap_net a) (ap_net a1)"
  by (cases x) simp

lemma opt_R:
  "map_option (map_prod id (\<lambda>e. e \<noteq> None)) x = Some (a1, failed) \<Longrightarrow> (\<And>a2 e. x = Some (a2, e) \<Longrightarrow> R (ap_net a) (ap_net a2))
     \<Longrightarrow> R (ap_net a) (ap_net a1)"
  by (cases x) auto

lemmas calls_R = connect_call_R reconnect_R requests_R exec_multi_R local_R sessions_R

lemma binding_R:
  assumes "perform N V call a = Some (a1, failed)"
  shows "R (ap_net a) (ap_net a1)"
  by (insert assms, cases call;
      simp only: perform.simps ConnectAgent_def ConnectAgentSecure_def SaveSessionPlain_def SaveSessionSecure_def)
    ((erule pair_R, rule calls_R) | (erule opt_R, erule transfers_R dialogs_R) | (erule pair_R, simp))+

section \<open>The goroutines of the application\<close>

lemma populate_R: "R (ap_net a) (ap_net (populate N V k a))"
  by (auto simp: populate_def dest: nets split: prod.split sum.split)

lemma restore_each_R: "R (ap_net a) (ap_net (restore_each N V ss a))"
proof (induction ss arbitrary: a)
  case (Cons s ss)
  obtain a1 x where q: "on_net (\<lambda>r. no_connect N r (ss_host s) (ss_port s) (session_options s)) a = (a1, x)" by force
  note 1 = nets(1) [OF q]
  show ?case
  proof (cases x)
    case (Inl err)
    with q trans [OF 1 Cons.IH [of a1]] show ?thesis by simp
  next
    case (Inr k)
    let ?a2 = "fst (on_sessions (UpdateLastConnected (ae_db V) (ae_now V) (ss_id s)) a1)"
    have "R (ap_net a) (ap_net (populate N V k ?a2))" using trans [OF 1, of "ap_net (populate N V k ?a2)"] populate_R [of ?a2 V k] by simp
    from trans [OF this Cons.IH] q Inr show ?thesis by simp
  qed
qed simp

lemma restore_R: "R (ap_net a) (ap_net (restore_sessions N V a))"
proof -
  obtain a1 x where q: "on_sessions (LoadAll (ae_db V)) a = (a1, x)" by force
  with restore_each_R [of a1 V] on_sessions_keeps [OF q] show ?thesis
    by (auto simp: restore_sessions_def split: sum.split)
qed

lemma found_R: "R (ap_net a) (ap_net (onAgentDiscovered N V d a))"
proof -
  have s: "savedOptionsFor V h p b = (b1, o1) \<Longrightarrow> ap_net b1 = ap_net b" for h p b b1 o1
    by (auto simp: savedOptionsFor_def dest: on_sessions_keeps split: prod.splits sum.splits option.splits)
  show ?thesis by (auto simp: onAgentDiscovered_def Let_def dest!: nets s split: prod.split sum.split)
qed

lemma message_R: "ap_net (onAgentMessage V k msg a) = ap_net a"
  by (simp add: onAgentMessage_def)

lemma finish_R: "shutdown_finish N V a = Some a1 \<Longrightarrow> R (ap_net a) (ap_net a1)"
  by (auto simp: shutdown_finish_def close split: option.splits)

end

end
