(* ===== verification/EndToEnd.thy ===== *)
theory EndToEnd
  imports AppManager
begin

text \<open>
  The whole chain: the user's calls of the application, the client manager, the connection, the agent's handlers
  and its disk. A session starts with a connection and ends with a disconnection.
\<close>

section \<open>Before the connection\<close>

text \<open>
  The manager is at rest and has no connection to the agent's endpoint yet, the endpoint is one the application
  accepts, and the token is the agent's, or the agent needs none.
\<close>

definition site_ready :: "site \<Rightarrow> string \<Rightarrow> (nat \<times> HState) link \<Rightarrow> bool" where
  "site_ready S token r \<longleftrightarrow> at_rest (lk_mgr r) \<and> endpoint_free (st_host S) (st_port S) (lk_mgr r)
     \<and> port_err (st_host S) (st_port S) = None \<and> (sv_token (st_server S) = [] \<or> token = sv_token (st_server S))"

text \<open>The agent as a client on an authenticated connection would find it.\<close>

definition seen_by :: "Client \<Rightarrow> (nat \<times> HState) link \<Rightarrow> HState" where
  "seen_by c r = (snd (lk_peer r))\<lparr>hs_client := c\<rparr>"

lemma seen_quiet:
  "connected (st_world S) (seen_by c r) \<Longrightarrow> quiet_server (st_world S) (server_at S r)"
  by (simp add: connected_def seen_by_def quiet_server_def server_at_def put_shared_def)

lemma agent_receives_log:
  assumes "agent_receives w path uuid content 0 st" "same_except (log_paths (hs_log st)) (hs_fs st) (hs_fs st1)" "connected w st1"
    "log_paths (hs_log st1) = log_paths (hs_log st)"
  shows "agent_receives w path uuid content 0 st1"
proof -
  obtain p where p: "safePath (w_os w) path = Inr p" "upload_site (hs_fs st) p (upload_temp p uuid)"
      "{p, DirOf p, upload_temp p uuid, upload_meta (upload_temp p uuid)} \<inter> log_paths (hs_log st) = {}"
    using assms(1) by (auto simp: agent_receives_def)
  have same: "fmlookup (hs_fs st1) q = fmlookup (hs_fs st) q"
    if "q \<in> {p, DirOf p, upload_temp p uuid, upload_meta (upload_temp p uuid)}" for q
    using same_exceptD [OF assms(2)] p(3) that by blast
  have "upload_site (hs_fs st1) p (upload_temp p uuid)"
    using p(2) by (simp add: upload_site_def upload_place_def content_at_def same)
  with assms(1,3,4) p(1,3) show ?thesis by (auto simp: agent_receives_def)
qed

lemma unused_trim: "TrimSpace (unused_name names) \<noteq> []"
  by (simp add: unused_name_def graphic_def)

section \<open>The calls\<close>

lemma connect_call:
  assumes ready: "site_ready S token (ap_net a)" and c: "connected (st_world S) (seen_by c (ap_net a))"
  shows "\<exists>k a1. ConnectAgent (manager_net (agent_peers S)) V (st_host S) (st_port S) token a = (a1, None)
    \<and> k \<noteq> [] \<and> TrimSpace k \<noteq> [] \<and> linked k (ap_net a1) \<and> connected (st_world S) (snd (lk_peer (ap_net a1)))
    \<and> same_except (log_paths (hs_log (seen_by c (ap_net a)))) (hs_fs (seen_by c (ap_net a))) (hs_fs (snd (lk_peer (ap_net a1))))
    \<and> log_paths (hs_log (snd (lk_peer (ap_net a1)))) = log_paths (hs_log (seen_by c (ap_net a)))
    \<and> ap_fs a1 = ap_fs a \<and> ap_shuttingDown a1 = ap_shuttingDown a \<and> ap_transferCtx a1 = ap_transferCtx a"
proof -
  let ?k = "pe_uuid (agent_peers S) (lk_mgr (ap_net a))"
  have r: "at_rest (lk_mgr (ap_net a))" "endpoint_free (st_host S) (st_port S) (lk_mgr (ap_net a))"
    "port_err (st_host S) (st_port S) = None" "sv_token (st_server S) = [] \<or> token = sv_token (st_server S)"
    using ready by (simp_all add: site_ready_def)
  from connect_links [OF r(1,2,4) seen_quiet [OF c]] obtain r1 where
    k: "manager_connect (agent_peers S) (ap_net a) (st_host S) (st_port S) (plain_token token) = (r1, Inr ?k)"
      "linked ?k r1" "connected (st_world S) (snd (lk_peer r1))"
      "same_except (log_paths (hs_log (snd (lk_peer (ap_net a))))) (hs_fs (snd (lk_peer (ap_net a)))) (hs_fs (snd (lk_peer r1)))"
      "log_paths (hs_log (snd (lk_peer r1))) = log_paths (hs_log (snd (lk_peer (ap_net a))))" by blast
  obtain a1 where a1: "ConnectAgent (manager_net (agent_peers S)) V (st_host S) (st_port S) token a = (a1, None)"
      "ap_net a1 = r1" "ap_fs a1 = ap_fs a" "ap_shuttingDown a1 = ap_shuttingDown a" "ap_transferCtx a1 = ap_transferCtx a"
    using k(1) r(3)
    by (simp add: ConnectAgent_def connectAgentWithOptions_def plain_token_def on_net_def on_sessions_def app_log_def
        split: prod.splits)
  have "?k \<noteq> []" "TrimSpace ?k \<noteq> []" by (simp_all add: agent_peers_def unused_name unused_trim)
  with a1 k(2-5) show ?thesis unfolding seen_by_def by auto
qed

lemma transfer_ready: "\<not> ap_shuttingDown a \<Longrightarrow> ap_transferCtx a = Some False
    \<Longrightarrow> beginTransfer a = (a\<lparr>ap_transfers := ap_transfers a + 1\<rparr>, None)"
  by (simp add: beginTransfer_def)

lemma TrimSpace_nonempty: "TrimSpace p \<noteq> [] \<Longrightarrow> p \<noteq> []"
  using TrimSpace_graphic [of "[]"] by (auto simp: graphic_def)

lemma upload_call:
  assumes r: "linked k (ap_net a)" "agent_receives (st_world S) remotePath (ae_uuid V) content 0 (snd (lk_peer (ap_net a)))"
    and u: "undisturbed (ae_polls V) (ae_envs V)" "ae_source V = (\<lambda>_ b. b)" and b: "\<not> ap_shuttingDown a" "ap_transferCtx a = Some False"
    and n: "TrimSpace k \<noteq> []" "TrimSpace localPath \<noteq> []" "TrimSpace remotePath \<noteq> []"
    and f: "fmlookup (ap_fs a) (os_path (ae_envs V 0) localPath) = Some (File content)"
  shows "\<exists>a1. UploadFileFromPath (manager_net (agent_peers S)) V k localPath remotePath a = Some (a1, None)
    \<and> linked k (ap_net a1) \<and> agent_serves (st_world S) remotePath content (snd (lk_peer (ap_net a1)))
    \<and> ap_fs a1 = ap_fs a \<and> ap_shuttingDown a1 = ap_shuttingDown a \<and> ap_transferCtx a1 = ap_transferCtx a"
proof -
  have args: "upload_args k localPath remotePath = None"
    using n [THEN TrimSpace_nonempty] by (simp add: upload_args_def)
  from managed_files.upload_delivers [OF conjI [OF r] u(1) n f] obtain r1 where
    "Upload (Some (ae_polls V)) (Some (manager_request (agent_peers S))) (ae_envs V) (ae_uuid V) (\<lambda>_ b. b) k localPath remotePath
      defaultTimeout (ap_net a) (ap_fs a) = Some (r1, None)"
    "linked k r1" "agent_serves (st_world S) remotePath content (snd (lk_peer r1))" by blast
  then show ?thesis
    by (simp add: UploadFileFromPath_def run_upload_def args transfer_ready [OF b] u(2) app_log_def endTransfer_def)
qed

lemma download_call:
  assumes r: "linked k (ap_net a)" "agent_serves (st_world S) remotePath content (snd (lk_peer (ap_net a)))"
    and u: "undisturbed (ae_polls V) (ae_envs V)" and b: "\<not> ap_shuttingDown a" "ap_transferCtx a = Some False"
    and n: "TrimSpace k \<noteq> []" "TrimSpace localPath \<noteq> []" "TrimSpace remotePath \<noteq> []"
    and t: "AbsPath (cwd (ae_envs V 0)) localPath = Inr dest" "fmlookup (ap_fs a) (DirOf dest) = Some Dir"
      "fmlookup (ap_fs a) dest \<noteq> Some Dir"
      "create_temp (ae_envs V 0) (ap_fs a) (DirOf dest) ''.lan-commander-download-'' '''' = (fs1, Inr part)"
  shows "\<exists>a1. TransferFile (manager_net (agent_peers S)) V k remotePath localPath a = Some (a1, None)
    \<and> linked k (ap_net a1) \<and> fmlookup (ap_fs a1) dest = Some (File content)"
proof -
  have args: "transfer_args k remotePath localPath = None"
    using n [THEN TrimSpace_nonempty] by (simp add: transfer_args_def)
  from managed_files.download_fetches [OF conjI [OF r] u n t] obtain r1 fs2 where
    "Download (Some (ae_polls V)) (Some (manager_request (agent_peers S))) (ae_envs V) k remotePath localPath
      defaultTimeout (ap_net a) (ap_fs a) = Some (r1, fs2, None)" "fmlookup fs2 dest = Some (File content)" "linked k r1" by blast
  then show ?thesis
    by (simp add: TransferFile_def run_download_def args transfer_ready [OF b] app_log_def endTransfer_def)
qed

lemma list_call:
  assumes "linked k (ap_net a)" "agent_lists (st_world S) path items (snd (lk_peer (ap_net a)))" "k \<noteq> []" "path \<noteq> []"
  shows "\<exists>a1 m. ListDirApp (manager_net (agent_peers S)) V k path a = (a1, Inr m)
     \<and> dc_entries m = take 5000 items \<and> dc_total m = int (length items) \<and> dc_has_more m = (5000 < length items)
     \<and> linked k (ap_net a1)"
proof -
  have N: "manager_net (agent_peers S)\<lparr>no_request := manager_request (agent_peers S)\<rparr> = manager_net (agent_peers S)"
    by (simp add: manager_net_def shared_net_def manager_request_def)
  from managed_pages.pages_complete [where N = "manager_net (agent_peers S)", OF conjI [OF assms(1,2)]] obtain r m where
    "listDirPages (manager_net (agent_peers S)) k path (ap_net a) = (r, Inr m)" "linked k r" "dc_entries m = take 5000 items"
    "dc_total m = int (length items)" "dc_has_more m = (5000 < length items)"
    unfolding N by blast
  with assms(3,4) show ?thesis by (simp add: ListDirApp_def on_net_def app_log_def)
qed

section \<open>The properties\<close>

text \<open>(C1) A file makes the whole way and back. The user connects the application to an agent with the agent's token,
  uploads a local file and downloads it again: through the application, the client manager with its
  handshake, identifiers, waiting requests and read pump, and the handlers of the agent, every call ends without an error,
  and the downloaded file has exactly the bytes of the first one.\<close>

theorem file_end_to_end:
  assumes "site_ready S token (ap_net a)" "agent_receives (st_world S) remotePath (ae_uuid V) content 0 (seen_by c (ap_net a))"
    and "undisturbed (ae_polls V) (ae_envs V)" "ae_source V = (\<lambda>_ b. b)" "\<not> ap_shuttingDown a" "ap_transferCtx a = Some False"
    and "TrimSpace localPath \<noteq> []" "TrimSpace remotePath \<noteq> []" "TrimSpace copyPath \<noteq> []"
    and "fmlookup (ap_fs a) (os_path (ae_envs V 0) localPath) = Some (File content)"
    and "AbsPath (cwd (ae_envs V 0)) copyPath = Inr dest" "fmlookup (ap_fs a) (DirOf dest) = Some Dir" "fmlookup (ap_fs a) dest \<noteq> Some Dir"
    and "create_temp (ae_envs V 0) (ap_fs a) (DirOf dest) ''.lan-commander-download-'' '''' = (fs1, Inr part)"
  defines "N \<equiv> manager_net (agent_peers S)"
  shows "\<exists>k a1 a2 a3. ConnectAgent N V (st_host S) (st_port S) token a = (a1, None)
     \<and> UploadFileFromPath N V k localPath remotePath a1 = Some (a2, None)
     \<and> TransferFile N V k remotePath copyPath a2 = Some (a3, None)
     \<and> fmlookup (ap_fs a3) dest = Some (File content)"
proof -
  have "connected (st_world S) (seen_by c (ap_net a))" using assms(2) by (simp add: agent_receives_def)
  from connect_call [OF assms(1) this, of V] obtain k a1 where
    k: "ConnectAgent N V (st_host S) (st_port S) token a = (a1, None)" "TrimSpace k \<noteq> []" "linked k (ap_net a1)"
      "connected (st_world S) (snd (lk_peer (ap_net a1)))"
      "same_except (log_paths (hs_log (seen_by c (ap_net a)))) (hs_fs (seen_by c (ap_net a))) (hs_fs (snd (lk_peer (ap_net a1))))"
      "log_paths (hs_log (snd (lk_peer (ap_net a1)))) = log_paths (hs_log (seen_by c (ap_net a)))"
      "ap_fs a1 = ap_fs a" "ap_shuttingDown a1 = ap_shuttingDown a" "ap_transferCtx a1 = ap_transferCtx a"
    unfolding N_def by blast
  note rec = agent_receives_log [OF assms(2) k(5,4,6)]
  from upload_call [OF k(3) rec assms(3,4) _ _ k(2) assms(7,8)] assms(5,6,10) k(7-9) obtain a2 where
    a2: "UploadFileFromPath N V k localPath remotePath a1 = Some (a2, None)" "linked k (ap_net a2)"
      "agent_serves (st_world S) remotePath content (snd (lk_peer (ap_net a2)))"
      "ap_fs a2 = ap_fs a" "ap_shuttingDown a2 = ap_shuttingDown a" "ap_transferCtx a2 = ap_transferCtx a"
    unfolding N_def by auto
  from download_call [OF a2(2,3) assms(3) _ _ k(2) assms(9,8,11)] assms(5,6,12-14) a2(4-6) obtain a3 where
    "TransferFile N V k remotePath copyPath a2 = Some (a3, None)" "fmlookup (ap_fs a3) dest = Some (File content)"
    unfolding N_def by auto
  with k(1) a2(1) show ?thesis by blast
qed

text \<open>(C17) A directory listing is complete over the whole chain: after the user has connected the application to an agent
  with the agent's token, \<^verbatim>\<open>ListDir\<close> returns, page by page through the manager, the first 5000 entries of
  the agent's directory in the agent's order, its true size as the total, and says whether entries are missing.\<close>

theorem listing_end_to_end:
  assumes "site_ready S token (ap_net a)" "agent_lists (st_world S) path items (seen_by c (ap_net a))" "path \<noteq> []"
  defines "N \<equiv> manager_net (agent_peers S)"
  shows "\<exists>k a1 a2 m. ConnectAgent N V (st_host S) (st_port S) token a = (a1, None) \<and> ListDirApp N V k path a1 = (a2, Inr m)
     \<and> dc_entries m = take 5000 items \<and> dc_total m = int (length items) \<and> dc_has_more m = (5000 < length items)"
proof -
  have "connected (st_world S) (seen_by c (ap_net a))" using assms(2) by (simp add: agent_lists_def)
  from connect_call [OF assms(1) this, of V] obtain k a1 where
    k: "ConnectAgent N V (st_host S) (st_port S) token a = (a1, None)" "k \<noteq> []" "linked k (ap_net a1)"
      "connected (st_world S) (snd (lk_peer (ap_net a1)))"
      "same_except (log_paths (hs_log (seen_by c (ap_net a)))) (hs_fs (seen_by c (ap_net a))) (hs_fs (snd (lk_peer (ap_net a1))))"
      "log_paths (hs_log (snd (lk_peer (ap_net a1)))) = log_paths (hs_log (seen_by c (ap_net a)))"
    unfolding N_def by blast
  note l = agent_lists_log [OF assms(2) k(5,4,6)]
  from list_call [OF k(3) l k(2) assms(3), of V] k(1) show ?thesis unfolding N_def by blast
qed

section \<open>A concrete session\<close>

text \<open>An agent that asks for the token, and an application that has just started.\<close>

definition demo_site :: site where
  "demo_site = \<lparr>st_world = demo_world, st_server = NewServer ''secret'' demo_fs None, st_host = ''10.0.0.9'', st_port = 9473,
     st_uuid = ''c1'', st_remote = ''10.0.0.2:5000'', st_local = quiet, st_files = fmempty\<rparr>"

definition demo_start :: "(nat \<times> HState) link App" where
  "demo_start = (lab_app \<lparr>lk_mgr = NewManager, lk_peer = (0, demo_agent)\<rparr>)\<lparr>ap_fs := demo_fs\<rparr>"

definition demo_env :: "unit appenv" where
  "demo_env = lab_env\<lparr>ae_uuid := ''t1''\<rparr>"

lemma demo_start_simps [simp]:
  "ap_net demo_start = \<lparr>lk_mgr = NewManager, lk_peer = (0, demo_agent)\<rparr>" "ap_fs demo_start = demo_fs"
  "\<not> ap_shuttingDown demo_start" "ap_transferCtx demo_start = Some False"
  "seen_by demo_client \<lparr>lk_mgr = m, lk_peer = (g, demo_agent)\<rparr> = demo_agent"
  by (simp_all add: demo_start_def lab_app_def seen_by_def demo_agent_def)

lemma demo_ready: "site_ready demo_site ''secret'' (ap_net demo_start)"
  by (simp add: site_ready_def at_rest_def NewManager_def [THEN arg_cong, of mg_pending] NewManager_def [THEN arg_cong, of mg_cancelled]
      endpoint_free_def ListAgents_def NewManager_def [THEN arg_cong, of mg_agents] port_err_def demo_site_def NewServer_def)

lemma file_end_to_end_witness:
  "\<exists>k a1 a2 a3. ConnectAgent (manager_net (agent_peers demo_site)) demo_env ''10.0.0.9'' 9473 ''secret'' demo_start = (a1, None)
     \<and> UploadFileFromPath (manager_net (agent_peers demo_site)) demo_env k ''/d/f'' ''/d/g'' a1 = Some (a2, None)
     \<and> TransferFile (manager_net (agent_peers demo_site)) demo_env k ''/d/g'' ''/d/h'' a2 = Some (a3, None)
     \<and> fmlookup (ap_fs a3) ''/d/h'' = Some (File ''hello'')"
proof -
  have w: "st_world demo_site = demo_world" "st_host demo_site = ''10.0.0.9''" "st_port demo_site = 9473" by (simp_all add: demo_site_def)
  have e: "ae_uuid demo_env = ''t1''" "ae_envs demo_env = quiet_rounds" "ae_polls demo_env = no_cancel" "ae_source demo_env = (\<lambda>_ b. b)"
    by (simp_all add: demo_env_def lab_env_def)
  have r: "agent_receives (st_world demo_site) ''/d/g'' (ae_uuid demo_env) ''hello'' 0 (seen_by demo_client (ap_net demo_start))"
    using demo_receives by (simp add: w e)
  have u: "undisturbed (ae_polls demo_env) (ae_envs demo_env)" by (simp add: e)
  have t: "create_temp (ae_envs demo_env 0) (ap_fs demo_start) (DirOf ''/d/h'') ''.lan-commander-download-'' ''''
      = (fmupd ''/d/.lan-commander-download-1'' (File []) demo_fs, Inr ''/d/.lan-commander-download-1'')"
    using demo_temp by (simp add: e)
  from file_end_to_end [OF demo_ready r u e(4) _ _ _ _ _ _ _ _ _ t, of "''/d/f''" "''/d/h''"]
  show ?thesis unfolding w by (simp add: e demo_local)
qed

lemma listing_end_to_end_witness:
  "\<exists>k a1 a2 m. ConnectAgent (manager_net (agent_peers demo_site)) demo_env ''10.0.0.9'' 9473 ''secret'' demo_start = (a1, None)
     \<and> ListDirApp (manager_net (agent_peers demo_site)) demo_env k ''/d'' a1 = (a2, Inr m)
     \<and> map de_name (dc_entries m) = [''f''] \<and> dc_total m = 1"
proof -
  have w: "st_world demo_site = demo_world" "st_host demo_site = ''10.0.0.9''" "st_port demo_site = 9473" by (simp_all add: demo_site_def)
  have l: "agent_lists (st_world demo_site) ''/d'' demo_items (seen_by demo_client (ap_net demo_start))"
    using demo_lists by (simp add: w)
  from listing_end_to_end [OF demo_ready l, of demo_env] obtain k a1 a2 m where
    "ConnectAgent (manager_net (agent_peers demo_site)) demo_env ''10.0.0.9'' 9473 ''secret'' demo_start = (a1, None)"
    "ListDirApp (manager_net (agent_peers demo_site)) demo_env k ''/d'' a1 = (a2, Inr m)"
    "dc_entries m = take 5000 demo_items" "dc_total m = int (length demo_items)" unfolding w by auto
  then show ?thesis by (intro exI [of _ k] exI [of _ a1] exI [of _ a2] exI [of _ m]) (simp add: demo_items_def)
qed

section \<open>What the user sees of the connections\<close>

text \<open>After a disconnection the list has the same agents without that one.\<close>

lemma disconnect_list:
  assumes P: "well_named P" and ok: "mgr_ok (lk_mgr (ap_net a))" and d: "DisconnectAgent (manager_net P) V k a = (a2, None)"
  shows "mgr_ok (lk_mgr (ap_net a2)) \<and> GetAgent k (lk_mgr (ap_net a2)) = None
    \<and> set (GetAgents (manager_net P) a2) = {x \<in> set (GetAgents (manager_net P) a). ag_ID x \<noteq> k}"
proof -
  note C = manager_contract [OF P]
  note d2 = agent_manager.disconnect_drops [OF C ok d]
  have ok2: "mgr_ok (lk_mgr (ap_net a2))" using d2 by simp
  have g: "GetAgent j (lk_mgr (ap_net a2)) = (if j = k then None else GetAgent j (lk_mgr (ap_net a)))" for j
    using fun_cong [OF conjunct2 [OF d2], of j] by simp
  have id: "ag_ID x = j" if "GetAgent j (lk_mgr (ap_net a)) = Some x" for j x
    using agent_manager.named [OF C ok, of j x] that by simp
  have "{x. \<exists>j. GetAgent j (lk_mgr (ap_net a2)) = Some x} = {x. (\<exists>j. GetAgent j (lk_mgr (ap_net a)) = Some x) \<and> ag_ID x \<noteq> k}"
    using id by (auto simp: g)
  then have "set (GetAgents (manager_net P) a2) = {x \<in> set (GetAgents (manager_net P) a). ag_ID x \<noteq> k}"
    using agent_manager.agents_listed [OF C ok] agent_manager.agents_listed [OF C ok2] by auto
  with ok2 g show ?thesis by simp
qed



end
