(* ===== verification/CCMain.thy ===== *)
theory CCMain
  imports AppNet EndToEnd
begin

text \<open>
  The control center's main program (\<^verbatim>\<open>control-center/main.go\<close>): the window it opens and the life of the application
  in it, from the start over what the user, the agents and the discovery cause, to the shutdown. The window itself is
  third-party; what it calls is here.
\<close>

section \<open>The window\<close>

record windowOptions =
  wo_Title :: string
  wo_Width :: nat
  wo_Height :: nat
  wo_MinWidth :: nat
  wo_MinHeight :: nat
  wo_Background :: "nat \<times> nat \<times> nat \<times> nat"

definition main_options :: windowOptions where
  "main_options = \<lparr>wo_Title = ''LAN Commander'', wo_Width = 1280, wo_Height = 800, wo_MinWidth = 900, wo_MinHeight = 600,
     wo_Background = (15, 23, 42, 255)\<rparr>"

section \<open>The life of the application\<close>

text \<open>
  What may happen while the window is open, each with the machine as it is then. \<open>Meanwhile\<close> is any run of the manager's
  own goroutines: frames that arrive, failing reads, heartbeats, reconnections, other calls.
\<close>

datatype 'r activity = ByUser binding | Found AgentDiscovered | Received string Message | Restoring | Closing
  | Meanwhile "'r \<Rightarrow> 'r"

fun act :: "'r netops \<Rightarrow> 't appenv \<Rightarrow> 'r activity \<Rightarrow> 'r App \<Rightarrow> 'r App option" where
  "act N V (ByUser call) a = map_option fst (perform N V call a)"
| "act N V (Found d) a = Some (onAgentDiscovered N V d a)"
| "act N V (Received k msg) a = Some (onAgentMessage V k msg a)"
| "act N V Restoring a = Some (restore_sessions N V a)"
| "act N V Closing a = shutdown_finish N V (shutdown_begin a)"
| "act N V (Meanwhile f) a = Some (a\<lparr>ap_net := f (ap_net a)\<rparr>)"

fun run_acts :: "'r netops \<Rightarrow> ('t appenv \<times> 'r activity) list \<Rightarrow> 'r App \<Rightarrow> 'r App option" where
  "run_acts N [] a = Some a"
| "run_acts N ((V, x) # xs) a = Option.bind (act N V x a) (run_acts N xs)"

text \<open>The window calls \<^verbatim>\<open>startup\<close> first and \<^verbatim>\<open>shutdown\<close> last.\<close>

definition cc_main :: "'r netops \<Rightarrow> 't appenv \<Rightarrow> start_env \<Rightarrow> 'r \<Rightarrow> fsys \<Rightarrow> ('t appenv \<times> 'r activity) list \<Rightarrow> 't appenv \<Rightarrow> 'r App option" where
  "cc_main N V S r fs acts V' = run_acts N (acts @ [(V', Closing)]) (startup V S r fs)"

lemma run_acts_append: "run_acts N (xs @ ys) a = Option.bind (run_acts N xs a) (run_acts N ys)"
  by (induction xs arbitrary: a) (auto split: Option.bind_splits)

lemma startup_net [simp]: "ap_net (startup V S r fs) = r"
  by (simp add: startup_def Let_def split: prod.split)

context net_calls
begin

text \<open>What happens meanwhile is to keep to the relation too.\<close>

lemma act_R:
  assumes a: "act N V x a = Some a1" and f: "\<And>f. x = Meanwhile f \<Longrightarrow> R (ap_net a) (f (ap_net a))"
  shows "R (ap_net a) (ap_net a1)"
proof (cases x)
  case (ByUser call)
  with a show ?thesis by (auto dest: binding_R)
next
  case Closing
  with a show ?thesis using finish_R [of V "shutdown_begin a" a1] by (simp add: shutdown_begin_def)
next
  case (Meanwhile f)
  with a show ?thesis using assms(2) by auto
qed (use a found_R restore_R in \<open>auto simp: message_R\<close>)

lemma run_acts_R:
  assumes "\<And>f r. Meanwhile f \<in> snd ` set xs \<Longrightarrow> R r (f r)"
  shows "run_acts N xs a = Some a1 \<Longrightarrow> R (ap_net a) (ap_net a1)"
  using assms
proof (induction xs arbitrary: a)
  case (Cons y xs)
  obtain V x where y: "y = (V, x)" by force
  with Cons.prems(1) obtain a2 where a2: "act N V x a = Some a2" "run_acts N xs a2 = Some a1" by (auto simp: bind_eq_Some_conv)
  have "R (ap_net a) (ap_net a2)" by (rule act_R [OF a2(1)]) (use Cons.prems(2) y in simp)
  moreover have "R (ap_net a2) (ap_net a1)" by (rule Cons.IH [OF a2(2)]) (use Cons.prems(2) in simp)
  ultimately show ?case by (rule trans)
qed simp

end

section \<open>On the client manager\<close>

text \<open>From a state its steps keep, the manager has only made steps of its own.\<close>

definition mgr_runs :: "'h link \<Rightarrow> 'h link \<Rightarrow> bool" where
  "mgr_runs r r1 \<longleftrightarrow> (mgr_ok (lk_mgr r) \<longrightarrow> mgr_reach (lk_mgr r) (lk_mgr r1))"

lemma mgr_runs_others: "others_ok f \<Longrightarrow> mgr_runs r (f r)"
  by (simp add: mgr_runs_def others_okD)

lemma shared_calls: "well_named P \<Longrightarrow> others_ok I \<Longrightarrow> net_calls (shared_net I P) mgr_runs"
proof (unfold_locales, goal_cases)
  case (2 r1 r2 r3)
  then show ?case using mgr_ok_reach [of "lk_mgr r1" "lk_mgr r2"] by (auto simp: mgr_runs_def intro: mgr_reach_trans)
next
  case (3 r host port options r1 x)
  then show ?case by (simp add: mgr_runs_def shared_net_def connect_reach)
next
  case (4 r k r1 e)
  then show ?case by (simp add: mgr_runs_def shared_net_def disconnect_reach)
next
  case (5 r k t p timeout r1 y err)
  then show ?case by (simp add: mgr_runs_def shared_net_def request_reach)
next
  case (6 r)
  then show ?case using close_reach(1) [of P I r] by (simp add: mgr_runs_def shared_net_def)
qed (simp add: mgr_runs_def mr_start)

interpretation managed_calls: net_calls "shared_net alone (agent_peers S)" mgr_runs for S
  by (rule shared_calls) simp_all

text \<open>An agent that is gone for good: not listed, and nothing is written to any socket of its connection.\<close>

definition gone :: "string \<Rightarrow> nat \<Rightarrow> ManagerCC \<Rightarrow> ManagerCC \<Rightarrow> bool" where
  "gone k i m m' \<longleftrightarrow> GetAgent k m' = None \<and> sockets i m' = sockets i m
     \<and> (\<forall>g \<in> set (sockets i m). gn_connClosed (gen_of m' g) \<and> written_to g m' = written_to g m)"

lemma gone_after_close:
  assumes P: "well_named P" and I: "others_ok I" and r: "mgr_reach NewManager (lk_mgr r)"
    and k: "fmlookup (mg_agents (lk_mgr r)) k = Some i" and m: "mgr_reach (lk_mgr (shared_close I P r)) m"
  shows "gone k i (lk_mgr (shared_close I P r)) m"
proof -
  let ?m = "lk_mgr (shared_close I P r)"
  have ok: "mgr_ok (lk_mgr r)" by (rule mgr_ok_reach [OF r]) simp
  note c = close_reach [OF P I ok]
  have sup: "superseded_closed (lk_mgr r)" by (rule superseded_reach [OF r]) simp_all
  note s = c(3) [OF k sup]
  note st = silenced_stays [OF advances_reach [OF m] s]
  have id: "i < length (mg_conns (lk_mgr r))" "ag_ID (ac_info (conn_of (lk_mgr r) i)) = k"
    using mgr_okD(9,11) [OF ok k] by simp_all
  have ok1: "mgr_ok ?m" by (rule mgr_ok_reach [OF c(1) ok])
  have id1: "i < length (mg_conns ?m)" "ag_ID (ac_info (conn_of ?m i)) = k"
    using advances_reach [OF c(1)] id by (simp_all add: advances_def keeps_conns_def)
  have "fmlookup (mg_agents m) k = None"
    using left_map(3) [OF advances_reach [OF m] mgr_ok_reach [OF m ok1] id1(1)] c(2) [OF k] id1(2) by simp
  then show ?thesis using st(1-3) by (simp add: gone_def GetAgent_def silenced_def)
qed


text \<open>
  An application that connects to the agent of \<open>demo_site\<close> while, whenever it waits, a heartbeat is sent on the first
  generation once there is one; then a heartbeat finds the window idle, and the window closes.
\<close>

definition ticking :: "'h others" where
  "ticking r = (if mg_gens (lk_mgr r) \<noteq> [] \<and> gn_beating (gen_of (lk_mgr r) 0) then r\<lparr>lk_mgr := heartbeat None 9 0 (lk_mgr r)\<rparr> else r)"

lemma ticking_ok: "others_ok ticking"
  by (rule others_okI) (auto simp: ticking_def mr_start intro!: mgr_reach1 beat)

lemma ticking_connect:
  assumes "mg_gens (lk_mgr r) = []"
  shows "no_connect (shared_net ticking P) r host port options = no_connect (manager_net P) r host port options"
  using assms by (simp add: shared_net_def manager_net_def shared_connect_def ticking_def Let_def split: prod.split)

lemma ticking_call:
  assumes "mg_gens (lk_mgr (ap_net a)) = []"
  shows "ConnectAgent (shared_net ticking P) V host port token a = ConnectAgent (manager_net P) V host port token a"
proof -
  have "on_net (\<lambda>r. no_connect (shared_net ticking P) r host port o1) a = on_net (\<lambda>r. no_connect (manager_net P) r host port o1) a" for o1
    by (simp only: on_net_def ticking_connect [OF assms])
  then show ?thesis unfolding ConnectAgent_def connectAgentWithOptions_def by (simp only:)
qed

lemma discover_simps [simp]:
  "ap_discover (startup V S r fs) = StartDiscovery NewDiscovery"
  "ap_discover (fst (connectAgentWithOptions N V host port options b)) = ap_discover b"
  by (auto simp: startup_def connectAgentWithOptions_def on_net_def on_sessions_def app_log_def Let_def split: prod.split option.split sum.split)


end
