(* ===== verification/Spec2Isabelle.thy ===== *)
theory Spec2Isabelle
  imports AgentProps ProcTree ServerProps TransferProps AgentMain Wol SessionProps ScriptProps CCAudit AgentStatus HandshakeLink
    ClientRecovery DbBackup Discovery AppTransfers AgentRun WireTypes Envelope CCMain
begin

text \<open>
  LAN Commander manages the machines of a local network. Each machine runs the \<^emph>\<open>agent\<close>
  (\<^verbatim>\<open>src/agent\<close>), a server that lists and moves files, runs commands, takes screenshots and reports
  the state of the machine. An administrator runs the \<^emph>\<open>control center\<close>
  (\<^verbatim>\<open>src/control-center\<close>), which finds agents, connects to them and sends requests. The two programs exchange
  JSON messages over a WebSocket. This development models both and proves what makes them correct, each for itself
  and joined.

  \<^bold>\<open>Foundations.\<close> \<^verbatim>\<open>Prelude\<close> holds Go's errors and formatted text, 64-bit integers (as \<open>int\<close>, with the
  wrap-around written out), byte strings and package \<^verbatim>\<open>strings\<close>. \<^verbatim>\<open>GoLib\<close>, \<^verbatim>\<open>GoPath\<close>,
  \<^verbatim>\<open>GoText\<close>, \<^verbatim>\<open>Json\<close> and \<^verbatim>\<open>Sha256\<close> model the standard library as the sources use it:
  decimal numbers, \<^verbatim>\<open>path/filepath\<close> on Unix, UTF-8, \<^verbatim>\<open>encoding/json\<close> with its case-insensitive keys and
  its passage through \<^verbatim>\<open>interface{}\<close>, base64, and the digest itself on 32-bit words. \<^verbatim>\<open>GoLoop\<close> is the loop
  \<^verbatim>\<open>for {}\<close> as a partial function: a loop that does not end has no value. \<^verbatim>\<open>OsModel\<close> is the file
  system, a finite map from clean absolute paths to files and directories; every system call may fail, as the argument
  of type \<open>osenv\<close> says, with partial reads and writes. \<^verbatim>\<open>OsFacts\<close> has the facts components share.

  \<^bold>\<open>The agent.\<close>
  \<^item> \<^verbatim>\<open>Protocol\<close> (\<^verbatim>\<open>internal/protocol/types.go\<close>): messages, payloads, encoding and decoding.
  \<^item> \<^verbatim>\<open>Filesystem\<close> (\<^verbatim>\<open>internal/filesystem/fs.go\<close>): \<open>safePath\<close>, listings, chunks, the atomic upload.
  \<^verbatim>\<open>UploadFacts\<close>, \<^verbatim>\<open>UploadSpec\<close> (the abstract upload it refines) and \<^verbatim>\<open>FileFacts\<close> hold its lemmas.
  \<^item> \<^verbatim>\<open>IPGuard\<close> (\<^verbatim>\<open>internal/server/ipguard.go\<close>): connections and failed authentications per address, with the
  locale \<open>slot_pool\<close> interpreted on the guard; \<^verbatim>\<open>GuardFacts\<close>.
  \<^item> \<^verbatim>\<open>AgentAudit\<close> (\<^verbatim>\<open>internal/audit/audit.go\<close>), \<^verbatim>\<open>Monitor\<close> (\<^verbatim>\<open>internal/system\<close>,
  \<^verbatim>\<open>internal/screenshot\<close>), \<^verbatim>\<open>Executor\<close> (\<^verbatim>\<open>internal/executor\<close>) and \<^verbatim>\<open>ProcTree\<close>
  (its \<^verbatim>\<open>proctree_*.go\<close>): the table of processes of a command, the steps its members make, and what its
  cancelation kills on Unix and on Windows.
  \<^item> \<^verbatim>\<open>AgentHandlers\<close> (\<^verbatim>\<open>internal/server/handlers.go\<close>): dispatch and every handler on the state
  they share; \<^verbatim>\<open>HandlerFacts\<close>.
  \<^item> \<^verbatim>\<open>AgentServer\<close> (\<^verbatim>\<open>internal/server/server.go\<close>): connections as the step relation \<open>serve\<close>, one step being
  what a goroutine does between two points where another may run; \<^verbatim>\<open>ServerFacts\<close> has its invariants.
  \<^item> \<^verbatim>\<open>AgentMain\<close> (\<^verbatim>\<open>cmd/lan-agent/main.go\<close>): flags, where the token comes from, what is refused, start.
  \<^item> \<^verbatim>\<open>AgentListen\<close> (the rest of \<^verbatim>\<open>server.go\<close>: constants, routes, the listener and its layers of TLS,
  shutdown as a sequence of steps of \<open>serve\<close>) and \<^verbatim>\<open>AgentRun\<close> (the rest of \<^verbatim>\<open>main.go\<close>, and
  \<^verbatim>\<open>internal/ui\<close>): what the program does with its arguments, from there to an authenticated connection.
  \<^item> \<^verbatim>\<open>Discovery\<close>, first part (\<^verbatim>\<open>internal/discovery/mdns.go\<close>): the announcement.
  \<^item> \<^verbatim>\<open>AgentProps\<close> and \<^verbatim>\<open>ServerProps\<close> state the properties of these components.

  \<^bold>\<open>The control center.\<close>
  \<^item> \<^verbatim>\<open>FileTransfer\<close> (\<^verbatim>\<open>backend/transfer/transfer.go\<close>): the two transfer loops over any requester;
  \<^verbatim>\<open>TransferFacts\<close>. \<^verbatim>\<open>TransferSpec\<close> states what they need of an agent as the locales
  \<open>chunk_receiver\<close>, \<open>chunk_source\<close> and \<open>file_agent\<close>.
  \<^item> \<^verbatim>\<open>AgentStatus\<close> and \<^verbatim>\<open>AppWire\<close> (\<^verbatim>\<open>backend/protocol/types.go\<close>): what it reads and sends;
  \<^verbatim>\<open>WireTypes\<close>: the numbers of a decoded payload fit the types of its struct. \<^verbatim>\<open>Envelope\<close>: the envelope of
  both programs as JSON, the control center's names of messages and the structs it declares beside those it uses, and
  that each program reads what the other writes.
  \<^item> \<^verbatim>\<open>ClientMgr\<close> (\<^verbatim>\<open>backend/client/client.go\<close>): the connection manager as the step relation
  \<open>mgr_step\<close> over callers, read pumps, heartbeats and reconnecting goroutines. \<^verbatim>\<open>ClientFacts\<close> has its invariant
  \<open>mgr_ok\<close>, \<^verbatim>\<open>ClientHistory\<close> the order \<open>advances\<close> of what no step takes back, \<^verbatim>\<open>ClientProps\<close> and
  \<^verbatim>\<open>ClientRecovery\<close> its properties.
  \<^item> \<^verbatim>\<open>Session\<close> (\<^verbatim>\<open>backend/session\<close>, \<^verbatim>\<open>backend/securestore\<close>): the table of saved sessions, each SQL
  statement a function the driver may make fail; the locale \<open>token_store\<close> is the contract of the two stores.
  \<^verbatim>\<open>SessionFacts\<close>, \<^verbatim>\<open>SessionProps\<close>.
  \<^item> \<^verbatim>\<open>Scripting\<close> (\<^verbatim>\<open>backend/scripting/engine.go\<close>), \<^verbatim>\<open>ScriptFacts\<close>, \<^verbatim>\<open>ScriptProps\<close>;
  \<^verbatim>\<open>CCAudit\<close> (\<^verbatim>\<open>backend/audit\<close>), \<^verbatim>\<open>Wol\<close> (\<^verbatim>\<open>backend/wol\<close>),
  \<^verbatim>\<open>DbBackup\<close> (\<^verbatim>\<open>backend/dbbackup\<close>), \<^verbatim>\<open>Discovery\<close>, second part (\<^verbatim>\<open>backend/discovery\<close>).
  \<^item> \<^verbatim>\<open>App\<close>, \<^verbatim>\<open>AppRequests\<close>, \<^verbatim>\<open>AppScripts\<close> (\<^verbatim>\<open>app.go\<close>): every binding of the
  user interface, the callbacks, start and shutdown. The application calls the client manager through the record
  \<open>netops\<close>. \<^verbatim>\<open>AppRestart\<close> and \<^verbatim>\<open>AppProps\<close> state its properties for any such record.
  \<^verbatim>\<open>AppTransfers\<close> has the transfers under way beside everything else as the step relation \<open>app_step\<close>, and the end of
  their wait at shutdown.
  \<^item> \<^verbatim>\<open>ManagerNet\<close> gives the record whose operations are those of \<^verbatim>\<open>ClientMgr\<close>, each call from start to return on
  any network (record \<open>peers\<close>), while any other goroutines of the manager run between the points of the call (argument of type
  \<open>others\<close>; \<open>alone\<close> when nobody does), and shows every call to be a run of \<open>mgr_step\<close>. \<^verbatim>\<open>AppNet\<close> has the locale
  \<open>net_calls\<close>: a relation each of these calls keeps is kept by each binding, callback and the shutdown.
  \<^verbatim>\<open>CCMain\<close> (\<^verbatim>\<open>main.go\<close>) is the life of the application in its window, and interprets it on the manager.

  \<^bold>\<open>The programs joined.\<close> \<^verbatim>\<open>AgentLink\<close> makes the agent's handlers, reached over one authenticated connection, a
  requester of the control center and interprets the transfer locales on it, so \<^verbatim>\<open>TransferProps\<close> has the round trip of a file.
  \<^verbatim>\<open>HandshakeLink\<close> runs the control center's handshake against the agent's greeting and authentication.
  \<^verbatim>\<open>AppListing\<close> interprets the locale \<open>pager\<close>, the contract of the listing loop, on the same handlers.
  \<^verbatim>\<open>ManagerLink\<close> puts the client manager between: its socket is a connection of the agent, and the locale \<open>relay\<close>
  says that a request of the manager is one of the connection. \<^verbatim>\<open>ManagedAgent\<close> interprets the contracts of transfers and
  listings through it, \<^verbatim>\<open>AppManager\<close> adds the application (locale \<open>agent_manager\<close>), and \<^verbatim>\<open>EndToEnd\<close> states what an
  administrator gets from application, manager, connection, handlers and file system together: connecting with the token
  succeeds, and then a file, a listing and the list of agents are right.

  \<^bold>\<open>What is shown.\<close> Files: confinement of paths, integrity and atomicity of uploads under every failure, refinement of an
  abstract upload, the round trip through the whole of both programs, termination of both loops. Commands: a passed deadline
  ends the process group. Access: without the token a client reaches
  nothing, a connection is authenticated only by the token, failed attempts are bounded per connection and per address,
  the agent does not start without a token unless told to. Connections: limits and exact counts on the agent; one reader
  per agent, final disconnection, matched answers and recovery on the control center. Data: sessions, tokens at rest, scripts,
  audit logs and backups keep what was stored. Application: complete listings, what the audit log records of
  each binding, results of a command on several agents, reconnection after a restart, the end of the transfers at shutdown, and no step of
  the manager but its own, whatever its other goroutines do meanwhile, so that its properties hold inside the application.

  \<^bold>\<open>Bounds and fuel.\<close> The listing loop recurses over the number of requests the source allows itself, twelve, of which
  ten suffice for 5000 entries in pages of 500. The transfer loops have no bound in the source; their termination is
  proved (an upload by the remaining bytes, a download as long as the agent does not advertise more than \<^verbatim>\<open>2^62\<close>
  bytes, both in any case once their context is canceled). Numbers that pass through \<^verbatim>\<open>interface{}\<close> are floating-point numbers there, so the joined properties assume
  sizes below \<^verbatim>\<open>2^53\<close>, where they are exact.

  \<^bold>\<open>Arguments of the model.\<close> Third-party code and the machine are arguments: the failures of system calls, SQL statements and
  sockets, random identifiers, clocks, the metrics, capture, template and mDNS packages, what \<^verbatim>\<open>taskkill\<close> ends, the encryption of Windows (with its
  inverse law), name patterns of the standard library. What goroutines do between synchronisations is one step; steps
  interleave freely.

  \<^bold>\<open>Not modelled.\<close> The text of the agent's local page, its banner and log output; the log
  output of the control center, its dialogs and its user interface in the browser engine: input and output, or calls of
  third-party code. Deadlines of sockets are not timed: a read or write may fail at any moment.
  The application's own data (sessions, audit log, scripts, the files of the control center) is handled by one binding at a time, while
  the manager's goroutines interleave freely with the bindings. The error path of \<^verbatim>\<open>json.Marshal\<close> for metrics that are no
  finite numbers, the replacement of invalid UTF-8 in JSON, and the order of rows of equal time are not represented. \<^verbatim>\<open>path/filepath\<close> is that of Unix; the
  Windows branches modelled are the shell of the executor, its cancelation and the token store.
\<close>

end
